(* ===== verification/XC_Prelude.thy ===== *)
theory XC_Prelude
  imports Main "HOL-Library.Multiset"
begin

text \<open>
  Shared vocabulary of the development: the clock, the exceptions the services throw, the
  JavaScript helpers the sources lean on (truthiness, \<open>??\<close>, \<open>trim\<close>, number printing), and
  database tables as lists of rows with the statements the services run on them.

  Two interface locales state what a client may rely on: \<open>unique_index\<close> (a unique column turns a
  racing insert into the PostgreSQL error 23505, here \<open>None\<close>) and \<open>versioned_rows\<close> (an update
  guarded by \<open>id = :id AND version = :version\<close>).  Components interpret them on their own inserts
  and updates.
\<close>

section \<open>Collections of rules\<close>

named_theorems table_simps \<open>how the table statements act on rows\<close>
named_theorems inv_intros \<open>preservation rules for the invariants of the components\<close>

section \<open>Time, identifiers, exceptions\<close>

text \<open>\<open>Date.now()\<close> and \<open>getTime()\<close> count milliseconds; ids are the strings of the sources.\<close>

type_synonym ms = int
type_synonym ident = string

datatype exn =
    BadRequestException string
  | NotFoundException string
  | ForbiddenException string
  | UnauthorizedException string
  | ConflictException string
  | TooManyRequestsException string
  | ServiceUnavailableException string
  | GatewayTimeoutException string
  | PlainError string

type_synonym 'a outcome = "exn + 'a"

definition is_ok :: "'a outcome \<Rightarrow> bool" where
  "is_ok x = (case x of Inl _ \<Rightarrow> False | Inr _ \<Rightarrow> True)"

fun exn_message :: "exn \<Rightarrow> string" where
  "exn_message (BadRequestException m) = m"
| "exn_message (NotFoundException m) = m"
| "exn_message (ForbiddenException m) = m"
| "exn_message (UnauthorizedException m) = m"
| "exn_message (ConflictException m) = m"
| "exn_message (TooManyRequestsException m) = m"
| "exn_message (ServiceUnavailableException m) = m"
| "exn_message (GatewayTimeoutException m) = m"
| "exn_message (PlainError m) = m"

section \<open>JavaScript helpers\<close>

definition truthy :: "string option \<Rightarrow> bool" where
  "truthy s = (case s of None \<Rightarrow> False | Some x \<Rightarrow> x \<noteq> [])"

text \<open>\<open>a ?? b\<close> and, for strings, \<open>a || b\<close>.\<close>

definition nullish :: "'a option \<Rightarrow> 'a \<Rightarrow> 'a" where
  "nullish a b = (case a of None \<Rightarrow> b | Some x \<Rightarrow> x)"

definition js_or :: "string option \<Rightarrow> string \<Rightarrow> string" where
  "js_or a b = (case a of None \<Rightarrow> b | Some x \<Rightarrow> if x = [] then b else x)"

definition js_ws :: "char \<Rightarrow> bool" where
  "js_ws c \<longleftrightarrow> (of_char c :: nat) \<in> {9, 10, 11, 12, 13, 32, 160}"

definition js_trim :: "string \<Rightarrow> string" where
  "js_trim s = rev (dropWhile js_ws (rev (dropWhile js_ws s)))"

definition digit_char :: "nat \<Rightarrow> char" where
  "digit_char n = char_of (48 + n)"

fun nat_str :: "nat \<Rightarrow> string" where
  "nat_str n = (if n < 10 then [digit_char n] else nat_str (n div 10) @ [digit_char (n mod 10)])"

declare nat_str.simps [simp del]

definition int_str :: "int \<Rightarrow> string" where
  "int_str i = (if i < 0 then ''-'' @ nat_str (nat (- i)) else nat_str (nat i))"

definition lower_case :: "string \<Rightarrow> string" where
  "lower_case s = map (\<lambda>c. let n = (of_char c :: nat) in if 65 \<le> n \<and> n \<le> 90 then char_of (n + 32) else c) s"

fun starts_with :: "string \<Rightarrow> string \<Rightarrow> bool" where
  "starts_with _ [] = True"
| "starts_with [] (_ # _) = False"
| "starts_with (c # s) (d # p) = (c = d \<and> starts_with s p)"

fun js_includes :: "string \<Rightarrow> string \<Rightarrow> bool" where
  "js_includes [] p = (p = [])"
| "js_includes (c # s) p = (starts_with (c # s) p \<or> js_includes s p)"

text \<open>\<open>s.split(d)\<close> for a separator of one character.\<close>

fun js_split :: "char \<Rightarrow> string \<Rightarrow> string list" where
  "js_split d [] = [[]]"
| "js_split d (c # s) =
     (if c = d then [] # js_split d s
      else case js_split d s of [] \<Rightarrow> [[c]] | p # ps \<Rightarrow> (c # p) # ps)"

definition is_digit :: "char \<Rightarrow> bool" where
  "is_digit c \<longleftrightarrow> 48 \<le> (of_char c :: nat) \<and> (of_char c :: nat) \<le> 57"

definition digits_value :: "string \<Rightarrow> int" where
  "digits_value ds = foldl (\<lambda>v c. 10 * v + (int (of_char c) - 48)) 0 ds"

definition hex_char :: "char \<Rightarrow> bool" where
  "hex_char c = (let n = (of_char c :: nat) in
     (48 \<le> n \<and> n \<le> 57) \<or> (65 \<le> n \<and> n \<le> 70) \<or> (97 \<le> n \<and> n \<le> 102))"

text \<open>\<open>parseInt(s, 10)\<close>: the digits after blanks and a sign; \<open>None\<close> is \<open>NaN\<close>.\<close>

definition unsigned_prefix :: "string \<Rightarrow> int option" where
  "unsigned_prefix s = (let ds = takeWhile is_digit s in if ds = [] then None else Some (digits_value ds))"

definition parseInt :: "string \<Rightarrow> int option" where
  "parseInt s = (case dropWhile js_ws s of
       [] \<Rightarrow> None
     | c # cs \<Rightarrow>
         if c = CHR ''-'' then map_option uminus (unsigned_prefix cs)
         else if c = CHR ''+'' then unsigned_prefix cs
         else unsigned_prefix (c # cs))"

text \<open>\<open>Math.ceil(a / b)\<close> for integers with a positive divisor.\<close>

definition ceil_div :: "int \<Rightarrow> int \<Rightarrow> int" where
  "ceil_div a b = - ((- a) div b)"

lemma is_ok_simps [simp]: "is_ok (Inr x)" "\<not> is_ok (Inl e)"
  by (simp_all add: is_ok_def)

lemma nullish_simps [simp]: "nullish None b = b" "nullish (Some a) b = a"
  by (simp_all add: nullish_def)

lemma truthy_simps [simp]: "\<not> truthy None" "truthy (Some x) \<longleftrightarrow> x \<noteq> []"
  by (simp_all add: truthy_def)

lemma truthy_iff: "truthy s \<longleftrightarrow> (\<exists>x. s = Some x \<and> x \<noteq> [])"
  by (cases s) auto

lemma js_or_nonempty: "b \<noteq> [] \<Longrightarrow> js_or a b \<noteq> []"
  by (simp add: js_or_def split: option.split)

lemma nat_str_nonempty [simp]: "nat_str n \<noteq> []"
  by (subst nat_str.simps) simp

lemma of_digit_char [simp]: "d < 10 \<Longrightarrow> of_char (digit_char d) = 48 + d"
  by (simp add: digit_char_def)

lemma nat_str_digits: "\<forall>c \<in> set (nat_str n). is_digit c"
  by (induction n rule: nat_str.induct) (subst nat_str.simps, auto simp: is_digit_def)

lemma digits_value_nat_str: "digits_value (nat_str n) = int n"
proof (induction n rule: nat_str.induct)
  case (1 n)
  have snoc: "digits_value (xs @ [c]) = 10 * digits_value xs + (int (of_char c) - 48)" for xs c
    by (simp add: digits_value_def)
  show ?case
  proof (cases "n < 10")
    case True then show ?thesis by (subst nat_str.simps) (simp add: digits_value_def)
  next
    case False
    moreover have "10 * int (n div 10) + int (n mod 10) = int n"
      by (metis mult_div_mod_eq of_nat_add of_nat_mult of_nat_numeral)
    ultimately show ?thesis using "1.IH" by (subst nat_str.simps) (simp add: snoc)
  qed
qed

lemma parseInt_int_str: "0 \<le> n \<Longrightarrow> parseInt (int_str n) = Some n"
proof -
  assume "0 \<le> n"
  then have n: "int_str n = nat_str (nat n)" by (simp add: int_str_def)
  obtain c cs where cs: "nat_str (nat n) = c # cs" by (cases "nat_str (nat n)") auto
  have d: "\<forall>x \<in> set (c # cs). is_digit x" using nat_str_digits[of "nat n"] by (simp add: cs)
  then have "\<not> js_ws c" "c \<noteq> CHR ''-''" "c \<noteq> CHR ''+''" by (auto simp: is_digit_def js_ws_def)
  moreover have "takeWhile is_digit (c # cs) = c # cs" using d by (auto simp: takeWhile_eq_all_conv)
  then have "unsigned_prefix (c # cs) = Some n"
    using digits_value_nat_str[of "nat n"] \<open>0 \<le> n\<close> unfolding unsigned_prefix_def cs by simp
  ultimately show ?thesis using n cs \<open>0 \<le> n\<close> by (simp add: parseInt_def)
qed

lemma js_split_none: "d \<notin> set s \<Longrightarrow> js_split d s = [s]"
  by (induction s) auto

lemma js_split_append: "d \<notin> set a \<Longrightarrow> js_split d (a @ d # b) = a # js_split d b"
  by (induction a) auto

lemma ceil_div_bounds:
  assumes "0 < b"
  shows "(ceil_div a b - 1) * b < a" and "a \<le> ceil_div a b * b"
proof -
  have eq: "(- a) div b * b + (- a) mod b = - a"
    by (rule div_mult_mod_eq)
  have bounds: "0 \<le> (- a) mod b" "(- a) mod b < b"
    using assms by simp_all
  have "ceil_div a b * b = a + (- a) mod b"
    using eq unfolding ceil_div_def by (simp only: minus_mult_left [symmetric])
  then show "(ceil_div a b - 1) * b < a" and "a \<le> ceil_div a b * b"
    using bounds by (simp_all add: left_diff_distrib)
qed

section \<open>Tables\<close>

text \<open>
  A table is the list of its rows.  \<open>find_one\<close> is \<open>findOne({ where })\<close>; \<open>update_where\<close> is
  \<open>update(criteria, patch)\<close>, with \<open>affected\<close> the row count it reports; \<open>delete_where\<close> is
  \<open>delete(criteria)\<close>; \<open>save_row\<close> is \<open>save(entity)\<close> of an entity whose primary key is known.
\<close>

definition find_one :: "('r \<Rightarrow> bool) \<Rightarrow> 'r list \<Rightarrow> 'r option" where
  "find_one P t = List.find P t"

definition update_where :: "('r \<Rightarrow> bool) \<Rightarrow> ('r \<Rightarrow> 'r) \<Rightarrow> 'r list \<Rightarrow> 'r list" where
  "update_where P f t = map (\<lambda>r. if P r then f r else r) t"

definition affected :: "('r \<Rightarrow> bool) \<Rightarrow> 'r list \<Rightarrow> nat" where
  "affected P t = length (filter P t)"

definition delete_where :: "('r \<Rightarrow> bool) \<Rightarrow> 'r list \<Rightarrow> 'r list" where
  "delete_where P t = filter (\<lambda>r. \<not> P r) t"

definition save_row :: "('r \<Rightarrow> 'k) \<Rightarrow> 'r \<Rightarrow> 'r list \<Rightarrow> 'r list" where
  "save_row key r t =
     (if \<exists>x \<in> set t. key x = key r then update_where (\<lambda>x. key x = key r) (\<lambda>_. r) t
      else t @ [r])"

lemma find_one_SomeD: "find_one P t = Some r \<Longrightarrow> r \<in> set t \<and> P r"
  by (auto simp: find_one_def find_Some_iff in_set_conv_nth)

lemma find_one_None_iff [table_simps]: "find_one P t = None \<longleftrightarrow> (\<forall>r \<in> set t. \<not> P r)"
  by (auto simp: find_one_def find_None_iff)

lemma find_one_Nil [simp]: "find_one P [] = None"
  by (simp add: find_one_def)

lemma find_one_Cons [simp]: "find_one P (r # t) = (if P r then Some r else find_one P t)"
  by (simp add: find_one_def)

lemma find_one_append:
  "find_one P (t @ u) = (case find_one P t of None \<Rightarrow> find_one P u | Some r \<Rightarrow> Some r)"
  by (induction t) auto

lemma find_one_unique:
  assumes "r \<in> set t" "P r" "\<And>x. x \<in> set t \<Longrightarrow> P x \<Longrightarrow> x = r"
  shows "find_one P t = Some r"
proof (cases "find_one P t")
  case None
  with assms(1,2) show ?thesis by (simp add: find_one_None_iff)
next
  case (Some x)
  from find_one_SomeD[OF this] assms(3) Some show ?thesis by blast
qed

lemma update_where_simps [simp]:
  "update_where P f [] = []"
  "update_where P f (r # t) = (if P r then f r else r) # update_where P f t"
  by (simp_all add: update_where_def)

lemma length_update_where [simp]: "length (update_where P f t) = length t"
  by (simp add: update_where_def)

lemma set_update_where:
  "set (update_where P f t) = f ` {r \<in> set t. P r} \<union> {r \<in> set t. \<not> P r}"
  by (auto simp: update_where_def)

lemma update_where_hitI: "r \<in> set t \<Longrightarrow> P r \<Longrightarrow> f r \<in> set (update_where P f t)"
  by (auto simp: set_update_where)

lemma update_where_missI: "r \<in> set t \<Longrightarrow> \<not> P r \<Longrightarrow> r \<in> set (update_where P f t)"
  by (auto simp: set_update_where)

lemma update_where_memI: "r \<in> set t \<Longrightarrow> (if P r then f r else r) \<in> set (update_where P f t)"
  by (auto simp: set_update_where)

lemma in_update_whereE:
  assumes "x \<in> set (update_where P f t)"
  obtains (hit) r where "r \<in> set t" "P r" "x = f r" | (miss) "x \<in> set t" "\<not> P x"
  using assms by (auto simp: set_update_where)

lemma map_update_where:
  "(\<And>r. P r \<Longrightarrow> g (f r) = g r) \<Longrightarrow> map g (update_where P f t) = map g t"
  by (induction t) auto

lemma update_where_id: "(\<And>r. r \<in> set t \<Longrightarrow> P r \<Longrightarrow> f r = r) \<Longrightarrow> update_where P f t = t"
  by (induction t) auto

lemma update_where_no_match: "(\<And>r. r \<in> set t \<Longrightarrow> \<not> P r) \<Longrightarrow> update_where P f t = t"
  by (induction t) auto

lemma affected_pos_iff [table_simps]: "0 < affected P t \<longleftrightarrow> (\<exists>r \<in> set t. P r)"
  by (auto simp: affected_def filter_empty_conv)

lemma set_delete_where [simp]: "set (delete_where P t) = {r \<in> set t. \<not> P r}"
  by (auto simp: delete_where_def)

lemma in_save_rowE:
  assumes "x \<in> set (save_row key r t)"
  obtains (this) "x = r" | (other) "x \<in> set t" "key x \<noteq> key r"
  using assms by (auto simp: save_row_def set_update_where split: if_splits)

lemma save_row_mem [simp]: "r \<in> set (save_row key r t)"
  by (auto simp: save_row_def set_update_where)

lemma keys_save_row:
  "key r \<in> key ` set t \<Longrightarrow> map key (save_row key r t) = map key t"
  by (auto simp: save_row_def intro!: map_update_where)

lemma other_in_save_row:
  "x \<in> set t \<Longrightarrow> key x \<noteq> key r \<Longrightarrow> x \<in> set (save_row key r t)"
  by (auto simp: save_row_def set_update_where)

lemma distinct_keys_eq:
  "distinct (map key t) \<Longrightarrow> x \<in> set t \<Longrightarrow> y \<in> set t \<Longrightarrow> key x = key y \<Longrightarrow> x = y"
  by (auto simp: distinct_map inj_on_def)

text \<open>Saving a loaded row leaves every column the service did not touch as it was.\<close>

lemma map_save_row:
  assumes "distinct (map key t)" "g \<in> set t" "key r = key g" "h r = h g"
  shows "map h (save_row key r t) = map h t"
proof -
  have "h x = h r" if "x \<in> set t" "key x = key r" for x
    using distinct_keys_eq[OF assms(1) that(1) assms(2)] that(2) assms(3,4) by simp
  then have "map h (update_where (\<lambda>x. key x = key r) (\<lambda>_. r) t) = map h t"
    by (auto simp: update_where_def)
  with assms(2,3) show ?thesis by (auto simp: save_row_def)
qed

text \<open>Saving a changed copy of a stored row is the update of that row.\<close>

lemma save_row_update:
  assumes "distinct (map key t)" "g \<in> set t" "key (f g) = key g"
  shows "save_row key (f g) t = update_where (\<lambda>x. key x = key g) f t"
proof -
  have "(if key x = key g then f g else x) = (if key x = key g then f x else x)" if "x \<in> set t" for x
    using distinct_keys_eq[OF assms(1) that assms(2)] by auto
  then have "update_where (\<lambda>x. key x = key g) (\<lambda>_. f g) t = update_where (\<lambda>x. key x = key g) f t"
    by (simp add: update_where_def)
  with assms(2,3) show ?thesis by (auto simp: save_row_def)
qed

lemma distinct_save_row: "distinct (map key t) \<Longrightarrow> distinct (map key (save_row key r t))"
proof (cases "key r \<in> key ` set t")
  case True
  then show "distinct (map key t) \<Longrightarrow> ?thesis" by (simp add: keys_save_row)
next
  case False
  then have "save_row key r t = t @ [r]" by (simp add: save_row_def image_iff) metis
  with False show "distinct (map key t) \<Longrightarrow> ?thesis" by simp
qed

lemma find_one_by_key:
  "distinct (map key t) \<Longrightarrow> r \<in> set t \<Longrightarrow> find_one (\<lambda>x. key x = key r) t = Some r"
  by (rule find_one_unique) (auto dest: distinct_keys_eq)

text \<open>
  \<open>order: { k: 'ASC' }\<close> is a stable sort by a key (ties keep the order of the table); \<open>skip\<close> and
  \<open>take\<close> cut out one page.
\<close>

definition order_asc :: "('r \<Rightarrow> 'k::linorder) \<Rightarrow> 'r list \<Rightarrow> 'r list" where
  "order_asc k t = sort_key k t"

definition order_desc :: "('r \<Rightarrow> int) \<Rightarrow> 'r list \<Rightarrow> 'r list" where
  "order_desc k t = sort_key (\<lambda>r. - k r) t"

definition skip_take :: "nat \<Rightarrow> nat \<Rightarrow> 'r list \<Rightarrow> 'r list" where
  "skip_take n m t = take m (drop n t)"

lemma set_order_desc [simp]: "set (order_desc k t) = set t"
  by (simp add: order_desc_def)

lemma length_order_desc [simp]: "length (order_desc k t) = length t"
  by (simp add: order_desc_def)

lemma mset_order_desc [simp]: "mset (order_desc k t) = mset t"
  by (simp add: order_desc_def)

lemma sorted_order_desc: "sorted_wrt (\<lambda>a b. k b \<le> k a) (order_desc k t)"
proof -
  have "sorted (map (\<lambda>r. - k r) (order_desc k t))" by (simp add: order_desc_def)
  then show ?thesis by (simp add: sorted_map)
qed

text \<open>The pages \<open>1, \<dots>, n\<close> of size \<open>m\<close>, laid end to end, are the first \<open>n * m\<close> rows.\<close>

lemma pages_concat: "concat (map (\<lambda>p. skip_take (p * m) m t) [0..<n]) = take (n * m) t"
proof (induction n)
  case (Suc n)
  have "take (n * m) t @ take m (drop (n * m) t) = take (n * m + m) t"
    by (simp add: take_add)
  with Suc show ?case by (simp add: skip_take_def add.commute)
qed simp

section \<open>Unique columns\<close>

text \<open>
  A nullable unique column: rows whose key is \<open>None\<close> (SQL \<open>NULL\<close>) never collide.
\<close>

definition keys_of :: "('r \<Rightarrow> 'k option) \<Rightarrow> 'r list \<Rightarrow> 'k list" where
  "keys_of key t = List.map_filter key t"

definition uniq_on :: "('r \<Rightarrow> 'k option) \<Rightarrow> 'r list \<Rightarrow> bool" where
  "uniq_on key t = distinct (keys_of key t)"

definition clashes :: "('r \<Rightarrow> 'k option) \<Rightarrow> 'r \<Rightarrow> 'r list \<Rightarrow> bool" where
  "clashes key r t = (case key r of None \<Rightarrow> False | Some k \<Rightarrow> k \<in> set (keys_of key t))"

text \<open>Several requests inserting one after the other: who is told that its row was created.\<close>

fun race :: "('r \<Rightarrow> 'r list \<Rightarrow> 'r list option) \<Rightarrow> 'r list \<Rightarrow> 'r list \<Rightarrow> bool list \<times> 'r list" where
  "race ins [] t = ([], t)"
| "race ins (r # rs) t =
     (case ins r t of
        None \<Rightarrow> (let (bs, u) = race ins rs t in (False # bs, u))
      | Some t' \<Rightarrow> (let (bs, u) = race ins rs t' in (True # bs, u)))"

lemma keys_of_simps [simp]:
  "keys_of key [] = []"
  "keys_of key (r # t) = (case key r of None \<Rightarrow> keys_of key t | Some k \<Rightarrow> k # keys_of key t)"
  by (simp_all add: keys_of_def List.map_filter_def split: option.split)

lemma keys_of_append [simp]: "keys_of key (t @ u) = keys_of key t @ keys_of key u"
  by (induction t) (auto split: option.split)

lemma set_keys_of: "set (keys_of key t) = {k. \<exists>r \<in> set t. key r = Some k}"
  by (induction t) (auto split: option.split)

lemma keys_of_eq_map: "keys_of key t = map the (filter (\<lambda>x. x \<noteq> None) (map key t))"
  by (induction t) (auto split: option.split)

lemma keys_of_cong: "map key t' = map key t \<Longrightarrow> keys_of key t' = keys_of key t"
  by (simp only: keys_of_eq_map)

lemma uniq_on_cong: "map key t' = map key t \<Longrightarrow> uniq_on key t' = uniq_on key t"
  unfolding uniq_on_def by (drule keys_of_cong) simp

lemma uniq_on_Nil [simp]: "uniq_on key []"
  by (simp add: uniq_on_def)

lemma uniq_on_eq:
  "uniq_on key t \<Longrightarrow> x \<in> set t \<Longrightarrow> y \<in> set t \<Longrightarrow> key x = Some k \<Longrightarrow> key y = Some k \<Longrightarrow> x = y"
  by (induction t) (auto simp: uniq_on_def set_keys_of split: option.splits)

lemma keys_of_update_where:
  "(\<And>r. P r \<Longrightarrow> key (f r) = key r) \<Longrightarrow> keys_of key (update_where P f t) = keys_of key t"
  by (induction t) (auto split: option.split)

lemma uniq_on_update_where:
  "uniq_on key t \<Longrightarrow> (\<And>r. P r \<Longrightarrow> key (f r) = key r) \<Longrightarrow> uniq_on key (update_where P f t)"
  by (simp add: uniq_on_def keys_of_update_where)

lemma set_keys_of_delete: "set (keys_of key (delete_where P t)) \<subseteq> set (keys_of key t)"
  by (auto simp: set_keys_of)

lemma uniq_on_delete_where: "uniq_on key t \<Longrightarrow> uniq_on key (delete_where P t)"
proof (induction t)
  case Nil
  then show ?case by (simp add: delete_where_def)
next
  case (Cons r t)
  then show ?case
    by (auto simp: uniq_on_def delete_where_def set_keys_of split: option.splits)
qed

lemma keys_of_total [simp]: "keys_of (\<lambda>r. Some (key r)) t = map key t"
  by (induction t) auto

lemma uniq_on_total: "uniq_on (\<lambda>r. Some (key r)) t \<longleftrightarrow> distinct (map key t)"
  by (simp add: uniq_on_def)

locale unique_index =
  fixes key :: "'r \<Rightarrow> 'k option"
    and ins :: "'r \<Rightarrow> 'r list \<Rightarrow> 'r list option"
  assumes ins_appends: "ins r t = Some t' \<Longrightarrow> t' = t @ [r]"
    and ins_checked: "clashes key r t \<Longrightarrow> ins r t = None"
begin

lemma ins_keeps_unique:
  assumes "uniq_on key t" and "ins r t = Some t'"
  shows "uniq_on key t'"
proof -
  have "\<not> clashes key r t" using assms(2) ins_checked by force
  with assms ins_appends[OF assms(2)] show ?thesis
    by (auto simp: uniq_on_def clashes_def split: option.splits)
qed

lemma race_loses_all:
  "k \<in> set (keys_of key t) \<Longrightarrow> \<forall>r \<in> set rs. key r = Some k \<Longrightarrow> True \<notin> set (fst (race ins rs t))"
proof (induction rs)
  case (Cons r rs)
  then have "ins r t = None" by (intro ins_checked) (simp add: clashes_def)
  with Cons show ?case by (auto split: prod.splits)
qed simp

lemma race_at_most_one:
  "\<forall>r \<in> set rs. key r = Some k \<Longrightarrow> count_list (fst (race ins rs t)) True \<le> 1"
proof (induction rs arbitrary: t)
  case (Cons r rs)
  show ?case
  proof (cases "ins r t")
    case None
    with Cons show ?thesis by (auto split: prod.splits) (metis fst_conv One_nat_def)
  next
    case (Some t')
    then have "k \<in> set (keys_of key t')"
      using Cons.prems ins_appends[OF Some] by simp
    then have "True \<notin> set (fst (race ins rs t'))"
      using Cons.prems by (intro race_loses_all) auto
    with Some show ?thesis by (auto split: prod.splits simp: count_list_0_iff)
  qed
qed simp

end

text \<open>The index is the only constraint the insert can violate, so a free key is always won.\<close>

locale sole_unique_index = unique_index +
  assumes ins_free: "\<not> clashes key r t \<Longrightarrow> ins r t = Some (t @ [r])"
begin

lemma ins_iff: "ins r t = (if clashes key r t then None else Some (t @ [r]))"
  by (simp add: ins_checked ins_free)

lemma race_exactly_one:
  assumes "rs \<noteq> []" "\<forall>r \<in> set rs. key r = Some k" "k \<notin> set (keys_of key t)"
  shows "count_list (fst (race ins rs t)) True = 1 \<and> hd (fst (race ins rs t))"
proof -
  obtain r rs' where rs: "rs = r # rs'" using assms(1) by (cases rs) auto
  have "ins r t = Some (t @ [r])"
    using assms rs by (intro ins_free) (simp add: clashes_def)
  moreover have "True \<notin> set (fst (race ins rs' (t @ [r])))"
    using assms rs by (intro race_loses_all) auto
  ultimately show ?thesis
    using rs by (auto split: prod.splits simp: count_list_0_iff)
qed

end

section \<open>Optimistic locking\<close>

locale versioned_rows =
  fixes rid :: "'r \<Rightarrow> 'k"
    and ver :: "'r \<Rightarrow> nat"
    and cas :: "'k \<Rightarrow> nat \<Rightarrow> 'p \<Rightarrow> 'r list \<Rightarrow> 'r list option"
  assumes cas_guard: "cas i v p t = Some t' \<Longrightarrow> \<exists>r \<in> set t. rid r = i \<and> ver r = v"
    and cas_bumps: "cas i v p t = Some t' \<Longrightarrow> distinct (map rid t) \<Longrightarrow>
                      r \<in> set t' \<Longrightarrow> rid r = i \<Longrightarrow> ver r = Suc v"
    and cas_ids: "cas i v p t = Some t' \<Longrightarrow> map rid t' = map rid t"
    and cas_frame: "cas i v p t = Some t' \<Longrightarrow> r \<in> set t \<Longrightarrow> rid r \<noteq> i \<Longrightarrow> r \<in> set t'"
begin

lemma stale_writer_refused:
  assumes "cas i v p t = Some t'" "distinct (map rid t)"
  shows "cas i v q t' = None"
proof (rule ccontr)
  assume "cas i v q t' \<noteq> None"
  then obtain t'' where "cas i v q t' = Some t''" by auto
  from cas_guard[OF this] obtain r where r: "r \<in> set t'" "rid r = i" "ver r = v" by auto
  from cas_bumps[OF assms r(1,2)] r(3) show False by simp
qed

end

end
