(* ===== verification/Feature_Flags.thy ===== *)
theory Feature_Flags
  imports XC_Prelude "HOL-Library.Word"
begin

text \<open>
  The feature-flag service (\<^verbatim>\<open>feature-flags.service.ts\<close>, \<^verbatim>\<open>feature-flag.entity.ts\<close>): creation, update,
  rollback and deletion of flags with their validation and audit entries, and the rollout decision
  \<open>isEnabled\<close> with its 32-bit string hash.  Shown: names stay unique and percentages stay within
  0..100, an update is undone by a rollback, the rollout bucket is a number below 100 that agrees with
  two's-complement arithmetic on 32-bit words, and raising the percentage never switches a user off.
\<close>

section \<open>Data\<close>

record flag_snapshot =
  ps_name :: string
  ps_description :: "string option"
  ps_enabled :: bool
  ps_percentage :: int
  ps_userIds :: "string list"
  ps_lastChangedBy :: "string option"
  ps_lastChangedAt :: "ms option"

record feature_flag =
  ff_id :: ident
  ff_name :: string
  ff_description :: "string option"
  ff_enabled :: bool
  ff_percentage :: int
  ff_userIds :: "string list option"
  ff_lastChangedBy :: "string option"
  ff_lastChangedAt :: "ms option"
  ff_rollbackMetadata :: "(flag_snapshot \<times> ms) option"

text \<open>
  \<open>CreateFeatureFlagDto\<close> and \<open>UpdateFeatureFlagDto\<close>: a field that is \<open>undefined\<close> is \<open>None\<close>.  The
  percentage is a JavaScript number, so that \<open>NaN\<close> and fractions can be rejected.
\<close>

datatype js_percentage = PNaN | PFraction | PInt int

record flag_dto =
  fd_description :: "string option"
  fd_enabled :: "bool option"
  fd_percentage :: "js_percentage option"
  fd_userIds :: "string list option"
  fd_lastChangedBy :: "string option"

datatype flag_audit =
    FEATURE_FLAG_CREATED ident string
  | FEATURE_FLAG_UPDATED ident string
  | FEATURE_FLAG_ROLLED_BACK ident string
  | FEATURE_FLAG_DELETED ident string

record flag_store =
  fs_flags :: "feature_flag list"
  fs_audit :: "flag_audit list"

section \<open>Validation\<close>

definition flag_name_char :: "char \<Rightarrow> bool" where
  "flag_name_char c =
     (let n = (of_char c :: nat) in
      (97 \<le> n \<and> n \<le> 122) \<or> (65 \<le> n \<and> n \<le> 90) \<or> (48 \<le> n \<and> n \<le> 57) \<or> n = 95 \<or> n = 46 \<or> n = 45)"

definition validateFlagName :: "string \<Rightarrow> unit outcome" where
  "validateFlagName name =
     (if name = [] \<or> js_trim name = [] \<or> \<not> list_all flag_name_char (js_trim name)
      then Inl (BadRequestException ''Invalid feature flag name'')
      else Inr ())"

definition validateFlagValues :: "flag_dto \<Rightarrow> unit outcome" where
  "validateFlagValues dto =
     (if (case fd_percentage dto of None \<Rightarrow> False | Some PNaN \<Rightarrow> True | Some PFraction \<Rightarrow> True
           | Some (PInt p) \<Rightarrow> p < 0 \<or> p > 100)
      then Inl (BadRequestException ''Invalid percentage value'')
      else if (case fd_userIds dto of None \<Rightarrow> False | Some us \<Rightarrow> list_ex (\<lambda>u. js_trim u = []) us)
      then Inl (BadRequestException ''Invalid userIds'')
      else Inr ())"

definition dto_percentage :: "flag_dto \<Rightarrow> int \<Rightarrow> int" where
  "dto_percentage dto p = (case fd_percentage dto of Some (PInt q) \<Rightarrow> q | _ \<Rightarrow> p)"

section \<open>Operations\<close>

definition ff_findOne :: "string \<Rightarrow> flag_store \<Rightarrow> feature_flag option" where
  "ff_findOne name s = find_one (\<lambda>f. ff_name f = name) (fs_flags s)"

definition ff_save :: "feature_flag \<Rightarrow> flag_store \<Rightarrow> flag_store" where
  "ff_save f s = s\<lparr>fs_flags := save_row ff_id f (fs_flags s)\<rparr>"

definition ff_log :: "flag_audit \<Rightarrow> flag_store \<Rightarrow> flag_store" where
  "ff_log a s = s\<lparr>fs_audit := fs_audit s @ [a]\<rparr>"

text \<open>The insert under the unique \<open>name\<close> column; \<open>None\<close> is a unique violation.\<close>

definition ff_insert :: "feature_flag \<Rightarrow> feature_flag list \<Rightarrow> feature_flag list option" where
  "ff_insert f t = (if clashes (\<lambda>x. Some (ff_name x)) f t then None else Some (t @ [f]))"

definition actor_name :: "string option \<Rightarrow> string option \<Rightarrow> string" where
  "actor_name who actor = (if truthy who then the who else js_or actor ''system'')"

text \<open>
  \<open>newId\<close> is the generated primary key.  A concurrent \<open>create\<close> of the same name that slips between
  the lookup and the insert surfaces as the driver's error.
\<close>

definition ff_create ::
    "ms \<Rightarrow> ident \<Rightarrow> string \<Rightarrow> flag_dto \<Rightarrow> string option \<Rightarrow> flag_store \<Rightarrow> (feature_flag \<times> flag_store) outcome"
  where
  "ff_create now newId name dto actorId s =
     (case validateFlagName name of Inl e \<Rightarrow> Inl e | Inr _ \<Rightarrow>
      case validateFlagValues dto of Inl e \<Rightarrow> Inl e | Inr _ \<Rightarrow>
      (case ff_findOne name s of
         Some _ \<Rightarrow> Inl (BadRequestException (''Feature flag with name '' @ name @ '' already exists''))
       | None \<Rightarrow>
           let flag = \<lparr>ff_id = newId, ff_name = name, ff_description = fd_description dto,
                       ff_enabled = nullish (fd_enabled dto) False,
                       ff_percentage = dto_percentage dto 0,
                       ff_userIds = fd_userIds dto,
                       ff_lastChangedBy = Some (actor_name (fd_lastChangedBy dto) actorId),
                       ff_lastChangedAt = Some now,
                       ff_rollbackMetadata = None\<rparr>
           in case ff_insert flag (fs_flags s) of
                None \<Rightarrow> Inl (PlainError ''23505'')
              | Some t \<Rightarrow> Inr (flag, ff_log (FEATURE_FLAG_CREATED newId name) (s\<lparr>fs_flags := t\<rparr>))))"

definition snapshot :: "feature_flag \<Rightarrow> flag_snapshot" where
  "snapshot f = \<lparr>ps_name = ff_name f, ps_description = ff_description f, ps_enabled = ff_enabled f,
                 ps_percentage = ff_percentage f, ps_userIds = nullish (ff_userIds f) [],
                 ps_lastChangedBy = ff_lastChangedBy f, ps_lastChangedAt = ff_lastChangedAt f\<rparr>"

definition ff_update ::
    "ms \<Rightarrow> string \<Rightarrow> flag_dto \<Rightarrow> string option \<Rightarrow> flag_store \<Rightarrow> (feature_flag \<times> flag_store) outcome" where
  "ff_update now name dto actorId s =
     (case validateFlagName name of Inl e \<Rightarrow> Inl e | Inr _ \<Rightarrow>
      case validateFlagValues dto of Inl e \<Rightarrow> Inl e | Inr _ \<Rightarrow>
      (case ff_findOne name s of
         None \<Rightarrow> Inl (NotFoundException (''Feature flag '' @ name @ '' not found''))
       | Some existing \<Rightarrow>
           let f = existing\<lparr>
                     ff_description := (case fd_description dto of None \<Rightarrow> ff_description existing | d \<Rightarrow> d),
                     ff_enabled := nullish (fd_enabled dto) (ff_enabled existing),
                     ff_percentage := dto_percentage dto (ff_percentage existing),
                     ff_userIds := (case fd_userIds dto of None \<Rightarrow> ff_userIds existing | u \<Rightarrow> u),
                     ff_lastChangedBy := Some (actor_name (fd_lastChangedBy dto) actorId),
                     ff_lastChangedAt := Some now,
                     ff_rollbackMetadata := Some (snapshot existing, now)\<rparr>
           in Inr (f, ff_log (FEATURE_FLAG_UPDATED (ff_id f) (ff_name f)) (ff_save f s))))"

definition ff_rollback ::
    "ms \<Rightarrow> string \<Rightarrow> string option \<Rightarrow> flag_store \<Rightarrow> (feature_flag \<times> flag_store) outcome" where
  "ff_rollback now name actorId s =
     (case validateFlagName name of Inl e \<Rightarrow> Inl e | Inr _ \<Rightarrow>
      (case ff_findOne name s of
         None \<Rightarrow> Inl (NotFoundException (''Feature flag '' @ name @ '' not found''))
       | Some existing \<Rightarrow>
          (case ff_rollbackMetadata existing of
             None \<Rightarrow> Inl (BadRequestException (''No rollback metadata available for feature flag '' @ name))
           | Some (prev, _) \<Rightarrow>
               let f = existing\<lparr>
                         ff_description := ps_description prev,
                         ff_enabled := ps_enabled prev,
                         ff_percentage := ps_percentage prev,
                         ff_userIds := Some (ps_userIds prev),
                         ff_lastChangedBy := Some (js_or actorId ''system''),
                         ff_lastChangedAt := Some now,
                         ff_rollbackMetadata := Some (snapshot existing, now)\<rparr>
               in Inr (f, ff_log (FEATURE_FLAG_ROLLED_BACK (ff_id f) (ff_name f)) (ff_save f s)))))"

definition ff_delete :: "string \<Rightarrow> flag_store \<Rightarrow> flag_store outcome" where
  "ff_delete name s =
     (case validateFlagName name of Inl e \<Rightarrow> Inl e | Inr _ \<Rightarrow>
      (case ff_findOne name s of
         None \<Rightarrow> Inl (NotFoundException (''Feature flag '' @ name @ '' not found''))
       | Some existing \<Rightarrow>
           let s' = ff_log (FEATURE_FLAG_DELETED (ff_id existing) (ff_name existing)) s
           in Inr (s'\<lparr>fs_flags := delete_where (\<lambda>f. ff_name f = name) (fs_flags s')\<rparr>)))"

section \<open>The rollout decision\<close>

text \<open>
  JavaScript's bitwise operators work on \<open>ToInt32\<close> of their operands, the subtraction and addition
  between them on doubles, which are exact at this size.
\<close>

definition to_int32 :: "int \<Rightarrow> int" where
  "to_int32 x = (x + 2 ^ 31) mod 2 ^ 32 - 2 ^ 31"

definition hash_step :: "int \<Rightarrow> char \<Rightarrow> int" where
  "hash_step hash c = to_int32 (to_int32 (hash * 2 ^ 5) - hash + of_char c)"

definition hashCode :: "string \<Rightarrow> int" where
  "hashCode str = fold (\<lambda>c hash. hash_step hash c) str 0"

definition bucket :: "string \<Rightarrow> string \<Rightarrow> int" where
  "bucket userId flagName = \<bar>hashCode (userId @ flagName)\<bar> mod 100"

text \<open>\<open>rnd\<close> is the outcome of \<open>Math.random() * 100 < flag.percentage\<close> for anonymous callers.\<close>

definition isEnabled :: "(int \<Rightarrow> bool) \<Rightarrow> string \<Rightarrow> string option \<Rightarrow> flag_store \<Rightarrow> bool" where
  "isEnabled rnd flagName userId s =
     (case ff_findOne flagName s of
        None \<Rightarrow> False
      | Some flag \<Rightarrow>
          if \<not> ff_enabled flag then False
          else if truthy userId \<and> nullish (ff_userIds flag) [] \<noteq> []
               then the userId \<in> set (nullish (ff_userIds flag) [])
          else if ff_percentage flag = 100 then True
          else if ff_percentage flag = 0 then False
          else if truthy userId then bucket (the userId) flagName < ff_percentage flag
          else rnd (ff_percentage flag))"

section \<open>Invariant\<close>

definition percentage_ok :: "int \<Rightarrow> bool" where
  "percentage_ok p \<longleftrightarrow> 0 \<le> p \<and> p \<le> 100"

definition flag_ok :: "feature_flag \<Rightarrow> bool" where
  "flag_ok f \<longleftrightarrow> percentage_ok (ff_percentage f) \<and> is_ok (validateFlagName (ff_name f)) \<and>
     (case ff_rollbackMetadata f of None \<Rightarrow> True | Some (p, _) \<Rightarrow> percentage_ok (ps_percentage p))"

definition flags_inv :: "flag_store \<Rightarrow> bool" where
  "flags_inv s \<longleftrightarrow> distinct (map ff_id (fs_flags s)) \<and> uniq_on (\<lambda>f. Some (ff_name f)) (fs_flags s) \<and>
     (\<forall>f \<in> set (fs_flags s). flag_ok f)"

text \<open>Every sequence of service calls, from the empty table.\<close>

inductive flags_reachable :: "flag_store \<Rightarrow> bool" where
  empty: "flags_reachable \<lparr>fs_flags = [], fs_audit = []\<rparr>"
| create: "flags_reachable s \<Longrightarrow> newId \<notin> ff_id ` set (fs_flags s) \<Longrightarrow>
    ff_create now newId name dto actor s = Inr (f, s') \<Longrightarrow> flags_reachable s'"
| update: "flags_reachable s \<Longrightarrow> ff_update now name dto actor s = Inr (f, s') \<Longrightarrow> flags_reachable s'"
| rollback: "flags_reachable s \<Longrightarrow> ff_rollback now name actor s = Inr (f, s') \<Longrightarrow> flags_reachable s'"
| delete: "flags_reachable s \<Longrightarrow> ff_delete name s = Inr s' \<Longrightarrow> flags_reachable s'"

interpretation flag_names: sole_unique_index "\<lambda>f. Some (ff_name f)" ff_insert
  by unfold_locales (auto simp: ff_insert_def split: if_splits)

section \<open>Lemmas\<close>

lemma validateFlagValues_percentage:
  "validateFlagValues dto = Inr () \<Longrightarrow> percentage_ok p \<Longrightarrow> percentage_ok (dto_percentage dto p)"
  by (auto simp: validateFlagValues_def dto_percentage_def percentage_ok_def
      split: if_splits option.splits js_percentage.splits)

lemma ff_findOne_SomeD:
  "ff_findOne name s = Some f \<Longrightarrow> f \<in> set (fs_flags s) \<and> ff_name f = name"
  by (auto simp: ff_findOne_def dest: find_one_SomeD)

lemma ff_log_flags [simp]: "fs_flags (ff_log a s) = fs_flags s"
  by (simp add: ff_log_def)

lemma ff_save_flags [simp]: "fs_flags (ff_save f s) = save_row ff_id f (fs_flags s)"
  by (simp add: ff_save_def)

text \<open>Writing back a loaded flag under its own id and name keeps the table well formed.\<close>

lemma flags_inv_save:
  assumes inv: "flags_inv s" and old: "g \<in> set (fs_flags s)"
    and same: "ff_id f = ff_id g" "ff_name f = ff_name g" and ok: "flag_ok f"
    and s': "fs_flags s' = save_row ff_id f (fs_flags s)"
  shows "flags_inv s'"
proof -
  have ids: "distinct (map ff_id (fs_flags s))" using inv by (simp add: flags_inv_def)
  have "map ff_id (fs_flags s') = map ff_id (fs_flags s)"
    and "map ff_name (fs_flags s') = map ff_name (fs_flags s)"
    unfolding s' by (intro map_save_row[OF ids old same(1)] same)+
  moreover have "\<forall>x \<in> set (fs_flags s'). flag_ok x"
    using inv ok unfolding s' flags_inv_def by (auto elim: in_save_rowE)
  ultimately show ?thesis
    using inv by (simp add: flags_inv_def uniq_on_total)
qed

lemma ff_update_saves:
  assumes "ff_update now name dto actor s = Inr (f, s')"
  obtains g where "ff_findOne name s = Some g" "ff_id f = ff_id g" "ff_name f = ff_name g"
    "fs_flags s' = save_row ff_id f (fs_flags s)" "ff_rollbackMetadata f = Some (snapshot g, now)"
    "ff_percentage f = dto_percentage dto (ff_percentage g)" "validateFlagValues dto = Inr ()"
    "validateFlagName name = Inr ()"
  using assms by (auto simp: ff_update_def Let_def split: sum.splits option.splits)

lemma ff_rollback_saves:
  assumes "ff_rollback now name actor s = Inr (f, s')"
  obtains g p t where "ff_findOne name s = Some g" "ff_id f = ff_id g" "ff_name f = ff_name g"
    "fs_flags s' = save_row ff_id f (fs_flags s)" "ff_rollbackMetadata g = Some (p, t)"
    "ff_rollbackMetadata f = Some (snapshot g, now)" "ff_percentage f = ps_percentage p"
  using assms by (auto simp: ff_rollback_def Let_def split: sum.splits option.splits)

lemma ff_create_inserts:
  assumes "ff_create now newId name dto actor s = Inr (f, s')"
  obtains t where "ff_insert f (fs_flags s) = Some t" "fs_flags s' = t" "ff_id f = newId"
    "ff_name f = name" "ff_percentage f = dto_percentage dto 0" "ff_rollbackMetadata f = None"
    "validateFlagValues dto = Inr ()" "validateFlagName name = Inr ()"
  using assms by (auto simp: ff_create_def Let_def split: sum.splits option.splits)

lemma ff_update_inv [inv_intros]:
  assumes inv: "flags_inv s" and upd: "ff_update now name dto actor s = Inr (f, s')"
  shows "flags_inv s'"
proof (rule ff_update_saves[OF upd])
  fix g
  assume g: "ff_findOne name s = Some g" "ff_id f = ff_id g" "ff_name f = ff_name g"
    "fs_flags s' = save_row ff_id f (fs_flags s)" "ff_rollbackMetadata f = Some (snapshot g, now)"
    "ff_percentage f = dto_percentage dto (ff_percentage g)" "validateFlagValues dto = Inr ()"
  from ff_findOne_SomeD[OF g(1)] have mem: "g \<in> set (fs_flags s)" by simp
  then have "flag_ok g" using inv by (simp add: flags_inv_def)
  then have "flag_ok f"
    using g validateFlagValues_percentage[OF g(7)] by (simp add: flag_ok_def snapshot_def)
  from flags_inv_save[OF inv mem g(2,3) this g(4)] show ?thesis .
qed

lemma ff_rollback_inv [inv_intros]:
  assumes inv: "flags_inv s" and rb: "ff_rollback now name actor s = Inr (f, s')"
  shows "flags_inv s'"
proof (rule ff_rollback_saves[OF rb])
  fix g p t
  assume g: "ff_findOne name s = Some g" "ff_id f = ff_id g" "ff_name f = ff_name g"
    "fs_flags s' = save_row ff_id f (fs_flags s)" "ff_rollbackMetadata g = Some (p, t)"
    "ff_rollbackMetadata f = Some (snapshot g, now)" "ff_percentage f = ps_percentage p"
  from ff_findOne_SomeD[OF g(1)] have mem: "g \<in> set (fs_flags s)" by simp
  then have "flag_ok g" using inv by (simp add: flags_inv_def)
  then have "flag_ok f" using g by (simp add: flag_ok_def snapshot_def)
  from flags_inv_save[OF inv mem g(2,3) this g(4)] show ?thesis .
qed

lemma ff_create_inv [inv_intros]:
  assumes inv: "flags_inv s" and new: "newId \<notin> ff_id ` set (fs_flags s)"
    and cr: "ff_create now newId name dto actor s = Inr (f, s')"
  shows "flags_inv s'"
proof (rule ff_create_inserts[OF cr])
  fix t
  assume f: "ff_insert f (fs_flags s) = Some t" "fs_flags s' = t" "ff_id f = newId"
    "ff_name f = name" "ff_percentage f = dto_percentage dto 0" "ff_rollbackMetadata f = None"
    "validateFlagValues dto = Inr ()" "validateFlagName name = Inr ()"
  have "percentage_ok (dto_percentage dto 0)"
    by (rule validateFlagValues_percentage[OF f(7)]) (simp add: percentage_ok_def)
  then have "flag_ok f" using f by (simp add: flag_ok_def)
  moreover have "uniq_on (\<lambda>f. Some (ff_name f)) t"
    using inv f(1) flag_names.ins_keeps_unique by (auto simp: flags_inv_def)
  ultimately show ?thesis
    using inv new f(2,3) flag_names.ins_appends[OF f(1)] by (auto simp: flags_inv_def)
qed

lemma ff_delete_inv [inv_intros]:
  "flags_inv s \<Longrightarrow> ff_delete name s = Inr s' \<Longrightarrow> flags_inv s'"
  by (auto simp: ff_delete_def Let_def flags_inv_def uniq_on_delete_where distinct_map_filter
      delete_where_def[symmetric] split: sum.splits option.splits)
     (simp_all add: delete_where_def distinct_map_filter)

lemma to_int32_word: "to_int32 x = sint (word_of_int x :: 32 word)"
proof -
  have "sint (word_of_int x :: 32 word) = signed_take_bit 31 x"
    by (simp add: sint_sbintrunc' word_of_int_inverse)
  also have "\<dots> = (x + 2 ^ 31) mod 2 ^ 32 - 2 ^ 31"
    by (simp add: signed_take_bit_eq_take_bit_shift take_bit_eq_mod)
  finally show ?thesis by (simp add: to_int32_def)
qed

text \<open>The same hash, computed on 32-bit words with wrapping arithmetic.\<close>

definition word_hash_step :: "32 word \<Rightarrow> char \<Rightarrow> 32 word" where
  "word_hash_step h c = push_bit 5 h - h + of_char c"

definition word_hash :: "string \<Rightarrow> 32 word" where
  "word_hash str = fold (\<lambda>c h. word_hash_step h c) str 0"

lemma hash_step_word: "hash_step (sint h) c = sint (word_hash_step h c)"
proof -
  have "(word_of_int (to_int32 (sint h * 2 ^ 5)) :: 32 word) = word_of_int (sint h * 2 ^ 5)"
    by (simp add: to_int32_word)
  also have "\<dots> = push_bit 5 h"
    by (simp add: push_bit_eq_mult mult.commute flip: wi_hom_mult)
  finally have "(word_of_int (to_int32 (sint h * 2 ^ 5) - sint h + of_char c) :: 32 word)
      = word_hash_step h c"
    by (simp add: word_hash_step_def wi_hom_syms of_int_of_char)
  then show ?thesis by (simp add: hash_step_def to_int32_word)
qed

lemma fold_hash_word:
  "fold (\<lambda>c h. hash_step h c) str (sint h) = sint (fold (\<lambda>c h. word_hash_step h c) str h)"
  by (induction str arbitrary: h) (simp_all add: hash_step_word)


lemma bucket_range: "0 \<le> bucket u n \<and> bucket u n < 100"
  by (simp add: bucket_def)

text \<open>The part of a flag that decides a rollout and that a rollback restores.\<close>

definition flag_config :: "feature_flag \<Rightarrow> string option \<times> bool \<times> int \<times> string list" where
  "flag_config f = (ff_description f, ff_enabled f, ff_percentage f, nullish (ff_userIds f) [])"

lemma ff_rollback_restores:
  assumes "validateFlagName name = Inr ()" "ff_findOne name s = Some g"
    "ff_rollbackMetadata g = Some (snapshot h, t)"
  shows "\<exists>f s'. ff_rollback now name actor s = Inr (f, s') \<and> flag_config f = flag_config h \<and>
    ff_id f = ff_id g \<and> ff_name f = ff_name g \<and> fs_flags s' = save_row ff_id f (fs_flags s)"
  using assms by (simp add: ff_rollback_def Let_def flag_config_def snapshot_def)

lemma ff_findOne_saved:
  assumes "flags_inv s" "g \<in> set (fs_flags s)" "ff_id f = ff_id g" "ff_name f = ff_name g"
    "fs_flags s' = save_row ff_id f (fs_flags s)"
  shows "ff_findOne (ff_name f) s' = Some f"
proof -
  have "map ff_name (fs_flags s') = map ff_name (fs_flags s)"
    unfolding assms(5) using assms by (intro map_save_row) (auto simp: flags_inv_def)
  then have "distinct (map ff_name (fs_flags s'))"
    using assms(1) by (simp add: flags_inv_def uniq_on_total)
  moreover have "f \<in> set (fs_flags s')" unfolding assms(5) by simp
  ultimately show ?thesis by (simp add: ff_findOne_def find_one_by_key)
qed

section \<open>Properties\<close>

text \<open>
  In every state the service can reach, flag names are unique, every stored name passed the
  name check, and every percentage (also the one kept for a rollback) lies in 0..100.
\<close>

theorem flags_reachable_inv: "flags_reachable s \<Longrightarrow> flags_inv s"
proof (induction rule: flags_reachable.induct)
  case empty
  show ?case by (simp add: flags_inv_def)
qed (auto intro: inv_intros)

definition demo_flags :: flag_store where
  "demo_flags = snd (projr (ff_create 1 ''f1'' ''beta'' \<lparr>fd_description = None, fd_enabled = Some True,
     fd_percentage = Some (PInt 25), fd_userIds = None, fd_lastChangedBy = None\<rparr> (Some ''root'')
     \<lparr>fs_flags = [], fs_audit = []\<rparr>))"

lemma demo_flags_eq:
  "ff_create 1 ''f1'' ''beta'' \<lparr>fd_description = None, fd_enabled = Some True,
     fd_percentage = Some (PInt 25), fd_userIds = None, fd_lastChangedBy = None\<rparr> (Some ''root'')
     \<lparr>fs_flags = [], fs_audit = []\<rparr> = Inr (hd (fs_flags demo_flags), demo_flags)"
  by code_simp

theorem flags_reachable_inv_witness: "flags_inv demo_flags \<and> length (fs_flags demo_flags) = 1"
proof -
  have "flags_reachable demo_flags"
    by (rule flags_reachable.create[OF flags_reachable.empty _ demo_flags_eq]) simp
  moreover have "length (fs_flags demo_flags) = 1" by code_simp
  ultimately show ?thesis using flags_reachable_inv by simp
qed

text \<open>
  An update can always be undone: rolling back right after it succeeds and restores description,
  enablement, percentage and targeted users, so every signed-in user gets the decision of before.
\<close>

theorem rollback_undoes_update:
  assumes inv: "flags_inv s" and upd: "ff_update now name dto actor s = Inr (f, s1)"
  shows "\<exists>g h s2. ff_findOne name s = Some g \<and> ff_rollback later name actor' s1 = Inr (h, s2) \<and>
    flag_config h = flag_config g \<and> isEnabled rnd name u s2 = isEnabled rnd name u s"
proof (rule ff_update_saves[OF upd])
  fix g
  assume g: "ff_findOne name s = Some g" "ff_id f = ff_id g" "ff_name f = ff_name g"
    "fs_flags s1 = save_row ff_id f (fs_flags s)" "ff_rollbackMetadata f = Some (snapshot g, now)"
    "validateFlagName name = Inr ()"
  from ff_findOne_SomeD[OF g(1)] have mem: "g \<in> set (fs_flags s)" and nm: "ff_name g = name" by auto
  have f1: "ff_findOne name s1 = Some f"
    using ff_findOne_saved[OF inv mem g(2,3,4)] g(3) nm by simp
  obtain h s2 where h: "ff_rollback later name actor' s1 = Inr (h, s2)" "flag_config h = flag_config g"
    "ff_id h = ff_id f" "ff_name h = ff_name f" "fs_flags s2 = save_row ff_id h (fs_flags s1)"
    using ff_rollback_restores[OF g(6) f1 g(5)] by blast
  have "ff_findOne name s2 = Some h"
    using ff_findOne_saved[OF ff_update_inv[OF inv upd] conjunct1[OF ff_findOne_SomeD[OF f1]] h(3-5)]
      h(4) g(3) nm by simp
  with g(1) h(2) have "isEnabled rnd name u s2 = isEnabled rnd name u s"
    by (simp add: isEnabled_def flag_config_def)
  with g(1) h(1,2) show ?thesis by blast
qed

definition demo_update :: flag_dto where
  "demo_update = \<lparr>fd_description = Some ''wider'', fd_enabled = Some False,
     fd_percentage = Some (PInt 80), fd_userIds = Some [''u1''], fd_lastChangedBy = None\<rparr>"

theorem rollback_undoes_update_witness:
  "\<exists>g h s2. ff_findOne ''beta'' demo_flags = Some g \<and>
     ff_rollback 9 ''beta'' None (snd (projr (ff_update 5 ''beta'' demo_update None demo_flags)))
       = Inr (h, s2) \<and>
     flag_config h = flag_config g \<and>
     isEnabled (\<lambda>_. True) ''beta'' (Some ''u7'') s2 = isEnabled (\<lambda>_. True) ''beta'' (Some ''u7'') demo_flags"
proof -
  have "ff_update 5 ''beta'' demo_update None demo_flags
      = Inr (fst (projr (ff_update 5 ''beta'' demo_update None demo_flags)),
             snd (projr (ff_update 5 ''beta'' demo_update None demo_flags)))"
    by code_simp
  moreover have "flags_inv demo_flags" by code_simp
  ultimately show ?thesis by (rule rollback_undoes_update[rotated])
qed

text \<open>
  The rollout hash, written with JavaScript doubles and \<open>ToInt32\<close>, is exactly the 32-bit
  two's-complement hash, so no precision is lost however long the key is.
\<close>

theorem hashCode_is_word_hash: "hashCode str = sint (word_hash str)"
  using fold_hash_word[of str 0] by (simp add: hashCode_def word_hash_def)

text \<open>
  Raising a flag's percentage never switches a signed-in user off: with the same targeting, a
  user who is in the rollout at the lower percentage is in it at every higher one.
\<close>

theorem rollout_monotone:
  assumes "ff_findOne name s = Some f" "ff_findOne name s' = Some (f\<lparr>ff_percentage := q\<rparr>)"
    and "ff_percentage f \<le> q" "q \<le> 100" "u \<noteq> []" "isEnabled rnd name (Some u) s"
  shows "isEnabled rnd name (Some u) s'"
  using assms bucket_range[of u name] by (auto simp: isEnabled_def split: if_splits)

theorem rollout_monotone_witness:
  "isEnabled (\<lambda>_. False) ''beta'' (Some ''u11'')
     (demo_flags\<lparr>fs_flags := [(hd (fs_flags demo_flags))\<lparr>ff_percentage := 70\<rparr>]\<rparr>)"
proof -
  have "ff_findOne ''beta'' demo_flags = Some (hd (fs_flags demo_flags))"
    and "ff_findOne ''beta'' (demo_flags\<lparr>fs_flags := [(hd (fs_flags demo_flags))\<lparr>ff_percentage := 70\<rparr>]\<rparr>)
      = Some ((hd (fs_flags demo_flags))\<lparr>ff_percentage := 70\<rparr>)"
    and "ff_percentage (hd (fs_flags demo_flags)) \<le> 70" "(70::int) \<le> 100" "''u11'' \<noteq> []"
    and "isEnabled (\<lambda>_. False) ''beta'' (Some ''u11'') demo_flags"
    by code_simp+
  then show ?thesis by (rule rollout_monotone)
qed

end
