(* ===== verification/Codec.thy ===== *)
theory Codec
  imports XC_Prelude
begin

text \<open>
  The text formats the services exchange: JSON (\<open>JSON.stringify\<close> and \<open>JSON.parse\<close>), base64 as Node's
  \<open>Buffer\<close> writes and reads it, the URL-safe base64 of \<^verbatim>\<open>messages/crypto/message-e2e.crypto.ts\<close> and the
  opaque cursors of \<^verbatim>\<open>common/pagination/cursor.util.ts\<close>.

  A character is one of the 256 of \<open>char\<close>; an escape above \<open>\u00ff\<close> is refused, and a byte of a decoded
  buffer stands for the character of its number.  Numbers are exact: an integral literal, however it
  is written, is \<open>JInt\<close>, any other one is kept as its text.  Shown: reading undoes printing, for JSON,
  base64, its URL-safe form and cursors, and the reader has enough fuel on every input.
\<close>

section \<open>Printing JSON\<close>

definition DQ :: char where "DQ = CHR 0x22"
definition BSL :: char where "BSL = CHR 0x5C"

definition hex_digit :: "nat \<Rightarrow> char" where
  "hex_digit n = (if n < 10 then char_of (48 + n) else char_of (87 + n))"

definition json_char :: "char \<Rightarrow> string" where
  "json_char c =
     (let n = (of_char c :: nat) in
      if n = 34 \<or> n = 92 then [BSL, c]
      else if n = 8 then BSL # ''b'' else if n = 9 then BSL # ''t'' else if n = 10 then BSL # ''n''
      else if n = 12 then BSL # ''f'' else if n = 13 then BSL # ''r''
      else if n < 32 then BSL # ''u00'' @ [hex_digit (n div 16), hex_digit (n mod 16)]
      else [c])"

definition json_string :: "string \<Rightarrow> string" where
  "json_string s = DQ # concat (map json_char s) @ [DQ]"

fun join_comma :: "string list \<Rightarrow> string" where
  "join_comma [] = []"
| "join_comma [x] = x"
| "join_comma (x # y # zs) = x @ '','' @ join_comma (y # zs)"

text \<open>\<open>JFloat\<close> is a number that is not an integer, as its literal.\<close>

datatype json =
    JNull
  | JBool bool
  | JInt int
  | JFloat string
  | JStr string
  | JArr "json list"
  | JObj "(string \<times> json) list"

definition json_member :: "string \<times> string \<Rightarrow> string" where
  "json_member kt = json_string (fst kt) @ '':'' @ snd kt"

primrec json_text :: "json \<Rightarrow> string" where
  "json_text JNull = ''null''"
| "json_text (JBool b) = (if b then ''true'' else ''false'')"
| "json_text (JInt i) = int_str i"
| "json_text (JFloat lit) = lit"
| "json_text (JStr s) = json_string s"
| "json_text (JArr vs) = ''['' @ join_comma (map json_text vs) @ '']''"
| "json_text (JObj kvs) = ''{'' @ join_comma (map json_member (map (map_prod id json_text) kvs)) @ ''}''"

definition json_nullable :: "('a \<Rightarrow> json) \<Rightarrow> 'a option \<Rightarrow> json" where
  "json_nullable f v = (case v of None \<Rightarrow> JNull | Some x \<Rightarrow> f x)"

section \<open>Reading JSON\<close>

definition json_ws :: "char \<Rightarrow> bool" where
  "json_ws c \<longleftrightarrow> (of_char c :: nat) \<in> {9, 10, 13, 32}"

definition skip_ws :: "string \<Rightarrow> string" where
  "skip_ws s = dropWhile json_ws s"

definition hex_val :: "char \<Rightarrow> nat option" where
  "hex_val c =
     (let n = (of_char c :: nat) in
      if 48 \<le> n \<and> n \<le> 57 then Some (n - 48)
      else if 97 \<le> n \<and> n \<le> 102 then Some (n - 87)
      else if 65 \<le> n \<and> n \<le> 70 then Some (n - 55) else None)"

definition hex4 :: "string \<Rightarrow> nat option" where
  "hex4 ds = foldl (\<lambda>a c. case a of None \<Rightarrow> None | Some x \<Rightarrow> map_option (\<lambda>y. 16 * x + y) (hex_val c)) (Some 0) ds"

definition unescape :: "char \<Rightarrow> char option" where
  "unescape e =
     (if e = DQ \<or> e = BSL \<or> e = CHR ''/'' then Some e
      else if e = CHR ''b'' then Some (CHR 0x08) else if e = CHR ''t'' then Some (CHR 0x09)
      else if e = CHR ''n'' then Some (CHR 0x0A) else if e = CHR ''f'' then Some (CHR 0x0C)
      else if e = CHR ''r'' then Some (CHR 0x0D) else None)"

definition put_char :: "char \<Rightarrow> (string \<times> string) option \<Rightarrow> (string \<times> string) option" where
  "put_char c r = map_option (apfst (Cons c)) r"

text \<open>The characters of a string up to its closing quote.\<close>

fun p_chars :: "string \<Rightarrow> (string \<times> string) option" where
  "p_chars [] = None"
| "p_chars (c # s) =
     (if c = DQ then Some ([], s)
      else if c = BSL then
        (case s of
           [] \<Rightarrow> None
         | e # r \<Rightarrow>
             (case unescape e of
                Some u \<Rightarrow> put_char u (p_chars r)
              | None \<Rightarrow>
                  if e = CHR ''u'' \<and> 4 \<le> length r then
                    (case hex4 (take 4 r) of
                       None \<Rightarrow> None
                     | Some n \<Rightarrow> if n < 256 then put_char (char_of n) (p_chars (drop 4 r)) else None)
                  else None))
      else if (of_char c :: nat) < 32 then None
      else put_char c (p_chars s))"

text \<open>A number literal: \<open>-? int frac? exp?\<close> with its value as mantissa and power of ten.\<close>

definition split_sign :: "string \<Rightarrow> bool \<times> string" where
  "split_sign s = (if s \<noteq> [] \<and> hd s = CHR ''-'' then (True, tl s) else (False, s))"

definition num_value :: "bool \<Rightarrow> string \<Rightarrow> string \<Rightarrow> int \<Rightarrow> int option" where
  "num_value neg ip fp ex =
     (let m = digits_value (ip @ fp) * (if neg then -1 else 1); e = ex - int (length fp)
      in if 0 \<le> e then Some (m * 10 ^ nat e)
         else if 10 ^ nat (- e) dvd m then Some (m div 10 ^ nat (- e)) else None)"

definition p_frac :: "string \<Rightarrow> (string \<times> string) option" where
  "p_frac s =
     (if s \<noteq> [] \<and> hd s = CHR ''.''
      then (let fp = takeWhile is_digit (tl s) in if fp = [] then None else Some (fp, dropWhile is_digit (tl s)))
      else Some ([], s))"

definition p_exp :: "string \<Rightarrow> (int \<times> string) option" where
  "p_exp s =
     (if s \<noteq> [] \<and> (hd s = CHR ''e'' \<or> hd s = CHR ''E'')
      then (let r = tl s; neg = fst (split_sign r);
                r' = (if r \<noteq> [] \<and> (hd r = CHR ''-'' \<or> hd r = CHR ''+'') then tl r else r);
                ds = takeWhile is_digit r'
            in if ds = [] then None
               else Some ((if neg then -1 else 1) * digits_value ds, dropWhile is_digit r'))
      else Some (0, s))"

definition p_num :: "string \<Rightarrow> (json \<times> string) option" where
  "p_num s =
     (let neg = fst (split_sign s); u = snd (split_sign s); ip = takeWhile is_digit u in
      if ip = [] \<or> (hd ip = CHR ''0'' \<and> 1 < length ip) then None
      else (case p_frac (dropWhile is_digit u) of
              None \<Rightarrow> None
            | Some (fp, v) \<Rightarrow>
                (case p_exp v of
                   None \<Rightarrow> None
                 | Some (ex, w) \<Rightarrow>
                     (case num_value neg ip fp ex of
                        Some i \<Rightarrow> Some (JInt i, w)
                      | None \<Rightarrow> Some (JFloat (take (length s - length w) s), w)))))"

text \<open>A repeated member keeps its first place and takes its last value.\<close>

definition obj_put :: "(string \<times> json) list \<Rightarrow> string \<times> json \<Rightarrow> (string \<times> json) list" where
  "obj_put kvs kv = save_row fst kv kvs"

definition obj_of :: "(string \<times> json) list \<Rightarrow> (string \<times> json) list" where
  "obj_of kvs = foldl obj_put [] kvs"

definition p_word :: "string \<Rightarrow> json \<Rightarrow> string \<Rightarrow> (json \<times> string) option" where
  "p_word w v s = (if starts_with s w then Some (v, drop (length w) s) else None)"

fun p_value :: "nat \<Rightarrow> string \<Rightarrow> (json \<times> string) option"
  and p_elems :: "nat \<Rightarrow> string \<Rightarrow> (json list \<times> string) option"
  and p_members :: "nat \<Rightarrow> string \<Rightarrow> ((string \<times> json) list \<times> string) option" where
  "p_value 0 s = None"
| "p_value (Suc n) s =
     (case skip_ws s of
        [] \<Rightarrow> None
      | c # r \<Rightarrow>
          if c = CHR ''['' then
            (case skip_ws r of
               [] \<Rightarrow> None
             | d # q \<Rightarrow> if d = CHR '']'' then Some (JArr [], q) else map_option (apfst JArr) (p_elems n (d # q)))
          else if c = CHR ''{'' then
            (case skip_ws r of
               [] \<Rightarrow> None
             | d # q \<Rightarrow>
                 if d = CHR ''}'' then Some (JObj [], q)
                 else map_option (apfst (JObj \<circ> obj_of)) (p_members n (d # q)))
          else if c = DQ then map_option (apfst JStr) (p_chars r)
          else if c = CHR ''n'' then p_word ''null'' JNull (c # r)
          else if c = CHR ''t'' then p_word ''true'' (JBool True) (c # r)
          else if c = CHR ''f'' then p_word ''false'' (JBool False) (c # r)
          else p_num (c # r))"
| "p_elems 0 s = None"
| "p_elems (Suc n) s =
     (case p_value n s of
        None \<Rightarrow> None
      | Some (v, r) \<Rightarrow>
          (case skip_ws r of
             [] \<Rightarrow> None
           | c # q \<Rightarrow>
               if c = CHR '']'' then Some ([v], q)
               else if c = CHR '','' then map_option (apfst (Cons v)) (p_elems n q) else None))"
| "p_members 0 s = None"
| "p_members (Suc n) s =
     (case skip_ws s of
        [] \<Rightarrow> None
      | c # r \<Rightarrow>
          if c \<noteq> DQ then None
          else case p_chars r of
            None \<Rightarrow> None
          | Some (k, u) \<Rightarrow>
              (case skip_ws u of
                 [] \<Rightarrow> None
               | c' # w \<Rightarrow>
                   if c' \<noteq> CHR '':'' then None
                   else case p_value n w of
                     None \<Rightarrow> None
                   | Some (v, x) \<Rightarrow>
                       (case skip_ws x of
                          [] \<Rightarrow> None
                        | e # q \<Rightarrow>
                            if e = CHR ''}'' then Some ([(k, v)], q)
                            else if e = CHR '','' then map_option (apfst (Cons (k, v))) (p_members n q)
                            else None)))"

definition json_fuel :: "string \<Rightarrow> nat" where
  "json_fuel s = 2 * length s + 2"

text \<open>\<open>JSON.parse\<close>; \<open>None\<close> is a \<open>SyntaxError\<close>.\<close>

definition json_parse :: "string \<Rightarrow> json option" where
  "json_parse s =
     (case p_value (json_fuel s) s of
        None \<Rightarrow> None
      | Some (v, r) \<Rightarrow> if skip_ws r = [] then Some v else None)"

section \<open>Base64\<close>

text \<open>
  Bytes are characters.  \<open>Buffer.toString('base64')\<close> prints groups of three bytes as four digits with
  padding; \<open>Buffer.from(text, 'base64')\<close> takes both alphabets, skips characters of neither and stops at
  the padding.
\<close>

definition b64_digit :: "nat \<Rightarrow> char" where
  "b64_digit n =
     (if n < 26 then char_of (65 + n) else if n < 52 then char_of (71 + n)
      else if n < 62 then char_of (n - 4) else if n = 62 then CHR ''+'' else CHR ''/'')"

definition b64_val :: "char \<Rightarrow> nat option" where
  "b64_val c =
     (let n = (of_char c :: nat) in
      if 65 \<le> n \<and> n \<le> 90 then Some (n - 65)
      else if 97 \<le> n \<and> n \<le> 122 then Some (n - 71)
      else if 48 \<le> n \<and> n \<le> 57 then Some (n + 4)
      else if n = 43 \<or> n = 45 then Some 62
      else if n = 47 \<or> n = 95 then Some 63 else None)"

fun b64_sextets :: "nat list \<Rightarrow> nat list" where
  "b64_sextets [] = []"
| "b64_sextets [a] = [a div 4, (a mod 4) * 16]"
| "b64_sextets [a, b] = [a div 4, (a mod 4) * 16 + b div 16, (b mod 16) * 4]"
| "b64_sextets (a # b # c # r) =
     [a div 4, (a mod 4) * 16 + b div 16, (b mod 16) * 4 + c div 64, c mod 64] @ b64_sextets r"

fun b64_octets :: "nat list \<Rightarrow> nat list" where
  "b64_octets (p # q # r # s # t) =
     [p * 4 + q div 16, (q mod 16) * 16 + r div 4, (r mod 4) * 64 + s] @ b64_octets t"
| "b64_octets [p, q, r] = [p * 4 + q div 16, (q mod 16) * 16 + r div 4]"
| "b64_octets [p, q] = [p * 4 + q div 16]"
| "b64_octets _ = []"

definition b64_padding :: "nat \<Rightarrow> string" where
  "b64_padding n = replicate ((4 - n mod 4) mod 4) (CHR ''='')"

definition to_base64 :: "string \<Rightarrow> string" where
  "to_base64 bytes =
     (let ds = map b64_digit (b64_sextets (map of_char bytes)) in ds @ b64_padding (length ds))"

definition from_base64 :: "string \<Rightarrow> string" where
  "from_base64 s =
     map char_of (b64_octets (List.map_filter b64_val (takeWhile (\<lambda>c. c \<noteq> CHR ''='') s)))"

definition replace_char :: "char \<Rightarrow> char \<Rightarrow> string \<Rightarrow> string" where
  "replace_char a b s = map (\<lambda>c. if c = a then b else c) s"

definition toBase64Url :: "string \<Rightarrow> string" where
  "toBase64Url bytes =
     rev (dropWhile (\<lambda>c. c = CHR ''='') (rev (replace_char (CHR ''/'') (CHR ''_'')
       (replace_char (CHR ''+'') (CHR ''-'') (to_base64 bytes)))))"

definition fromBase64Url :: "string \<Rightarrow> string" where
  "fromBase64Url v =
     from_base64 (replace_char (CHR ''_'') (CHR ''/'') (replace_char (CHR ''-'') (CHR ''+'') v)
       @ b64_padding (length v))"

section \<open>Cursors\<close>

definition encodeCursor :: "(string \<times> json) list \<Rightarrow> string" where
  "encodeCursor obj = to_base64 (json_text (JObj obj))"

definition decodeCursor :: "string option \<Rightarrow> (string \<times> json) list option" where
  "decodeCursor cursor =
     (if \<not> truthy cursor then None
      else case json_parse (from_base64 (the cursor)) of
        Some (JObj obj) \<Rightarrow> Some obj
      | _ \<Rightarrow> None)"

section \<open>Reading what was printed\<close>

lemma char_consts [simp]:
  "(of_char DQ :: nat) = 34" "(of_char BSL :: nat) = 92" "DQ \<noteq> BSL" "BSL \<noteq> DQ"
  by (simp_all add: DQ_def BSL_def)

lemma of_char_inj: "((of_char c :: nat) = of_char d) = (c = d)"
  by simp

lemma char_codes:
  "((of_char c :: nat) = 8) = (c = CHR 0x08)" "((of_char c :: nat) = 9) = (c = CHR 0x09)"
  "((of_char c :: nat) = 10) = (c = CHR 0x0A)" "((of_char c :: nat) = 12) = (c = CHR 0x0C)"
  "((of_char c :: nat) = 13) = (c = CHR 0x0D)" "((of_char c :: nat) = 34) = (c = DQ)"
  "((of_char c :: nat) = 92) = (c = BSL)"
  using of_char_inj[of c "CHR 0x08"] of_char_inj[of c "CHR 0x09"] of_char_inj[of c "CHR 0x0A"]
    of_char_inj[of c "CHR 0x0C"] of_char_inj[of c "CHR 0x0D"] of_char_inj[of c DQ] of_char_inj[of c BSL]
  by (simp_all del: of_char_eq_iff)

lemma hex_val_digit [simp]: "n < 16 \<Longrightarrow> hex_val (hex_digit n) = Some n"
  by (auto simp: hex_val_def hex_digit_def Let_def of_char_of take_bit_eq_mod)

lemma hex4_byte: "n < 256 \<Longrightarrow> hex4 [CHR ''0'', CHR ''0'', hex_digit (n div 16), hex_digit (n mod 16)] = Some n"
proof -
  assume "n < 256"
  moreover have "hex_val (CHR ''0'') = Some 0" by (simp add: hex_val_def)
  ultimately show ?thesis by (simp add: hex4_def)
qed

lemma p_chars_json_char: "p_chars (json_char c @ s) = put_char c (p_chars s)"
proof -
  let ?n = "of_char c :: nat"
  consider (plain) "32 \<le> ?n" "c \<noteq> DQ" "c \<noteq> BSL"
    | (special) "c \<in> {CHR 0x08, CHR 0x09, CHR 0x0A, CHR 0x0C, CHR 0x0D, DQ, BSL}"
    | (control) "?n < 32" "c \<notin> {CHR 0x08, CHR 0x09, CHR 0x0A, CHR 0x0C, CHR 0x0D, DQ, BSL}"
    by force
  then show ?thesis
  proof cases
    case plain
    then show ?thesis by (simp add: json_char_def Let_def char_codes(6,7))
  next
    case special
    then show ?thesis by (auto simp: json_char_def unescape_def DQ_def BSL_def)
  next
    case control
    have "unescape (CHR ''u'') = None" by (simp add: unescape_def DQ_def BSL_def)
    with control hex4_byte[of ?n] show ?thesis
      by (simp add: json_char_def Let_def char_codes)
  qed
qed

lemma p_chars_string: "p_chars (concat (map json_char s) @ DQ # r) = Some (s, r)"
  by (induction s) (simp_all add: p_chars_json_char put_char_def)

text \<open>What may follow a value: the end, a comma or a closing bracket; none of it extends a number.\<close>

definition value_end :: "string \<Rightarrow> bool" where
  "value_end r \<longleftrightarrow> r = [] \<or> hd r \<in> {CHR '','', CHR '']'', CHR ''}''}"

lemma value_endD:
  assumes "value_end r"
  shows "takeWhile is_digit (ds @ r) = takeWhile is_digit ds" "p_frac r = Some ([], r)" "p_exp r = Some (0, r)"
proof -
  show "p_frac r = Some ([], r)" "p_exp r = Some (0, r)"
    using assms by (auto simp: value_end_def p_frac_def p_exp_def)
  have "takeWhile is_digit r = []"
    using assms by (cases r) (auto simp: value_end_def is_digit_def)
  then show "takeWhile is_digit (ds @ r) = takeWhile is_digit ds"
    by (metis append_Nil2 takeWhile_append takeWhile_eq_all_conv)
qed

lemma nat_str_no_zero: "0 < n \<Longrightarrow> hd (nat_str n) \<noteq> CHR ''0''"
proof (induction n rule: nat_str.induct)
  case (1 n)
  show ?case
  proof (cases "n < 10")
    case True
    then have "hd (nat_str n) = digit_char n" by (subst nat_str.simps) simp
    moreover have "digit_char n \<noteq> CHR ''0''"
    proof
      assume "digit_char n = CHR ''0''"
      then have "(of_char (digit_char n) :: nat) = 48" by simp
      with True 1(2) show False by simp
    qed
    ultimately show ?thesis by simp
  next
    case False
    then have "hd (nat_str n) = hd (nat_str (n div 10))" by (subst nat_str.simps) simp
    with 1(1)[OF False] False show ?thesis by simp
  qed
qed

lemma nat_str_zero: "nat_str 0 = ''0''"
  by code_simp

lemma nat_str_head: "nat_str n \<noteq> [] \<and> is_digit (hd (nat_str n))"
  using nat_str_digits[of n] nat_str_nonempty[of n] by (cases "nat_str n") auto

lemma p_num_int: "value_end r \<Longrightarrow> p_num (int_str i @ r) = Some (JInt i, r)"
proof -
  assume r: "value_end r"
  have digits: "takeWhile is_digit (nat_str n @ r) = nat_str n" "dropWhile is_digit (nat_str n @ r) = r" for n
  proof -
    show "takeWhile is_digit (nat_str n @ r) = nat_str n"
      using value_endD(1)[OF r] nat_str_digits[of n] by (simp add: takeWhile_eq_all_conv)
    then show "dropWhile is_digit (nat_str n @ r) = r"
      by (metis append_eq_append_conv takeWhile_dropWhile_id)
  qed
  have ok: "\<not> (hd (nat_str n) = CHR ''0'' \<and> 1 < length (nat_str n))" for n
    using nat_str_no_zero[of n] nat_str_zero by (cases "n = 0") auto
  have sign: "split_sign (int_str i @ r) = (i < 0, nat_str (nat \<bar>i\<bar>) @ r)"
    using nat_str_head[of "nat i"] by (auto simp: split_sign_def int_str_def is_digit_def)
  have "num_value (i < 0) (nat_str (nat \<bar>i\<bar>)) [] 0 = Some i"
    by (simp add: num_value_def digits_value_nat_str)
  with ok sign show ?thesis
    unfolding p_num_def by (simp add: Let_def digits value_endD(2,3)[OF r] del: takeWhile_append)
qed

text \<open>The values \<open>JSON.stringify\<close> prints here: integers, and objects without repeated members.\<close>

fun json_ok :: "json \<Rightarrow> bool" where
  "json_ok (JFloat _) = False"
| "json_ok (JArr vs) = list_all json_ok vs"
| "json_ok (JObj kvs) = (distinct (map fst kvs) \<and> list_all (\<lambda>kv. json_ok (snd kv)) kvs)"
| "json_ok _ = True"

lemma obj_of_distinct: "distinct (map fst kvs) \<Longrightarrow> obj_of kvs = kvs"
proof (induction kvs rule: rev_induct)
  case (snoc kv kvs)
  then have "obj_of kvs = kvs" "fst kv \<notin> fst ` set kvs" by simp_all
  then show ?case by (auto simp: obj_of_def obj_put_def save_row_def) (metis fst_conv image_eqI)
qed (simp add: obj_of_def)

lemma skip_ws_nonblank [simp]: "\<not> json_ws c \<Longrightarrow> skip_ws (c # s) = c # s"
  by (simp add: skip_ws_def)

lemma json_ws_simps [simp]:
  "\<not> json_ws DQ" "\<not> json_ws CHR ''[''" "\<not> json_ws CHR '']''" "\<not> json_ws CHR ''{''" "\<not> json_ws CHR ''}''"
  "\<not> json_ws CHR '',''" "\<not> json_ws CHR '':''" "\<not> json_ws CHR ''n''" "\<not> json_ws CHR ''t''" "\<not> json_ws CHR ''f''"
  "\<not> json_ws CHR ''-''"
  by (simp_all add: json_ws_def)

definition reads_back :: "json \<Rightarrow> bool" where
  "reads_back v \<longleftrightarrow> (\<forall>n r. 2 * length (json_text v) \<le> n \<longrightarrow> value_end r \<longrightarrow> p_value n (json_text v @ r) = Some (v, r))"

lemma join_comma_Cons: "xs \<noteq> [] \<Longrightarrow> join_comma (x # xs) = x @ '','' @ join_comma xs"
  by (cases xs) auto

lemma json_text_pos: "json_ok v \<Longrightarrow> 0 < length (json_text v)"
  by (cases v) (auto simp: json_string_def int_str_def)

lemma p_elems_text:
  assumes "vs \<noteq> []" "\<forall>v \<in> set vs. json_ok v \<and> reads_back v"
    "2 * length (join_comma (map json_text vs)) + 1 \<le> n"
  shows "p_elems n (join_comma (map json_text vs) @ CHR '']'' # r) = Some (vs, r)"
  using assms
proof (induction vs arbitrary: n rule: list_nonempty_induct)
  case (single v)
  then obtain m where m: "n = Suc m" "2 * length (json_text v) \<le> m" by (cases n) auto
  with single show ?case by (simp add: reads_back_def value_end_def)
next
  case (cons v vs)
  then obtain m where m: "n = Suc m" "2 * (length (json_text v) + 1 + length (join_comma (map json_text vs))) \<le> m"
    by (cases n) (auto simp: join_comma_Cons)
  have v: "p_value m (json_text v @ r) = Some (v, r)" if "value_end r" for r
    using cons.prems m that by (simp add: reads_back_def)
  have "p_elems m (join_comma (map json_text vs) @ CHR '']'' # r) = Some (vs, r)"
    using cons m by (intro cons.IH) auto
  with v cons.hyps m show ?case by (simp add: join_comma_Cons value_end_def)
qed

definition member_text :: "string \<times> json \<Rightarrow> string" where
  "member_text kv = json_string (fst kv) @ '':'' @ json_text (snd kv)"

lemma json_text_obj: "json_text (JObj kvs) = ''{'' @ join_comma (map member_text kvs) @ ''}''"
  by (simp add: json_member_def member_text_def[abs_def] comp_def)

lemma p_members_text:
  assumes "kvs \<noteq> []" "\<forall>kv \<in> set kvs. json_ok (snd kv) \<and> reads_back (snd kv)"
    "2 * length (join_comma (map member_text kvs)) + 1 \<le> n"
  shows "p_members n (join_comma (map member_text kvs) @ CHR ''}'' # r) = Some (kvs, r)"
  using assms
proof (induction kvs arbitrary: n rule: list_nonempty_induct)
  case (single kv)
  then obtain m where m: "n = Suc m" "2 * length (json_text (snd kv)) \<le> m"
    by (cases n) (auto simp: member_text_def)
  with single show ?case
    by (simp add: member_text_def json_string_def p_chars_string reads_back_def value_end_def)
next
  case (cons kv kvs)
  let ?rest = "join_comma (map member_text kvs)"
  obtain m where m: "n = Suc m" "2 * (length (json_text (snd kv)) + 1 + length ?rest) \<le> m"
    using cons.prems cons.hyps by (cases n) (auto simp: join_comma_Cons member_text_def[of kv])
  have v: "p_value m (json_text (snd kv) @ r) = Some (snd kv, r)" if "value_end r" for r
    using cons.prems m that by (simp add: reads_back_def)
  have "p_members m (?rest @ CHR ''}'' # r) = Some (kvs, r)"
    using cons m by (intro cons.IH) auto
  with v cons.hyps m show ?case
    by (simp add: join_comma_Cons member_text_def[of kv] json_string_def p_chars_string value_end_def)
qed

lemma int_str_head: "\<exists>c cs. int_str i = c # cs \<and> (is_digit c \<or> c = CHR ''-'')"
proof -
  obtain c cs where "nat_str (nat i) = c # cs" using nat_str_nonempty[of "nat i"] by (cases "nat_str (nat i)") auto
  with nat_str_head[of "nat i"] show ?thesis by (auto simp: int_str_def)
qed

lemma is_digit_not:
  "is_digit c \<Longrightarrow> \<not> json_ws c \<and> c \<notin> {DQ, CHR ''['', CHR ''{'', CHR ''n'', CHR ''t'', CHR ''f'', CHR ''-''}"
  by (auto simp: is_digit_def json_ws_def DQ_def)

lemma reads_backI:
  assumes "json_ok v"
    and "\<And>n r. 2 * length (json_text v) \<le> Suc n \<Longrightarrow> value_end r \<Longrightarrow> p_value (Suc n) (json_text v @ r) = Some (v, r)"
  shows "reads_back v"
  unfolding reads_back_def
proof (intro allI impI)
  fix n r
  assume n: "2 * length (json_text v) \<le> n" "value_end r"
  then obtain m where "n = Suc m" using json_text_pos[OF assms(1)] by (cases n) auto
  with n assms(2) show "p_value n (json_text v @ r) = Some (v, r)" by simp
qed

lemma reads_back_int: "reads_back (JInt i)"
proof (rule reads_backI)
  fix n r
  assume "value_end r"
  moreover obtain c cs where c: "int_str i = c # cs" "is_digit c \<or> c = CHR ''-''" using int_str_head by blast
  ultimately have "p_num (c # cs @ r) = Some (JInt i, r)" using p_num_int[of r i] by simp
  then show "p_value (Suc n) (json_text (JInt i) @ r) = Some (JInt i, r)"
    using c is_digit_not[of c] by (auto simp: DQ_def)
qed simp

lemma json_text_head:
  assumes "json_ok v" "json_text v = c # s"
  shows "\<not> json_ws c \<and> c \<notin> {CHR '']'', CHR ''}''}"
proof (cases v)
  case (JInt i)
  with assms(2) int_str_head[of i] have "is_digit c \<or> c = CHR ''-''" by auto
  then show ?thesis by (auto simp: is_digit_def json_ws_def)
qed (use assms in \<open>auto simp: json_string_def DQ_def json_ws_def split: if_splits\<close>)

lemma reads_back: "json_ok v \<Longrightarrow> reads_back v"
proof (induction v)
  case (JArr vs)
  show ?case
  proof (cases "vs = []")
    case False
    then obtain v us where vs: "vs = v # us" by (cases vs) auto
    with JArr have all: "\<forall>v \<in> set vs. json_ok v \<and> reads_back v" by (auto simp: list_all_iff)
    obtain c s where c: "json_text v = c # s" using json_text_pos[of v] all vs by (cases "json_text v") auto
    then obtain s' where s': "join_comma (map json_text vs) = c # s'" using vs by (cases us) auto
    show ?thesis
    proof (rule reads_backI[OF JArr.prems])
      fix n r
      assume "2 * length (json_text (JArr vs)) \<le> Suc n"
      then have el: "p_elems n ((c # s') @ CHR '']'' # r) = Some (vs, r)"
        using p_elems_text[OF False all, of n r] by (simp add: s')
      have "json_ok v" using all vs by simp
      from json_text_head[OF this c] el show "p_value (Suc n) (json_text (JArr vs) @ r) = Some (JArr vs, r)"
        by (simp add: s')
    qed
  qed (auto intro!: reads_backI)
next
  case (JObj kvs)
  show ?case
  proof (cases "kvs = []")
    case False
    have all: "\<forall>kv \<in> set kvs. json_ok (snd kv) \<and> reads_back (snd kv)"
      using JObj by (auto simp: list_all_iff)
    obtain s where s: "join_comma (map member_text kvs) = DQ # s"
      using False by (cases kvs; cases "tl kvs") (auto simp: member_text_def json_string_def)
    show ?thesis
    proof (rule reads_backI[OF JObj.prems], unfold json_text_obj)
      fix n r
      assume "2 * length (''{'' @ join_comma (map member_text kvs) @ ''}'') \<le> Suc n"
      then have "p_members n ((DQ # s) @ CHR ''}'' # r) = Some (kvs, r)"
        using p_members_text[OF False all, of n r] by (simp add: s)
      then show "p_value (Suc n) ((''{'' @ join_comma (map member_text kvs) @ ''}'') @ r) = Some (JObj kvs, r)"
        using JObj.prems by (simp add: s obj_of_distinct) (simp add: DQ_def)
    qed
  qed (auto intro!: reads_backI)
next
  case (JInt i)
  then show ?case by (simp add: reads_back_int)
next
  case (JStr s)
  have "CHR ''['' \<noteq> DQ" "CHR ''{'' \<noteq> DQ" by (simp_all add: DQ_def)
  then show ?case by (auto intro!: reads_backI simp: json_string_def p_chars_string)
qed (auto intro!: reads_backI simp: p_word_def DQ_def)

theorem json_roundtrip: "json_ok v \<Longrightarrow> json_parse (json_text v) = Some v"
proof -
  assume "json_ok v"
  from reads_back[OF this] have "p_value (json_fuel (json_text v)) (json_text v @ []) = Some (v, [])"
    by (simp add: reads_back_def value_end_def json_fuel_def del: p_value.simps)
  then show ?thesis by (simp add: json_parse_def skip_ws_def)
qed

corollary json_text_inj: "json_ok v \<Longrightarrow> json_ok w \<Longrightarrow> json_text v = json_text w \<Longrightarrow> v = w"
  by (metis json_roundtrip option.inject)

section \<open>The fuel of the reader\<close>

text \<open>Every part of the grammar consumes input, so two units per character are enough: more fuel does not
  change what is read.\<close>

lemma length_skip_ws: "length (skip_ws s) \<le> length s"
  by (simp add: skip_ws_def length_dropWhile_le)

lemma skip_ws_ConsD: "skip_ws s = c # r \<Longrightarrow> length r < length s"
  using length_skip_ws[of s] by simp

lemma p_chars_shorter: "p_chars s = Some (x, r) \<Longrightarrow> length r < length s"
proof (induction s arbitrary: x r rule: length_induct)
  case (1 s)
  have IH: "length r' < length s'" if "p_chars s' = Some (y, r')" "length s' < length s" for s' y r'
    using 1(1) that by blast
  show ?case
    using 1(2) by (cases s) (auto simp: put_char_def split: if_splits list.splits option.splits dest!: IH)
qed

lemma p_num_shorter: "p_num s = Some (v, r) \<Longrightarrow> length r < length s"
proof -
  assume p: "p_num s = Some (v, r)"
  obtain neg u where u: "split_sign s = (neg, u)" by force
  then have "length u \<le> length s" by (auto simp: split_sign_def split: if_splits)
  from p u obtain fp w ex where ip: "takeWhile is_digit u \<noteq> []"
    and fw: "p_frac (dropWhile is_digit u) = Some (fp, w)" "p_exp w = Some (ex, r)"
    by (auto simp: p_num_def Let_def split: if_splits option.splits)
  have "length (dropWhile is_digit u) < length u"
    using ip arg_cong[OF takeWhile_dropWhile_id[of is_digit u], of length]
    by (cases "takeWhile is_digit u") auto
  moreover have "length w \<le> length (dropWhile is_digit u)"
    using fw(1) length_dropWhile_le[of is_digit "tl (dropWhile is_digit u)"]
    by (auto simp: p_frac_def Let_def split: if_splits)
  moreover have "length r \<le> length w"
    using fw(2) length_dropWhile_le[of is_digit "tl w"] length_dropWhile_le[of is_digit "tl (tl w)"]
    by (auto simp: p_exp_def Let_def split: if_splits)
  ultimately show ?thesis using \<open>length u \<le> length s\<close> by simp
qed

lemma p_word_shorter: "w \<noteq> [] \<Longrightarrow> p_word w v s = Some (x, r) \<Longrightarrow> length r < length s"
  by (cases s; cases w) (auto simp: p_word_def split: if_splits)

lemma p_shorter:
  "(\<forall>s v r. p_value n s = Some (v, r) \<longrightarrow> length r < length s) \<and>
   (\<forall>s vs r. p_elems n s = Some (vs, r) \<longrightarrow> length r < length s) \<and>
   (\<forall>s kvs r. p_members n s = Some (kvs, r) \<longrightarrow> length r < length s)"
proof (induction n)
  case (Suc n)
  have v: "length r < length s" if "p_value n s = Some (v, r)" for s v r using Suc that by blast
  have e: "length r < length s" if "p_elems n s = Some (vs, r)" for s vs r using Suc that by blast
  have m: "length r < length s" if "p_members n s = Some (kvs, r)" for s kvs r using Suc that by blast
  have "length r < length s" if "p_value (Suc n) s = Some (x, r)" for s x r
    using that by (auto split: list.splits if_splits
        dest!: skip_ws_ConsD p_chars_shorter p_num_shorter p_word_shorter[rotated] e m)
  moreover have "length r < length s" if "p_elems (Suc n) s = Some (vs, r)" for s vs r
    using that by (auto split: list.splits if_splits option.splits dest!: skip_ws_ConsD v e)
  moreover have "length r < length s" if "p_members (Suc n) s = Some (kvs, r)" for s kvs r
    using that by (auto split: list.splits if_splits option.splits dest!: skip_ws_ConsD p_chars_shorter v m)
  ultimately show ?case by blast
qed simp

lemma p_enough:
  "(\<forall>s. 2 * length s + 1 \<le> n \<longrightarrow> p_value (Suc n) s = p_value n s) \<and>
   (\<forall>s. 2 * length s + 2 \<le> n \<longrightarrow> p_elems (Suc n) s = p_elems n s) \<and>
   (\<forall>s. 2 * length s + 2 \<le> n \<longrightarrow> p_members (Suc n) s = p_members n s)"
proof (induction n)
  case (Suc n)
  have v: "p_value (Suc n) s = p_value n s" if "2 * length s + 1 \<le> n" for s using Suc that by blast
  have e: "p_elems (Suc n) s = p_elems n s" if "2 * length s + 2 \<le> n" for s using Suc that by blast
  have m: "p_members (Suc n) s = p_members n s" if "2 * length s + 2 \<le> n" for s using Suc that by blast
  have "p_value (Suc (Suc n)) s = p_value (Suc n) s" if "2 * length s + 1 \<le> Suc n" for s
  proof -
    have "p_elems (Suc n) q = p_elems n q" "p_members (Suc n) q = p_members n q"
      if "skip_ws s = c # r" "skip_ws r = q" for c r q
      using skip_ws_ConsD[OF that(1)] length_skip_ws[of r] that(2) \<open>2 * length s + 1 \<le> Suc n\<close>
      by (intro e m; simp)+
    then show ?thesis
      by (subst (1 2) p_value.simps) (auto split: list.split simp del: p_elems.simps p_members.simps)
  qed
  moreover have "p_elems (Suc (Suc n)) s = p_elems (Suc n) s" if "2 * length s + 2 \<le> Suc n" for s
  proof -
    have "p_elems (Suc n) q = p_elems n q" if "p_value n s = Some (x, r)" "skip_ws r = c # q" for x r c q
    proof -
      have "length r < length s" using p_shorter[of n] that(1) by blast
      with skip_ws_ConsD[OF that(2)] \<open>2 * length s + 2 \<le> Suc n\<close> show ?thesis by (intro e) simp
    qed
    then show ?thesis
      using v[of s] that
      by (subst (1 2) p_elems.simps)
        (auto split: list.split option.split simp del: p_value.simps p_elems.simps)
  qed
  moreover have "p_members (Suc (Suc n)) s = p_members (Suc n) s" if "2 * length s + 2 \<le> Suc n" for s
  proof -
    have "p_value (Suc n) w = p_value n w"
      and "p_value n w = Some (y, x) \<Longrightarrow> skip_ws x = f # q \<Longrightarrow> p_members (Suc n) q = p_members n q"
      if "skip_ws s = c # r" "p_chars r = Some (k, u)" "skip_ws u = d # w" for c r k u d w y x f q
    proof -
      have w: "length w < length s" using skip_ws_ConsD[OF that(1)] p_chars_shorter[OF that(2)] skip_ws_ConsD[OF that(3)] by simp
      with \<open>2 * length s + 2 \<le> Suc n\<close> show "p_value (Suc n) w = p_value n w" by (intro v) simp
      assume x: "p_value n w = Some (y, x)" "skip_ws x = f # q"
      then have "length x < length w" using p_shorter[of n] by blast
      with skip_ws_ConsD[OF x(2)] w \<open>2 * length s + 2 \<le> Suc n\<close>
      show "p_members (Suc n) q = p_members n q" by (intro m) simp
    qed
    then show ?thesis
      by (subst (1 2) p_members.simps)
        (auto split: list.split option.split simp del: p_value.simps p_members.simps)
  qed
  ultimately show ?case by blast
qed simp

lemma json_fuel_enough: "p_value (json_fuel s + k) s = p_value (json_fuel s) s"
proof (induction k)
  case (Suc k)
  have "p_value (Suc (json_fuel s + k)) s = p_value (json_fuel s + k) s"
    using p_enough[of "json_fuel s + k"] by (simp add: json_fuel_def del: p_value.simps)
  with Suc show ?case by (simp del: p_value.simps)
qed simp

section \<open>Base64 and cursors read back\<close>

lemma b64_val_digit [simp]: "n < 64 \<Longrightarrow> b64_val (b64_digit n) = Some n"
  by (auto simp: b64_val_def b64_digit_def of_char_of Let_def)

lemma b64_digit_not_pad [simp]: "n < 64 \<Longrightarrow> b64_digit n \<noteq> CHR ''=''"
  using b64_val_digit[of n] by (auto simp: b64_val_def)

lemma sextets_bounded: "\<forall>a \<in> set bs. a < 256 \<Longrightarrow> \<forall>n \<in> set (b64_sextets bs). n < 64"
  by (induction bs rule: b64_sextets.induct) (auto simp: less_mult_imp_div_less)

lemma octets_sextets: "\<forall>a \<in> set bs. a < 256 \<Longrightarrow> b64_octets (b64_sextets bs) = bs"
  by (induction bs rule: b64_sextets.induct) auto

lemma length_octets: "length (b64_octets ns) = 3 * length ns div 4"
  by (induction ns rule: b64_octets.induct) auto

lemma bytes_bounded: "\<forall>a \<in> set (map of_char s). a < (256 :: nat)"
  using range_nat_of_char by auto

lemma from_base64_digits:
  assumes "\<forall>n \<in> set ns. n < 64"
  shows "from_base64 (map b64_digit ns @ b64_padding k) = map char_of (b64_octets ns)"
proof -
  have "takeWhile (\<lambda>c. c \<noteq> CHR ''='') (map b64_digit ns @ b64_padding k) = map b64_digit ns"
    using assms by (auto simp: takeWhile_append b64_padding_def)
  moreover have "List.map_filter b64_val (map b64_digit ns) = ns"
    using assms by (induction ns) (simp_all add: List.map_filter_def)
  ultimately show ?thesis by (simp add: from_base64_def)
qed

lemma from_to_base64: "from_base64 (to_base64 s) = s"
  by (simp add: to_base64_def Let_def from_base64_digits sextets_bounded[OF bytes_bounded]
      octets_sextets[OF bytes_bounded] comp_def)

lemma toBase64Url_digits:
  "toBase64Url s = replace_char (CHR ''/'') (CHR ''_'') (replace_char (CHR ''+'') (CHR ''-'')
     (map b64_digit (b64_sextets (map of_char s))))"
proof -
  let ?r = "\<lambda>x. replace_char (CHR ''/'') (CHR ''_'') (replace_char (CHR ''+'') (CHR ''-'') x)"
  let ?ds = "map b64_digit (b64_sextets (map of_char s))"
  have pad: "?r (?ds @ b64_padding k) = ?r ?ds @ b64_padding k" for k
    by (simp add: replace_char_def b64_padding_def)
  have "CHR ''='' \<notin> set (?r ?ds)"
    using sextets_bounded[OF bytes_bounded] by (auto simp: replace_char_def split: if_splits) (metis b64_digit_not_pad)
  then have "dropWhile (\<lambda>c. c = CHR ''='') (rev (?r ?ds)) = rev (?r ?ds)"
    by (intro dropWhile_eq_self_iff[THEN iffD2]) (metis hd_in_set set_rev)
  then show ?thesis
    unfolding toBase64Url_def to_base64_def Let_def pad by (simp add: b64_padding_def dropWhile_append)
qed

lemma replace_back:
  "b \<notin> set s \<Longrightarrow> d \<notin> set s \<Longrightarrow> {a, b} \<inter> {c, d} = {} \<Longrightarrow>
     replace_char d c (replace_char b a (replace_char c d (replace_char a b s))) = s"
  by (induction s) (auto simp: replace_char_def)

lemma fromBase64Url_toBase64Url: "fromBase64Url (toBase64Url s) = s"
proof -
  let ?ds = "map b64_digit (b64_sextets (map of_char s))"
  have "b64_digit n \<noteq> CHR ''-'' \<and> b64_digit n \<noteq> CHR ''_''" if "n < 64" for n
    using that by (auto simp: b64_digit_def char_of_eq_iff take_bit_eq_mod)
  then have ds: "CHR ''-'' \<notin> set ?ds" "CHR ''_'' \<notin> set ?ds"
    using sextets_bounded[OF bytes_bounded[of s]] by (fastforce simp: in_set_conv_nth)+
  then have "replace_char (CHR ''_'') (CHR ''/'') (replace_char (CHR ''-'') (CHR ''+'') (toBase64Url s)) = ?ds"
    unfolding toBase64Url_digits by (intro replace_back) auto
  then show ?thesis
    by (simp add: fromBase64Url_def from_base64_digits sextets_bounded[OF bytes_bounded]
        octets_sextets[OF bytes_bounded] comp_def)
qed

lemma cursor_roundtrip: "json_ok (JObj obj) \<Longrightarrow> decodeCursor (Some (encodeCursor obj)) = Some obj"
proof -
  assume ok: "json_ok (JObj obj)"
  have "encodeCursor obj \<noteq> []"
    using from_to_base64[of "json_text (JObj obj)"] by (auto simp: encodeCursor_def from_base64_def)
  then show ?thesis
    using json_roundtrip[OF ok] by (simp add: decodeCursor_def encodeCursor_def from_to_base64)
qed

end
