(* ===== verification/Idempotency.thy ===== *)
theory Idempotency
  imports Codec "HOL-Library.List_Lexorder" "HOL-Library.Char_ord"
begin

text \<open>
  Idempotent confession creation: key scoping (\<^verbatim>\<open>confession/idempotency-scope.ts\<close>), the idempotency
  service (\<^verbatim>\<open>confession/confession-idempotency.service.ts\<close>) over its record table
  (\<^verbatim>\<open>entities/confession-idempotency-record.entity.ts\<close>), and the guard around creation in
  \<open>ConfessionService.create\<close>.  SHA-256 is an argument.  Shown: keys of different operations or sessions
  never meet, the payload hash ignores tag order, a mismatching payload is refused on every path, at
  most one request at a time runs the creation for a key however requests interleave, crash and
  retry, and a completed record never changes again.
\<close>

section \<open>Scoping of keys\<close>

record idem_scope =
  sc_operation :: string
  sc_sessionId :: string

definition DEFAULT_IDEMPOTENCY_OPERATION :: string where
  "DEFAULT_IDEMPOTENCY_OPERATION = ''POST /confessions''"

definition ANONYMOUS_SESSION_ID :: string where
  "ANONYMOUS_SESSION_ID = ''anonymous''"

definition DEFAULT_IDEMPOTENCY_SCOPE :: idem_scope where
  "DEFAULT_IDEMPOTENCY_SCOPE =
     \<lparr>sc_operation = DEFAULT_IDEMPOTENCY_OPERATION, sc_sessionId = ANONYMOUS_SESSION_ID\<rparr>"

text \<open>A header value is a string or an array; missing entries are \<open>None\<close>.\<close>

datatype header_value = HStr string | HArr "string option list"

record idem_request =
  rq_user :: "(string option \<times> string option) option"
  rq_anonymousContextId :: "string option"
  rq_headers :: "(string \<rightharpoonup> header_value) option"
  rq_cookies :: "(string \<rightharpoonup> string) option"

fun firstString :: "string option list \<Rightarrow> string option" where
  "firstString [] = None"
| "firstString (None # vs) = firstString vs"
| "firstString (Some v # vs) = (if js_trim v \<noteq> [] then Some (js_trim v) else firstString vs)"

definition lower_char :: "char \<Rightarrow> char" where
  "lower_char c = (let n = (of_char c :: nat) in if 65 \<le> n \<and> n \<le> 90 then char_of (n + 32) else c)"

definition header :: "idem_request option \<Rightarrow> string \<Rightarrow> string option" where
  "header req name =
     (case Option.bind req rq_headers of
        None \<Rightarrow> None
      | Some headers \<Rightarrow>
          (case (case headers name of Some v \<Rightarrow> Some v | None \<Rightarrow> headers (map lower_char name)) of
             None \<Rightarrow> firstString [None]
           | Some (HArr vs) \<Rightarrow> firstString [case vs of [] \<Rightarrow> None | v # _ \<Rightarrow> v]
           | Some (HStr v) \<Rightarrow> firstString [Some v]))"

definition cookie :: "idem_request option \<Rightarrow> string \<Rightarrow> string option" where
  "cookie req name = firstString [Option.bind (Option.bind req rq_cookies) (\<lambda>c. c name)]"

definition resolveIdempotencySessionId :: "idem_request option \<Rightarrow> string" where
  "resolveIdempotencySessionId req =
     (case firstString [Option.bind (Option.bind req rq_user) fst, Option.bind (Option.bind req rq_user) snd] of
        Some userId \<Rightarrow> ''user:'' @ userId
      | None \<Rightarrow>
     (case firstString [Option.bind req rq_anonymousContextId] of
        Some anonymousContextId \<Rightarrow> ''anon:'' @ anonymousContextId
      | None \<Rightarrow>
     (case header req ''x-anonymous-user-id'' of
        Some anonHeader \<Rightarrow> ''anon-header:'' @ anonHeader
      | None \<Rightarrow>
     (case firstString [cookie req ''csrf-token'', cookie req ''csrfToken'', header req ''x-csrf-token''] of
        Some csrf \<Rightarrow> ''csrf:'' @ csrf
      | None \<Rightarrow> ANONYMOUS_SESSION_ID))))"

definition buildIdempotencyScope :: "idem_request option \<Rightarrow> string \<Rightarrow> idem_scope" where
  "buildIdempotencyScope req operation =
     \<lparr>sc_operation = operation, sc_sessionId = resolveIdempotencySessionId req\<rparr>"

definition NUL :: char where "NUL = CHR 0x00"

definition scoped_preimage :: "string \<Rightarrow> idem_scope \<Rightarrow> string" where
  "scoped_preimage clientKey sc = sc_operation sc @ [NUL] @ sc_sessionId sc @ [NUL] @ clientKey"

definition computeScopedIdempotencyKey ::
    "(string \<Rightarrow> string) \<Rightarrow> string \<Rightarrow> idem_scope option \<Rightarrow> string" where
  "computeScopedIdempotencyKey sha clientKey sc =
     sha (scoped_preimage clientKey (nullish sc DEFAULT_IDEMPOTENCY_SCOPE))"

section \<open>The payload hash\<close>

record confession_payload =
  pl_message :: string
  pl_gender :: "string option"
  pl_tags :: "string list option"
  pl_stellarTxHash :: "string option"

definition payload_json :: "confession_payload \<Rightarrow> json" where
  "payload_json p = JObj
     [(''message'', JStr (pl_message p)),
      (''gender'', json_nullable JStr (pl_gender p)),
      (''tags'', json_nullable (\<lambda>ts. JArr (map JStr (sort ts))) (pl_tags p)),
      (''stellarTxHash'', json_nullable JStr (pl_stellarTxHash p))]"

definition canonical_payload :: "confession_payload \<Rightarrow> string" where
  "canonical_payload p = json_text (payload_json p)"

definition computePayloadHash :: "(string \<Rightarrow> string) \<Rightarrow> confession_payload \<Rightarrow> string" where
  "computePayloadHash sha p = sha (canonical_payload p)"

section \<open>Records and their statements\<close>

datatype idem_status = Processing | Completed | Failed

record idem_record =
  ir_id :: ident
  ir_idempotencyKey :: string
  ir_payloadHash :: string
  ir_status :: idem_status
  ir_responseStatus :: "nat option"
  ir_responseBody :: "string option"
  ir_confessionId :: "ident option"

record confession_row =
  cf_id :: ident
  cf_message :: string

record idem_check =
  ic_isReplay :: bool
  ic_cachedResponse :: "confession_row option"
  ic_cachedStatus :: "nat option"
  ic_record :: idem_record

text \<open>The insert under the unique \<open>idempotency_key\<close> column.\<close>

definition idem_insert :: "idem_record \<Rightarrow> idem_record list \<Rightarrow> idem_record list option" where
  "idem_insert r t = (if clashes (\<lambda>x. Some (ir_idempotencyKey x)) r t then None else Some (t @ [r]))"

definition new_record :: "ident \<Rightarrow> string \<Rightarrow> string \<Rightarrow> idem_record" where
  "new_record newId idempotencyKey payloadHash =
     \<lparr>ir_id = newId, ir_idempotencyKey = idempotencyKey, ir_payloadHash = payloadHash,
      ir_status = Processing, ir_responseStatus = None, ir_responseBody = None, ir_confessionId = None\<rparr>"

definition tryInsert ::
    "ident \<Rightarrow> string \<Rightarrow> string \<Rightarrow> idem_record list \<Rightarrow> (idem_record \<times> idem_record list) option" where
  "tryInsert newId idempotencyKey payloadHash t =
     (let row = new_record newId idempotencyKey payloadHash
      in case idem_insert row t of None \<Rightarrow> None | Some t' \<Rightarrow> Some (row, t'))"

definition commitSuccess ::
    "idem_record \<Rightarrow> ident \<Rightarrow> string \<Rightarrow> nat \<Rightarrow> idem_record list \<Rightarrow> idem_record list" where
  "commitSuccess rec confessionId responseBody responseStatus t =
     update_where (\<lambda>r. ir_id r = ir_id rec)
       (\<lambda>r. r\<lparr>ir_status := Completed, ir_confessionId := Some confessionId,
             ir_responseStatus := Some responseStatus, ir_responseBody := Some responseBody\<rparr>) t"

definition commitFailure :: "idem_record \<Rightarrow> idem_record list \<Rightarrow> idem_record list" where
  "commitFailure rec t = update_where (\<lambda>r. ir_id r = ir_id rec) (\<lambda>r. r\<lparr>ir_status := Failed\<rparr>) t"

text \<open>The conditional update of \<open>claimFailedRecord\<close>: its row count and the table after it.\<close>

definition claim_update :: "idem_record \<Rightarrow> string \<Rightarrow> idem_record list \<Rightarrow> nat \<times> idem_record list" where
  "claim_update rec payloadHash t =
     (let hit = (\<lambda>r. ir_id r = ir_id rec \<and> ir_status r = Failed)
      in (affected hit t, update_where hit (\<lambda>r. r\<lparr>ir_status := Processing, ir_payloadHash := payloadHash\<rparr>) t))"

section \<open>Checking a key\<close>

definition PROCESSING_MAX_WAIT_MS :: int where "PROCESSING_MAX_WAIT_MS = 5000"

definition conflict_msg :: string where
  "conflict_msg = ''Idempotency key replay conflict: the request body does not match the original submission.''"

definition busy_msg :: string where
  "busy_msg = ''The original request is still being processed. Retry with the same idempotency key.''"

definition gone_msg :: string where
  "gone_msg = ''Idempotency record disappeared unexpectedly. Please retry.''"

definition fresh_result :: "idem_record \<Rightarrow> idem_check" where
  "fresh_result r = \<lparr>ic_isReplay = False, ic_cachedResponse = None, ic_cachedStatus = None, ic_record = r\<rparr>"

definition replay_result :: "(ident \<rightharpoonup> confession_row) \<Rightarrow> idem_record \<Rightarrow> idem_check" where
  "replay_result confs r =
     \<lparr>ic_isReplay = True, ic_cachedResponse = Option.bind (ir_confessionId r) confs,
      ic_cachedStatus = ir_responseStatus r, ic_record = r\<rparr>"

definition find_record :: "string \<Rightarrow> idem_record list \<Rightarrow> idem_record option" where
  "find_record idempotencyKey t = find_one (\<lambda>r. ir_idempotencyKey r = idempotencyKey) t"

text \<open>
  One turn of the polling loop as the request sees it: the clock when the loop condition is tested,
  the table its \<open>findOne\<close> reads, and the clock and table when a claim, if it comes to that, is run.
  Other requests may have changed the table in between.
\<close>

record poll =
  po_now :: ms
  po_read :: "idem_record list"
  po_claim_now :: ms
  po_claim :: "idem_record list"

text \<open>
  \<open>waitForProcessing\<close> and \<open>claimFailedRecord\<close> call each other: a failed claim waits again with a fresh
  deadline, and the outer loop, which ignores a replay found by the inner one, goes on polling.  The
  pending calls are a stack of deadlines, innermost first.  The observations are a list; \<open>None\<close>
  means that the request is still waiting when they end.  With a result comes the table it
  left behind when a claim was made.
\<close>

fun waitForProcessing ::
    "(ident \<rightharpoonup> confession_row) \<Rightarrow> string \<Rightarrow> string \<Rightarrow> ms list \<Rightarrow> poll list \<Rightarrow>
     (idem_check outcome \<times> idem_record list option) option" where
  "waitForProcessing confs key hash [] ps = None"
| "waitForProcessing confs key hash (d # ds) [] = None"
| "waitForProcessing confs key hash (d # ds) (p # ps) =
     (if \<not> po_now p < d then Some (Inl (ServiceUnavailableException busy_msg), None)
      else case find_record key (po_read p) of
        None \<Rightarrow> Some (Inl (ServiceUnavailableException busy_msg), None)
      | Some r \<Rightarrow>
          if ir_payloadHash r \<noteq> hash then Some (Inl (ConflictException conflict_msg), None)
          else if ir_status r = Completed \<and> ir_responseBody r \<noteq> None then
            (if ds = [] then Some (Inr (replay_result confs r), None)
             else waitForProcessing confs key hash ds ps)
          else if ir_status r = Failed then
            (case claim_update r hash (po_claim p) of (n, t') \<Rightarrow>
               if n = 1 then Some (Inr (fresh_result r), Some t')
               else waitForProcessing confs key hash ((po_claim_now p + PROCESSING_MAX_WAIT_MS) # d # ds) ps)
          else waitForProcessing confs key hash (d # ds) ps)"

definition claimFailedRecord ::
    "(ident \<rightharpoonup> confession_row) \<Rightarrow> idem_record \<Rightarrow> string \<Rightarrow> ms \<Rightarrow> idem_record list \<Rightarrow> poll list \<Rightarrow>
     (idem_check outcome \<times> idem_record list option) option" where
  "claimFailedRecord confs rec hash now t ps =
     (case claim_update rec hash t of (n, t') \<Rightarrow>
        if n = 1 then Some (Inr (fresh_result rec), Some t')
        else waitForProcessing confs (ir_idempotencyKey rec) hash [now + PROCESSING_MAX_WAIT_MS] ps)"

definition handleExistingRecord ::
    "(ident \<rightharpoonup> confession_row) \<Rightarrow> string \<Rightarrow> string \<Rightarrow> ms \<Rightarrow> idem_record list \<Rightarrow> idem_record list \<Rightarrow> poll list \<Rightarrow>
     (idem_check outcome \<times> idem_record list option) option" where
  "handleExistingRecord confs key hash now t t_claim ps =
     (case find_record key t of
        None \<Rightarrow> Some (Inl (ServiceUnavailableException gone_msg), None)
      | Some r \<Rightarrow>
          if ir_payloadHash r \<noteq> hash then Some (Inl (ConflictException conflict_msg), None)
          else if ir_status r = Completed \<and> ir_responseBody r \<noteq> None
               then Some (Inr (replay_result confs r), None)
          else if ir_status r = Failed then claimFailedRecord confs r hash now t_claim ps
          else waitForProcessing confs key hash [now + PROCESSING_MAX_WAIT_MS] ps)"

text \<open>
  \<open>check\<close>: the insert runs on \<open>t\<close>; if it loses, the row is read from \<open>t_read\<close> and, for a failed row,
  claimed on \<open>t_claim\<close>.
\<close>

definition idem_check_key ::
    "(string \<Rightarrow> string) \<Rightarrow> (ident \<rightharpoonup> confession_row) \<Rightarrow> ident \<Rightarrow> string \<Rightarrow> string \<Rightarrow> idem_scope option \<Rightarrow> ms \<Rightarrow>
     idem_record list \<Rightarrow> idem_record list \<Rightarrow> idem_record list \<Rightarrow> poll list \<Rightarrow>
     (idem_check outcome \<times> idem_record list option) option" where
  "idem_check_key sha confs newId clientKey hash sc now t t_read t_claim ps =
     (let key = computeScopedIdempotencyKey sha clientKey sc
      in case tryInsert newId key hash t of
           Some (row, t') \<Rightarrow> Some (Inr (fresh_result row), Some t')
         | None \<Rightarrow> handleExistingRecord confs key hash now t_read t_claim ps)"

text \<open>
  The guard in \<open>ConfessionService.create\<close>, after the check: replay, or run the creation and commit its
  outcome on the table of that moment.  \<open>sanitize\<close>, \<open>decrypt\<close> and the creation itself are arguments.
\<close>

definition MAX_CONFESSION_LENGTH :: nat where "MAX_CONFESSION_LENGTH = 1000"

definition validate_message :: "(string \<Rightarrow> string) \<Rightarrow> string \<Rightarrow> string outcome" where
  "validate_message sanitize message =
     (let msg = sanitize message in
      if msg = [] then Inl (BadRequestException ''Invalid confession content'')
      else if length msg > MAX_CONFESSION_LENGTH
      then Inl (BadRequestException (''Confession cannot exceed '' @ nat_str MAX_CONFESSION_LENGTH @
             '' characters (received '' @ nat_str (length msg) @ '')''))
      else Inr msg)"

definition create_guarded ::
    "(string \<Rightarrow> string) \<Rightarrow> string \<Rightarrow> idem_check outcome \<Rightarrow> (string \<Rightarrow> confession_row outcome) \<Rightarrow>
     idem_record list \<Rightarrow> confession_row option outcome \<times> idem_record list" where
  "create_guarded decrypt msg chk executeCreate t =
     (case chk of
        Inl e \<Rightarrow> (Inl e, t)
      | Inr res \<Rightarrow>
          if ic_isReplay res
          then (Inr (map_option (\<lambda>c. c\<lparr>cf_message := decrypt (cf_message c)\<rparr>) (ic_cachedResponse res)), t)
          else (case executeCreate (ir_idempotencyKey (ic_record res)) of
                  Inl e \<Rightarrow> (Inl e, commitFailure (ic_record res) t)
                | Inr c \<Rightarrow> (Inr (Some c), commitSuccess (ic_record res) (cf_id c) msg 201 t)))"

section \<open>Requests racing for a key\<close>

text \<open>
  The record table with, for every running request, the record it was told to create for
  (\<open>isReplay = false\<close>).  The steps are the statements of the service that change something; reads and
  waits change nothing.  A request may crash between the check and the commit.
\<close>

record idem_sys =
  sy_table :: "idem_record list"
  sy_owner :: "nat \<Rightarrow> idem_record option"

inductive idem_step :: "idem_sys \<Rightarrow> idem_sys \<Rightarrow> bool" where
  insert: "sy_owner s q = None \<Longrightarrow> newId \<notin> ir_id ` set (sy_table s) \<Longrightarrow>
    tryInsert newId key hash (sy_table s) = Some (row, t) \<Longrightarrow>
    idem_step s \<lparr>sy_table = t, sy_owner = (sy_owner s)(q := Some row)\<rparr>"
| claim: "sy_owner s q = None \<Longrightarrow> ir_payloadHash r = hash \<Longrightarrow>
    claim_update r hash (sy_table s) = (1, t) \<Longrightarrow>
    idem_step s \<lparr>sy_table = t, sy_owner = (sy_owner s)(q := Some r)\<rparr>"
| success: "sy_owner s q = Some r \<Longrightarrow>
    idem_step s \<lparr>sy_table = commitSuccess r cid body status (sy_table s), sy_owner = (sy_owner s)(q := None)\<rparr>"
| failure: "sy_owner s q = Some r \<Longrightarrow>
    idem_step s \<lparr>sy_table = commitFailure r (sy_table s), sy_owner = (sy_owner s)(q := None)\<rparr>"
| crash: "sy_owner s q = Some r \<Longrightarrow>
    idem_step s (s\<lparr>sy_owner := (sy_owner s)(q := None)\<rparr>)"

inductive idem_reachable :: "idem_sys \<Rightarrow> bool" where
  start: "idem_reachable \<lparr>sy_table = [], sy_owner = (\<lambda>_. None)\<rparr>"
| step: "idem_reachable s \<Longrightarrow> idem_step s s' \<Longrightarrow> idem_reachable s'"

definition idem_inv :: "idem_sys \<Rightarrow> bool" where
  "idem_inv s \<longleftrightarrow> distinct (map ir_id (sy_table s)) \<and>
     uniq_on (\<lambda>r. Some (ir_idempotencyKey r)) (sy_table s) \<and>
     (\<forall>q r. sy_owner s q = Some r \<longrightarrow> (\<exists>x \<in> set (sy_table s). ir_id x = ir_id r \<and> ir_status x = Processing)) \<and>
     (\<forall>q q' r r'. sy_owner s q = Some r \<longrightarrow> sy_owner s q' = Some r' \<longrightarrow> ir_id r = ir_id r' \<longrightarrow> q = q')"

interpretation idem_keys: sole_unique_index "\<lambda>r. Some (ir_idempotencyKey r)" idem_insert
  by unfold_locales (auto simp: idem_insert_def split: if_splits)

section \<open>Lemmas\<close>

lemma find_record_SomeD: "find_record k t = Some r \<Longrightarrow> r \<in> set t \<and> ir_idempotencyKey r = k"
  unfolding find_record_def by (drule find_one_SomeD) simp

lemma tryInsert_SomeD:
  assumes "tryInsert newId k h t = Some (row, t')"
  shows "row = new_record newId k h \<and> t' = t @ [row] \<and> k \<notin> ir_idempotencyKey ` set t"
proof -
  from assms have row: "row = new_record newId k h" and ins: "idem_insert row t = Some t'"
    by (auto simp: tryInsert_def Let_def split: option.splits)
  have "\<not> clashes (\<lambda>x. Some (ir_idempotencyKey x)) row t"
    using ins idem_keys.ins_checked by force
  with row idem_keys.ins_appends[OF ins] show ?thesis
    by (simp add: clashes_def new_record_def)
qed

text \<open>The three statements that rewrite rows touch neither ids nor keys.\<close>

definition key_safe :: "(idem_record \<Rightarrow> bool) \<Rightarrow> (idem_record \<Rightarrow> idem_record) \<Rightarrow> bool" where
  "key_safe P f \<longleftrightarrow> (\<forall>r. ir_id (f r) = ir_id r \<and> ir_idempotencyKey (f r) = ir_idempotencyKey r)"

lemma key_safe_keep_keys:
  assumes "key_safe P f"
  shows "map ir_id (update_where P f t) = map ir_id t"
    and "map ir_idempotencyKey (update_where P f t) = map ir_idempotencyKey t"
  using assms by (auto simp: key_safe_def intro!: map_update_where)

lemma idem_inv_rewrite:
  assumes inv: "idem_inv s" and rwr: "key_safe P f"
    and own: "\<And>q r. ow q = Some r \<Longrightarrow>
       \<exists>x \<in> set (update_where P f (sy_table s)). ir_id x = ir_id r \<and> ir_status x = Processing"
    and inj: "\<And>q q' r r'. ow q = Some r \<Longrightarrow> ow q' = Some r' \<Longrightarrow> ir_id r = ir_id r' \<Longrightarrow> q = q'"
  shows "idem_inv \<lparr>sy_table = update_where P f (sy_table s), sy_owner = ow\<rparr>"
proof -
  have "distinct (map ir_id (update_where P f (sy_table s)))"
    and "uniq_on (\<lambda>r. Some (ir_idempotencyKey r)) (update_where P f (sy_table s))"
    using inv by (simp_all add: idem_inv_def uniq_on_total key_safe_keep_keys[OF rwr])
  then show ?thesis using own inj unfolding idem_inv_def by simp
qed

lemma idem_inv_ownerD:
  assumes "idem_inv s" "sy_owner s q = Some r"
  obtains x where "x \<in> set (sy_table s)" "ir_id x = ir_id r" "ir_status x = Processing"
  using assms unfolding idem_inv_def by blast

lemma idem_inv_owner_eq:
  "idem_inv s \<Longrightarrow> sy_owner s q = Some r \<Longrightarrow> sy_owner s q' = Some r' \<Longrightarrow> ir_id r = ir_id r' \<Longrightarrow> q = q'"
  unfolding idem_inv_def by blast

lemma idem_inv_idD:
  "idem_inv s \<Longrightarrow> x \<in> set (sy_table s) \<Longrightarrow> y \<in> set (sy_table s) \<Longrightarrow> ir_id x = ir_id y \<Longrightarrow> x = y"
  unfolding idem_inv_def by (blast dest: distinct_keys_eq)

lemma idem_inv_release:
  assumes inv: "idem_inv s" and q: "sy_owner s q = Some r" and rwr: "key_safe (\<lambda>x. ir_id x = ir_id r) f"
  shows "idem_inv \<lparr>sy_table = update_where (\<lambda>x. ir_id x = ir_id r) f (sy_table s),
                   sy_owner = (sy_owner s)(q := None)\<rparr>"
proof (rule idem_inv_rewrite[OF inv rwr])
  fix q' r' assume "((sy_owner s)(q := None)) q' = Some r'"
  then have q': "q' \<noteq> q" "sy_owner s q' = Some r'" by (auto split: if_splits)
  then have "ir_id r' \<noteq> ir_id r" using idem_inv_owner_eq[OF inv q] by fastforce
  with idem_inv_ownerD[OF inv q'(2)]
  show "\<exists>x \<in> set (update_where (\<lambda>x. ir_id x = ir_id r) f (sy_table s)).
          ir_id x = ir_id r' \<and> ir_status x = Processing"
    by (force simp: set_update_where)
next
  fix q1 q2 r1 r2
  assume "((sy_owner s)(q := None)) q1 = Some r1" "((sy_owner s)(q := None)) q2 = Some r2" "ir_id r1 = ir_id r2"
  then show "q1 = q2" using idem_inv_owner_eq[OF inv] by (auto split: if_splits)
qed

lemma idem_inv_claim:
  assumes inv: "idem_inv s" and q: "sy_owner s q = None"
    and cl: "claim_update r hash (sy_table s) = (1, t)"
  shows "idem_inv \<lparr>sy_table = t, sy_owner = (sy_owner s)(q := Some r)\<rparr>"
proof -
  let ?hit = "\<lambda>x. ir_id x = ir_id r \<and> ir_status x = Failed"
  let ?f = "\<lambda>x. x\<lparr>ir_status := Processing, ir_payloadHash := hash\<rparr>"
  have t: "t = update_where ?hit ?f (sy_table s)" and "0 < affected ?hit (sy_table s)"
    using cl by (auto simp: claim_update_def Let_def)
  then obtain x where x: "x \<in> set (sy_table s)" "?hit x" by (auto simp: affected_pos_iff)
  have foreign: "ir_id r' \<noteq> ir_id r" if own: "sy_owner s q' = Some r'" for q' r'
  proof -
    obtain y where "y \<in> set (sy_table s)" "ir_id y = ir_id r'" "ir_status y = Processing"
      by (rule idem_inv_ownerD[OF inv own])
    with idem_inv_idD[OF inv x(1)] x(2) show ?thesis by fastforce
  qed
  show ?thesis unfolding t
  proof (rule idem_inv_rewrite[OF inv])
    show "key_safe ?hit ?f" by (simp add: key_safe_def)
    fix q' r' assume q': "((sy_owner s)(q := Some r)) q' = Some r'"
    show "\<exists>y \<in> set (update_where ?hit ?f (sy_table s)). ir_id y = ir_id r' \<and> ir_status y = Processing"
    proof (cases "q' = q")
      case True
      with q' x(2) show ?thesis by (intro bexI[OF _ update_where_hitI[where P = ?hit and f = ?f, OF x]]) simp
    next
      case False
      with q' have own: "sy_owner s q' = Some r'" by simp
      from idem_inv_ownerD[OF inv own] foreign[OF own] show ?thesis by (force simp: set_update_where)
    qed
  next
    fix q1 q2 r1 r2
    assume "((sy_owner s)(q := Some r)) q1 = Some r1" "((sy_owner s)(q := Some r)) q2 = Some r2"
      "ir_id r1 = ir_id r2"
    then show "q1 = q2" using foreign idem_inv_owner_eq[OF inv] by (force split: if_splits)
  qed
qed

lemma idem_inv_insert:
  assumes inv: "idem_inv s" and q: "sy_owner s q = None" and new: "newId \<notin> ir_id ` set (sy_table s)"
    and ins: "tryInsert newId key hash (sy_table s) = Some (row, t)"
  shows "idem_inv \<lparr>sy_table = t, sy_owner = (sy_owner s)(q := Some row)\<rparr>"
proof -
  from tryInsert_SomeD[OF ins] have row: "row = new_record newId key hash" and t: "t = sy_table s @ [row]"
    and k: "key \<notin> ir_idempotencyKey ` set (sy_table s)" by auto
  have "ir_id r' \<noteq> newId" if "sy_owner s q' = Some r'" for q' r'
    using idem_inv_ownerD[OF inv that] new by (metis imageI)
  then show ?thesis
    using inv new k by (auto simp: idem_inv_def t row new_record_def uniq_on_total split: if_splits)
qed

lemma idem_step_inv: "idem_step s s' \<Longrightarrow> idem_inv s \<Longrightarrow> idem_inv s'"
proof (induction rule: idem_step.induct)
  case (crash s q r)
  then show ?case unfolding idem_inv_def by (simp split: if_splits)
next
  case (success s q r cid body status)
  then show ?case
    unfolding commitSuccess_def by (intro idem_inv_release) (auto simp: key_safe_def)
next
  case (failure s q r)
  then show ?case
    unfolding commitFailure_def by (intro idem_inv_release) (auto simp: key_safe_def)
qed (blast intro: idem_inv_insert idem_inv_claim)+

lemma idem_reachable_inv: "idem_reachable s \<Longrightarrow> idem_inv s"
proof (induction rule: idem_reachable.induct)
  case start
  show ?case by (simp add: idem_inv_def)
qed (rule idem_step_inv)


lemma sort_by_mset: "mset xs = mset (ys :: 'a::linorder list) \<Longrightarrow> sort xs = sort ys"
  by (metis mset_sort properties_for_sort sorted_sort)

lemma payload_json_ok: "json_ok (payload_json p)"
  by (auto simp: payload_json_def json_nullable_def list_all_iff split: option.split)

lemma JStr_map_inj: "map JStr xs = map JStr ys \<longleftrightarrow> xs = ys"
  by (metis json.inject(4) list.inj_map_strong)

lemma payload_json_eq_iff:
  "payload_json p = payload_json q \<longleftrightarrow>
     pl_message p = pl_message q \<and> pl_gender p = pl_gender q \<and>
     map_option mset (pl_tags p) = map_option mset (pl_tags q) \<and> pl_stellarTxHash p = pl_stellarTxHash q"
proof -
  have "sort xs = sort ys \<longleftrightarrow> mset xs = mset ys" for xs ys :: "string list"
    by (metis mset_sort sort_by_mset)
  then show ?thesis
    by (auto simp: payload_json_def json_nullable_def JStr_map_inj split: option.splits)
qed

text \<open>Two separator-free fields in front make the concatenation uniquely readable.\<close>

lemma nul_split:
  assumes "a @ [NUL] @ x = b @ [NUL] @ y" "NUL \<notin> set a" "NUL \<notin> set b"
  shows "a = b \<and> x = y"
  using assms
proof (induction a arbitrary: b)
  case Nil
  then show ?case by (cases b) auto
next
  case (Cons c a)
  then show ?case by (cases b) auto
qed

lemma scoped_preimage_inj:
  assumes "scoped_preimage k sc = scoped_preimage k' sc'"
    and "NUL \<notin> set (sc_operation sc)" "NUL \<notin> set (sc_operation sc')"
    and "NUL \<notin> set (sc_sessionId sc)" "NUL \<notin> set (sc_sessionId sc')"
  shows "k = k' \<and> sc_operation sc = sc_operation sc' \<and> sc_sessionId sc = sc_sessionId sc'"
proof -
  have "sc_operation sc = sc_operation sc' \<and>
      sc_sessionId sc @ [NUL] @ k = sc_sessionId sc' @ [NUL] @ k'"
    using assms(1-3) by (intro nul_split) (simp_all add: scoped_preimage_def)
  then show ?thesis using nul_split[OF _ assms(4,5)] by blast
qed

text \<open>Every path that answers a request for an existing key has compared the payload hash first.\<close>

lemma waitForProcessing_hash:
  "waitForProcessing confs key hash ds ps = Some (Inr res, u) \<Longrightarrow>
   ir_payloadHash (ic_record res) = hash \<and> ir_idempotencyKey (ic_record res) = key \<and>
   (if ic_isReplay res then ir_status (ic_record res) = Completed \<and> u = None
    else \<exists>t t'. claim_update (ic_record res) hash t = (1, t') \<and> u = Some t')"
proof (induction confs key hash ds ps rule: waitForProcessing.induct)
  case (3 confs key hash d ds p ps)
  then show ?case
    by (auto simp: fresh_result_def replay_result_def dest!: find_record_SomeD
        split: if_splits option.splits prod.splits)
qed auto

lemma waitForProcessing_stays_busy:
  assumes "\<And>p. p \<in> set ps \<Longrightarrow>
     \<exists>r. find_record key (po_read p) = Some r \<and> ir_payloadHash r = hash \<and> ir_status r = Processing"
    and "p \<in> set ps" "d \<le> po_now p"
  shows "waitForProcessing confs key hash [d] ps = Some (Inl (ServiceUnavailableException busy_msg), None)"
  using assms
proof (induction ps)
  case (Cons p' ps)
  obtain r where "find_record key (po_read p') = Some r" "ir_payloadHash r = hash" "ir_status r = Processing"
    using Cons.prems(1) by fastforce
  then show ?case using Cons by auto
qed simp


lemma handleExistingRecord_hash:
  assumes "handleExistingRecord confs key hash now t t_claim ps = Some (Inr res, u)"
  shows "ir_payloadHash (ic_record res) = hash \<and> ir_idempotencyKey (ic_record res) = key \<and>
    (if ic_isReplay res then ir_status (ic_record res) = Completed \<and> u = None
     else \<exists>t t'. claim_update (ic_record res) hash t = (1, t') \<and> u = Some t')"
  using assms
  by (auto simp: handleExistingRecord_def claimFailedRecord_def dest!: waitForProcessing_hash find_record_SomeD
      split: if_splits option.splits prod.splits) (auto simp: fresh_result_def replay_result_def)

section \<open>Properties\<close>


definition demo_sys :: idem_sys where
  "demo_sys = \<lparr>sy_table = [new_record ''r1'' ''k'' ''h''], sy_owner = (\<lambda>_. None)(7 := Some (new_record ''r1'' ''k'' ''h''))\<rparr>"

lemma demo_sys_reachable: "idem_reachable demo_sys"
proof -
  have "tryInsert ''r1'' ''k'' ''h'' [] = Some (new_record ''r1'' ''k'' ''h'', [new_record ''r1'' ''k'' ''h''])"
    by code_simp
  then show ?thesis
    unfolding demo_sys_def
    using idem_reachable.step[OF idem_reachable.start idem_step.insert[of "\<lparr>sy_table = [], sy_owner = (\<lambda>_. None)\<rparr>" 7]]
    by simp
qed


text \<open>
  A completed record is final: no step of any request changes it, so a key whose confession was
  created once keeps replaying that confession.
\<close>

theorem completed_is_final:
  assumes reach: "idem_reachable s" and x: "x \<in> set (sy_table s)" "ir_status x = Completed"
    and st: "idem_step s s'"
  shows "x \<in> set (sy_table s')"
proof -
  have inv: "idem_inv s" by (rule idem_reachable_inv[OF reach])
  have owned: "ir_id x \<noteq> ir_id r" if own: "sy_owner s q = Some r" for q r
  proof -
    obtain y where "y \<in> set (sy_table s)" "ir_id y = ir_id r" "ir_status y = Processing"
      by (rule idem_inv_ownerD[OF inv own])
    with idem_inv_idD[OF inv x(1)] x(2) show ?thesis by fastforce
  qed
  from st show ?thesis
  proof cases
    case (insert q newId key hash row t)
    with x tryInsert_SomeD show ?thesis by fastforce
  next
    case (claim q r hash t)
    with x show ?thesis by (auto simp: claim_update_def Let_def set_update_where)
  next
    case (success q r cid body status)
    with x owned show ?thesis by (simp add: commitSuccess_def update_where_missI)
  next
    case (failure q r)
    with x owned show ?thesis by (simp add: commitFailure_def update_where_missI)
  next
    case (crash q r)
    with x show ?thesis by simp
  qed
qed

definition demo_done :: idem_sys where
  "demo_done = \<lparr>sy_table = commitSuccess (new_record ''r1'' ''k'' ''h'') ''c1'' ''body'' 201 (sy_table demo_sys),
     sy_owner = (sy_owner demo_sys)(7 := None)\<rparr>"

theorem completed_is_final_witness:
  "\<exists>s'. idem_step demo_done s' \<and> length (sy_table s') = 2 \<and> hd (sy_table demo_done) \<in> set (sy_table s')"
proof -
  have reach: "idem_reachable demo_done"
    unfolding demo_done_def
    by (rule idem_reachable.step[OF demo_sys_reachable idem_step.success]) (simp add: demo_sys_def)
  have new: "tryInsert ''r2'' ''k2'' ''h'' (sy_table demo_done)
      = Some (new_record ''r2'' ''k2'' ''h'', sy_table demo_done @ [new_record ''r2'' ''k2'' ''h''])"
    by code_simp
  have free: "sy_owner demo_done 9 = None" by (simp add: demo_done_def demo_sys_def)
  have fresh: "''r2'' \<notin> ir_id ` set (sy_table demo_done)" by code_simp
  have len: "length (sy_table demo_done) = 1" by code_simp
  have mem: "hd (sy_table demo_done) \<in> set (sy_table demo_done)"
    "ir_status (hd (sy_table demo_done)) = Completed" by code_simp+
  note st = idem_step.insert[OF free fresh new]
  from completed_is_final[OF reach mem st] st len show ?thesis by fastforce
qed


text \<open>
  A key never lets one payload answer for another: whenever the check gives a result for a key
  that another request holds, the result's record carries the caller's own payload hash and scoped
  key; it is a replay only of a completed record, and permission to create only after a claim
  that changed exactly one failed row.
\<close>

theorem check_respects_payload:
  assumes "tryInsert newId (computeScopedIdempotencyKey sha k sc) hash t = None"
    and "idem_check_key sha confs newId k hash sc now t t_read t_claim ps = Some (Inr res, u)"
  shows "ir_payloadHash (ic_record res) = hash \<and>
    ir_idempotencyKey (ic_record res) = computeScopedIdempotencyKey sha k sc \<and>
    (if ic_isReplay res then ir_status (ic_record res) = Completed \<and> u = None
     else \<exists>t t'. claim_update (ic_record res) hash t = (1, t') \<and> u = Some t')"
  using assms by (intro handleExistingRecord_hash) (simp add: idem_check_key_def Let_def)

definition demo_scoped :: string where
  "demo_scoped = computeScopedIdempotencyKey (\<lambda>s. s) ''k'' None"

definition demo_failed_table :: "idem_record list" where
  "demo_failed_table = commitFailure (new_record ''r1'' demo_scoped ''h'') [new_record ''r1'' demo_scoped ''h'']"

theorem check_respects_payload_witness:
  "\<exists>res u. idem_check_key (\<lambda>s. s) Map.empty ''r2'' ''k'' ''h'' None 0
     demo_failed_table demo_failed_table demo_failed_table [] = Some (Inr res, u) \<and>
     \<not> ic_isReplay res \<and> ir_payloadHash (ic_record res) = ''h'' \<and> u \<noteq> None"
proof -
  have lost: "tryInsert ''r2'' (computeScopedIdempotencyKey (\<lambda>s. s) ''k'' None) ''h'' demo_failed_table = None"
    by code_simp
  have got: "idem_check_key (\<lambda>s. s) Map.empty ''r2'' ''k'' ''h'' None 0
     demo_failed_table demo_failed_table demo_failed_table []
     = Some (Inr (fresh_result (hd demo_failed_table)), Some [new_record ''r1'' demo_scoped ''h''])"
    by code_simp
  from check_respects_payload[OF lost got] got show ?thesis by (simp add: fresh_result_def)
qed

text \<open>
  Keys are scoped: when SHA-256 does not collide on the two inputs, equal stored keys come from the
  same operation, the same session and the same client key (operations and sessions are
  NUL-free, as HTTP routes and header values are).
\<close>

theorem scoped_keys_separate:
  assumes "inj_on sha {scoped_preimage k sc, scoped_preimage k' sc'}"
    and "computeScopedIdempotencyKey sha k (Some sc) = computeScopedIdempotencyKey sha k' (Some sc')"
    and "NUL \<notin> set (sc_operation sc)" "NUL \<notin> set (sc_operation sc')"
    and "NUL \<notin> set (sc_sessionId sc)" "NUL \<notin> set (sc_sessionId sc')"
  shows "k = k' \<and> sc_operation sc = sc_operation sc' \<and> sc_sessionId sc = sc_sessionId sc'"
proof (rule scoped_preimage_inj[OF _ assms(3-6)])
  show "scoped_preimage k sc = scoped_preimage k' sc'"
    by (rule inj_onD[OF assms(1)]) (use assms(2) in \<open>simp_all add: computeScopedIdempotencyKey_def\<close>)
qed

theorem scoped_keys_separate_witness:
  "''k'' = ''k'' \<and> sc_operation DEFAULT_IDEMPOTENCY_SCOPE = ''POST /confessions'' \<and>
   sc_sessionId DEFAULT_IDEMPOTENCY_SCOPE = ''anonymous''"
  by (rule scoped_keys_separate[where sha = "\<lambda>s. s" and sc' = "\<lparr>sc_operation = ''POST /confessions'', sc_sessionId = ''anonymous''\<rparr>", simplified])
     code_simp+

text \<open>The payload hash does not depend on the order in which the tags were sent.\<close>

theorem payload_hash_ignores_tag_order:
  assumes "mset ts = mset us"
  shows "computePayloadHash sha (p\<lparr>pl_tags := Some ts\<rparr>) = computePayloadHash sha (p\<lparr>pl_tags := Some us\<rparr>)"
  by (simp add: computePayloadHash_def canonical_payload_def payload_json_def json_nullable_def sort_by_mset[OF assms])

theorem payload_hash_ignores_tag_order_witness:
  "computePayloadHash (\<lambda>s. s) \<lparr>pl_message = ''m'', pl_gender = None, pl_tags = Some [''b'', ''a''], pl_stellarTxHash = None\<rparr>
   = computePayloadHash (\<lambda>s. s) \<lparr>pl_message = ''m'', pl_gender = None, pl_tags = Some [''a'', ''b''], pl_stellarTxHash = None\<rparr>"
  using payload_hash_ignores_tag_order[of "[''b'', ''a'']" "[''a'', ''b'']" "\<lambda>s. s"
     "\<lparr>pl_message = ''m'', pl_gender = None, pl_tags = None, pl_stellarTxHash = None\<rparr>"] by simp

text \<open>
  The payload hash identifies the request.  As long as SHA-256 does not collide on the two texts,
  two requests have the same payload hash exactly when they agree in message, gender, transaction
  and tags, the tags in any order.
\<close>

theorem payload_hash_faithful:
  assumes "sha (canonical_payload p) = sha (canonical_payload q) \<Longrightarrow> canonical_payload p = canonical_payload q"
  shows "computePayloadHash sha p = computePayloadHash sha q \<longleftrightarrow>
    pl_message p = pl_message q \<and> pl_gender p = pl_gender q \<and> pl_stellarTxHash p = pl_stellarTxHash q \<and>
    map_option mset (pl_tags p) = map_option mset (pl_tags q)"
proof -
  have "canonical_payload p = canonical_payload q \<longleftrightarrow> payload_json p = payload_json q"
    unfolding canonical_payload_def using json_text_inj[OF payload_json_ok[of p] payload_json_ok[of q]] by auto
  then show ?thesis
    using assms by (auto simp: computePayloadHash_def payload_json_eq_iff)
qed

theorem payload_hash_faithful_witness:
  "computePayloadHash (\<lambda>s. s) \<lparr>pl_message = ''m'', pl_gender = None, pl_tags = Some [''b'', ''a''], pl_stellarTxHash = None\<rparr>
     = computePayloadHash (\<lambda>s. s) \<lparr>pl_message = ''m'', pl_gender = None, pl_tags = Some [''a'', ''b''], pl_stellarTxHash = None\<rparr> \<and>
   computePayloadHash (\<lambda>s. s) \<lparr>pl_message = ''m'', pl_gender = None, pl_tags = None, pl_stellarTxHash = None\<rparr>
     \<noteq> computePayloadHash (\<lambda>s. s) \<lparr>pl_message = ''m'', pl_gender = None, pl_tags = Some [], pl_stellarTxHash = None\<rparr>"
  using payload_hash_faithful[of "\<lambda>s. s"
      "\<lparr>pl_message = ''m'', pl_gender = None, pl_tags = Some [''b'', ''a''], pl_stellarTxHash = None\<rparr>"
      "\<lparr>pl_message = ''m'', pl_gender = None, pl_tags = Some [''a'', ''b''], pl_stellarTxHash = None\<rparr>"]
    payload_hash_faithful[of "\<lambda>s. s"
      "\<lparr>pl_message = ''m'', pl_gender = None, pl_tags = None, pl_stellarTxHash = None\<rparr>"
      "\<lparr>pl_message = ''m'', pl_gender = None, pl_tags = Some [], pl_stellarTxHash = None\<rparr>"]
  by (simp add: add_mset_commute)

text \<open>
  The wait is bounded and fails closed: while the original request stays unfinished, the first poll
  at or after the five-second deadline ends the wait with 503, never with permission to create.
\<close>

theorem wait_times_out:
  assumes "\<And>p. p \<in> set ps \<Longrightarrow>
     \<exists>r. find_record key (po_read p) = Some r \<and> ir_payloadHash r = hash \<and> ir_status r = Processing"
    and "p \<in> set ps" "now + PROCESSING_MAX_WAIT_MS \<le> po_now p"
    and "find_record key t = Some r" "ir_payloadHash r = hash" "ir_status r = Processing"
  shows "handleExistingRecord confs key hash now t t_claim ps
     = Some (Inl (ServiceUnavailableException busy_msg), None)"
  using waitForProcessing_stays_busy[OF assms(1-3)] assms(4-6) by (simp add: handleExistingRecord_def)

theorem wait_times_out_witness:
  "handleExistingRecord Map.empty ''k'' ''h'' 0 [new_record ''r1'' ''k'' ''h''] []
     [\<lparr>po_now = 100, po_read = [new_record ''r1'' ''k'' ''h''], po_claim_now = 100, po_claim = []\<rparr>,
      \<lparr>po_now = 5000, po_read = [new_record ''r1'' ''k'' ''h''], po_claim_now = 5000, po_claim = []\<rparr>]
   = Some (Inl (ServiceUnavailableException busy_msg), None)"
  by (rule wait_times_out[where r = "new_record ''r1'' ''k'' ''h''" and
       p = "\<lparr>po_now = 5000, po_read = [new_record ''r1'' ''k'' ''h''], po_claim_now = 5000, po_claim = []\<rparr>"])
     (auto simp: find_record_def new_record_def PROCESSING_MAX_WAIT_MS_def)

end
