(* ===== verification/Tip_Model.thy ===== *)
theory Tip_Model
  imports XC_Prelude
begin

text \<open>
  Tips: the \<open>tips\<close> table (\<^verbatim>\<open>tipping/entities/tip.entity.ts\<close>) with its two unique columns, amounts as
  JavaScript numbers, and the validation of assets, amounts and precision
  (\<^verbatim>\<open>tipping/tipping.constants.ts\<close>).

  A finite double is represented by the decimal numeral \<open>toString()\<close> prints for it, \<open>JDec m k\<close> for
  \<open>m / 10^k\<close>: printing is injective and monotone, so comparisons and digit counts on the numeral are
  those of the program.  (\<open>toString()\<close> switches to exponents below \<open>10^-6\<close> and from \<open>10^21\<close> on; the
  bounds check, which always comes first, has rejected such amounts.)
\<close>

section \<open>JavaScript numbers\<close>

datatype jsnum = JNaN | JInf bool | JDec int nat

fun num_lt :: "jsnum \<Rightarrow> jsnum \<Rightarrow> bool" where
  "num_lt JNaN _ = False"
| "num_lt _ JNaN = False"
| "num_lt (JInf pos) (JInf pos') = (\<not> pos \<and> pos')"
| "num_lt (JInf pos) (JDec _ _) = (\<not> pos)"
| "num_lt (JDec _ _) (JInf pos) = pos"
| "num_lt (JDec m k) (JDec m' k') = (m * 10 ^ k' < m' * 10 ^ k)"

fun num_le :: "jsnum \<Rightarrow> jsnum \<Rightarrow> bool" where
  "num_le JNaN _ = False"
| "num_le _ JNaN = False"
| "num_le a b = (\<not> num_lt b a)"

definition is_finite :: "jsnum \<Rightarrow> bool" where
  "is_finite n = (case n of JDec _ _ \<Rightarrow> True | _ \<Rightarrow> False)"

fun strip_zeros :: "int \<Rightarrow> nat \<Rightarrow> int \<times> nat" where
  "strip_zeros m 0 = (m, 0)"
| "strip_zeros m (Suc k) = (if m mod 10 = 0 then strip_zeros (m div 10) k else (m, Suc k))"

text \<open>\<open>n.toString().split('.')[1].length\<close>, 0 when there is no point.\<close>

definition decimal_length :: "jsnum \<Rightarrow> nat" where
  "decimal_length n = (case n of JDec m k \<Rightarrow> snd (strip_zeros m k) | _ \<Rightarrow> 0)"

section \<open>The row\<close>

datatype tip_status = PENDING | STALE_PENDING | VERIFIED | REJECTED | CONFLICT

datatype submission_status = SUBMITTED | CONFIRMED | FAILED | EXPIRED

text \<open>The JSON the metadata columns hold; \<open>{ ...a, ...b }\<close> lets later keys win.\<close>

datatype meta =
    MNull | MStr string | MNum jsnum | MNat nat | MTime ms | MBool bool | MStatus tip_status
  | MObj "(string \<times> meta) list"

type_synonym metadata = "(string \<times> meta) list"

fun meta_put :: "metadata \<Rightarrow> string \<times> meta \<Rightarrow> metadata" where
  "meta_put [] kv = [kv]"
| "meta_put (p # ps) kv = (if fst p = fst kv then kv # ps else p # meta_put ps kv)"

definition spread :: "metadata option \<Rightarrow> metadata \<Rightarrow> metadata" where
  "spread a b = foldl meta_put (nullish a []) b"

definition meta_str :: "string option \<Rightarrow> meta" where
  "meta_str s = (case s of None \<Rightarrow> MNull | Some x \<Rightarrow> MStr x)"

record tip =
  tip_id :: ident
  tip_confessionId :: ident
  tip_amount :: jsnum
  tip_txId :: string
  tip_idempotencyKey :: "string option"
  tip_senderAddress :: "string option"
  tip_verificationStatus :: tip_status
  tip_verifiedAt :: "ms option"
  tip_rejectionReason :: "string option"
  tip_retryCount :: nat
  tip_lastChainStatus :: "string option"
  tip_lastCheckedAt :: "ms option"
  tip_reconciliationMetadata :: "metadata option"
  tip_processingLock :: "string option"
  tip_lockedAt :: "ms option"
  tip_lockedBy :: "string option"
  tip_createdAt :: ms
  tip_submissionStatus :: submission_status
  tip_submittedAt :: "ms option"
  tip_confirmedAt :: "ms option"
  tip_failedAt :: "ms option"
  tip_failureReason :: "string option"
  tip_expiryBlockHeight :: "nat option"
  tip_ledgerSequence :: "nat option"
  tip_sorobanMetadata :: "metadata option"

text \<open>\<open>tx_id\<close> and \<open>idempotency_key\<close> are unique; a violation of either is \<open>None\<close>.\<close>

definition tip_insert :: "tip \<Rightarrow> tip list \<Rightarrow> tip list option" where
  "tip_insert r t =
     (if clashes (\<lambda>x. Some (tip_txId x)) r t \<or> clashes tip_idempotencyKey r t then None else Some (t @ [r]))"

definition tips_wf :: "tip list \<Rightarrow> bool" where
  "tips_wf t \<longleftrightarrow> distinct (map tip_id t) \<and> uniq_on (\<lambda>x. Some (tip_txId x)) t \<and> uniq_on tip_idempotencyKey t"

text \<open>
  What leaves the tipping services besides the row: domain events, audit entries, analytics records
  (\<^verbatim>\<open>eventEmitter.emit\<close>, \<^verbatim>\<open>auditLogService.log\<close>, \<^verbatim>\<open>analyticsEventService.record\<close>).
\<close>

datatype tip_effect =
    EmitVerified ident ident string jsnum
  | EmitVerificationFailed ident string string
  | AuditSettled ident ident string jsnum string
  | AuditDeadLetter ident string ident string nat
  | AnalyticsRecord string string "string option" string string

definition analytics_network :: "bool \<Rightarrow> string" where
  "analytics_network mainnet = (if mainnet then ''mainnet'' else ''testnet'')"

text \<open>\<open>Math.round(amount * 10_000_000).toString()\<close>.  The product of a double below \<open>10^4\<close> with at most
  seven decimals is within \<open>10^-4\<close> of an integer, so rounding it gives the exact value.\<close>

definition amount_atomic :: "jsnum \<Rightarrow> string" where
  "amount_atomic n = (case n of JNaN \<Rightarrow> ''NaN''
     | JInf pos \<Rightarrow> (if pos then ''Infinity'' else ''-Infinity'')
     | JDec m k \<Rightarrow> int_str ((2 * m * 10 ^ 7 + 10 ^ k) div (2 * 10 ^ k)))"

section \<open>Bounds, precision, assets\<close>

definition MIN_TIP_AMOUNT :: jsnum where "MIN_TIP_AMOUNT = JDec 1 1"
definition MAX_TIP_AMOUNT :: jsnum where "MAX_TIP_AMOUNT = JDec 10000 0"
definition TIP_PRECISION :: nat where "TIP_PRECISION = 7"

record tip_asset =
  ta_code :: string
  ta_issuer :: "string option"
  ta_assetType :: string
  ta_precision :: nat

definition SUPPORTED_TIP_ASSETS :: "tip_asset list" where
  "SUPPORTED_TIP_ASSETS = [\<lparr>ta_code = ''XLM'', ta_issuer = None, ta_assetType = ''native'', ta_precision = 7\<rparr>]"

definition validateTipAsset :: "string \<Rightarrow> string option \<Rightarrow> string option \<Rightarrow> tip_asset outcome" where
  "validateTipAsset assetCode assetIssuer assetType =
     (case find_one (\<lambda>a. lower_case (ta_code a) = lower_case assetCode \<and> ta_issuer a = assetIssuer \<and>
                         Some (ta_assetType a) = assetType) SUPPORTED_TIP_ASSETS of
        None \<Rightarrow> Inl (BadRequestException (''Unsupported tip asset: '' @ assetCode))
      | Some matched \<Rightarrow> Inr matched)"

definition validateTipPrecision :: "jsnum \<Rightarrow> nat \<Rightarrow> unit outcome" where
  "validateTipPrecision amount assetPrecision =
     (if decimal_length amount > assetPrecision
      then Inl (BadRequestException (''Tip amount has '' @ nat_str (decimal_length amount) @ '' decimal places''))
      else Inr ())"

definition validateTipAmountBounds :: "jsnum \<Rightarrow> unit outcome" where
  "validateTipAmountBounds amount =
     (if num_le amount (JDec 0 0) then Inl (BadRequestException ''Tip amount must be positive (greater than zero)'')
      else if num_lt amount MIN_TIP_AMOUNT then Inl (BadRequestException ''Tip amount is below minimum'')
      else if num_lt MAX_TIP_AMOUNT amount then Inl (BadRequestException ''Tip amount exceeds maximum'')
      else Inr ())"

definition amount_ok :: "jsnum \<Rightarrow> bool" where
  "amount_ok n \<longleftrightarrow> is_finite n \<and> num_le MIN_TIP_AMOUNT n \<and> num_le n MAX_TIP_AMOUNT \<and> decimal_length n \<le> TIP_PRECISION"

interpretation tip_txs: unique_index "\<lambda>x. Some (tip_txId x)" tip_insert
  by unfold_locales (auto simp: tip_insert_def split: if_splits)

interpretation tip_keys: unique_index tip_idempotencyKey tip_insert
  by unfold_locales (auto simp: tip_insert_def split: if_splits)

section \<open>Lemmas\<close>

lemma strip_zeros_value: "strip_zeros m k = (m', k') \<Longrightarrow> m = m' * 10 ^ (k - k') \<and> k' \<le> k"
proof (induction m k rule: strip_zeros.induct)
  case (2 m k)
  show ?case
  proof (cases "m mod 10 = 0")
    case True
    with 2 have "m div 10 = m' * 10 ^ (k - k')" "k' \<le> k" by auto
    moreover have "m = m div 10 * 10" using True by presburger
    ultimately show ?thesis by (simp add: Suc_diff_le)
  next
    case False
    with "2.prems" show ?thesis by auto
  qed
qed auto

lemma bounds_finite:
  assumes "validateTipAmountBounds a = Inr ()"
  shows "a = JNaN \<or> (is_finite a \<and> num_le MIN_TIP_AMOUNT a \<and> num_le a MAX_TIP_AMOUNT)"
  using assms
  by (cases a) (auto simp: validateTipAmountBounds_def MIN_TIP_AMOUNT_def MAX_TIP_AMOUNT_def is_finite_def
      split: if_splits)

lemma validated_amount:
  assumes "validateTipAmountBounds a = Inr ()" "validateTipPrecision a 7 = Inr ()"
  shows "a = JNaN \<or> amount_ok a"
  using bounds_finite[OF assms(1)] assms(2)
  by (auto simp: amount_ok_def validateTipPrecision_def TIP_PRECISION_def split: if_splits)

lemma tips_wf_insert [inv_intros]:
  assumes "tips_wf t" "tip_id r \<notin> tip_id ` set t" "tip_insert r t = Some t'"
  shows "tips_wf t'"
  using assms tip_txs.ins_keeps_unique[OF _ assms(3)] tip_keys.ins_keeps_unique[OF _ assms(3)]
    tip_txs.ins_appends[OF assms(3)]
  by (simp add: tips_wf_def)

text \<open>An update that leaves ids, transactions and keys alone keeps the table well formed.\<close>

definition same_identity :: "(tip \<Rightarrow> tip) \<Rightarrow> bool" where
  "same_identity f \<longleftrightarrow> (\<forall>r. tip_id (f r) = tip_id r \<and> tip_txId (f r) = tip_txId r \<and>
     tip_idempotencyKey (f r) = tip_idempotencyKey r)"

lemma tips_wf_update [inv_intros]:
  "tips_wf t \<Longrightarrow> same_identity f \<Longrightarrow> tips_wf (update_where P f t)"
  by (simp add: tips_wf_def same_identity_def map_update_where uniq_on_update_where)

lemma tips_wf_delete [inv_intros]: "tips_wf t \<Longrightarrow> tips_wf (delete_where P t)"
  by (simp add: tips_wf_def uniq_on_delete_where) (simp add: delete_where_def distinct_map_filter)

lemma tips_wf_save [inv_intros]:
  assumes "tips_wf t" "g \<in> set t" "tip_id r = tip_id g" "tip_txId r = tip_txId g"
    "tip_idempotencyKey r = tip_idempotencyKey g"
  shows "tips_wf (save_row tip_id r t)"
proof -
  have "map h (save_row tip_id r t) = map h t" if "h r = h g" for h :: "tip \<Rightarrow> 'a"
    using assms that by (intro map_save_row) (simp_all add: tips_wf_def)
  note this[of tip_id] and map_save_row[of tip_id t g r tip_txId] and map_save_row[of tip_id t g r tip_idempotencyKey]
  with assms show ?thesis
    by (simp add: tips_wf_def uniq_on_total uniq_on_def keys_of_eq_map[of tip_idempotencyKey]
        distinct_save_row)
qed

end
