(* ===== verification/Stellar_Client.thy ===== *)
theory Stellar_Client
  imports Tip_Model
begin

text \<open>
  The part of \<^verbatim>\<open>stellar/stellar.service.ts\<close> the tipping flow calls: the format check of a transaction
  hash and the two verification loops with bounded retries.

  Horizon is not part of the repository.  What it answers is a function from the attempt number to
  a reply, an argument of the loops; the loops return the delays they slept beside their result.
\<close>

section \<open>What Horizon answers\<close>

record horizon_op =
  op_type :: string
  op_asset_code :: "string option"
  op_asset_issuer :: "string option"
  op_asset_type :: "string option"
  op_amount :: "string option"
  op_from :: "string option"

record tx_data =
  td_successful :: bool
  td_operations :: "horizon_op list option"
  td_memo_type :: "string option"
  td_memo :: "string option"

text \<open>\<open>fetch\<close>: a response with its status and the outcome of \<open>response.json()\<close>, or a thrown error
  with its name and message.\<close>

datatype fetch_result = Responded nat "string + tx_data" | Raised string string

definition response_ok :: "nat \<Rightarrow> bool" where
  "response_ok status \<longleftrightarrow> 200 \<le> status \<and> status \<le> 299"

text \<open>The Horizon client of the Stellar SDK: a transaction record, or an error message.\<close>

record transaction_result =
  tr_hash :: string
  tr_success :: "bool option"
  tr_ledger :: "nat option"
  tr_createdAt :: string
  tr_envelope :: string
  tr_result :: string

type_synonym sdk_reply = "string + transaction_result"

section \<open>Operations\<close>

record rpc_config =
  rpcMaxRetries :: nat
  rpcRetryBaseDelayMs :: nat
  rpcRetryMaxDelayMs :: nat

definition default_rpc_config :: rpc_config where
  "default_rpc_config = \<lparr>rpcMaxRetries = 3, rpcRetryBaseDelayMs = 1000, rpcRetryMaxDelayMs = 10000\<rparr>"

definition isValidTxHash :: "string \<Rightarrow> bool" where
  "isValidTxHash txHash \<longleftrightarrow> length txHash = 64 \<and> list_all hex_char txHash"

definition rpc_delay :: "rpc_config \<Rightarrow> nat \<Rightarrow> nat" where
  "rpc_delay cfg attempt = min (rpcRetryBaseDelayMs cfg * 2 ^ attempt) (rpcRetryMaxDelayMs cfg)"

definition full_retryable :: "string \<Rightarrow> bool" where
  "full_retryable message =
     (let m = lower_case message in js_includes m ''timeout'' \<or> js_includes m ''econnrefused'' \<or> js_includes m ''econnreset'')"

function verify_full_loop ::
  "rpc_config \<Rightarrow> (nat \<Rightarrow> sdk_reply) \<Rightarrow> nat \<Rightarrow> transaction_result outcome \<times> nat list" where
  "verify_full_loop cfg call attempt =
     (if attempt \<le> rpcMaxRetries cfg then
        (case call attempt of
           Inr tx \<Rightarrow> (Inr tx, [])
         | Inl message \<Rightarrow>
             if \<not> full_retryable message \<or> attempt \<ge> rpcMaxRetries cfg
             then (Inl (NotFoundException (''Transaction not found: '' @ message)), [])
             else (let (r, waits) = verify_full_loop cfg call (Suc attempt)
                   in (r, rpc_delay cfg attempt # waits)))
      else (Inl (NotFoundException ''Transaction verification failed after retries''), []))"
  by pat_completeness auto
termination
  by (relation "measure (\<lambda>(cfg, call, attempt). Suc (rpcMaxRetries cfg) - attempt)") auto

definition verifyTransactionFull :: "rpc_config \<Rightarrow> (nat \<Rightarrow> sdk_reply) \<Rightarrow> transaction_result outcome \<times> nat list" where
  "verifyTransactionFull cfg call = verify_full_loop cfg call 0"

definition verify_retryable :: "string \<Rightarrow> string \<Rightarrow> bool" where
  "verify_retryable name message =
     (let m = lower_case message in
      name = ''AbortError'' \<or> js_includes m ''econnrefused'' \<or> js_includes m ''econnreset'' \<or> js_includes m ''network'')"

text \<open>A body that does not parse throws too: \<open>response.json()\<close> is inside the \<open>try\<close>.\<close>

definition attempt_verify :: "fetch_result \<Rightarrow> (string \<times> string) + bool" where
  "attempt_verify f =
     (case f of
        Raised name message \<Rightarrow> Inl (name, message)
      | Responded status body \<Rightarrow>
          if \<not> response_ok status then Inr False
          else case body of Inl message \<Rightarrow> Inl (''SyntaxError'', message)
                          | Inr data \<Rightarrow> Inr (td_successful data))"

function verify_loop :: "rpc_config \<Rightarrow> (nat \<Rightarrow> fetch_result) \<Rightarrow> nat \<Rightarrow> bool \<times> nat list" where
  "verify_loop cfg fetch attempt =
     (if attempt \<le> rpcMaxRetries cfg then
        (case attempt_verify (fetch attempt) of
           Inr ok \<Rightarrow> (ok, [])
         | Inl (name, message) \<Rightarrow>
             if \<not> verify_retryable name message \<or> attempt \<ge> rpcMaxRetries cfg then (False, [])
             else (let (r, waits) = verify_loop cfg fetch (Suc attempt)
                   in (r, rpc_delay cfg attempt # waits)))
      else (False, []))"
  by pat_completeness auto
termination
  by (relation "measure (\<lambda>(cfg, fetch, attempt). Suc (rpcMaxRetries cfg) - attempt)") auto

definition verifyTransaction :: "rpc_config \<Rightarrow> (nat \<Rightarrow> fetch_result) \<Rightarrow> string \<Rightarrow> bool \<times> nat list" where
  "verifyTransaction cfg fetch txHash =
     (if \<not> isValidTxHash txHash then (False, []) else verify_loop cfg fetch 0)"

declare verify_full_loop.simps [simp del] verify_loop.simps [simp del]

section \<open>Lemmas\<close>

lemma rpc_delay_le: "rpc_delay cfg n \<le> rpcRetryMaxDelayMs cfg"
  by (simp add: rpc_delay_def)

lemma rpc_delay_mono: "m \<le> n \<Longrightarrow> rpc_delay cfg m \<le> rpc_delay cfg n"
  by (auto simp: rpc_delay_def min_def intro: order_trans[OF mult_le_mono2[OF power_increasing]])

text \<open>The sleeps of a loop started at attempt \<open>a\<close> are the delays of the attempts it repeated.\<close>

lemma verify_loop_waits:
  "\<exists>n. snd (verify_loop cfg fetch a) = map (rpc_delay cfg) [a..<n] \<and> (n \<le> rpcMaxRetries cfg \<or> n \<le> a)"
proof (induction cfg fetch a rule: verify_loop.induct)
  case (1 cfg fetch a)
  show ?case
  proof (cases "\<exists>name message. attempt_verify (fetch a) = Inl (name, message) \<and>
                 verify_retryable name message \<and> a < rpcMaxRetries cfg")
    case True
    then obtain name message where f: "attempt_verify (fetch a) = Inl (name, message)"
      and c: "verify_retryable name message" "a < rpcMaxRetries cfg" by blast
    have "\<exists>n. snd (verify_loop cfg fetch (Suc a)) = map (rpc_delay cfg) [Suc a..<n] \<and>
             (n \<le> rpcMaxRetries cfg \<or> n \<le> Suc a)"
      using "1.IH"[OF _ f refl] c by simp
    then obtain n where n: "snd (verify_loop cfg fetch (Suc a)) = map (rpc_delay cfg) [Suc a..<n]"
      "n \<le> rpcMaxRetries cfg \<or> n \<le> Suc a" by blast
    have "snd (verify_loop cfg fetch a) = rpc_delay cfg a # map (rpc_delay cfg) [Suc a..<n]"
      using f c n by (subst verify_loop.simps) (simp add: case_prod_beta)
    then have "snd (verify_loop cfg fetch a) = map (rpc_delay cfg) [a..<max n (Suc a)]"
      by (cases "n \<le> Suc a") (auto simp: upt_conv_Cons max_def)
    with n c show ?thesis by (intro exI[of _ "max n (Suc a)"]) auto
  next
    case False
    then have "snd (verify_loop cfg fetch a) = []"
      by (subst verify_loop.simps) (auto split: sum.splits prod.splits)
    then show ?thesis by (intro exI[of _ a]) simp
  qed
qed

lemma verify_loop_true:
  "fst (verify_loop cfg fetch a) \<Longrightarrow>
     \<exists>n \<ge> a. n \<le> rpcMaxRetries cfg \<and>
       (\<exists>status data. fetch n = Responded status (Inr data) \<and> response_ok status \<and> td_successful data)"
proof (induction cfg fetch a rule: verify_loop.induct)
  case (1 cfg fetch a)
  from "1.prems" have le: "a \<le> rpcMaxRetries cfg"
    by (subst (asm) verify_loop.simps) (auto split: if_splits)
  show ?case
  proof (cases "attempt_verify (fetch a)")
    case (Inr ok)
    with "1.prems" le have ok by (subst (asm) verify_loop.simps) simp
    with Inr have "\<exists>status data. fetch a = Responded status (Inr data) \<and> response_ok status \<and> td_successful data"
      by (auto simp: attempt_verify_def split: fetch_result.splits if_splits sum.splits)
    with le show ?thesis by (intro exI[of _ a]) auto
  next
    case (Inl e)
    obtain name message where e: "e = (name, message)" by (cases e)
    with "1.prems" le Inl have g: "\<not> (\<not> verify_retryable name message \<or> a \<ge> rpcMaxRetries cfg)"
      "fst (verify_loop cfg fetch (Suc a))"
      by (subst (asm) verify_loop.simps, auto split: if_splits prod.splits)+
    from "1.IH"[OF le Inl[unfolded e] refl g] show ?thesis
      using Suc_leD by blast
  qed
qed

text \<open>C13: the verification loop accepts a transaction only when one of the at most
  \<open>rpcMaxRetries + 1\<close> attempts got a 2xx answer that says \<open>successful\<close>, and the hash has the form of
  one; every sleep is bounded by the configured maximum and the sleeps never get shorter.\<close>

theorem verifyTransaction_sound:
  "(fst (verifyTransaction cfg fetch txHash) \<longrightarrow>
      isValidTxHash txHash \<and>
      (\<exists>n \<le> rpcMaxRetries cfg. \<exists>status data. fetch n = Responded status (Inr data) \<and>
          response_ok status \<and> td_successful data)) \<and>
   length (snd (verifyTransaction cfg fetch txHash)) \<le> rpcMaxRetries cfg \<and>
   (\<forall>d \<in> set (snd (verifyTransaction cfg fetch txHash)). d \<le> rpcRetryMaxDelayMs cfg) \<and>
   sorted (snd (verifyTransaction cfg fetch txHash))"
proof -
  obtain n where n: "snd (verify_loop cfg fetch 0) = map (rpc_delay cfg) [0..<n]"
    "n \<le> rpcMaxRetries cfg \<or> n \<le> 0" using verify_loop_waits by blast
  then have "length (snd (verify_loop cfg fetch 0)) \<le> rpcMaxRetries cfg" by auto
  moreover have "sorted (snd (verify_loop cfg fetch 0))"
    unfolding n(1) by (auto simp: sorted_iff_nth_mono rpc_delay_mono)
  moreover have "\<forall>d \<in> set (snd (verify_loop cfg fetch 0)). d \<le> rpcRetryMaxDelayMs cfg"
    unfolding n(1) by (auto simp: rpc_delay_le)
  moreover have "fst (verify_loop cfg fetch 0) \<longrightarrow> (\<exists>n \<le> rpcMaxRetries cfg. \<exists>status data.
      fetch n = Responded status (Inr data) \<and> response_ok status \<and> td_successful data)"
    using verify_loop_true[of cfg fetch 0] by blast
  ultimately show ?thesis by (simp add: verifyTransaction_def)
qed

theorem verifyTransaction_sound_witness:
  "fst (verifyTransaction default_rpc_config
     (\<lambda>n. if n = 0 then Raised ''AbortError'' ''aborted'' else
          Responded 200 (Inr \<lparr>td_successful = True, td_operations = None, td_memo_type = None, td_memo = None\<rparr>))
     (replicate 64 CHR ''a'')) \<and> isValidTxHash (replicate 64 CHR ''a'')"
proof -
  let ?f = "\<lambda>n::nat. if n = 0 then Raised ''AbortError'' ''aborted'' else
          Responded 200 (Inr \<lparr>td_successful = True, td_operations = None, td_memo_type = None, td_memo = None\<rparr>)"
  have v: "isValidTxHash (replicate 64 CHR ''a'')" by code_simp
  have "fst (verifyTransaction default_rpc_config ?f (replicate 64 CHR ''a''))"
    using v by (simp add: verifyTransaction_def verify_loop.simps attempt_verify_def verify_retryable_def
        default_rpc_config_def response_ok_def)
  with verifyTransaction_sound[of default_rpc_config ?f "replicate 64 CHR ''a''"] show ?thesis by blast
qed

end
