(* ===== verification/Tipping.thy ===== *)
theory Tipping
  imports Stellar_Client
begin

text \<open>
  \<^verbatim>\<open>tipping/tipping.service.ts\<close>: verifying a Stellar transaction and crediting it exactly once.

  The handler \<open>verifyAndRecordTip\<close> is cut where it awaits other parties: \<open>verify_lookup\<close> (steps 1 and
  2), \<open>verify_claim\<close> (steps 3 and 4, the unique insert) and \<open>verify_finish\<close> (from step 5 on, with its
  \<open>catch\<close>), so that requests can interleave between them; \<open>verifyAndRecordTip\<close> composes the three.
  Horizon, the hash function, JSON parsing of the memo and the rounding of decimal numerals to
  doubles are fields of \<open>tip_env\<close>.
\<close>

section \<open>Types\<close>

datatype tip_response_state = S_verified | S_duplicate | S_pending | S_stale | S_failed | S_conflict

datatype conflict_reason = DIFFERENT_CONFESSION | ALREADY_PROCESSING | ALREADY_VERIFIED | NETWORK_ERROR

datatype tip_error =
    TipConflict string tip_response_state conflict_reason "ident option" bool
  | TipRejected string tip_response_state bool
  | TipExn exn

fun error_message :: "tip_error \<Rightarrow> string" where
  "error_message (TipConflict m _ _ _ _) = m"
| "error_message (TipRejected m _ _) = m"
| "error_message (TipExn e) = exn_message e"

record tip_result =
  tres_tip :: tip
  tres_isNew :: bool
  tres_isIdempotent :: bool
  tres_state :: tip_response_state

record receipt_metadata =
  rm_settlementId :: "string option"
  rm_proofMetadata :: "string option"
  rm_anonymousSender :: bool

record processed_data =
  pd_amount :: jsnum
  pd_senderAddress :: "string option"
  pd_receiptMetadata :: receipt_metadata

text \<open>The three fields the service reads of a parsed memo; a field that is no string is \<open>None\<close>.\<close>

record memo_payload =
  mp_settlement_id :: "string option"
  mp_proof_metadata :: "string option"
  mp_anonymous_sender :: bool

record tip_env =
  te_sha :: "string \<Rightarrow> string"
  te_confession :: "ident \<Rightarrow> bool"
  te_verify :: "string \<Rightarrow> string + bool"
  te_fetch :: "string \<Rightarrow> fetch_result"
  te_parse_memo :: "string \<Rightarrow> memo_payload option"
  te_round :: "jsnum \<Rightarrow> jsnum"
  te_analytics :: bool
  te_mainnet :: bool

section \<open>Reading numerals\<close>

text \<open>The exponent of a numeral, \<open>0\<close> when there is none.\<close>

definition exponent_value :: "string \<Rightarrow> int" where
  "exponent_value s =
     (case s of
        [] \<Rightarrow> 0
      | c # r \<Rightarrow>
          if c \<noteq> CHR ''e'' \<and> c \<noteq> CHR ''E'' then 0
          else let neg = (r \<noteq> [] \<and> hd r = CHR ''-'');
                   r' = (if r \<noteq> [] \<and> (hd r = CHR ''-'' \<or> hd r = CHR ''+'') then tl r else r);
                   v = digits_value (takeWhile is_digit r')
               in if neg then - v else v)"

definition dec_of :: "int \<Rightarrow> int \<Rightarrow> jsnum" where
  "dec_of m e = (if 0 \<le> e then JDec (m * 10 ^ nat e) 0 else JDec m (nat (- e)))"

text \<open>
  \<open>parseFloat\<close>: the longest numeric prefix after leading blanks.  A numeral of at most 15 digits
  without an exponent is a double that prints as itself; any other goes through the rounding of the
  environment.
\<close>

definition parseFloat :: "(jsnum \<Rightarrow> jsnum) \<Rightarrow> string option \<Rightarrow> jsnum" where
  "parseFloat rnd input =
     (let s = dropWhile js_ws (nullish input ''undefined'');
          neg = (s \<noteq> [] \<and> hd s = CHR ''-'');
          s1 = (if s \<noteq> [] \<and> (hd s = CHR ''-'' \<or> hd s = CHR ''+'') then tl s else s);
          ip = takeWhile is_digit s1;
          s2 = dropWhile is_digit s1;
          fp = (if s2 \<noteq> [] \<and> hd s2 = CHR ''.'' then takeWhile is_digit (tl s2) else []);
          s3 = (if s2 \<noteq> [] \<and> hd s2 = CHR ''.'' then dropWhile is_digit (tl s2) else s2);
          m = digits_value (ip @ fp);
          n = dec_of (if neg then - m else m) (exponent_value s3 - int (length fp))
      in if starts_with s1 ''Infinity'' then JInf (\<not> neg)
         else if ip = [] \<and> fp = [] then JNaN
         else if length (ip @ fp) \<le> 15 \<and> exponent_value s3 = 0 then n else rnd n)"

section \<open>Private helpers\<close>

definition generateIdempotencyKey :: "(string \<Rightarrow> string) \<Rightarrow> ident \<Rightarrow> string \<Rightarrow> string" where
  "generateIdempotencyKey sha confessionId txHash = sha (confessionId @ '':'' @ txHash)"

definition findTipByIdempotencyKey :: "string \<Rightarrow> tip list \<Rightarrow> tip option" where
  "findTipByIdempotencyKey key t = find_one (\<lambda>r. tip_idempotencyKey r = Some key) t"

definition resolveIdempotentOutcome :: "tip \<Rightarrow> tip_error + tip_result" where
  "resolveIdempotentOutcome r =
     (case tip_verificationStatus r of
        VERIFIED \<Rightarrow> Inr \<lparr>tres_tip = r, tres_isNew = False, tres_isIdempotent = True, tres_state = S_duplicate\<rparr>
      | PENDING \<Rightarrow> Inl (TipConflict (''Transaction '' @ tip_txId r @ '' is currently being processed. Please retry in a moment.'')
                         S_pending ALREADY_PROCESSING None True)
      | STALE_PENDING \<Rightarrow> Inl (TipConflict (''Transaction '' @ tip_txId r @ '' verification has exceeded the expected processing time and is under review. It has not failed -- check back shortly or contact support with this reference.'')
                         S_stale ALREADY_PROCESSING None True)
      | REJECTED \<Rightarrow> Inl (TipRejected (''Transaction '' @ tip_txId r @ '' could not be verified for this confession.'') S_failed False)
      | CONFLICT \<Rightarrow> Inl (TipConflict (''Transaction '' @ tip_txId r @ '' could not be processed due to a conflicting prior record.'')
                         S_conflict DIFFERENT_CONFESSION None False))"

definition sentinel_tip :: "ident \<Rightarrow> string \<Rightarrow> string \<Rightarrow> string \<Rightarrow> ident \<Rightarrow> ms \<Rightarrow> tip" where
  "sentinel_tip confessionId txId key lockId newId now =
     \<lparr>tip_id = newId, tip_confessionId = confessionId, tip_amount = JDec 0 0, tip_txId = txId,
      tip_idempotencyKey = Some key, tip_senderAddress = None, tip_verificationStatus = PENDING,
      tip_verifiedAt = None, tip_rejectionReason = None, tip_retryCount = 0, tip_lastChainStatus = None,
      tip_lastCheckedAt = Some now, tip_reconciliationMetadata = None, tip_processingLock = Some lockId,
      tip_lockedAt = Some now, tip_lockedBy = Some ''verify'', tip_createdAt = now,
      tip_submissionStatus = SUBMITTED, tip_submittedAt = None, tip_confirmedAt = None, tip_failedAt = None,
      tip_failureReason = None, tip_expiryBlockHeight = None, tip_ledgerSequence = None,
      tip_sorobanMetadata = None\<rparr>"

text \<open>\<open>Some\<close>: this caller is the first writer; \<open>None\<close>: error 23505, another row holds the key.\<close>

definition tryInsertSentinelTip ::
  "ident \<Rightarrow> string \<Rightarrow> string \<Rightarrow> string \<Rightarrow> ident \<Rightarrow> ms \<Rightarrow> tip list \<Rightarrow> tip option \<times> tip list" where
  "tryInsertSentinelTip confessionId txId key lockId newId now t =
     (let sentinel = sentinel_tip confessionId txId key lockId newId now in
      case tip_insert sentinel t of None \<Rightarrow> (None, t) | Some t' \<Rightarrow> (Some sentinel, t'))"

definition unlock :: "tip \<Rightarrow> tip" where
  "unlock r = r\<lparr>tip_processingLock := None, tip_lockedAt := None, tip_lockedBy := None\<rparr>"

definition releaseProcessingLock :: "ident \<Rightarrow> tip list \<Rightarrow> tip list" where
  "releaseProcessingLock tipId t = update_where (\<lambda>r. tip_id r = tipId) unlock t"

definition updateRetryMetadata :: "ident \<Rightarrow> string \<Rightarrow> metadata option \<Rightarrow> ms \<Rightarrow> tip list \<Rightarrow> tip list" where
  "updateRetryMetadata tipId chainStatus md now t =
     update_where (\<lambda>r. tip_id r = tipId)
       (\<lambda>r. r\<lparr>tip_lastChainStatus := Some chainStatus, tip_lastCheckedAt := Some now,
              tip_reconciliationMetadata := Some (nullish md [])\<rparr>) t"

definition fetchTransactionData :: "fetch_result \<Rightarrow> tx_data outcome" where
  "fetchTransactionData f =
     (case f of
        Raised name message \<Rightarrow>
          if name = ''AbortError'' then Inl (GatewayTimeoutException ''Horizon request timed out'')
          else Inl (GatewayTimeoutException (''Network error fetching transaction: '' @ message))
      | Responded status body \<Rightarrow>
          if status = 404 then Inl (NotFoundException ''Transaction not found on Stellar network'')
          else if \<not> response_ok status
               then Inl (BadRequestException (''Horizon returned status '' @ nat_str status))
          else case body of Inl message \<Rightarrow> Inl (PlainError message) | Inr data \<Rightarrow> Inr data)"

definition MAX_RECEIPT_PROOF_METADATA_LEN :: nat where "MAX_RECEIPT_PROOF_METADATA_LEN = 128"
definition TIP_LOCK_TIMEOUT_MS :: ms where "TIP_LOCK_TIMEOUT_MS = 30000"

definition empty_receipt :: receipt_metadata where
  "empty_receipt = \<lparr>rm_settlementId = None, rm_proofMetadata = None, rm_anonymousSender = False\<rparr>"

definition non_empty :: "string option \<Rightarrow> string option" where
  "non_empty s = (if truthy s then s else None)"

definition extractSettlementReceiptMetadata ::
  "(string \<Rightarrow> memo_payload option) \<Rightarrow> tx_data \<Rightarrow> receipt_metadata outcome" where
  "extractSettlementReceiptMetadata parse_memo txData =
     (if td_memo_type txData \<noteq> Some ''text'' \<or> \<not> truthy (td_memo txData) then Inr empty_receipt
      else case parse_memo (the (td_memo txData)) of
        None \<Rightarrow> Inr empty_receipt
      | Some payload \<Rightarrow>
          (let settlementId = non_empty (mp_settlement_id payload);
               proofMetadata = non_empty (mp_proof_metadata payload)
           in if truthy proofMetadata \<and> length (the proofMetadata) > MAX_RECEIPT_PROOF_METADATA_LEN
              then Inl (BadRequestException ''Settlement receipt proof metadata exceeds allowed bounds'')
              else Inr \<lparr>rm_settlementId = settlementId, rm_proofMetadata = proofMetadata,
                        rm_anonymousSender = mp_anonymous_sender payload\<rparr>))"

definition processTransactionData :: "tip_env \<Rightarrow> tx_data \<Rightarrow> processed_data outcome" where
  "processTransactionData env txData =
     (case filter (\<lambda>op. op_type op = ''payment'') (nullish (td_operations txData) []) of
        [] \<Rightarrow> Inl (BadRequestException ''Transaction does not contain a payment operation'')
      | paymentOp # _ \<Rightarrow>
          (case validateTipAsset (nullish (op_asset_code paymentOp) ''XLM'') (op_asset_issuer paymentOp)
                                 (op_asset_type paymentOp) of
             Inl e \<Rightarrow> Inl e
           | Inr supportedAsset \<Rightarrow>
               (let amount = parseFloat (te_round env) (op_amount paymentOp) in
                case validateTipAmountBounds amount of
                  Inl e \<Rightarrow> Inl e
                | Inr _ \<Rightarrow>
                    (case validateTipPrecision amount (ta_precision supportedAsset) of
                       Inl e \<Rightarrow> Inl e
                     | Inr _ \<Rightarrow>
                         (case extractSettlementReceiptMetadata (te_parse_memo env) txData of
                            Inl e \<Rightarrow> Inl e
                          | Inr receipt \<Rightarrow>
                              Inr \<lparr>pd_amount = amount,
                                   pd_senderAddress = (if rm_anonymousSender receipt then None else op_from paymentOp),
                                   pd_receiptMetadata = receipt\<rparr>)))))"

section \<open>Processing locks\<close>

text \<open>
  \<open>acquireProcessingLock\<close>: on a known transaction, take the lock unless the tip is settled or a lock
  younger than 30 seconds is held.  On an unknown one the code inserts a row without a confession
  and an amount; both columns are \<open>NOT NULL\<close>, so the insert throws.
\<close>

definition lock_fresh :: "ms \<Rightarrow> tip \<Rightarrow> bool" where
  "lock_fresh now r \<longleftrightarrow> truthy (tip_processingLock r) \<and> now - nullish (tip_lockedAt r) 0 < TIP_LOCK_TIMEOUT_MS"

definition take_lock :: "string \<Rightarrow> string \<Rightarrow> nat \<Rightarrow> ms \<Rightarrow> tip \<Rightarrow> tip" where
  "take_lock lockId processType retries now r =
     r\<lparr>tip_processingLock := Some lockId, tip_lockedAt := Some now, tip_lockedBy := Some processType,
       tip_retryCount := retries, tip_lastCheckedAt := Some now\<rparr>"

definition acquireProcessingLock ::
  "string \<Rightarrow> string \<Rightarrow> string \<Rightarrow> ms \<Rightarrow> tip list \<Rightarrow> (bool \<times> tip option) outcome \<times> tip list" where
  "acquireProcessingLock txId processType lockId now t =
     (case find_one (\<lambda>r. tip_txId r = txId) t of
        Some existingTip \<Rightarrow>
          if tip_verificationStatus existingTip = VERIFIED then (Inr (False, Some existingTip), t)
          else if lock_fresh now existingTip then (Inr (False, Some existingTip), t)
          else (Inr (True, None),
                update_where (\<lambda>r. tip_id r = tip_id existingTip)
                  (take_lock lockId processType (tip_retryCount existingTip + 1) now) t)
      | None \<Rightarrow> (Inl (PlainError ''null value in column confession_id violates not-null constraint''), t))"

section \<open>Verifying a tip\<close>

text \<open>Steps 1 and 2: the confession exists, and an earlier request for the same pair is replayed.
  \<open>None\<close> means that the request goes on.\<close>

definition verify_lookup :: "tip_env \<Rightarrow> ident \<Rightarrow> string \<Rightarrow> tip list \<Rightarrow> (tip_error + tip_result) option" where
  "verify_lookup env confessionId txId t =
     (if \<not> te_confession env confessionId
      then Some (Inl (TipExn (NotFoundException (''Confession with ID '' @ confessionId @ '' not found''))))
      else case findTipByIdempotencyKey (generateIdempotencyKey (te_sha env) confessionId txId) t of
        Some existing \<Rightarrow>
          if tip_confessionId existing = confessionId \<and> tip_txId existing = txId
          then Some (resolveIdempotentOutcome existing) else None
      | None \<Rightarrow> None)"

text \<open>Steps 3 and 4: the sentinel insert, the replay of whoever lost it, and the guard on the
  transaction.  \<open>Inr\<close> carries the sentinel this caller owns.\<close>

datatype claim_result = Owned tip | Replied "tip_error + tip_result"

definition verify_claim ::
  "tip_env \<Rightarrow> ident \<Rightarrow> string \<Rightarrow> string \<Rightarrow> ident \<Rightarrow> ms \<Rightarrow> tip list \<Rightarrow> claim_result \<times> tip list" where
  "verify_claim env confessionId txId lockId newId now t =
     (let key = generateIdempotencyKey (te_sha env) confessionId txId in
      case tryInsertSentinelTip confessionId txId key lockId newId now t of
        (None, t') \<Rightarrow>
          (case findTipByIdempotencyKey key t' of
             None \<Rightarrow> (Replied (Inl (TipConflict (''Transaction '' @ txId @ '' is currently being processed. Please retry in a moment.'')
                         S_pending ALREADY_PROCESSING None True)), t')
           | Some canonical \<Rightarrow> (Replied (resolveIdempotentOutcome canonical), t'))
      | (Some sentinel, t') \<Rightarrow>
          (case find_one (\<lambda>r. tip_txId r = txId) t' of
             Some tipByTxId \<Rightarrow>
               if tip_confessionId tipByTxId \<noteq> confessionId
               then (Replied (Inl (TipConflict (''Transaction '' @ txId @ '' was already used for a different confession'')
                       S_conflict DIFFERENT_CONFESSION (Some (tip_confessionId tipByTxId)) False)),
                     delete_where (\<lambda>r. tip_id r = tip_id sentinel) t')
               else (Owned sentinel, t')
           | None \<Rightarrow> (Owned sentinel, t')))"

definition attempt_meta :: "string \<Rightarrow> ms \<Rightarrow> metadata option" where
  "attempt_meta err now = Some [(''error'', MStr err), (''attemptedAt'', MTime now)]"

text \<open>Steps 5 and 6: the chain, with the bookkeeping of each failure.\<close>

definition chain_verified ::
  "tip_env \<Rightarrow> string \<Rightarrow> ident \<Rightarrow> ms \<Rightarrow> tip list \<Rightarrow> (tip_error + unit) \<times> tip list" where
  "chain_verified env txId sid now t =
     (case te_verify env txId of
        Inl message \<Rightarrow>
          (Inl (TipConflict (''Transaction '' @ txId @ '' verification temporarily failed due to network error. Will be retried.'')
                  S_failed NETWORK_ERROR None True),
           releaseProcessingLock sid (updateRetryMetadata sid ''network_error'' (attempt_meta message now) now t))
      | Inr False \<Rightarrow>
          (Inl (TipExn (BadRequestException ''Transaction not found or invalid on Stellar network'')),
           releaseProcessingLock sid
             (updateRetryMetadata sid ''not_found'' (attempt_meta ''Transaction not found on chain'' now) now t))
      | Inr True \<Rightarrow> (Inr (), t))"

definition retryable_fetch :: "exn \<Rightarrow> bool" where
  "retryable_fetch e = (case e of GatewayTimeoutException _ \<Rightarrow> True | NotFoundException _ \<Rightarrow> True | _ \<Rightarrow> False)"

definition chain_fetched ::
  "tip_env \<Rightarrow> string \<Rightarrow> ident \<Rightarrow> ms \<Rightarrow> tip list \<Rightarrow> (tip_error + processed_data) \<times> tip list" where
  "chain_fetched env txId sid now t =
     (case fetchTransactionData (te_fetch env txId) of
        Inl e \<Rightarrow>
          if retryable_fetch e
          then (Inl (TipConflict (''Transaction '' @ txId @ '' data fetch failed temporarily. Will be retried.'')
                       S_failed NETWORK_ERROR None True),
                releaseProcessingLock sid
                  (updateRetryMetadata sid ''fetch_retryable'' (attempt_meta (exn_message e) now) now t))
          else (Inl (TipExn e), t)
      | Inr txData \<Rightarrow>
          (case processTransactionData env txData of Inl e \<Rightarrow> (Inl (TipExn e), t) | Inr p \<Rightarrow> (Inr p, t)))"

text \<open>
  Step 8, the single write.  The entity carries the columns the insert set or returned; the others
  (\<open>rejectionReason\<close>, the Soroban timeline) are undefined on it and \<open>save\<close> leaves them alone.
\<close>

definition settlement_meta :: "processed_data \<Rightarrow> string \<Rightarrow> string option \<Rightarrow> metadata" where
  "settlement_meta p key requestId =
     [(''verifiedBy'', MStr ''user_request''),
      (''processedData'', MObj [(''amount'', MNum (pd_amount p)), (''senderAddress'', meta_str (pd_senderAddress p))]),
      (''receiptMetadata'', MObj [(''settlementId'', meta_str (rm_settlementId (pd_receiptMetadata p))),
         (''proofMetadata'', meta_str (rm_proofMetadata (pd_receiptMetadata p))),
         (''anonymousSender'', MBool (rm_anonymousSender (pd_receiptMetadata p)))]),
      (''idempotencyKey'', MStr key), (''requestId'', meta_str requestId)]"

definition finalise :: "processed_data \<Rightarrow> metadata \<Rightarrow> ms \<Rightarrow> tip \<Rightarrow> tip" where
  "finalise p md now sentinel =
     sentinel\<lparr>tip_amount := pd_amount p, tip_senderAddress := pd_senderAddress p,
       tip_verificationStatus := VERIFIED, tip_verifiedAt := Some now,
       tip_lastChainStatus := Some ''verified'', tip_lastCheckedAt := Some now,
       tip_reconciliationMetadata := Some md,
       tip_processingLock := None, tip_lockedAt := None, tip_lockedBy := None\<rparr>"

definition write_entity :: "tip \<Rightarrow> tip \<Rightarrow> tip" where
  "write_entity e r =
     r\<lparr>tip_confessionId := tip_confessionId e, tip_amount := tip_amount e, tip_txId := tip_txId e,
       tip_idempotencyKey := tip_idempotencyKey e, tip_senderAddress := tip_senderAddress e,
       tip_verificationStatus := tip_verificationStatus e, tip_verifiedAt := tip_verifiedAt e,
       tip_retryCount := tip_retryCount e, tip_lastChainStatus := tip_lastChainStatus e,
       tip_lastCheckedAt := tip_lastCheckedAt e,
       tip_reconciliationMetadata := tip_reconciliationMetadata e,
       tip_processingLock := tip_processingLock e, tip_lockedAt := tip_lockedAt e,
       tip_lockedBy := tip_lockedBy e, tip_createdAt := tip_createdAt e,
       tip_submissionStatus := tip_submissionStatus e\<rparr>"

definition save_entity :: "tip \<Rightarrow> tip list \<Rightarrow> tip list" where
  "save_entity e t =
     (if \<exists>r \<in> set t. tip_id r = tip_id e then update_where (\<lambda>r. tip_id r = tip_id e) (write_entity e) t
      else t @ [e])"

definition analytics :: "tip_env \<Rightarrow> string \<Rightarrow> string \<Rightarrow> string option \<Rightarrow> tip_effect list" where
  "analytics env name txId amountAtomic =
     (if te_analytics env
      then [AnalyticsRecord name txId amountAtomic (analytics_network (te_mainnet env)) (name @ '':'' @ txId)]
      else [])"

definition verify_settle ::
  "tip_env \<Rightarrow> ident \<Rightarrow> string \<Rightarrow> string option \<Rightarrow> tip \<Rightarrow> processed_data \<Rightarrow> ms \<Rightarrow> tip list \<Rightarrow>
     tip_result \<times> tip list \<times> tip_effect list" where
  "verify_settle env confessionId txId requestId sentinel p now t =
     (let key = generateIdempotencyKey (te_sha env) confessionId txId;
          saved = finalise p (settlement_meta p key requestId) now sentinel;
          atomic = Some (amount_atomic (pd_amount p))
      in (\<lparr>tres_tip = saved, tres_isNew = True, tres_isIdempotent = False, tres_state = S_verified\<rparr>,
          save_entity saved t,
          analytics env ''tip_completed'' txId atomic @ analytics env ''stellar_tx_confirmed'' txId atomic @
          [EmitVerified (tip_id saved) confessionId txId (pd_amount p),
           AuditSettled (tip_id saved) confessionId txId (pd_amount p) ''tipping-service'']))"

text \<open>The \<open>catch\<close>: the lock is released, the row stays, the failure is announced and rethrown.\<close>

definition verify_fail ::
  "tip_env \<Rightarrow> ident \<Rightarrow> string \<Rightarrow> tip \<Rightarrow> tip_error \<Rightarrow> tip list \<Rightarrow> tip list \<times> tip_effect list" where
  "verify_fail env confessionId txId sentinel e t =
     (releaseProcessingLock (tip_id sentinel) t,
      EmitVerificationFailed confessionId txId (error_message e) # analytics env ''stellar_tx_failed'' txId None)"

definition verify_finish ::
  "tip_env \<Rightarrow> ident \<Rightarrow> string \<Rightarrow> string option \<Rightarrow> tip \<Rightarrow> ms \<Rightarrow> tip list \<Rightarrow>
     (tip_error + tip_result) \<times> tip list \<times> tip_effect list" where
  "verify_finish env confessionId txId requestId sentinel now t =
     (case chain_verified env txId (tip_id sentinel) now t of
        (Inl e, t1) \<Rightarrow> (Inl e, verify_fail env confessionId txId sentinel e t1)
      | (Inr _, t1) \<Rightarrow>
          (case chain_fetched env txId (tip_id sentinel) now t1 of
             (Inl e, t2) \<Rightarrow> (Inl e, verify_fail env confessionId txId sentinel e t2)
           | (Inr p, t2) \<Rightarrow>
               (let (r, t3, fx) = verify_settle env confessionId txId requestId sentinel p now t2 in (Inr r, t3, fx))))"

definition verifyAndRecordTip ::
  "tip_env \<Rightarrow> ident \<Rightarrow> string \<Rightarrow> string option \<Rightarrow> string \<Rightarrow> ident \<Rightarrow> ms \<Rightarrow> tip list \<Rightarrow>
     (tip_error + tip_result) \<times> tip list \<times> tip_effect list" where
  "verifyAndRecordTip env confessionId txId requestId lockId newId now t =
     (case verify_lookup env confessionId txId t of
        Some reply \<Rightarrow> (reply, t, [])
      | None \<Rightarrow>
          (case verify_claim env confessionId txId lockId newId now t of
             (Replied reply, t') \<Rightarrow> (reply, t', [])
           | (Owned sentinel, t') \<Rightarrow> verify_finish env confessionId txId requestId sentinel now t'))"

definition getTipsByConfessionId :: "ident \<Rightarrow> tip list \<Rightarrow> tip list" where
  "getTipsByConfessionId confessionId t = order_desc tip_createdAt (filter (\<lambda>r. tip_confessionId r = confessionId) t)"

definition getTipByTxId :: "string \<Rightarrow> tip list \<Rightarrow> tip option" where
  "getTipByTxId txId t = find_one (\<lambda>r. tip_txId r = txId) t"

section \<open>Requests racing for one transaction\<close>

definition is_owned :: "claim_result \<Rightarrow> bool" where
  "is_owned c = (case c of Owned _ \<Rightarrow> True | Replied _ \<Rightarrow> False)"

text \<open>Requests for the same pair that have all passed the lookup, in the order their inserts reach
  the database; each has its own lock, row id and clock.\<close>

fun claim_all ::
  "tip_env \<Rightarrow> ident \<Rightarrow> string \<Rightarrow> (string \<times> ident \<times> ms) list \<Rightarrow> tip list \<Rightarrow> claim_result list \<times> tip list" where
  "claim_all env c tx [] t = ([], t)"
| "claim_all env c tx ((lockId, newId, now) # reqs) t =
     (let (r, t') = verify_claim env c tx lockId newId now t;
          (rs, u) = claim_all env c tx reqs t'
      in (r # rs, u))"

definition pair_free :: "tip_env \<Rightarrow> ident \<Rightarrow> string \<Rightarrow> tip list \<Rightarrow> bool" where
  "pair_free env c tx t \<longleftrightarrow> list_all (\<lambda>r. tip_txId r \<noteq> tx \<and>
      tip_idempotencyKey r \<noteq> Some (generateIdempotencyKey (te_sha env) c tx)) t"

definition settled_audits :: "tip_effect list \<Rightarrow> ident list" where
  "settled_audits fx = List.map_filter (\<lambda>e. case e of AuditSettled i _ _ _ _ \<Rightarrow> Some i | _ \<Rightarrow> None) fx"

lemma settled_audits_simps [simp]:
  "settled_audits [] = []"
  "settled_audits (AuditSettled i c x a s # fx) = i # settled_audits fx"
  "settled_audits (EmitVerified i c x a # fx) = settled_audits fx"
  "settled_audits (EmitVerificationFailed c x m # fx) = settled_audits fx"
  "settled_audits (AuditDeadLetter i x c m n # fx) = settled_audits fx"
  "settled_audits (AnalyticsRecord nm x v w k # fx) = settled_audits fx"
  by (simp_all add: settled_audits_def List.map_filter_def)

lemma settled_audits_append [simp]: "settled_audits (a @ b) = settled_audits a @ settled_audits b"
  by (simp add: settled_audits_def List.map_filter_def)

lemma settled_audits_analytics [simp]: "settled_audits (analytics env n x v) = []"
  by (simp add: analytics_def)

lemma sentinel_fields [simp]:
  "tip_id (sentinel_tip c x k l i n) = i" "tip_txId (sentinel_tip c x k l i n) = x"
  "tip_confessionId (sentinel_tip c x k l i n) = c"
  "tip_idempotencyKey (sentinel_tip c x k l i n) = Some k"
  "tip_amount (sentinel_tip c x k l i n) = JDec 0 0"
  "tip_verificationStatus (sentinel_tip c x k l i n) = PENDING"
  by (simp_all add: sentinel_tip_def)

lemma insert_sentinel_iff:
  "tip_insert (sentinel_tip c x (generateIdempotencyKey (te_sha env) c x) l i n) t =
     (if pair_free env c x t
      then Some (t @ [sentinel_tip c x (generateIdempotencyKey (te_sha env) c x) l i n]) else None)"
  by (auto simp: tip_insert_def clashes_def set_keys_of pair_free_def list_all_iff)

text \<open>The first writer always owns its sentinel: the guard of step 4 finds the caller's own row,
  because the transaction column is unique as well.\<close>

lemma verify_claim_free:
  assumes "pair_free env c x t"
  shows "verify_claim env c x l i n t =
    (let s = sentinel_tip c x (generateIdempotencyKey (te_sha env) c x) l i n in (Owned s, t @ [s]))"
proof -
  have "find_one (\<lambda>r. tip_txId r = x) t = None"
    using assms by (auto simp: find_one_None_iff pair_free_def list_all_iff)
  with assms show ?thesis
    by (simp add: verify_claim_def tryInsertSentinelTip_def insert_sentinel_iff Let_def find_one_append)
qed

lemma verify_claim_taken:
  assumes "\<not> pair_free env c x t"
  shows "\<exists>reply. verify_claim env c x l i n t = (Replied reply, t)"
  using assms
  by (auto simp: verify_claim_def tryInsertSentinelTip_def insert_sentinel_iff Let_def split: option.split)

lemma pair_free_append_sentinel [simp]:
  "\<not> pair_free env c x (t @ [sentinel_tip c x k l i n])"
  by (simp add: pair_free_def)

lemma claim_all_taken:
  "\<not> pair_free env c x t \<Longrightarrow> filter is_owned (fst (claim_all env c x reqs t)) = [] \<and> snd (claim_all env c x reqs t) = t"
proof (induction env c x reqs t rule: claim_all.induct)
  case (2 env c tx l i n reqs t)
  from verify_claim_taken[OF "2.prems", of l i n] obtain reply
    where r: "verify_claim env c tx l i n t = (Replied reply, t)" by blast
  from "2.IH"[OF r[symmetric] refl "2.prems"] r show ?case
    by (simp add: is_owned_def case_prod_beta)
qed simp

text \<open>C2: of any number of concurrent verify requests for one transaction, exactly one becomes the
  first writer when neither the transaction nor the key is taken (the first whose insert arrives),
  and none does otherwise: a tip can be settled by at most one request.\<close>

theorem one_first_writer:
  "length (filter is_owned (fst (claim_all env c tx reqs t))) =
     (if pair_free env c tx t \<and> reqs \<noteq> [] then 1 else 0)"
proof (cases "pair_free env c tx t \<and> reqs \<noteq> []")
  case False
  then show ?thesis using claim_all_taken by auto
next
  case True
  then obtain l i n reqs' where reqs: "reqs = (l, i, n) # reqs'"
    by (cases reqs) auto
  show ?thesis
    using True claim_all_taken[OF pair_free_append_sentinel, where reqs = reqs']
    by (simp add: reqs verify_claim_free Let_def is_owned_def case_prod_beta)
qed

section \<open>What a request does to the table\<close>

lemma same_identity_unlock [simp]: "same_identity unlock"
  by (simp add: same_identity_def unlock_def)

lemma tips_wf_release [inv_intros]: "tips_wf t \<Longrightarrow> tips_wf (releaseProcessingLock i t)"
  by (simp add: releaseProcessingLock_def tips_wf_update)

lemma tips_wf_retry [inv_intros]: "tips_wf t \<Longrightarrow> tips_wf (updateRetryMetadata i c m n t)"
  unfolding updateRetryMetadata_def by (rule tips_wf_update) (simp_all add: same_identity_def)

text \<open>Bookkeeping on the sentinel never touches another row, nor what the row credits.\<close>

definition credit :: "tip \<Rightarrow> ident \<times> ident \<times> string \<times> string option \<times> jsnum \<times> tip_status" where
  "credit r = (tip_id r, tip_confessionId r, tip_txId r, tip_idempotencyKey r, tip_amount r, tip_verificationStatus r)"

lemma credit_release [simp]: "map credit (releaseProcessingLock i t) = map credit t"
  unfolding releaseProcessingLock_def by (rule map_update_where) (simp add: credit_def unlock_def)

lemma credit_retry [simp]: "map credit (updateRetryMetadata i c m n t) = map credit t"
  unfolding updateRetryMetadata_def by (rule map_update_where) (simp add: credit_def)

lemma chain_verified_credit:
  "chain_verified env x i n t = (r, t') \<Longrightarrow> map credit t' = map credit t"
  by (auto simp: chain_verified_def split: sum.splits bool.splits)

lemma chain_fetched_credit:
  "chain_fetched env x i n t = (r, t') \<Longrightarrow> map credit t' = map credit t"
  by (auto simp: chain_fetched_def split: sum.splits if_splits)

lemma tips_wf_credit: "map credit t' = map credit t \<Longrightarrow> tips_wf t' = tips_wf t"
proof -
  assume eq: "map credit t' = map credit t"
  have "map tip_id t' = map tip_id t"
    using arg_cong[OF eq, of "map fst"] by (simp add: credit_def comp_def)
  moreover have "map tip_txId t' = map tip_txId t"
    using arg_cong[OF eq, of "map (fst \<circ> snd \<circ> snd)"] by (simp add: credit_def comp_def)
  moreover have "map tip_idempotencyKey t' = map tip_idempotencyKey t"
    using arg_cong[OF eq, of "map (fst \<circ> snd \<circ> snd \<circ> snd)"] by (simp add: credit_def comp_def)
  ultimately show ?thesis
    by (simp add: tips_wf_def uniq_on_total uniq_on_def keys_of_eq_map[of tip_idempotencyKey])
qed

lemma credit_image: "map credit t' = map credit t \<Longrightarrow> r \<in> set t \<Longrightarrow> \<exists>r' \<in> set t'. credit r' = credit r"
  by (metis (no_types, lifting) image_iff list.set_map)

lemma chain_fetched_amount:
  "chain_fetched env x i n t = (Inr p, t') \<Longrightarrow> pd_amount p = JNaN \<or> amount_ok (pd_amount p)"
  by (auto simp: chain_fetched_def processTransactionData_def Let_def validateTipAsset_def
      SUPPORTED_TIP_ASSETS_def dest: validated_amount
      split: sum.splits if_splits list.splits option.splits)

text \<open>A request that owns a sentinel either settles it or leaves every credit as it was.\<close>

lemma verify_finish_cases:
  assumes "verify_finish env c x q s n t = (res, t', fx)"
  obtains
    (failed) e where "res = Inl e" "map credit t' = map credit t" "settled_audits fx = []"
  | (settled) p where
      "pd_amount p = JNaN \<or> amount_ok (pd_amount p)"
      "res = Inr \<lparr>tres_tip = finalise p (settlement_meta p (generateIdempotencyKey (te_sha env) c x) q) n s,
                  tres_isNew = True, tres_isIdempotent = False, tres_state = S_verified\<rparr>"
      "t' = save_entity (finalise p (settlement_meta p (generateIdempotencyKey (te_sha env) c x) q) n s) t"
      "settled_audits fx = [tip_id s]"
proof -
  obtain r1 t1 where v: "chain_verified env x (tip_id s) n t = (r1, t1)" by force
  obtain r2 t2 where f: "chain_fetched env x (tip_id s) n t1 = (r2, t2)" by force
  note c1 = chain_verified_credit[OF v] and c2 = chain_fetched_credit[OF f]
  show thesis
  proof (cases r1)
    case (Inl e)
    with assms v c1 show ?thesis
      by (intro failed[of e]) (auto simp: verify_finish_def verify_fail_def)
  next
    case r1: (Inr u)
    show ?thesis
    proof (cases r2)
      case (Inl e)
      with assms v f r1 c1 c2 show ?thesis
        by (intro failed[of e]) (auto simp: verify_finish_def verify_fail_def)
    next
      case (Inr p)
      have "t1 = t" "t2 = t1"
        using v f r1 Inr by (auto simp: chain_verified_def chain_fetched_def split: sum.splits bool.splits if_splits)
      with assms v f r1 Inr chain_fetched_amount[OF f[unfolded Inr]] show ?thesis
        by (intro settled[of p]) (auto simp: verify_finish_def verify_settle_def Let_def finalise_def)
    qed
  qed
qed

lemma update_last:
  "i \<notin> tip_id ` set t \<Longrightarrow> tip_id s = i \<Longrightarrow> update_where (\<lambda>r. tip_id r = i) f (t @ [s]) = t @ [f s]"
  by (induction t) auto

lemma verify_finish_failed_last:
  assumes "tip_id s \<notin> tip_id ` set t" "verify_finish env c x q s n (t @ [s]) = (Inl e, t', fx)"
  shows "\<exists>r. t' = t @ [r] \<and> credit r = credit s \<and> tip_processingLock r = None"
proof -
  note upd = update_last[OF assms(1)]
  obtain r1 t1 where v: "chain_verified env x (tip_id s) n (t @ [s]) = (r1, t1)" by force
  then obtain s1 where s1: "t1 = t @ [s1]" "credit s1 = credit s" "tip_id s1 = tip_id s"
    by (auto simp: chain_verified_def releaseProcessingLock_def updateRetryMetadata_def upd credit_def unlock_def
        split: sum.splits bool.splits)
  obtain r2 t2 where f: "chain_fetched env x (tip_id s) n t1 = (r2, t2)" by force
  then obtain s2 where s2: "t2 = t @ [s2]" "credit s2 = credit s" "tip_id s2 = tip_id s"
    using s1
    by (auto simp: chain_fetched_def releaseProcessingLock_def updateRetryMetadata_def upd credit_def unlock_def
        split: sum.splits if_splits)
  have "t' = releaseProcessingLock (tip_id s) t1 \<or> t' = releaseProcessingLock (tip_id s) t2"
    using assms v f by (auto simp: verify_finish_def verify_fail_def Let_def split: sum.splits prod.splits)
  with s1 s2 show ?thesis
    by (auto simp: releaseProcessingLock_def upd credit_def unlock_def)
qed

lemma save_entity_last:
  assumes "tip_id s \<notin> tip_id ` set t"
  shows "save_entity (finalise p m n (sentinel_tip c x k l (tip_id s) n)) (t @ [sentinel_tip c x k l (tip_id s) n]) =
           t @ [finalise p m n (sentinel_tip c x k l (tip_id s) n)]"
  using assms update_last[of "tip_id s" t "sentinel_tip c x k l (tip_id s) n"]
  by (simp add: save_entity_def finalise_def write_entity_def)

lemma tips_wf_append:
  assumes "tips_wf t" "tip_id r \<notin> tip_id ` set t" "pair_free env c x t" "tip_txId r = x"
    "tip_idempotencyKey r = Some (generateIdempotencyKey (te_sha env) c x)"
  shows "tips_wf (t @ [r])"
  using assms(1,2)
proof (rule tips_wf_insert)
  show "tip_insert r t = Some (t @ [r])"
    using assms(3-5) by (auto simp: tip_insert_def clashes_def set_keys_of pair_free_def list_all_iff)
qed

text \<open>The three ways a request can end.\<close>

lemma verifyAndRecordTip_cases:
  assumes "i \<notin> tip_id ` set t" "verifyAndRecordTip env c x q l i n t = (res, t', fx)"
  obtains
    (replied) "t' = t" "fx = []" "\<And>r. res = Inr r \<Longrightarrow> tres_tip r \<in> set t \<and>
        tip_idempotencyKey (tres_tip r) = Some (generateIdempotencyKey (te_sha env) c x) \<and>
        tip_verificationStatus (tres_tip r) = VERIFIED \<and> \<not> tres_isNew r \<and> tres_state r = S_duplicate"
  | (refused) e r where "res = Inl e" "t' = t @ [r]" "settled_audits fx = []" "tip_processingLock r = None"
      "credit r = (i, c, x, Some (generateIdempotencyKey (te_sha env) c x), JDec 0 0, PENDING)"
  | (settled) r where "res = Inr r" "t' = t @ [tres_tip r]" "settled_audits fx = [i]" "tres_isNew r"
      "tres_state r = S_verified" "tip_processingLock (tres_tip r) = None"
      "tip_amount (tres_tip r) = JNaN \<or> amount_ok (tip_amount (tres_tip r))"
      "(\<lambda>(i, c, x, k, a, st). (i, c, x, k, st)) (credit (tres_tip r)) =
         (i, c, x, Some (generateIdempotencyKey (te_sha env) c x), VERIFIED)"
      "pair_free env c x t" "te_confession env c"
proof -
  let ?k = "generateIdempotencyKey (te_sha env) c x"
  have resolve: "tip_verificationStatus g = VERIFIED \<and> r = \<lparr>tres_tip = g, tres_isNew = False, tres_isIdempotent = True,
      tres_state = S_duplicate\<rparr>" if "resolveIdempotentOutcome g = Inr r" for g r
    using that by (auto simp: resolveIdempotentOutcome_def split: tip_status.splits)
  have found: "g \<in> set t \<and> tip_idempotencyKey g = Some ?k" if "findTipByIdempotencyKey ?k t = Some g" for g
    using that find_one_SomeD by (fastforce simp: findTipByIdempotencyKey_def)
  show thesis
  proof (cases "verify_lookup env c x t")
    case (Some reply)
    then show ?thesis using assms(2) found resolve
      by (intro replied) (force simp: verifyAndRecordTip_def verify_lookup_def split: if_splits option.splits)+
  next
    case None
    then have conf: "te_confession env c" by (auto simp: verify_lookup_def split: if_splits)
    show ?thesis
    proof (cases "pair_free env c x t")
      case False
      then show ?thesis using assms(2) None found resolve
        by (intro replied)
          (force simp: verifyAndRecordTip_def verify_claim_def tryInsertSentinelTip_def insert_sentinel_iff Let_def
            split: option.splits)+
    next
      case True
      let ?s = "sentinel_tip c x ?k l i n"
      have fin: "verify_finish env c x q ?s n (t @ [?s]) = (res, t', fx)"
        using assms(2) None True by (simp add: verifyAndRecordTip_def verify_claim_free Let_def)
      then show ?thesis
      proof (cases rule: verify_finish_cases)
        case (failed e)
        from verify_finish_failed_last[OF _ fin[unfolded failed(1)]] assms(1) failed show ?thesis
          by (auto simp: credit_def intro: refused)
      next
        case (settled p)
        with assms(1) True conf save_entity_last[of ?s t p _ n c x ?k l] show ?thesis
          by (intro that(3)[OF settled(2)]) (auto simp: finalise_def credit_def)
      qed
    qed
  qed
qed

section \<open>Properties of the handler\<close>

text \<open>A network on which the transaction exists and pays 5.5 XLM, for concrete runs.\<close>

definition sample_tx :: tx_data where
  "sample_tx = \<lparr>td_successful = True,
     td_operations = Some [\<lparr>op_type = ''payment'', op_asset_code = None, op_asset_issuer = None,
       op_asset_type = Some ''native'', op_amount = Some ''5.5000000'', op_from = Some ''GA''\<rparr>],
     td_memo_type = None, td_memo = None\<rparr>"

definition sample_env :: tip_env where
  "sample_env = \<lparr>te_sha = (\<lambda>s. s), te_confession = (\<lambda>c. c = ''c1''), te_verify = (\<lambda>x. Inr (x = ''tx'')),
     te_fetch = (\<lambda>_. Responded 200 (Inr sample_tx)), te_parse_memo = (\<lambda>_. None), te_round = (\<lambda>n. n),
     te_analytics = True, te_mainnet = False\<rparr>"

definition sample_tip :: tip where
  "sample_tip = \<lparr>tip_id = ''t1'', tip_confessionId = ''c1'', tip_amount = JDec 55000000 7, tip_txId = ''tx'',
      tip_idempotencyKey = Some ''c1:tx'', tip_senderAddress = Some ''GA'', tip_verificationStatus = VERIFIED,
      tip_verifiedAt = Some 1000, tip_rejectionReason = None, tip_retryCount = 0,
      tip_lastChainStatus = Some ''verified'', tip_lastCheckedAt = Some 1000,
      tip_reconciliationMetadata = Some (settlement_meta \<lparr>pd_amount = JDec 55000000 7,
         pd_senderAddress = Some ''GA'', pd_receiptMetadata = empty_receipt\<rparr> ''c1:tx'' None),
      tip_processingLock = None, tip_lockedAt = None, tip_lockedBy = None, tip_createdAt = 1000,
      tip_submissionStatus = SUBMITTED, tip_submittedAt = None, tip_confirmedAt = None, tip_failedAt = None,
      tip_failureReason = None, tip_expiryBlockHeight = None, tip_ledgerSequence = None,
      tip_sorobanMetadata = None\<rparr>"

lemma sample_fetched:
  "chain_fetched sample_env ''tx'' i n t =
     (Inr \<lparr>pd_amount = JDec 55000000 7, pd_senderAddress = Some ''GA'', pd_receiptMetadata = empty_receipt\<rparr>, t)"
proof -
  have "parseFloat (\<lambda>n. n) (Some ''5.5000000'') = JDec 55000000 7" by code_simp
  moreover have "validateTipAmountBounds (JDec 55000000 7) = Inr ()" "validateTipPrecision (JDec 55000000 7) 7 = Inr ()"
    by code_simp+
  ultimately show ?thesis
    by (simp add: chain_fetched_def sample_env_def sample_tx_def fetchTransactionData_def response_ok_def
        processTransactionData_def validateTipAsset_def SUPPORTED_TIP_ASSETS_def
        extractSettlementReceiptMetadata_def empty_receipt_def)
qed

lemma sample_run:
  "\<exists>fx. verifyAndRecordTip sample_env ''c1'' ''tx'' None ''lock'' ''t1'' 1000 [] =
     (Inr \<lparr>tres_tip = sample_tip, tres_isNew = True, tres_isIdempotent = False, tres_state = S_verified\<rparr>,
      [sample_tip], fx)"
proof -
  have "verifyAndRecordTip sample_env ''c1'' ''tx'' None ''lock'' ''t1'' 1000 [] =
    verify_finish sample_env ''c1'' ''tx'' None (sentinel_tip ''c1'' ''tx'' ''c1:tx'' ''lock'' ''t1'' 1000) 1000
      [sentinel_tip ''c1'' ''tx'' ''c1:tx'' ''lock'' ''t1'' 1000]"
    by (simp add: verifyAndRecordTip_def verify_lookup_def findTipByIdempotencyKey_def verify_claim_free pair_free_def
        generateIdempotencyKey_def Let_def) (simp add: sample_env_def)
  moreover have "chain_verified sample_env ''tx'' i n t = (Inr (), t)" for i n t
    by (simp add: chain_verified_def sample_env_def)
  ultimately show ?thesis
    by (simp add: verify_finish_def sample_fetched verify_settle_def Let_def save_entity_def finalise_def
        write_entity_def generateIdempotencyKey_def)
      (simp add: sample_tip_def sentinel_tip_def sample_env_def)
qed

text \<open>C3: a request answered with success has a settled tip to show for it.  Either it settled the
  transaction itself: the row it appended is VERIFIED, unlocked, bound to the confession and the
  transaction of the request, its amount is inside the bounds (or not a number, which the bounds
  check lets through), and the request wrote one settlement to the audit log; or it is a replay of
  an already verified row, and changed nothing.  The table stays well formed.\<close>

theorem verify_success_is_settled:
  assumes "tips_wf t" "newId \<notin> tip_id ` set t"
    and "verifyAndRecordTip env c tx requestId lockId newId now t = (Inr r, t', fx)"
  shows "tips_wf t' \<and> tres_tip r \<in> set t' \<and> tip_verificationStatus (tres_tip r) = VERIFIED \<and>
     (if tres_isNew r
      then t' = t @ [tres_tip r] \<and> tip_confessionId (tres_tip r) = c \<and> tip_txId (tres_tip r) = tx \<and>
           tip_processingLock (tres_tip r) = None \<and> settled_audits fx = [newId] \<and>
           (tip_amount (tres_tip r) = JNaN \<or> amount_ok (tip_amount (tres_tip r)))
      else t' = t \<and> fx = [] \<and> tres_state r = S_duplicate)"
  using assms(2,3)
proof (cases rule: verifyAndRecordTip_cases)
  case replied
  with assms(1) show ?thesis by auto
next
  case (settled r')
  from settled(8) have f: "tip_id (tres_tip r') = newId" "tip_confessionId (tres_tip r') = c"
    "tip_txId (tres_tip r') = tx" "tip_verificationStatus (tres_tip r') = VERIFIED"
    "tip_idempotencyKey (tres_tip r') = Some (generateIdempotencyKey (te_sha env) c tx)"
    by (simp_all add: credit_def)
  have "tips_wf t'"
    unfolding settled(2) using assms(1,2) settled(9) f by (intro tips_wf_append) simp_all
  with settled f show ?thesis by simp
qed simp

theorem verify_success_is_settled_witness:
  "\<exists>fx. verifyAndRecordTip sample_env ''c1'' ''tx'' None ''lock'' ''t1'' 1000 [] =
     (Inr \<lparr>tres_tip = sample_tip, tres_isNew = True, tres_isIdempotent = False, tres_state = S_verified\<rparr>,
      [sample_tip], fx) \<and> settled_audits fx = [''t1''] \<and> tips_wf [sample_tip]"
proof -
  obtain fx where run: "verifyAndRecordTip sample_env ''c1'' ''tx'' None ''lock'' ''t1'' 1000 [] =
     (Inr \<lparr>tres_tip = sample_tip, tres_isNew = True, tres_isIdempotent = False, tres_state = S_verified\<rparr>,
      [sample_tip], fx)" using sample_run by blast
  from verify_success_is_settled[OF _ _ run] run show ?thesis by (simp add: tips_wf_def)
qed

text \<open>C4: a request answered with an error credits nothing: it writes no settlement, every row that
  was there is still there unchanged, and at most one row is new, the request's own sentinel, left
  PENDING, unlocked and with amount zero.\<close>

theorem verify_failure_credits_nothing:
  assumes "newId \<notin> tip_id ` set t"
    and "verifyAndRecordTip env c tx requestId lockId newId now t = (Inl e, t', fx)"
  shows "settled_audits fx = [] \<and>
     (t' = t \<or> (\<exists>r. t' = t @ [r] \<and> tip_verificationStatus r = PENDING \<and> tip_amount r = JDec 0 0 \<and>
        tip_txId r = tx \<and> tip_confessionId r = c \<and> tip_processingLock r = None))"
  using assms by (cases rule: verifyAndRecordTip_cases) (auto simp: credit_def)

theorem verify_failure_credits_nothing_witness:
  "(case verifyAndRecordTip sample_env ''c1'' ''other'' None ''lock'' ''t1'' 1000 [] of
      (Inl e, t', fx) \<Rightarrow> length t' = 1 \<and> settled_audits fx = [] \<and> tip_processingLock (hd t') = None
    | _ \<Rightarrow> False)"
proof -
  obtain e t' fx where run: "verifyAndRecordTip sample_env ''c1'' ''other'' None ''lock'' ''t1'' 1000 [] = (Inl e, t', fx)"
    and t': "t' \<noteq> []"
    by (simp add: verifyAndRecordTip_def verify_lookup_def findTipByIdempotencyKey_def verify_claim_free pair_free_def
        verify_finish_def chain_verified_def sample_env_def verify_fail_def releaseProcessingLock_def
        updateRetryMetadata_def Let_def)
  from verify_failure_credits_nothing[OF _ run] run t' show ?thesis by auto
qed

text \<open>C5: a settled transaction is answered from the row from then on: repeating the request, whatever
  its id and clock, returns the same tip as a duplicate, changes nothing and emits nothing.\<close>

theorem verify_replay_idempotent:
  assumes "tips_wf t" "newId \<notin> tip_id ` set t"
    and "verifyAndRecordTip env c tx requestId lockId newId now t = (Inr r, t', fx)" "tres_isNew r"
  shows "verifyAndRecordTip env c tx requestId2 lockId2 newId2 now2 t' =
    (Inr \<lparr>tres_tip = tres_tip r, tres_isNew = False, tres_isIdempotent = True, tres_state = S_duplicate\<rparr>, t', [])"
  using assms(2,3)
proof (cases rule: verifyAndRecordTip_cases)
  case (settled r')
  let ?k = "generateIdempotencyKey (te_sha env) c tx"
  have "find_one (\<lambda>r. tip_idempotencyKey r = Some ?k) t = None"
    using settled(9) by (auto simp: find_one_None_iff pair_free_def list_all_iff)
  then have "findTipByIdempotencyKey ?k t' = Some (tres_tip r)"
    using settled by (simp add: findTipByIdempotencyKey_def find_one_append credit_def)
  then have "verify_lookup env c tx t' = Some (resolveIdempotentOutcome (tres_tip r))"
    using settled by (auto simp: verify_lookup_def credit_def)
  then show ?thesis
    using settled by (simp add: verifyAndRecordTip_def resolveIdempotentOutcome_def credit_def)
qed (use assms in auto)

theorem verify_replay_idempotent_witness:
  "verifyAndRecordTip sample_env ''c1'' ''tx'' (Some ''again'') ''lock2'' ''t2'' 2000 [sample_tip] =
    (Inr \<lparr>tres_tip = sample_tip, tres_isNew = False, tres_isIdempotent = True, tres_state = S_duplicate\<rparr>, [sample_tip], [])"
proof -
  obtain fx where run: "verifyAndRecordTip sample_env ''c1'' ''tx'' None ''lock'' ''t1'' 1000 [] =
     (Inr \<lparr>tres_tip = sample_tip, tres_isNew = True, tres_isIdempotent = False, tres_state = S_verified\<rparr>,
      [sample_tip], fx)" using sample_run by blast
  from verify_replay_idempotent[OF _ _ run] show ?thesis by (simp add: tips_wf_def)
qed

text \<open>The processing lock excludes: once a process has taken the lock of a tip, every attempt in
  the following 30 seconds is refused and changes nothing, and from 30 seconds on the lock can be
  stolen.\<close>

theorem lock_excludes:
  assumes "tips_wf t" "acquireProcessingLock txId p lockId now t = (Inr (True, None), t')" "lockId \<noteq> []"
  shows "if now2 - now < TIP_LOCK_TIMEOUT_MS
     then \<exists>r. acquireProcessingLock txId p2 lockId2 now2 t' = (Inr (False, Some r), t') \<and>
            tip_processingLock r = Some lockId \<and> tip_lockedBy r = Some p
     else \<exists>u. acquireProcessingLock txId p2 lockId2 now2 t' = (Inr (True, None), u)"
proof -
  obtain g where g: "find_one (\<lambda>r. tip_txId r = txId) t = Some g" "tip_verificationStatus g \<noteq> VERIFIED"
    "t' = update_where (\<lambda>r. tip_id r = tip_id g) (take_lock lockId p (tip_retryCount g + 1) now) t"
    using assms(2) by (auto simp: acquireProcessingLock_def split: option.splits if_splits)
  let ?g = "take_lock lockId p (tip_retryCount g + 1) now g"
  have mem: "g \<in> set t" "tip_txId g = txId" using find_one_SomeD[OF g(1)] by auto
  have keep: "tip_txId (take_lock l q n m r) = tip_txId r" "tip_id (take_lock l q n m r) = tip_id r" for l q n m r
    by (simp_all add: take_lock_def)
  have uniq: "x = g" if "x \<in> set t" "tip_txId x = txId" for x
    using assms(1) that mem by (auto simp: tips_wf_def uniq_on_total dest: distinct_keys_eq)
  have ids: "x = g" if "x \<in> set t" "tip_id x = tip_id g" for x
    using assms(1) that mem(1) by (auto simp: tips_wf_def dest: distinct_keys_eq)
  have "find_one (\<lambda>r. tip_txId r = txId) t' = Some ?g"
  proof (rule find_one_unique)
    show "?g \<in> set t'" unfolding g(3) using mem by (intro update_where_hitI) auto
    show "tip_txId ?g = txId" using mem keep by simp
    show "x = ?g" if "x \<in> set t'" "tip_txId x = txId" for x
      using that(1) unfolding g(3)
    proof (cases rule: in_update_whereE)
      case (hit r)
      with ids show ?thesis by auto
    next
      case miss
      with uniq that(2) show ?thesis by auto
    qed
  qed
  moreover have "tip_verificationStatus ?g \<noteq> VERIFIED" "lock_fresh now2 ?g \<longleftrightarrow> now2 - now < TIP_LOCK_TIMEOUT_MS"
    using g(2) assms(3) by (simp_all add: take_lock_def lock_fresh_def)
  ultimately show ?thesis
    by (auto simp: acquireProcessingLock_def take_lock_def)
qed

theorem lock_excludes_witness:
  "\<exists>r. acquireProcessingLock ''tx'' ''reconciliation'' ''l2'' 6000
         (snd (acquireProcessingLock ''tx'' ''verify'' ''l1'' 5000 [unlock (sentinel_tip ''c1'' ''tx'' ''k'' ''l0'' ''t1'' 1000)])) =
       (Inr (False, Some r), snd (acquireProcessingLock ''tx'' ''verify'' ''l1'' 5000 [unlock (sentinel_tip ''c1'' ''tx'' ''k'' ''l0'' ''t1'' 1000)])) \<and>
       tip_processingLock r = Some ''l1'' \<and> tip_lockedBy r = Some ''verify''"
proof -
  let ?t = "[unlock (sentinel_tip ''c1'' ''tx'' ''k'' ''l0'' ''t1'' 1000)]"
  have "acquireProcessingLock ''tx'' ''verify'' ''l1'' 5000 ?t = (Inr (True, None), snd (acquireProcessingLock ''tx'' ''verify'' ''l1'' 5000 ?t))"
    by (simp add: acquireProcessingLock_def unlock_def sentinel_tip_def lock_fresh_def)
  moreover have "tips_wf ?t" by (simp add: tips_wf_def uniq_on_def unlock_def sentinel_tip_def)
  ultimately show ?thesis
    using lock_excludes[of ?t "''tx''" "''verify''" "''l1''" 5000 _ 6000 "''reconciliation''" "''l2''"]
    by (simp add: TIP_LOCK_TIMEOUT_MS_def)
qed

text \<open>\<open>StellarService.verifyTransaction\<close> never throws, so with the repository's own client an outage
  of Horizon is reported as an invalid transaction (a 400 the caller is not told to retry), and the
  branch that answers \<open>NETWORK_ERROR\<close> from step 5 is never taken.\<close>

theorem outage_reported_as_invalid:
  assumes "te_verify env = (\<lambda>x. Inr (fst (verifyTransaction cfg (\<lambda>n. Raised ''TypeError'' ''fetch failed: network'') x)))"
  shows "fst (verify_finish env c tx requestId s now t) =
    Inl (TipExn (BadRequestException ''Transaction not found or invalid on Stellar network''))"
proof -
  have "\<not> fst (verify_loop cfg (\<lambda>n. Raised nm msg) a)" for nm msg a
    by (rule notI) (drule verify_loop_true, auto)
  then have "te_verify env tx = Inr False"
    by (simp add: assms verifyTransaction_def)
  then show ?thesis by (simp add: verify_finish_def chain_verified_def)
qed

theorem outage_reported_as_invalid_witness:
  "fst (verify_finish (sample_env\<lparr>te_verify := (\<lambda>x. Inr (fst (verifyTransaction default_rpc_config
       (\<lambda>n. Raised ''TypeError'' ''fetch failed: network'') x)))\<rparr>) ''c1'' ''tx'' None
       (sentinel_tip ''c1'' ''tx'' ''k'' ''l'' ''t1'' 0) 0 []) =
    Inl (TipExn (BadRequestException ''Transaction not found or invalid on Stellar network''))"
  by (rule outage_reported_as_invalid[where cfg = default_rpc_config]) simp

end
