(* ===== verification/Tip_Reconciliation.thy ===== *)
theory Tip_Reconciliation
  imports Tipping Complex_Main
begin

text \<open>
  \<^verbatim>\<open>tipping/chain-reconciliation.service.ts\<close>: the job that re-checks unsettled tips against the chain,
  with backoff, a retry budget and dead letters, and the operator's manual trigger.

  \<open>Math.random()\<close>, the Horizon client and database failures are arguments (\<open>recon_env\<close>); one pass of
  the job runs on one clock value.  \<open>AuditLogService.log\<close> never throws, so only an \<open>UPDATE\<close> can fail
  inside the loop.
\<close>

section \<open>Types\<close>

record recon_metrics =
  rx_totalPending :: nat
  rx_reconciled :: nat
  rx_confirmed :: nat
  rx_failed :: nat
  rx_stuck :: nat
  rx_lastRun :: ms
  rx_duration :: ms
  rx_errors :: "string list"

record dead_letter =
  dl_tipId :: ident
  dl_txId :: string
  dl_confessionId :: ident
  dl_lastError :: string
  dl_attemptCount :: nat
  dl_firstFailedAt :: ms
  dl_lastFailedAt :: ms

record recon_env =
  re_verify :: "string \<Rightarrow> transaction_result outcome"
  re_random :: "ident \<Rightarrow> real"
  re_find_error :: "string option"
  re_update_error :: "ident \<Rightarrow> string option"
  re_analytics :: bool
  re_mainnet :: bool

record recon_state =
  rc_tips :: "tip list"
  rc_metrics :: recon_metrics
  rc_deadLetters :: "dead_letter list"
  rc_effects :: "tip_effect list"

definition MAX_RETRY_ATTEMPTS :: nat where "MAX_RETRY_ATTEMPTS = 10"
definition INITIAL_BACKOFF_MS :: real where "INITIAL_BACKOFF_MS = 5000"
definition MAX_BACKOFF_MS :: real where "MAX_BACKOFF_MS = 3600000"
definition STALE_THRESHOLD_MS :: ms where "STALE_THRESHOLD_MS = 86400000"

section \<open>Backoff and checks\<close>

definition calculateBackoffMs :: "real \<Rightarrow> nat \<Rightarrow> real" where
  "calculateBackoffMs random attemptNumber =
     (let exponentialBackoff = min (INITIAL_BACKOFF_MS * (2 ^ attemptNumber / 2)) MAX_BACKOFF_MS;
          jitter = exponentialBackoff * 0.2 * (random * 2 - 1)
      in min (max (exponentialBackoff + jitter) INITIAL_BACKOFF_MS) MAX_BACKOFF_MS)"

text \<open>\<open>new Date(x)\<close> drops the fraction of a millisecond.\<close>

definition shouldRetry :: "ms \<Rightarrow> real \<Rightarrow> tip \<Rightarrow> bool" where
  "shouldRetry now random r =
     (case tip_lastCheckedAt r of
        None \<Rightarrow> True
      | Some checked \<Rightarrow>
          if tip_retryCount r \<ge> MAX_RETRY_ATTEMPTS then False
          else now \<ge> checked + \<lfloor>calculateBackoffMs random (tip_retryCount r + 1)\<rfloor>)"

definition createDeadLetterRecord :: "ms \<Rightarrow> tip \<Rightarrow> string \<Rightarrow> dead_letter" where
  "createDeadLetterRecord now r lastError =
     \<lparr>dl_tipId = tip_id r, dl_txId = tip_txId r, dl_confessionId = tip_confessionId r,
      dl_lastError = lastError, dl_attemptCount = tip_retryCount r,
      dl_firstFailedAt = (if tip_verificationStatus r = PENDING then tip_createdAt r
                          else nullish (tip_lastCheckedAt r) (tip_createdAt r)),
      dl_lastFailedAt = now\<rparr>"

text \<open>The column has seven decimals, so the precision check reads the digits of the stored amount.\<close>

definition validatePersistedTipAmount :: "tip \<Rightarrow> string option" where
  "validatePersistedTipAmount r =
     (let amount = tip_amount r in
      if \<not> is_finite amount then Some ''Tip amount is not a finite number''
      else if num_lt amount MIN_TIP_AMOUNT then Some ''Tip amount is below minimum''
      else if num_lt MAX_TIP_AMOUNT amount then Some ''Tip amount exceeds maximum''
      else if decimal_length amount > TIP_PRECISION then Some ''Tip amount has too many decimal places''
      else None)"

definition recordReconciliationAnalytics :: "recon_env \<Rightarrow> tip \<Rightarrow> tip_status \<Rightarrow> tip_effect list" where
  "recordReconciliationAnalytics env r status =
     (if \<not> re_analytics env then []
      else let network = analytics_network (re_mainnet env) in
        if status = VERIFIED
        then (let amountAtomic = Some (amount_atomic (tip_amount r)) in
              [AnalyticsRecord ''tip_completed'' (tip_txId r) amountAtomic network (''tip_completed:'' @ tip_txId r),
               AnalyticsRecord ''stellar_tx_confirmed'' (tip_txId r) amountAtomic network
                 (''stellar_tx_confirmed:'' @ tip_txId r)])
        else if status = REJECTED
        then [AnalyticsRecord ''stellar_tx_failed'' (tip_txId r) None network (''stellar_tx_failed:'' @ tip_txId r)]
        else [])"

section \<open>One tip\<close>

record recon_result =
  rr_success :: bool
  rr_newStatus :: "tip_status option"
  rr_error :: "string option"

definition recon_failed :: "string \<Rightarrow> recon_result" where
  "recon_failed e = \<lparr>rr_success = False, rr_newStatus = None, rr_error = Some e\<rparr>"

definition recon_done :: "tip_status \<Rightarrow> recon_result" where
  "recon_done s = \<lparr>rr_success = True, rr_newStatus = Some s, rr_error = None\<rparr>"

definition is_transient :: "string \<Rightarrow> bool" where
  "is_transient m \<longleftrightarrow> js_includes m ''timeout'' \<or> js_includes m ''ECONNREFUSED'' \<or> js_includes m ''rate limit''"

definition reconcileSingleTip :: "recon_env \<Rightarrow> tip \<Rightarrow> recon_result" where
  "reconcileSingleTip env r =
     (case re_verify env (tip_txId r) of
        Inr txData \<Rightarrow>
          if tr_success txData \<noteq> Some True then recon_done REJECTED
          else (case validatePersistedTipAmount r of
                  Some amountError \<Rightarrow> recon_failed (''Cannot mark reconciled tip as verified: '' @ amountError)
                | None \<Rightarrow> recon_done VERIFIED)
      | Inl e \<Rightarrow>
          (let errorMessage = exn_message e in
           if \<not> is_transient errorMessage \<and> tip_retryCount r \<ge> MAX_RETRY_ATTEMPTS
           then recon_failed (''Reconciliation failed after '' @ nat_str (tip_retryCount r) @ '' attempts: '' @ errorMessage)
           else recon_failed errorMessage))"

definition is_pending :: "tip \<Rightarrow> bool" where
  "is_pending r \<longleftrightarrow> tip_verificationStatus r = PENDING \<or> tip_verificationStatus r = STALE_PENDING"

definition chain_status :: "tip_status \<Rightarrow> string" where
  "chain_status s = (if s = VERIFIED then ''verified'' else ''rejected'')"

text \<open>The patch of a finished check, without the metadata that only the job writes.\<close>

definition settle_patch :: "ms \<Rightarrow> tip_status \<Rightarrow> tip \<Rightarrow> tip" where
  "settle_patch now s x =
     x\<lparr>tip_verificationStatus := s, tip_lastCheckedAt := Some now,
       tip_verifiedAt := (if s = VERIFIED then Some now else None), tip_lastChainStatus := Some (chain_status s),
       tip_processingLock := None, tip_lockedAt := None, tip_lockedBy := None\<rparr>"

definition job_settle_patch :: "ms \<Rightarrow> tip \<Rightarrow> tip_status \<Rightarrow> tip \<Rightarrow> tip" where
  "job_settle_patch now r s x =
     (settle_patch now s x)\<lparr>tip_reconciliationMetadata := Some (spread (tip_reconciliationMetadata r)
        [(''lastReconciliationAttempt'', MTime now), (''finalizedStatus'', MStatus s),
         (''wasStale'', MBool (tip_verificationStatus r = STALE_PENDING)),
         (''reconciliationAttempts'', MNat (tip_retryCount r + 1))])\<rparr>"

definition failure_patch :: "ms \<Rightarrow> tip \<Rightarrow> string \<Rightarrow> tip \<Rightarrow> tip" where
  "failure_patch now r e x =
     x\<lparr>tip_retryCount := tip_retryCount r + 1, tip_lastCheckedAt := Some now,
       tip_reconciliationMetadata := Some (spread (tip_reconciliationMetadata r)
        [(''lastReconciliationAttempt'', MTime now), (''lastReconciliationError'', MStr e),
         (''attemptCount'', MNat (tip_retryCount r + 1))])\<rparr>"

definition stale_patch :: "tip \<Rightarrow> tip" where
  "stale_patch x = x\<lparr>tip_verificationStatus := STALE_PENDING\<rparr>"

definition update_tip :: "ident \<Rightarrow> (tip \<Rightarrow> tip) \<Rightarrow> recon_state \<Rightarrow> recon_state" where
  "update_tip i f st = st\<lparr>rc_tips := update_where (\<lambda>x. tip_id x = i) f (rc_tips st)\<rparr>"

definition bump :: "(recon_metrics \<Rightarrow> recon_metrics) \<Rightarrow> recon_state \<Rightarrow> recon_state" where
  "bump f st = st\<lparr>rc_metrics := f (rc_metrics st)\<rparr>"

definition record_error :: "tip \<Rightarrow> string \<Rightarrow> recon_state \<Rightarrow> recon_state" where
  "record_error r e = bump (\<lambda>m. m\<lparr>rx_errors := rx_errors m @ [''Error reconciling tip '' @ tip_txId r @ '': '' @ e]\<rparr>)"

section \<open>The job\<close>

text \<open>The \<open>try\<close> around the loop body: an \<open>UPDATE\<close> that throws ends the iteration with an entry in
  \<open>errors\<close>, otherwise the rest of the body runs.\<close>

definition guarded_update ::
  "recon_env \<Rightarrow> tip \<Rightarrow> (tip \<Rightarrow> tip) \<Rightarrow> (recon_state \<Rightarrow> recon_state) \<Rightarrow> recon_state \<Rightarrow> recon_state" where
  "guarded_update env r f rest st =
     (case re_update_error env (tip_id r) of
        Some e \<Rightarrow> record_error r e st
      | None \<Rightarrow> rest (update_tip (tip_id r) f st))"

text \<open>The three branches of the body: not due yet, failed, settled.\<close>

definition job_skip :: "recon_env \<Rightarrow> ms \<Rightarrow> tip \<Rightarrow> recon_state \<Rightarrow> recon_state" where
  "job_skip env now r st =
     (if tip_verificationStatus r = PENDING \<and>
         (case tip_lastCheckedAt r of None \<Rightarrow> False | Some c \<Rightarrow> now - c > STALE_THRESHOLD_MS)
      then guarded_update env r stale_patch (\<lambda>st. st) st else st)"

definition count_failure :: "ms \<Rightarrow> tip \<Rightarrow> string \<Rightarrow> recon_state \<Rightarrow> recon_state" where
  "count_failure now r e st =
     (let st' = (if tip_retryCount r + 1 \<ge> MAX_RETRY_ATTEMPTS
                 then bump (\<lambda>m. m\<lparr>rx_stuck := rx_stuck m + 1\<rparr>)
                        (st\<lparr>rc_deadLetters := rc_deadLetters st @ [createDeadLetterRecord now r e]\<rparr>)
                 else st)
      in bump (\<lambda>m. m\<lparr>rx_failed := rx_failed m + 1\<rparr>) st')"

definition job_failed :: "recon_env \<Rightarrow> ms \<Rightarrow> tip \<Rightarrow> string \<Rightarrow> recon_state \<Rightarrow> recon_state" where
  "job_failed env now r e = guarded_update env r (failure_patch now r e) (count_failure now r e)"

definition settlement_audit :: "tip \<Rightarrow> tip_effect" where
  "settlement_audit r = AuditSettled (tip_id r) (tip_confessionId r) (tip_txId r) (tip_amount r) ''chain-reconciliation''"

definition announce_settled :: "recon_env \<Rightarrow> tip \<Rightarrow> tip_status \<Rightarrow> recon_state \<Rightarrow> recon_state" where
  "announce_settled env r s st =
     (let st' = (if s = VERIFIED
                 then bump (\<lambda>m. m\<lparr>rx_confirmed := rx_confirmed m + 1\<rparr>)
                        (st\<lparr>rc_effects := rc_effects st @ [settlement_audit r]\<rparr>)
                 else st)
      in bump (\<lambda>m. m\<lparr>rx_reconciled := rx_reconciled m + 1\<rparr>)
           (st'\<lparr>rc_effects := rc_effects st' @ recordReconciliationAnalytics env r s\<rparr>))"

definition job_settled :: "recon_env \<Rightarrow> ms \<Rightarrow> tip \<Rightarrow> tip_status \<Rightarrow> recon_state \<Rightarrow> recon_state" where
  "job_settled env now r s = guarded_update env r (job_settle_patch now r s) (announce_settled env r s)"

definition job_tip :: "recon_env \<Rightarrow> ms \<Rightarrow> tip \<Rightarrow> recon_state \<Rightarrow> recon_state" where
  "job_tip env now r st =
     (if \<not> shouldRetry now (re_random env (tip_id r)) r then job_skip env now r st
      else let res = reconcileSingleTip env r in
        if \<not> rr_success res \<and> truthy (rr_error res) then job_failed env now r (the (rr_error res)) st
        else case rr_newStatus res of Some s \<Rightarrow> job_settled env now r s st | None \<Rightarrow> st)"

definition find_pending :: "tip list \<Rightarrow> tip list" where
  "find_pending t =
     (let p = filter is_pending t in
      order_asc (\<lambda>r. nullish (tip_lastCheckedAt r) 0) (filter (\<lambda>r. tip_lastCheckedAt r \<noteq> None) p) @
      filter (\<lambda>r. tip_lastCheckedAt r = None) p)"

definition new_metrics :: "nat \<Rightarrow> ms \<Rightarrow> recon_metrics" where
  "new_metrics cnt now = \<lparr>rx_totalPending = cnt, rx_reconciled = 0, rx_confirmed = 0, rx_failed = 0,
     rx_stuck = 0, rx_lastRun = now, rx_duration = 0, rx_errors = []\<rparr>"

definition start_state :: "tip list \<Rightarrow> nat \<Rightarrow> ms \<Rightarrow> recon_state" where
  "start_state t cnt now = \<lparr>rc_tips = t, rc_metrics = new_metrics cnt now, rc_deadLetters = [], rc_effects = []\<rparr>"

definition dead_letter_audit :: "dead_letter \<Rightarrow> tip_effect" where
  "dead_letter_audit d = AuditDeadLetter (dl_tipId d) (dl_txId d) (dl_confessionId d) (dl_lastError d) (dl_attemptCount d)"

text \<open>The pass; \<open>later\<close> is the clock at its end.  The result is the table, \<open>lastMetrics\<close> and the
  effects in order.\<close>

definition reconcilePendingTips ::
  "recon_env \<Rightarrow> ms \<Rightarrow> ms \<Rightarrow> tip list \<Rightarrow> tip list \<times> recon_metrics \<times> tip_effect list" where
  "reconcilePendingTips env now later t =
     (case re_find_error env of
        Some e \<Rightarrow> (t, (new_metrics 0 now)\<lparr>rx_duration := later - now,
                                           rx_errors := [''Reconciliation loop error: '' @ e]\<rparr>, [])
      | None \<Rightarrow>
          (let pendingTips = find_pending t in
           if pendingTips = [] then (t, (new_metrics 0 now)\<lparr>rx_duration := max 1 (later - now)\<rparr>, [])
           else let st = fold (job_tip env now) pendingTips (start_state t (length pendingTips) now)
                in (rc_tips st, (rc_metrics st)\<lparr>rx_duration := max 1 (later - now)\<rparr>,
                    rc_effects st @ map dead_letter_audit (rc_deadLetters st))))"

section \<open>The manual trigger\<close>

definition manual_settle :: "recon_env \<Rightarrow> ms \<Rightarrow> tip \<Rightarrow> tip_status \<Rightarrow> recon_state \<Rightarrow> recon_state" where
  "manual_settle env now r s st = announce_settled env r s (update_tip (tip_id r) (settle_patch now s) st)"

text \<open>A failing \<open>UPDATE\<close> leaves the loop; \<open>Some\<close> is the error it left with.\<close>

fun manual_loop :: "recon_env \<Rightarrow> ms \<Rightarrow> tip list \<Rightarrow> recon_state \<Rightarrow> string option \<times> recon_state" where
  "manual_loop env now [] st = (None, st)"
| "manual_loop env now (r # rs) st =
     (let res = reconcileSingleTip env r in
      case rr_newStatus res of
        Some s \<Rightarrow>
          (case re_update_error env (tip_id r) of
             Some e \<Rightarrow> (Some e, st)
           | None \<Rightarrow> manual_loop env now rs (manual_settle env now r s st))
      | None \<Rightarrow>
          manual_loop env now rs
            (if \<not> rr_success res then bump (\<lambda>m. m\<lparr>rx_failed := rx_failed m + 1\<rparr>) st else st))"

definition manual_selection :: "ident list option \<Rightarrow> tip list \<Rightarrow> tip list" where
  "manual_selection tipIds t =
     (case tipIds of Some ids \<Rightarrow> filter (\<lambda>r. tip_id r \<in> set ids) t | None \<Rightarrow> filter is_pending t)"

definition manualReconciliation ::
  "recon_env \<Rightarrow> ms \<Rightarrow> ms \<Rightarrow> ident list option \<Rightarrow> tip list \<Rightarrow> tip list \<times> recon_metrics \<times> tip_effect list" where
  "manualReconciliation env now later tipIds t =
     (case re_find_error env of
        Some e \<Rightarrow> (t, (new_metrics 0 now)\<lparr>rx_duration := later - now, rx_errors := [e]\<rparr>, [])
      | None \<Rightarrow>
          (let tips = manual_selection tipIds t in
           case manual_loop env now tips (start_state t (length tips) now) of
             (None, st) \<Rightarrow> (rc_tips st, (rc_metrics st)\<lparr>rx_duration := later - now\<rparr>, rc_effects st)
           | (Some e, st) \<Rightarrow>
               (rc_tips st, (new_metrics 0 later)\<lparr>rx_duration := later - now, rx_errors := [e]\<rparr>, rc_effects st)))"

section \<open>Lemmas\<close>

lemma exp_backoff_bounds:
  assumes "1 \<le> n"
  shows "INITIAL_BACKOFF_MS \<le> min (INITIAL_BACKOFF_MS * (2 ^ n / 2)) MAX_BACKOFF_MS"
proof -
  have "(2::real) ^ 1 \<le> 2 ^ n" using assms by (intro power_increasing) auto
  then show ?thesis by (simp add: INITIAL_BACKOFF_MS_def MAX_BACKOFF_MS_def min_def)
qed

text \<open>The wait before the next check lies between 5 seconds and one hour for every draw of the
  jitter and every attempt number, and it stays within 20 percent of the capped exponential; so a tip
  is never re-checked within 5 seconds of its last check, nor once its retry budget is spent.\<close>

theorem backoff_bounds:
  assumes "0 \<le> random" "random \<le> 1" "1 \<le> n"
  shows "INITIAL_BACKOFF_MS \<le> calculateBackoffMs random n \<and> calculateBackoffMs random n \<le> MAX_BACKOFF_MS \<and>
    (let e = min (INITIAL_BACKOFF_MS * (2 ^ n / 2)) MAX_BACKOFF_MS in
       e * 0.8 \<le> calculateBackoffMs random n \<and> calculateBackoffMs random n \<le> e * 1.2) \<and>
    (tip_lastCheckedAt r = Some checked \<and> shouldRetry now random r \<longrightarrow>
       tip_retryCount r < MAX_RETRY_ATTEMPTS \<and> checked + 5000 \<le> now)"
proof -
  define e where "e = min (INITIAL_BACKOFF_MS * (2 ^ n / 2)) MAX_BACKOFF_MS"
  have e: "INITIAL_BACKOFF_MS \<le> e" "e \<le> MAX_BACKOFF_MS"
    using exp_backoff_bounds[OF assms(3)] by (auto simp: e_def)
  have epos: "0 \<le> e * 0.2" using e by (simp add: INITIAL_BACKOFF_MS_def)
  have j1: "e * 0.2 * (-1) \<le> e * 0.2 * (random * 2 - 1)"
    by (rule mult_left_mono[OF _ epos]) (use assms in simp)
  have j2: "e * 0.2 * (random * 2 - 1) \<le> e * 0.2 * 1"
    by (rule mult_left_mono[OF _ epos]) (use assms in simp)
  have gen: "INITIAL_BACKOFF_MS \<le> calculateBackoffMs random m" for m
    by (simp add: calculateBackoffMs_def Let_def INITIAL_BACKOFF_MS_def MAX_BACKOFF_MS_def)
  have "e * 0.8 \<le> calculateBackoffMs random n" "calculateBackoffMs random n \<le> e * 1.2"
    unfolding calculateBackoffMs_def Let_def e_def[symmetric] using j1 j2 e by (auto simp: min_def max_def)
  moreover have "calculateBackoffMs random n \<le> MAX_BACKOFF_MS"
    by (simp add: calculateBackoffMs_def Let_def)
  moreover have "checked + 5000 \<le> now" if "tip_lastCheckedAt r = Some checked" "shouldRetry now random r"
  proof -
    have "5000 \<le> \<lfloor>calculateBackoffMs random (tip_retryCount r + 1)\<rfloor>"
      using gen[of "tip_retryCount r + 1"] by (simp add: INITIAL_BACKOFF_MS_def le_floor_iff)
    moreover have "checked + \<lfloor>calculateBackoffMs random (tip_retryCount r + 1)\<rfloor> \<le> now"
      using that by (auto simp: shouldRetry_def split: if_splits)
    ultimately show ?thesis by linarith
  qed
  ultimately show ?thesis
    using gen[of n] by (auto simp: e_def Let_def shouldRetry_def split: if_splits)
qed

theorem backoff_bounds_witness:
  "calculateBackoffMs (1/2) 3 = 20000 \<and> calculateBackoffMs 0 1 \<le> MAX_BACKOFF_MS \<and> calculateBackoffMs 1 20 \<le> MAX_BACKOFF_MS"
  using backoff_bounds[of 0 1] backoff_bounds[of 1 20]
  by (auto simp: calculateBackoffMs_def INITIAL_BACKOFF_MS_def MAX_BACKOFF_MS_def)

text \<open>How a pass may have changed one row: not at all, or a pending row was patched, and then it is
  VERIFIED only if the chain and its stored amount allow it.\<close>

definition recon_row :: "recon_env \<Rightarrow> tip \<Rightarrow> tip \<Rightarrow> bool" where
  "recon_row env x y \<longleftrightarrow> y = x \<or>
     (is_pending x \<and> tip_id y = tip_id x \<and> tip_txId y = tip_txId x \<and> tip_idempotencyKey y = tip_idempotencyKey x \<and>
      tip_confessionId y = tip_confessionId x \<and> tip_amount y = tip_amount x \<and>
      tip_verificationStatus y \<in> {PENDING, STALE_PENDING, VERIFIED, REJECTED} \<and>
      (tip_verificationStatus y = VERIFIED \<longrightarrow> amount_ok (tip_amount x) \<and> tip_processingLock y = None \<and>
         (\<exists>tx. re_verify env (tip_txId x) = Inr tx \<and> tr_success tx = Some True)))"

lemma recon_row_refl [simp]: "recon_row env x x"
  by (simp add: recon_row_def)

lemma validatePersisted_iff: "validatePersistedTipAmount r = None \<longleftrightarrow> amount_ok (tip_amount r)"
  by (cases "tip_amount r")
    (auto simp: validatePersistedTipAmount_def Let_def amount_ok_def is_finite_def MIN_TIP_AMOUNT_def MAX_TIP_AMOUNT_def)

lemma reconcileSingleTip_cases:
  obtains
    (fail) e where "reconcileSingleTip env r = recon_failed e"
  | (reject) "reconcileSingleTip env r = recon_done REJECTED"
  | (confirm) tx where "reconcileSingleTip env r = recon_done VERIFIED" "re_verify env (tip_txId r) = Inr tx"
      "tr_success tx = Some True" "amount_ok (tip_amount r)"
proof (cases "re_verify env (tip_txId r)")
  case (Inl e)
  then show ?thesis by (cases "\<not> is_transient (exn_message e) \<and> tip_retryCount r \<ge> MAX_RETRY_ATTEMPTS")
      (auto simp: reconcileSingleTip_def Let_def intro: fail)
next
  case (Inr tx)
  show ?thesis
  proof (cases "tr_success tx = Some True")
    case True
    show ?thesis
    proof (cases "validatePersistedTipAmount r")
      case None
      then have "amount_ok (tip_amount r)" by (simp add: validatePersisted_iff)
      with Inr True None show ?thesis by (intro confirm[of tx]) (simp_all add: reconcileSingleTip_def)
    next
      case (Some e)
      with Inr True show ?thesis by (intro fail) (simp add: reconcileSingleTip_def)
    qed
  next
    case False
    with Inr show ?thesis by (intro reject) (simp add: reconcileSingleTip_def)
  qed
qed

lemmas result_simps [simp] = recon_failed_def recon_done_def

text \<open>What one iteration does to the table: an update of the tip's own row by one of three patches.\<close>

inductive job_patch :: "recon_env \<Rightarrow> ms \<Rightarrow> tip \<Rightarrow> (tip \<Rightarrow> tip) \<Rightarrow> bool" for env now r where
  stale: "job_patch env now r stale_patch"
| retry: "shouldRetry now (re_random env (tip_id r)) r \<Longrightarrow> job_patch env now r (failure_patch now r e)"
| reject: "job_patch env now r (job_settle_patch now r REJECTED)"
| confirm: "amount_ok (tip_amount r) \<Longrightarrow> re_verify env (tip_txId r) = Inr tx \<Longrightarrow> tr_success tx = Some True \<Longrightarrow>
    job_patch env now r (job_settle_patch now r VERIFIED)"

lemma guarded_update_table:
  assumes "\<And>st. rc_tips (rest st) = rc_tips st"
  shows "rc_tips (guarded_update env r f rest st) = rc_tips st \<or>
    rc_tips (guarded_update env r f rest st) = update_where (\<lambda>x. tip_id x = tip_id r) f (rc_tips st)"
  using assms by (simp add: guarded_update_def record_error_def bump_def update_tip_def split: option.split)

lemma bookkeeping_table [simp]:
  "rc_tips (count_failure now r e st) = rc_tips st" "rc_tips (announce_settled env r s st) = rc_tips st"
  "rc_tips (bump g st) = rc_tips st"
  by (simp_all add: count_failure_def announce_settled_def bump_def Let_def)

lemma job_tip_table:
  "rc_tips (job_tip env now r st) = rc_tips st \<or>
   (\<exists>f. job_patch env now r f \<and>
        rc_tips (job_tip env now r st) = update_where (\<lambda>x. tip_id x = tip_id r) f (rc_tips st))"
proof (cases "shouldRetry now (re_random env (tip_id r)) r")
  case False
  then show ?thesis
    using guarded_update_table[of "\<lambda>st. st" env r stale_patch st] stale[of env now r]
    by (auto simp: job_tip_def job_skip_def)
next
  case True
  show ?thesis
  proof (cases rule: reconcileSingleTip_cases[of env r])
    case (fail e)
    with True retry[OF True, of e] guarded_update_table[of "count_failure now r e" env r "failure_patch now r e" st]
    show ?thesis by (auto simp: job_tip_def Let_def job_failed_def)
  next
    case reject
    with True job_patch.reject[of env now r]
      guarded_update_table[of "announce_settled env r REJECTED" env r "job_settle_patch now r REJECTED" st]
    show ?thesis by (auto simp: job_tip_def Let_def job_settled_def)
  next
    case (confirm tx)
    with True job_patch.confirm[OF confirm(4,2,3), of now]
      guarded_update_table[of "announce_settled env r VERIFIED" env r "job_settle_patch now r VERIFIED" st]
    show ?thesis by (auto simp: job_tip_def Let_def job_settled_def)
  qed
qed

lemma recon_row_patch:
  assumes "job_patch env now r f" "recon_row env r y" "is_pending r"
  shows "recon_row env r (f y)"
  using assms
  by (cases rule: job_patch.cases)
    (auto simp: recon_row_def stale_patch_def failure_patch_def job_settle_patch_def settle_patch_def is_pending_def)

lemma recon_row_id: "recon_row env x y \<Longrightarrow> tip_id y = tip_id x"
  by (auto simp: recon_row_def)

lemma job_tip_rows:
  assumes "distinct (map tip_id t)" "r \<in> set t" "is_pending r" "list_all2 (recon_row env) t (rc_tips st)"
  shows "list_all2 (recon_row env) t (rc_tips (job_tip env now r st))"
proof (cases "rc_tips (job_tip env now r st) = rc_tips st")
  case True
  with assms show ?thesis by simp
next
  case False
  with job_tip_table obtain f where patch: "job_patch env now r f"
    "rc_tips (job_tip env now r st) = update_where (\<lambda>x. tip_id x = tip_id r) f (rc_tips st)" by blast
  have "recon_row env x (if tip_id y = tip_id r then f y else y)" if "x \<in> set t" "recon_row env x y" for x y
  proof (cases "tip_id y = tip_id r")
    case True
    with that recon_row_id have "tip_id x = tip_id r" by metis
    with assms(1,2) that(1) have "x = r" by (metis distinct_keys_eq)
    with True that(2) recon_row_patch[OF patch(1) _ assms(3)] show ?thesis by simp
  qed (use that in simp)
  with assms(4) show ?thesis
    unfolding patch(2) by (auto simp: update_where_def list_all2_conv_all_nth)
qed

lemma job_rows:
  assumes "distinct (map tip_id t)" "\<forall>r \<in> set rs. r \<in> set t \<and> is_pending r"
    "list_all2 (recon_row env) t (rc_tips st)"
  shows "list_all2 (recon_row env) t (rc_tips (fold (job_tip env now) rs st))"
  using assms(2,3)
proof (induction rs arbitrary: st)
  case (Cons r rs)
  then show ?case using job_tip_rows[OF assms(1), of r env st now] by simp
qed simp

lemma set_find_pending: "set (find_pending t) = {r \<in> set t. is_pending r}"
  by (auto simp: find_pending_def order_asc_def Let_def)

lemma pass_rows:
  assumes "distinct (map tip_id t)" "reconcilePendingTips env now later t = (t', m, fx)"
  shows "list_all2 (recon_row env) t t'"
proof -
  have "list_all2 (recon_row env) t t" by (simp add: list_all2_conv_all_nth)
  with assms job_rows[OF assms(1), of "find_pending t" env "start_state t (length (find_pending t)) now" now]
  show ?thesis
    by (auto simp: reconcilePendingTips_def set_find_pending start_state_def Let_def split: option.splits if_splits)
qed

lemma rows_wf:
  assumes "tips_wf t" "list_all2 (recon_row env) t t'"
  shows "tips_wf t'"
proof -
  have "map h t' = map h t" if "\<And>x y. recon_row env x y \<Longrightarrow> h y = h x" for h :: "tip \<Rightarrow> 'a"
    using assms(2) that by (auto simp: list_all2_conv_all_nth intro!: nth_equalityI)
  note this [of tip_id]
  moreover have "map tip_txId t' = map tip_txId t" "map tip_idempotencyKey t' = map tip_idempotencyKey t"
    using assms(2) by (auto simp: list_all2_conv_all_nth recon_row_def intro!: nth_equalityI)
  ultimately show ?thesis
    using assms(1) recon_row_id
    by (simp add: tips_wf_def uniq_on_total uniq_on_def keys_of_eq_map[of tip_idempotencyKey])
qed

text \<open>The counters after some of the pending tips.\<close>

definition counters_ok :: "nat \<Rightarrow> recon_state \<Rightarrow> bool" where
  "counters_ok n st = (let m = rc_metrics st in
     rx_reconciled m + rx_failed m + length (rx_errors m) \<le> n \<and> rx_confirmed m \<le> rx_reconciled m \<and>
     rx_stuck m \<le> rx_failed m \<and> rx_stuck m = length (rc_deadLetters st) \<and>
     length (settled_audits (rc_effects st)) = rx_confirmed m)"

lemma settled_audits_reconciliation [simp]: "settled_audits (recordReconciliationAnalytics env r s) = []"
  by (simp add: recordReconciliationAnalytics_def Let_def)

lemmas counter_defs = counters_ok_def Let_def bump_def update_tip_def record_error_def

lemma counters_guarded:
  assumes "counters_ok n st" "\<And>st. counters_ok n st \<Longrightarrow> counters_ok (Suc n) (rest st)"
  shows "counters_ok (Suc n) (guarded_update env r f rest st)"
proof (cases "re_update_error env (tip_id r)")
  case (Some e)
  with assms(1) show ?thesis by (auto simp: guarded_update_def counter_defs)
next
  case None
  have "counters_ok n (update_tip (tip_id r) f st)"
    using assms(1) by (simp add: counter_defs)
  with assms(2) None show ?thesis by (simp add: guarded_update_def)
qed

lemma counters_rest:
  "counters_ok n st \<Longrightarrow> counters_ok (Suc n) st"
  "counters_ok n st \<Longrightarrow> counters_ok (Suc n) (count_failure now r e st)"
  "counters_ok n st \<Longrightarrow> counters_ok (Suc n) (announce_settled env r s st)"
  by (auto simp: counter_defs count_failure_def announce_settled_def settlement_audit_def)

lemma counters_job_tip:
  assumes "counters_ok n st"
  shows "counters_ok (Suc n) (job_tip env now r st)"
proof -
  have "counters_ok (Suc n) (job_skip env now r st)"
    using assms counters_rest(1) by (auto simp: job_skip_def intro: counters_guarded)
  moreover have "counters_ok (Suc n) (job_failed env now r e st)" for e
    unfolding job_failed_def by (intro counters_guarded assms counters_rest)
  moreover have "counters_ok (Suc n) (job_settled env now r s st)" for s
    unfolding job_settled_def by (intro counters_guarded assms counters_rest)
  ultimately show ?thesis
    using assms counters_rest(1) by (auto simp: job_tip_def Let_def split: option.split)
qed

lemma counters_job:
  "counters_ok n st \<Longrightarrow> counters_ok (n + length rs) (fold (job_tip env now) rs st)"
proof (induction rs arbitrary: n st)
  case (Cons r rs)
  from Cons.IH[OF counters_job_tip[OF Cons.prems]] show ?case by simp
qed simp

lemma total_pending_kept:
  "rx_totalPending (rc_metrics (fold (job_tip env now) rs st)) = rx_totalPending (rc_metrics st)"
proof (induction rs arbitrary: st)
  case (Cons r rs)
  have "rx_totalPending (rc_metrics (job_tip env now r st)) = rx_totalPending (rc_metrics st)"
    by (simp add: job_tip_def job_skip_def job_failed_def job_settled_def guarded_update_def count_failure_def
        announce_settled_def bump_def update_tip_def record_error_def Let_def split: option.split)
  with Cons show ?case by simp
qed simp

lemma length_find_pending: "length (find_pending t) = length (filter is_pending t)"
proof -
  have "length (filter P u) + length (filter (\<lambda>r. \<not> P r) u) = length u" for P and u :: "tip list"
    by (rule sum_length_filter_compl)
  note this[of "\<lambda>r. tip_lastCheckedAt r \<noteq> None" "filter is_pending t"]
  then show ?thesis by (simp add: find_pending_def order_asc_def Let_def)
qed

lemma settled_audits_dead_letters [simp]: "settled_audits (map dead_letter_audit ds) = []"
  by (induction ds) (simp_all add: dead_letter_audit_def)

text \<open>The metrics of a pass account for the pending tips: every pending tip is counted, tips that
  were reconciled, failed or raised an error are disjoint parts of them, the confirmed are among the
  reconciled and each has its audit entry, and the stuck are among the failed.\<close>

theorem pass_metrics_account:
  "case reconcilePendingTips env now later t of (t', m, fx) \<Rightarrow>
     (if re_find_error env = None
      then rx_totalPending m = length (filter is_pending t) \<and>
           rx_reconciled m + rx_failed m + length (rx_errors m) \<le> rx_totalPending m
      else rx_totalPending m = 0 \<and> length (rx_errors m) = 1 \<and> t' = t) \<and>
     rx_confirmed m \<le> rx_reconciled m \<and> rx_stuck m \<le> rx_failed m \<and>
     rx_confirmed m = length (settled_audits fx)"
proof (cases "re_find_error env = None \<and> find_pending t \<noteq> []")
  case True
  let ?st = "fold (job_tip env now) (find_pending t) (start_state t (length (find_pending t)) now)"
  have "counters_ok 0 (start_state t (length (find_pending t)) now)"
    by (simp add: counters_ok_def start_state_def new_metrics_def Let_def)
  from counters_job[OF this, of "find_pending t" env now]
  have "counters_ok (length (find_pending t)) ?st" by simp
  moreover have "rx_totalPending (rc_metrics ?st) = length (find_pending t)"
    by (simp add: total_pending_kept) (simp add: start_state_def new_metrics_def)
  ultimately show ?thesis
    using True by (simp add: reconcilePendingTips_def counters_ok_def Let_def length_find_pending)
next
  case False
  with length_find_pending[of t] show ?thesis
    by (auto simp: reconcilePendingTips_def new_metrics_def Let_def split: option.split)
qed

text \<open>A pass touches pending tips only.  Rows keep their id, transaction, key, confession and
  amount; a row that was settled before is left exactly as it was; and a row that became VERIFIED was
  pending, carries an amount inside the bounds, is unlocked, and its transaction is successful on
  the chain.\<close>

theorem pass_settles_only_valid:
  assumes "tips_wf t" "reconcilePendingTips env now later t = (t', m, fx)"
  shows "tips_wf t' \<and> map tip_id t' = map tip_id t \<and> map tip_amount t' = map tip_amount t \<and>
    (\<forall>r \<in> set t. \<not> is_pending r \<longrightarrow> r \<in> set t') \<and>
    (\<forall>r \<in> set t' - set t. tip_verificationStatus r = VERIFIED \<longrightarrow>
       amount_ok (tip_amount r) \<and> tip_processingLock r = None \<and>
       (\<exists>x. re_verify env (tip_txId r) = Inr x \<and> tr_success x = Some True))"
proof -
  have rows: "list_all2 (recon_row env) t t'"
    using assms by (intro pass_rows) (auto simp: tips_wf_def)
  have "map tip_id t' = map tip_id t" "map tip_amount t' = map tip_amount t"
    using rows by (auto simp: list_all2_conv_all_nth recon_row_def intro!: nth_equalityI)
  moreover have "r \<in> set t'" if "r \<in> set t" "\<not> is_pending r" for r
    using rows that by (auto simp: list_all2_conv_all_nth recon_row_def in_set_conv_nth)
  moreover have "amount_ok (tip_amount r) \<and> tip_processingLock r = None \<and>
       (\<exists>x. re_verify env (tip_txId r) = Inr x \<and> tr_success x = Some True)"
    if "r \<in> set t'" "r \<notin> set t" "tip_verificationStatus r = VERIFIED" for r
  proof -
    from that(1) obtain n where n: "n < length t'" "r = t' ! n" by (auto simp: in_set_conv_nth)
    with rows have "recon_row env (t ! n) r" "t ! n \<in> set t" by (auto simp: list_all2_conv_all_nth)
    with that(2,3) show ?thesis by (auto simp: recon_row_def)
  qed
  ultimately show ?thesis using rows_wf[OF assms(1) rows] by blast
qed

text \<open>A chain on which every transaction succeeded, and a tip that waits with a valid amount.\<close>

definition ok_chain :: recon_env where
  "ok_chain = \<lparr>re_verify = (\<lambda>x. Inr \<lparr>tr_hash = x, tr_success = Some True, tr_ledger = Some 7, tr_createdAt = [],
     tr_envelope = [], tr_result = []\<rparr>), re_random = (\<lambda>_. 0), re_find_error = None, re_update_error = (\<lambda>_. None),
     re_analytics = False, re_mainnet = False\<rparr>"

definition waiting_tip :: tip where
  "waiting_tip = (sentinel_tip ''c1'' ''tx'' ''k'' ''l'' ''t1'' 0)\<lparr>tip_amount := JDec 5 0\<rparr>"

lemma waiting_pass:
  "reconcilePendingTips ok_chain 6000 6001 [waiting_tip] =
     ([job_settle_patch 6000 waiting_tip VERIFIED waiting_tip],
      (new_metrics 1 6000)\<lparr>rx_reconciled := 1, rx_confirmed := 1, rx_duration := 1\<rparr>, [settlement_audit waiting_tip])"
proof -
  have "reconcileSingleTip ok_chain waiting_tip = recon_done VERIFIED"
  proof -
    have "validatePersistedTipAmount waiting_tip = None" unfolding waiting_tip_def by code_simp
    then show ?thesis by (simp add: reconcileSingleTip_def ok_chain_def)
  qed
  moreover have "shouldRetry 6000 (re_random ok_chain (tip_id waiting_tip)) waiting_tip"
    by (simp add: shouldRetry_def waiting_tip_def sentinel_tip_def ok_chain_def calculateBackoffMs_def
        INITIAL_BACKOFF_MS_def MAX_BACKOFF_MS_def MAX_RETRY_ATTEMPTS_def)
  ultimately have "job_tip ok_chain 6000 waiting_tip st = job_settled ok_chain 6000 waiting_tip VERIFIED st" for st
    by (simp add: job_tip_def)
  moreover have "find_pending [waiting_tip] = [waiting_tip]"
    by (simp add: find_pending_def is_pending_def waiting_tip_def sentinel_tip_def order_asc_def)
  ultimately show ?thesis
    by (simp add: reconcilePendingTips_def ok_chain_def start_state_def new_metrics_def job_settled_def guarded_update_def
        update_tip_def announce_settled_def bump_def recordReconciliationAnalytics_def Let_def)
qed

theorem pass_settles_only_valid_witness:
  "tips_wf [waiting_tip] \<and> tips_wf (fst (reconcilePendingTips ok_chain 6000 6001 [waiting_tip])) \<and>
   map tip_verificationStatus (fst (reconcilePendingTips ok_chain 6000 6001 [waiting_tip])) = [VERIFIED]"
  using pass_settles_only_valid[OF _ waiting_pass]
  by (simp add: waiting_pass tips_wf_def uniq_on_def) (simp add: waiting_tip_def job_settle_patch_def settle_patch_def)

text \<open>The retry budget of a tip that has been checked before.\<close>

definition in_budget :: "tip \<Rightarrow> bool" where
  "in_budget r \<longleftrightarrow> tip_lastCheckedAt r \<noteq> None \<and> tip_retryCount r \<le> MAX_RETRY_ATTEMPTS"

lemma job_patch_budget:
  assumes "job_patch env now r f" "in_budget r" "in_budget y"
  shows "in_budget (f y)"
  using assms
  by (cases rule: job_patch.cases)
    (auto simp: in_budget_def stale_patch_def failure_patch_def job_settle_patch_def settle_patch_def shouldRetry_def
      split: if_splits)

lemma job_budget:
  assumes "list_all in_budget rs" "list_all in_budget (rc_tips st)"
  shows "list_all in_budget (rc_tips (fold (job_tip env now) rs st))"
  using assms
proof (induction rs arbitrary: st)
  case (Cons r rs)
  have "list_all in_budget (rc_tips (job_tip env now r st))"
    using job_tip_table[of env now r st]
  proof
    assume "\<exists>f. job_patch env now r f \<and>
        rc_tips (job_tip env now r st) = update_where (\<lambda>x. tip_id x = tip_id r) f (rc_tips st)"
    then obtain f where f: "job_patch env now r f"
      "rc_tips (job_tip env now r st) = update_where (\<lambda>x. tip_id x = tip_id r) f (rc_tips st)" by blast
    then have "in_budget (f y)" if "in_budget y" for y
      using Cons.prems that by (intro job_patch_budget[OF f(1)]) simp_all
    with Cons.prems f(2) show ?thesis by (auto simp: list_all_iff set_update_where)
  qed (use Cons.prems in simp)
  with Cons show ?case by simp
qed simp

text \<open>The job never spends more than ten retries on a tip: if no checked tip has more than ten
  before a pass, none has after it, whatever the chain answers.\<close>

theorem retry_budget_kept:
  assumes "list_all in_budget t" "reconcilePendingTips env now later t = (t', m, fx)"
  shows "list_all in_budget t'"
proof -
  have "list_all in_budget (find_pending t)"
    using assms(1) by (auto simp: list_all_iff set_find_pending)
  with assms job_budget[of "find_pending t" "start_state t (length (find_pending t)) now" env now]
  show ?thesis
    by (auto simp: reconcilePendingTips_def start_state_def Let_def split: option.splits if_splits)
qed

theorem retry_budget_kept_witness:
  "list_all in_budget [waiting_tip] \<and> list_all in_budget (fst (reconcilePendingTips ok_chain 6000 6001 [waiting_tip]))"
proof -
  have "in_budget waiting_tip"
    by (simp add: in_budget_def waiting_tip_def sentinel_tip_def)
  with retry_budget_kept[OF _ waiting_pass] show ?thesis by (simp add: waiting_pass)
qed

section \<open>The manual trigger against the job\<close>

lemma manual_loop_rows:
  assumes "distinct (map tip_id t)" "\<forall>r \<in> set rs. r \<in> set t \<and> is_pending r"
    "list_all2 (recon_row env) t (rc_tips st)"
  shows "list_all2 (recon_row env) t (rc_tips (snd (manual_loop env now rs st)))"
  using assms(2,3)
proof (induction rs arbitrary: st)
  case (Cons r rs)
  have step: "list_all2 (recon_row env) t (update_where (\<lambda>x. tip_id x = tip_id r) (settle_patch now s) (rc_tips st))"
    if "s = REJECTED \<or> s = VERIFIED \<and> amount_ok (tip_amount r) \<and>
        (\<exists>tx. re_verify env (tip_txId r) = Inr tx \<and> tr_success tx = Some True)" for s
  proof -
    have "recon_row env x (settle_patch now s y)" if "x \<in> set t" "recon_row env x y" "tip_id y = tip_id r" for x y
    proof -
      from that Cons.prems(1) assms(1) have "x = r"
        by (metis distinct_keys_eq list.set_intros(1) recon_row_id)
      with that \<open>s = REJECTED \<or> _\<close> Cons.prems(1) show ?thesis
        by (auto simp: recon_row_def settle_patch_def)
    qed
    with Cons.prems(2) show ?thesis by (auto simp: update_where_def list_all2_conv_all_nth)
  qed
  have go: "rc_tips (manual_settle env now r s st) =
      update_where (\<lambda>x. tip_id x = tip_id r) (settle_patch now s) (rc_tips st)" for s
    by (simp add: manual_settle_def update_tip_def)
  show ?case
  proof (cases rule: reconcileSingleTip_cases[of env r])
    case (fail e)
    with Cons show ?thesis by (simp add: Let_def)
  next
    case reject
    with Cons step[of REJECTED] go show ?thesis by (simp add: Let_def split: option.split)
  next
    case (confirm tx)
    with Cons step[of VERIFIED] go show ?thesis by (auto simp: Let_def split: option.split)
  qed
qed simp

lemma manual_rows:
  assumes "distinct (map tip_id t)" "manualReconciliation env now later None t = (t', m, fx)"
  shows "list_all2 (recon_row env) t t'"
proof -
  have "list_all2 (recon_row env) t t" by (simp add: list_all2_conv_all_nth)
  with assms manual_loop_rows[OF assms(1), of "filter is_pending t" env "start_state t (length (filter is_pending t)) now" now]
  show ?thesis
    by (auto simp: manualReconciliation_def manual_selection_def start_state_def Let_def split: option.splits prod.splits)
qed

text \<open>Only a pending tip with a valid amount gets a settlement entry, from the job or the trigger.\<close>

lemma announce_effects:
  "settled_audits (rc_effects (announce_settled env r s st)) =
     settled_audits (rc_effects st) @ (if s = VERIFIED then [tip_id r] else [])"
  by (simp add: announce_settled_def bump_def settlement_audit_def Let_def)

lemma job_tip_audits:
  "set (settled_audits (rc_effects (job_tip env now r st))) \<subseteq>
     set (settled_audits (rc_effects st)) \<union> (if amount_ok (tip_amount r) then {tip_id r} else {})"
proof -
  have gu: "set (settled_audits (rc_effects (guarded_update env r f rest st))) \<subseteq> set (settled_audits (rc_effects st)) \<union> A"
    if "\<And>st. set (settled_audits (rc_effects (rest st))) \<subseteq> set (settled_audits (rc_effects st)) \<union> A" for f rest A
    using that[of "update_tip (tip_id r) f st"]
    by (auto simp: guarded_update_def record_error_def bump_def update_tip_def split: option.splits)
  have "set (settled_audits (rc_effects (job_skip env now r st))) \<subseteq> set (settled_audits (rc_effects st))"
    using gu[of "\<lambda>st. st" "{}" stale_patch] by (auto simp: job_skip_def split: if_splits)
  moreover have "set (settled_audits (rc_effects (job_failed env now r e st))) \<subseteq> set (settled_audits (rc_effects st))" for e
    using gu[of "count_failure now r e" "{}" "failure_patch now r e"]
    by (auto simp: job_failed_def count_failure_def bump_def Let_def split: if_splits)
  moreover have js: "set (settled_audits (rc_effects (job_settled env now r s st))) \<subseteq>
      set (settled_audits (rc_effects st)) \<union> (if s = VERIFIED then {tip_id r} else {})" for s
    unfolding job_settled_def by (rule gu) (simp add: announce_effects)
  ultimately show ?thesis
    using js[of REJECTED] js[of VERIFIED]
    by (cases rule: reconcileSingleTip_cases[of env r]) (auto simp: job_tip_def Let_def split: if_splits)
qed

lemma job_audits:
  "set (settled_audits (rc_effects (fold (job_tip env now) rs st))) \<subseteq>
     set (settled_audits (rc_effects st)) \<union> {tip_id r |r. r \<in> set rs \<and> amount_ok (tip_amount r)}"
proof (induction rs arbitrary: st)
  case (Cons r rs)
  from Cons[of "job_tip env now r st"] job_tip_audits[of env now r st] show ?case
    by (auto split: if_splits)
qed simp

lemma pass_audits:
  assumes "reconcilePendingTips env now later t = (t', m, fx)"
  shows "set (settled_audits fx) \<subseteq> {tip_id r |r. r \<in> set t \<and> is_pending r \<and> amount_ok (tip_amount r)}"
  using assms job_audits[of env now "find_pending t" "start_state t (length (find_pending t)) now"]
  by (auto simp: reconcilePendingTips_def start_state_def set_find_pending Let_def split: option.splits if_splits)

lemma manual_loop_audits:
  "set (settled_audits (rc_effects (snd (manual_loop env now rs st)))) \<subseteq>
     set (settled_audits (rc_effects st)) \<union> {tip_id r |r. r \<in> set rs \<and> amount_ok (tip_amount r)}"
proof (induction rs arbitrary: st)
  case (Cons r rs)
  have settle: "settled_audits (rc_effects (manual_settle env now r s st)) =
      settled_audits (rc_effects st) @ (if s = VERIFIED then [tip_id r] else [])" for s
    by (simp add: manual_settle_def announce_effects) (simp add: update_tip_def)
  show ?case
  proof (cases rule: reconcileSingleTip_cases[of env r])
    case (fail e)
    with Cons[of "bump (\<lambda>m. m\<lparr>rx_failed := rx_failed m + 1\<rparr>) st"] show ?thesis
      by (auto simp: Let_def bump_def)
  next
    case reject
    with Cons[of "manual_settle env now r REJECTED st"] settle[of REJECTED] show ?thesis
      by (auto simp: Let_def split: option.splits)
  next
    case (confirm tx)
    with Cons[of "manual_settle env now r VERIFIED st"] settle[of VERIFIED] show ?thesis
      by (auto simp: Let_def split: option.splits)
  qed
qed simp

lemma manual_audits:
  assumes "manualReconciliation env now later None t = (t', m, fx)"
  shows "set (settled_audits fx) \<subseteq> {tip_id r |r. r \<in> set t \<and> is_pending r \<and> amount_ok (tip_amount r)}"
  using assms manual_loop_audits[of env now "filter is_pending t" "start_state t (length (filter is_pending t)) now"]
  by (auto simp: manualReconciliation_def manual_selection_def start_state_def Let_def split: option.splits prod.splits)

text \<open>An operator who passes ids is not held to pending tips: a tip that was VERIFIED before is
  turned into REJECTED when the chain no longer confirms its transaction, and gets a second
  settlement entry when it still does.\<close>

theorem manual_by_id_revisits_settled:
  assumes "tip_verificationStatus r = VERIFIED" "amount_ok (tip_amount r)"
    "re_find_error env = None" "re_update_error env (tip_id r) = None" "re_verify env (tip_txId r) = Inr x"
  shows "case manualReconciliation env now later (Some [tip_id r]) [r] of (t', m, fx) \<Rightarrow>
     map tip_verificationStatus t' = [if tr_success x = Some True then VERIFIED else REJECTED] \<and>
     settled_audits fx = (if tr_success x = Some True then [tip_id r] else [])"
proof -
  have "validatePersistedTipAmount r = None" using assms(2) by (simp add: validatePersisted_iff)
  then have "reconcileSingleTip env r = recon_done (if tr_success x = Some True then VERIFIED else REJECTED)"
    using assms(5) by (simp add: reconcileSingleTip_def)
  then show ?thesis using assms(3,4)
    by (simp add: manualReconciliation_def manual_selection_def Let_def manual_settle_def announce_effects)
      (simp add: update_tip_def start_state_def settle_patch_def)
qed

theorem manual_by_id_revisits_settled_witness:
  "settled_audits (snd (snd (manualReconciliation ok_chain 0 1 (Some [''t1'']) [sample_tip]))) = [''t1'']"
proof -
  have a: "tip_verificationStatus sample_tip = VERIFIED" "tip_id sample_tip = ''t1''" "tip_amount sample_tip = JDec 55000000 7"
    by (simp_all add: sample_tip_def)
  have "amount_ok (JDec 55000000 7)" by code_simp
  with a manual_by_id_revisits_settled[of sample_tip ok_chain
      "\<lparr>tr_hash = tip_txId sample_tip, tr_success = Some True, tr_ledger = Some 7, tr_createdAt = [],
        tr_envelope = [], tr_result = []\<rparr>" 0 1]
  show ?thesis by (auto simp: ok_chain_def split: prod.splits)
qed

end
