(* ===== verification/Tip_Lifecycle.thy ===== *)
theory Tip_Lifecycle
  imports Tip_Reconciliation
begin

text \<open>
  The two other writers of a tip's status, \<^verbatim>\<open>tipping/tip-verification-sla.service.ts\<close> (pending for too
  long) and \<^verbatim>\<open>tipping/soroban-lifecycle.service.ts\<close> (the submission timeline of a transaction), and
  the tipping system as a whole: verify requests in flight, the reconciliation job, the manual
  trigger, the SLA job and the Soroban timeline interleaved over one table.
\<close>

section \<open>SLA\<close>

text \<open>The threshold is read at construction; a value that is no positive number is refused.\<close>

definition sla_threshold_ms :: "jsnum \<Rightarrow> real outcome" where
  "sla_threshold_ms minutes =
     (if \<not> is_finite minutes \<or> num_le minutes (JDec 0 0)
      then Inl (PlainError ''TIP_VERIFICATION_STALE_THRESHOLD_MINUTES must be a positive number'')
      else case minutes of JDec m k \<Rightarrow> Inr (real_of_int m / 10 ^ k * 60000) | _ \<Rightarrow> Inr 0)"

definition getEffectiveVerificationStatus :: "ms \<Rightarrow> ms \<Rightarrow> tip \<Rightarrow> tip_status" where
  "getEffectiveVerificationStatus threshold now r =
     (if tip_verificationStatus r \<noteq> PENDING then tip_verificationStatus r
      else if now - tip_createdAt r > threshold then STALE_PENDING else PENDING)"

definition getStaleCutoff :: "ms \<Rightarrow> ms \<Rightarrow> ms" where
  "getStaleCutoff threshold now = now - threshold"

definition markStalePendingTips :: "ms \<Rightarrow> ms \<Rightarrow> tip list \<Rightarrow> tip list" where
  "markStalePendingTips threshold now t =
     update_where (\<lambda>r. tip_verificationStatus r = PENDING \<and> tip_createdAt r < getStaleCutoff threshold now)
       (\<lambda>r. r\<lparr>tip_verificationStatus := STALE_PENDING\<rparr>) t"


section \<open>The submission timeline\<close>

definition recordSubmission :: "tip \<Rightarrow> metadata option \<Rightarrow> ms \<Rightarrow> tip list \<Rightarrow> tip \<times> tip list" where
  "recordSubmission r md now t =
     (let r' = r\<lparr>tip_submissionStatus := SUBMITTED, tip_submittedAt := Some now,
                 tip_sorobanMetadata := Some (nullish md [])\<rparr>
      in (r', save_row tip_id r' t))"

definition recordConfirmation :: "tip \<Rightarrow> nat \<Rightarrow> metadata option \<Rightarrow> ms \<Rightarrow> tip list \<Rightarrow> tip \<times> tip list" where
  "recordConfirmation r ledgerSequence md now t =
     (let r' = r\<lparr>tip_submissionStatus := CONFIRMED, tip_confirmedAt := Some now,
                 tip_ledgerSequence := Some ledgerSequence,
                 tip_sorobanMetadata := Some (spread (Some (spread (tip_sorobanMetadata r) (nullish md [])))
                    [(''confirmedLedgerSequence'', MNat ledgerSequence)]),
                 tip_verificationStatus := VERIFIED, tip_verifiedAt := Some now\<rparr>
      in (r', save_row tip_id r' t))"

definition recordFailure :: "tip \<Rightarrow> string \<Rightarrow> metadata option \<Rightarrow> ms \<Rightarrow> tip list \<Rightarrow> tip \<times> tip list" where
  "recordFailure r reason md now t =
     (let r' = r\<lparr>tip_submissionStatus := FAILED, tip_failedAt := Some now, tip_failureReason := Some reason,
                 tip_sorobanMetadata := Some (spread (Some (spread (tip_sorobanMetadata r) (nullish md [])))
                    [(''failureTimestamp'', MTime now)]),
                 tip_verificationStatus := REJECTED, tip_rejectionReason := Some reason\<rparr>
      in (r', save_row tip_id r' t))"

definition recordExpiry :: "tip \<Rightarrow> nat \<Rightarrow> ms \<Rightarrow> tip list \<Rightarrow> tip \<times> tip list" where
  "recordExpiry r blockHeight now t =
     (let r' = r\<lparr>tip_submissionStatus := EXPIRED, tip_failedAt := Some now,
                 tip_expiryBlockHeight := Some blockHeight,
                 tip_failureReason := Some ''Transaction expired before confirmation'',
                 tip_verificationStatus := REJECTED, tip_rejectionReason := Some ''Transaction expired''\<rparr>
      in (r', save_row tip_id r' t))"

text \<open>The outer \<open>None\<close> is the answer for an unknown transaction.\<close>

definition refreshConfirmation ::
  "(string \<Rightarrow> transaction_result outcome) \<Rightarrow> string \<Rightarrow> ms \<Rightarrow> tip list \<Rightarrow> tip option outcome \<times> tip list" where
  "refreshConfirmation verify txHash now t =
     (case find_one (\<lambda>r. tip_txId r = txHash) t of
        None \<Rightarrow> (Inr None, t)
      | Some r \<Rightarrow>
          (case verify txHash of
             Inl e \<Rightarrow> (Inl e, t)
           | Inr txResult \<Rightarrow>
               if tr_success txResult = Some True then
                 (case tr_ledger txResult of
                    None \<Rightarrow> (Inl (PlainError ''Confirmed transaction is missing its ledger sequence''), t)
                  | Some ledger \<Rightarrow>
                      (let (r', t') = recordConfirmation r ledger None now t in (Inr (Some r'), t')))
               else (let (r', t') = recordFailure r ''Transaction marked as failed on chain'' None now t
                     in (Inr (Some r'), t'))))"

record timeline_entry =
  tl_tipId :: ident
  tl_txId :: string
  tl_status :: submission_status
  tl_submittedAt :: "ms option"
  tl_confirmedAt :: "ms option"
  tl_failedAt :: "ms option"

text \<open>\<open>ORDER BY submitted_at DESC\<close> puts the rows without a submission first, as PostgreSQL does.\<close>

definition getTransactionTimeline :: "ident \<Rightarrow> tip list \<Rightarrow> timeline_entry list" where
  "getTransactionTimeline confessionId t =
     (let rows = filter (\<lambda>r. tip_confessionId r = confessionId) t;
          ordered = filter (\<lambda>r. tip_submittedAt r = None) rows @
                    order_desc (\<lambda>r. nullish (tip_submittedAt r) 0) (filter (\<lambda>r. tip_submittedAt r \<noteq> None) rows)
      in map (\<lambda>r. \<lparr>tl_tipId = tip_id r, tl_txId = tip_txId r, tl_status = tip_submissionStatus r,
                   tl_submittedAt = tip_submittedAt r, tl_confirmedAt = tip_confirmedAt r,
                   tl_failedAt = tip_failedAt r\<rparr>) ordered)"

definition getPendingConfirmations :: "tip list \<Rightarrow> tip list" where
  "getPendingConfirmations t =
     (let rows = filter (\<lambda>r. tip_submissionStatus r = SUBMITTED) t in
      order_asc (\<lambda>r. nullish (tip_submittedAt r) 0) (filter (\<lambda>r. tip_submittedAt r \<noteq> None) rows) @
      filter (\<lambda>r. tip_submittedAt r = None) rows)"

definition isExpired :: "tip \<Rightarrow> nat \<Rightarrow> bool" where
  "isExpired r currentBlockHeight =
     (case tip_expiryBlockHeight r of None \<Rightarrow> False | Some h \<Rightarrow> h \<noteq> 0 \<and> currentBlockHeight > h)"

text \<open>What the timeline says and the verification status agree.\<close>

definition timeline_ok :: "tip \<Rightarrow> bool" where
  "timeline_ok r \<longleftrightarrow>
     (tip_submissionStatus r = CONFIRMED \<longrightarrow> tip_confirmedAt r \<noteq> None \<and> tip_ledgerSequence r \<noteq> None) \<and>
     (tip_submissionStatus r = FAILED \<longrightarrow> tip_failedAt r \<noteq> None \<and> tip_failureReason r \<noteq> None) \<and>
     (tip_submissionStatus r = EXPIRED \<longrightarrow> tip_failedAt r \<noteq> None \<and> tip_expiryBlockHeight r \<noteq> None)"

lemma refresh_saves:
  assumes "refreshConfirmation verify tx now t = (res, t')"
  shows "t' = t \<or> (\<exists>r r'. find_one (\<lambda>r. tip_txId r = tx) t = Some r \<and> t' = save_row tip_id r' t \<and> res = Inr (Some r') \<and>
     tip_id r' = tip_id r \<and> tip_txId r' = tip_txId r \<and> tip_idempotencyKey r' = tip_idempotencyKey r \<and>
     tip_amount r' = tip_amount r \<and> \<not> is_pending r' \<and> timeline_ok r')"
proof (cases "find_one (\<lambda>r. tip_txId r = tx) t")
  case None
  with assms show ?thesis by (simp add: refreshConfirmation_def)
next
  case (Some r)
  show ?thesis
  proof (cases "verify tx")
    case (Inl e)
    with assms Some show ?thesis by (simp add: refreshConfirmation_def)
  next
    case (Inr x)
    with assms Some show ?thesis
      by (auto simp: refreshConfirmation_def recordConfirmation_def recordFailure_def Let_def is_pending_def
          timeline_ok_def split: option.splits if_splits)
  qed
qed

text \<open>Refreshing a known transaction leaves the tip settled one way or the other, the way the
  chain says: confirmed and VERIFIED with the ledger it is in, or failed and REJECTED with the reason
  and the time; without a usable answer from the chain nothing is written.\<close>

theorem refresh_follows_chain:
  assumes "find_one (\<lambda>r. tip_txId r = tx) t = Some r"
  shows "case refreshConfirmation verify tx now t of
     (Inl e, t') \<Rightarrow> t' = t \<and> (verify tx = Inl e \<or> (\<exists>x. verify tx = Inr x \<and> tr_success x = Some True \<and> tr_ledger x = None))
   | (Inr None, t') \<Rightarrow> False
   | (Inr (Some r'), t') \<Rightarrow> r' \<in> set t' \<and> tip_id r' = tip_id r \<and> timeline_ok r' \<and>
       (\<exists>x. verify tx = Inr x \<and>
          (if tr_success x = Some True
           then tip_submissionStatus r' = CONFIRMED \<and> tip_verificationStatus r' = VERIFIED \<and>
                tip_ledgerSequence r' = tr_ledger x
           else tip_submissionStatus r' = FAILED \<and> tip_verificationStatus r' = REJECTED \<and>
                tip_rejectionReason r' = tip_failureReason r'))"
proof (cases "verify tx")
  case (Inl e)
  with assms show ?thesis by (simp add: refreshConfirmation_def)
next
  case (Inr x)
  with assms show ?thesis
    by (auto simp: refreshConfirmation_def recordConfirmation_def recordFailure_def Let_def timeline_ok_def
        split: option.split)
qed

theorem refresh_follows_chain_witness:
  "\<exists>r' t'. refreshConfirmation (re_verify ok_chain) ''tx'' 9 [sample_tip] = (Inr (Some r'), t') \<and>
     tip_submissionStatus r' = CONFIRMED \<and> tip_ledgerSequence r' = Some 7"
proof -
  have f: "find_one (\<lambda>r. tip_txId r = ''tx'') [sample_tip] = Some sample_tip"
    by (simp add: sample_tip_def)
  obtain r' t' where run: "refreshConfirmation (re_verify ok_chain) ''tx'' 9 [sample_tip] = (Inr (Some r'), t')"
    using f by (simp add: refreshConfirmation_def ok_chain_def recordConfirmation_def Let_def)
  from refresh_follows_chain[OF f, of "re_verify ok_chain" 9] run show ?thesis by (auto simp: ok_chain_def)
qed

section \<open>The tipping system\<close>

text \<open>
  The table, the verify requests that own a sentinel and are waiting for the chain, and everything
  emitted so far.  Each step may see a different network (\<open>env\<close>); a new row gets an id that was never
  used.  The manual trigger appears without ids.
\<close>

record in_flight =
  fl_sentinel :: tip
  fl_confessionId :: ident
  fl_txId :: string
  fl_requestId :: "string option"

record tip_sys =
  ts_tips :: "tip list"
  ts_inflight :: "in_flight list"
  ts_effects :: "tip_effect list"

inductive tip_step :: "tip_sys \<Rightarrow> tip_sys \<Rightarrow> bool" where
  claim: "te_confession env c \<Longrightarrow> newId \<notin> tip_id ` set (ts_tips st) \<Longrightarrow>
     verify_claim env c tx lockId newId now (ts_tips st) = (Owned s, t') \<Longrightarrow>
     tip_step st (st\<lparr>ts_tips := t', ts_inflight :=
        \<lparr>fl_sentinel = s, fl_confessionId = c, fl_txId = tx, fl_requestId = q\<rparr> # ts_inflight st\<rparr>)"
| replied: "te_confession env c \<Longrightarrow> newId \<notin> tip_id ` set (ts_tips st) \<Longrightarrow>
     verify_claim env c tx lockId newId now (ts_tips st) = (Replied reply, t') \<Longrightarrow>
     tip_step st (st\<lparr>ts_tips := t'\<rparr>)"
| finish: "f \<in> set (ts_inflight st) \<Longrightarrow>
     verify_finish env (fl_confessionId f) (fl_txId f) (fl_requestId f) (fl_sentinel f) now (ts_tips st) = (res, t', fx) \<Longrightarrow>
     tip_step st (st\<lparr>ts_inflight := remove1 f (ts_inflight st), ts_tips := t', ts_effects := ts_effects st @ fx\<rparr>)"
| job: "reconcilePendingTips renv now later (ts_tips st) = (t', m, fx) \<Longrightarrow>
     tip_step st (st\<lparr>ts_tips := t', ts_effects := ts_effects st @ fx\<rparr>)"
| manual: "manualReconciliation renv now later None (ts_tips st) = (t', m, fx) \<Longrightarrow>
     tip_step st (st\<lparr>ts_tips := t', ts_effects := ts_effects st @ fx\<rparr>)"
| sla: "tip_step st (st\<lparr>ts_tips := markStalePendingTips threshold now (ts_tips st)\<rparr>)"
| refresh: "refreshConfirmation verify tx now (ts_tips st) = (reply', t') \<Longrightarrow>
     tip_step st (st\<lparr>ts_tips := t'\<rparr>)"

inductive tip_reachable :: "tip_sys \<Rightarrow> bool" where
  init: "tip_reachable \<lparr>ts_tips = [], ts_inflight = [], ts_effects = []\<rparr>"
| step: "tip_reachable st \<Longrightarrow> tip_step st st' \<Longrightarrow> tip_reachable st'"

definition row_ok :: "ident list \<Rightarrow> tip \<Rightarrow> bool" where
  "row_ok audited r \<longleftrightarrow> (if tip_id r \<in> set audited then \<not> is_pending r else tip_amount r = JDec 0 0)"

definition flight_ok :: "tip list \<Rightarrow> ident list \<Rightarrow> in_flight \<Rightarrow> bool" where
  "flight_ok t audited f \<longleftrightarrow> tip_id (fl_sentinel f) \<notin> set audited \<and>
     (\<exists>r \<in> set t. tip_id r = tip_id (fl_sentinel f) \<and> tip_txId r = tip_txId (fl_sentinel f) \<and>
        tip_idempotencyKey r = tip_idempotencyKey (fl_sentinel f))"

definition flight_ids :: "tip_sys \<Rightarrow> ident list" where
  "flight_ids st = map (\<lambda>f. tip_id (fl_sentinel f)) (ts_inflight st)"

definition tip_sys_inv :: "tip_sys \<Rightarrow> bool" where
  "tip_sys_inv st = (let audited = settled_audits (ts_effects st) in
     tips_wf (ts_tips st) \<and> distinct audited \<and> set audited \<subseteq> tip_id ` set (ts_tips st) \<and>
     distinct (flight_ids st) \<and>
     (\<forall>f \<in> set (ts_inflight st). flight_ok (ts_tips st) audited f) \<and>
     (\<forall>r \<in> set (ts_tips st). row_ok audited r))"

text \<open>Steps that leave requests and the audit trail alone and keep what the table credits.\<close>

lemma tip_sys_inv_table:
  assumes "tip_sys_inv st" "tips_wf t'" "settled_audits fx = []"
    and "\<And>r. r \<in> set (ts_tips st) \<Longrightarrow> \<exists>r' \<in> set t'. tip_id r' = tip_id r \<and> tip_txId r' = tip_txId r \<and>
           tip_idempotencyKey r' = tip_idempotencyKey r"
    and "\<And>r'. r' \<in> set t' \<Longrightarrow> row_ok (settled_audits (ts_effects st)) r'"
  shows "tip_sys_inv (st\<lparr>ts_tips := t', ts_effects := ts_effects st @ fx\<rparr>)"
proof -
  have "tip_id r \<in> tip_id ` set t'" if "r \<in> set (ts_tips st)" for r
    using assms(4)[OF that] by (metis imageI)
  then have "tip_id ` set (ts_tips st) \<subseteq> tip_id ` set t'" by blast
  moreover have "flight_ok t' (settled_audits (ts_effects st)) f" if "f \<in> set (ts_inflight st)" for f
  proof -
    from that assms(1) have "flight_ok (ts_tips st) (settled_audits (ts_effects st)) f"
      by (simp add: tip_sys_inv_def Let_def)
    then obtain r where r: "tip_id (fl_sentinel f) \<notin> set (settled_audits (ts_effects st))" "r \<in> set (ts_tips st)"
      "tip_id r = tip_id (fl_sentinel f)" "tip_txId r = tip_txId (fl_sentinel f)"
      "tip_idempotencyKey r = tip_idempotencyKey (fl_sentinel f)" by (auto simp: flight_ok_def)
    from assms(4)[OF r(2)] r show ?thesis by (auto simp: flight_ok_def)
  qed
  ultimately show ?thesis
    using assms by (auto simp: tip_sys_inv_def Let_def flight_ids_def)
qed

lemma amount_zero_not_ok [simp]: "\<not> amount_ok (JDec 0 0)"
  by (simp add: amount_ok_def MIN_TIP_AMOUNT_def)

text \<open>Every row the job may settle still has the amount of its sentinel, so the job settles none.\<close>

lemma tip_sys_inv_reconcile:
  assumes inv: "tip_sys_inv st" and rows: "list_all2 (recon_row env) (ts_tips st) t'"
    and audits: "set (settled_audits fx) \<subseteq> {tip_id r |r. r \<in> set (ts_tips st) \<and> is_pending r \<and> amount_ok (tip_amount r)}"
  shows "tip_sys_inv (st\<lparr>ts_tips := t', ts_effects := ts_effects st @ fx\<rparr>)"
proof (rule tip_sys_inv_table[OF inv])
  let ?A = "settled_audits (ts_effects st)"
  have row: "row_ok ?A r" if "r \<in> set (ts_tips st)" for r
    using inv that by (simp add: tip_sys_inv_def Let_def)
  show "tips_wf t'" using inv rows by (auto intro: rows_wf simp: tip_sys_inv_def Let_def)
  have "\<not> (is_pending r \<and> amount_ok (tip_amount r))" if "r \<in> set (ts_tips st)" for r
    using row[OF that] by (auto simp: row_ok_def split: if_splits)
  then have "{tip_id r |r. r \<in> set (ts_tips st) \<and> is_pending r \<and> amount_ok (tip_amount r)} = {}" by blast
  with audits have "set (settled_audits fx) = {}" by simp
  then show "settled_audits fx = []" by simp
  show "\<exists>r' \<in> set t'. tip_id r' = tip_id r \<and> tip_txId r' = tip_txId r \<and> tip_idempotencyKey r' = tip_idempotencyKey r"
    if "r \<in> set (ts_tips st)" for r
  proof -
    from that obtain n where "n < length (ts_tips st)" "r = ts_tips st ! n" by (auto simp: in_set_conv_nth)
    with rows have "recon_row env r (t' ! n)" "t' ! n \<in> set t'" by (auto simp: list_all2_conv_all_nth)
    then show ?thesis by (auto simp: recon_row_def)
  qed
  show "row_ok ?A r'" if "r' \<in> set t'" for r'
  proof -
    from that obtain n where "n < length t'" "r' = t' ! n" by (auto simp: in_set_conv_nth)
    with rows have n: "recon_row env (ts_tips st ! n) r'" "ts_tips st ! n \<in> set (ts_tips st)"
      by (auto simp: list_all2_conv_all_nth)
    from n(1) row[OF n(2)] show ?thesis by (auto simp: recon_row_def row_ok_def split: if_splits)
  qed
qed

lemma verify_claim_owned:
  assumes "verify_claim env c x l i n t = (Owned s, t')"
  shows "pair_free env c x t \<and> s = sentinel_tip c x (generateIdempotencyKey (te_sha env) c x) l i n \<and> t' = t @ [s]"
proof (cases "pair_free env c x t")
  case True
  with assms show ?thesis by (auto simp: verify_claim_free Let_def)
next
  case False
  from verify_claim_taken[OF this, of l i n] assms show ?thesis by auto
qed

lemma verify_claim_replied:
  assumes "verify_claim env c x l i n t = (Replied reply, t')"
  shows "t' = t"
proof (cases "pair_free env c x t")
  case True
  with assms show ?thesis by (simp add: verify_claim_free Let_def)
next
  case False
  from verify_claim_taken[OF this, of l i n] assms show ?thesis by auto
qed

lemma tip_sys_inv_claim:
  assumes inv: "tip_sys_inv st" and fresh: "i \<notin> tip_id ` set (ts_tips st)"
    and own: "verify_claim env c x l i n (ts_tips st) = (Owned s, t')"
  shows "tip_sys_inv (st\<lparr>ts_tips := t', ts_inflight :=
     \<lparr>fl_sentinel = s, fl_confessionId = c, fl_txId = x, fl_requestId = q\<rparr> # ts_inflight st\<rparr>)"
proof -
  note s = verify_claim_owned[OF own]
  have "tips_wf t'"
    using inv fresh s by (auto simp: tip_sys_inv_def Let_def intro!: tips_wf_append)
  moreover have "flight_ok t' A f" if "flight_ok (ts_tips st) A f" for A f
    using that s by (auto simp: flight_ok_def)
  moreover have "i \<notin> set (settled_audits (ts_effects st))"
    using inv fresh by (auto simp: tip_sys_inv_def Let_def)
  moreover have "i \<notin> set (flight_ids st)"
  proof
    assume "i \<in> set (flight_ids st)"
    then obtain f where "f \<in> set (ts_inflight st)" "tip_id (fl_sentinel f) = i" by (auto simp: flight_ids_def)
    with inv have "i \<in> tip_id ` set (ts_tips st)" by (auto simp: tip_sys_inv_def Let_def flight_ok_def image_iff) metis
    with fresh show False by blast
  qed
  ultimately show ?thesis
    using inv s by (auto simp: tip_sys_inv_def Let_def flight_ids_def row_ok_def flight_ok_def)
qed

lemma tip_sys_inv_drop_flight:
  "tip_sys_inv st \<Longrightarrow> tip_sys_inv (st\<lparr>ts_inflight := remove1 f (ts_inflight st)\<rparr>)"
  by (auto simp: tip_sys_inv_def Let_def flight_ids_def distinct_map inj_on_diff)

lemma tip_sys_inv_failed:
  assumes "tip_sys_inv st" "map credit t' = map credit (ts_tips st)" "settled_audits fx = []"
  shows "tip_sys_inv (st\<lparr>ts_tips := t', ts_effects := ts_effects st @ fx\<rparr>)"
proof (rule tip_sys_inv_table[OF assms(1) _ assms(3)])
  show "tips_wf t'"
    using assms(1) tips_wf_credit[OF assms(2)] by (simp add: tip_sys_inv_def Let_def)
  show "\<exists>r' \<in> set t'. tip_id r' = tip_id r \<and> tip_txId r' = tip_txId r \<and> tip_idempotencyKey r' = tip_idempotencyKey r"
    if "r \<in> set (ts_tips st)" for r
    using credit_image[OF assms(2) that] by (auto simp: credit_def)
  show "row_ok (settled_audits (ts_effects st)) r'" if "r' \<in> set t'" for r'
  proof -
    from credit_image[OF assms(2)[symmetric] that] obtain r where "r \<in> set (ts_tips st)" "credit r = credit r'" by blast
    with assms(1) show ?thesis by (force simp: tip_sys_inv_def Let_def row_ok_def credit_def is_pending_def)
  qed
qed

lemma tip_sys_inv_settled:
  assumes inv: "tip_sys_inv st" and f: "flight_ok (ts_tips st) (settled_audits (ts_effects st)) f"
    and out: "tip_id (fl_sentinel f) \<notin> set (flight_ids st)" "settled_audits fx = [tip_id (fl_sentinel f)]"
  shows "tip_sys_inv (st\<lparr>ts_tips := save_entity (finalise p m n (fl_sentinel f)) (ts_tips st),
     ts_effects := ts_effects st @ fx\<rparr>)"
proof -
  let ?t = "ts_tips st" and ?e = "finalise p m n (fl_sentinel f)" and ?i = "tip_id (fl_sentinel f)"
  from f obtain r where r: "r \<in> set ?t" "tip_id r = ?i" "tip_txId r = tip_txId (fl_sentinel f)"
    "tip_idempotencyKey r = tip_idempotencyKey (fl_sentinel f)" "?i \<notin> set (settled_audits (ts_effects st))"
    by (auto simp: flight_ok_def)
  have e: "tip_id ?e = ?i" "tip_txId ?e = tip_txId r" "tip_idempotencyKey ?e = tip_idempotencyKey r"
    "tip_verificationStatus ?e = VERIFIED"
    using r by (simp_all add: finalise_def)
  define t' where "t' = save_entity ?e ?t"
  have t': "t' = update_where (\<lambda>r. tip_id r = ?i) (write_entity ?e) ?t"
    using r e(1) by (auto simp: t'_def save_entity_def)
  have only: "x = r" if "x \<in> set ?t" "tip_id x = ?i" for x
    using inv r(1,2) that by (auto simp: tip_sys_inv_def tips_wf_def Let_def dest: distinct_keys_eq)
  have keep: "\<exists>x' \<in> set t'. tip_id x' = tip_id x \<and> tip_txId x' = tip_txId x \<and> tip_idempotencyKey x' = tip_idempotencyKey x"
    if "x \<in> set ?t" for x
  proof (cases "tip_id x = ?i")
    case True
    then have "write_entity ?e x \<in> set t'" unfolding t' by (intro update_where_hitI[OF that])
    with only[OF that True] e show ?thesis by (intro bexI[of _ "write_entity ?e x"]) (simp_all add: write_entity_def)
  next
    case False
    with that show ?thesis unfolding t' by (intro bexI[of _ x] update_where_missI) auto
  qed
  have "map h t' = map h ?t" if "\<And>x. h (write_entity ?e r) = h r" for h :: "tip \<Rightarrow> 'a"
    unfolding t' using that only by (auto simp: update_where_def)
  note same = this[of tip_id] 
  have "map tip_txId t' = map tip_txId ?t" "map tip_idempotencyKey t' = map tip_idempotencyKey ?t"
    unfolding t' using e only by (auto simp: update_where_def write_entity_def)
  then have wf: "tips_wf t'"
    using inv same by (simp add: tip_sys_inv_def Let_def tips_wf_def uniq_on_total uniq_on_def write_entity_def
        keys_of_eq_map[of tip_idempotencyKey])
  have rows: "row_ok (settled_audits (ts_effects st) @ [?i]) x" if "x \<in> set t'" for x
    using that unfolding t'
  proof (cases rule: in_update_whereE)
    case (hit y)
    with e show ?thesis by (simp add: row_ok_def write_entity_def is_pending_def)
  next
    case miss
    with inv show ?thesis by (auto simp: row_ok_def tip_sys_inv_def Let_def)
  qed
  have flights: "flight_ok t' (settled_audits (ts_effects st) @ [?i]) g" if "g \<in> set (ts_inflight st)" for g
  proof -
    have "tip_id (fl_sentinel g) \<noteq> ?i" using out(1) that by (auto simp: flight_ids_def image_iff)
    moreover have "flight_ok ?t (settled_audits (ts_effects st)) g" using inv that by (simp add: tip_sys_inv_def Let_def)
    ultimately show ?thesis using keep unfolding flight_ok_def by simp metis
  qed
  have "map tip_id t' = map tip_id ?t" by (rule same) (simp add: write_entity_def)
  then have ids: "tip_id ` set t' = tip_id ` set ?t" by (metis image_set)
  have "set (settled_audits (ts_effects st) @ [?i]) \<subseteq> tip_id ` set t'"
    using inv r(1,2) unfolding ids by (auto simp: tip_sys_inv_def Let_def image_iff) metis
  moreover have "distinct (settled_audits (ts_effects st) @ [?i])"
    using inv r(5) by (simp add: tip_sys_inv_def Let_def)
  moreover have "distinct (flight_ids st)" using inv by (simp add: tip_sys_inv_def Let_def)
  ultimately show ?thesis
    using wf rows flights out(2)
    by (simp add: tip_sys_inv_def Let_def flight_ids_def t'_def[symmetric])
qed

lemma tip_sys_inv_finish:
  assumes inv: "tip_sys_inv st" and f: "f \<in> set (ts_inflight st)"
    and fin: "verify_finish env (fl_confessionId f) (fl_txId f) (fl_requestId f) (fl_sentinel f) now (ts_tips st) = (res, t', fx)"
  shows "tip_sys_inv (st\<lparr>ts_inflight := remove1 f (ts_inflight st), ts_tips := t', ts_effects := ts_effects st @ fx\<rparr>)"
proof -
  let ?st = "st\<lparr>ts_inflight := remove1 f (ts_inflight st)\<rparr>"
  note inv' = tip_sys_inv_drop_flight[OF inv, of f]
  have "tip_sys_inv (?st\<lparr>ts_tips := t', ts_effects := ts_effects ?st @ fx\<rparr>)"
    using fin
  proof (cases rule: verify_finish_cases)
    case (failed e)
    with inv' show ?thesis by (intro tip_sys_inv_failed) auto
  next
    case (settled p)
    have "flight_ok (ts_tips ?st) (settled_audits (ts_effects ?st)) f"
      using inv f by (simp add: tip_sys_inv_def Let_def)
    moreover have "tip_id (fl_sentinel f) \<notin> set (flight_ids ?st)"
    proof -
      have "distinct (map (\<lambda>f. tip_id (fl_sentinel f)) (ts_inflight st))"
        using inv by (simp add: tip_sys_inv_def Let_def flight_ids_def)
      with f show ?thesis by (auto simp: flight_ids_def distinct_map inj_on_def)
    qed
    ultimately show ?thesis
      using tip_sys_inv_settled[OF inv' _ _ settled(4)] settled(3) by simp
  qed
  then show ?thesis by simp
qed

lemma tip_sys_inv_sla:
  assumes "tip_sys_inv st"
  shows "tip_sys_inv (st\<lparr>ts_tips := markStalePendingTips threshold now (ts_tips st)\<rparr>)"
proof -
  let ?t' = "markStalePendingTips threshold now (ts_tips st)"
  have "tip_sys_inv (st\<lparr>ts_tips := ?t', ts_effects := ts_effects st @ []\<rparr>)"
  proof (rule tip_sys_inv_table[OF assms])
    show "tips_wf ?t'"
      unfolding markStalePendingTips_def
      by (rule tips_wf_update) (use assms in \<open>simp_all add: tip_sys_inv_def Let_def same_identity_def\<close>)
    show "\<exists>r' \<in> set ?t'. tip_id r' = tip_id r \<and> tip_txId r' = tip_txId r \<and> tip_idempotencyKey r' = tip_idempotencyKey r"
      if "r \<in> set (ts_tips st)" for r
      unfolding markStalePendingTips_def by (rule bexI[OF _ update_where_memI[OF that]]) simp
    show "row_ok (settled_audits (ts_effects st)) r'" if "r' \<in> set ?t'" for r'
      using that unfolding markStalePendingTips_def
    proof (cases rule: in_update_whereE)
      case (hit r)
      then have "row_ok (settled_audits (ts_effects st)) r" using assms by (simp add: tip_sys_inv_def Let_def)
      with hit show ?thesis by (auto simp: row_ok_def is_pending_def split: if_splits)
    next
      case miss
      with assms show ?thesis by (simp add: tip_sys_inv_def Let_def)
    qed
  qed simp
  then show ?thesis by simp
qed

lemma tip_sys_inv_refresh:
  assumes "tip_sys_inv st" "refreshConfirmation verify tx now (ts_tips st) = (res, t')"
  shows "tip_sys_inv (st\<lparr>ts_tips := t'\<rparr>)"
  using refresh_saves[OF assms(2)]
proof
  assume "\<exists>r r'. find_one (\<lambda>r. tip_txId r = tx) (ts_tips st) = Some r \<and> t' = save_row tip_id r' (ts_tips st) \<and>
     res = Inr (Some r') \<and> tip_id r' = tip_id r \<and> tip_txId r' = tip_txId r \<and> tip_idempotencyKey r' = tip_idempotencyKey r \<and>
     tip_amount r' = tip_amount r \<and> \<not> is_pending r' \<and> timeline_ok r'"
  then obtain r r' where r: "r \<in> set (ts_tips st)" and t': "t' = save_row tip_id r' (ts_tips st)"
    and r': "tip_id r' = tip_id r" "tip_txId r' = tip_txId r" "tip_idempotencyKey r' = tip_idempotencyKey r"
      "tip_amount r' = tip_amount r" "\<not> is_pending r'"
    using find_one_SomeD by metis
  have row: "row_ok (settled_audits (ts_effects st)) x" if "x \<in> set (ts_tips st)" for x
    using assms(1) that by (simp add: tip_sys_inv_def Let_def)
  have "tip_sys_inv (st\<lparr>ts_tips := t', ts_effects := ts_effects st @ []\<rparr>)"
  proof (rule tip_sys_inv_table[OF assms(1)])
    have wf: "tips_wf (ts_tips st)" using assms(1) by (simp add: tip_sys_inv_def Let_def)
    then show "tips_wf t'" unfolding t' using r r' by (intro tips_wf_save) auto
    show "\<exists>x' \<in> set t'. tip_id x' = tip_id x \<and> tip_txId x' = tip_txId x \<and> tip_idempotencyKey x' = tip_idempotencyKey x"
      if "x \<in> set (ts_tips st)" for x
    proof (cases "tip_id x = tip_id r'")
      case True
      with wf r r'(1) that have "x = r" by (auto simp: tips_wf_def dest: distinct_keys_eq)
      with r' show ?thesis unfolding t' by (intro bexI[of _ r']) auto
    next
      case False
      with that show ?thesis unfolding t' by (intro bexI[of _ x] other_in_save_row) auto
    qed
    show "row_ok (settled_audits (ts_effects st)) x" if "x \<in> set t'" for x
      using that unfolding t'
    proof (cases rule: in_save_rowE)
      case this
      with row[OF r] r' show ?thesis by (auto simp: row_ok_def split: if_splits)
    qed (use row in blast)
  qed simp
  then show ?thesis by simp
qed (use assms in simp)

lemma tip_sys_inv_ids: "tip_sys_inv st \<Longrightarrow> distinct (map tip_id (ts_tips st))"
  by (simp add: tip_sys_inv_def tips_wf_def Let_def)

lemma tip_step_inv:
  assumes "tip_step st st'" "tip_sys_inv st"
  shows "tip_sys_inv st'"
  using assms
proof (cases rule: tip_step.cases)
  case (claim env c newId tx lockId now s t' q)
  with assms tip_sys_inv_claim show ?thesis by simp
next
  case (replied env c newId tx lockId now reply t')
  from verify_claim_replied[OF replied(4)] replied(1) assms(2) show ?thesis by simp
next
  case (finish f env now res t' fx)
  with assms tip_sys_inv_finish show ?thesis by simp
next
  case (job renv now later t' m fx)
  with tip_sys_inv_reconcile[OF assms(2) pass_rows[OF tip_sys_inv_ids[OF assms(2)] job(2)] pass_audits[OF job(2)]]
  show ?thesis by simp
next
  case (manual renv now later t' m fx)
  with tip_sys_inv_reconcile[OF assms(2) manual_rows[OF tip_sys_inv_ids[OF assms(2)] manual(2)] manual_audits[OF manual(2)]]
  show ?thesis by simp
next
  case (sla threshold now)
  with assms tip_sys_inv_sla show ?thesis by simp
next
  case (refresh verify tx now reply' t')
  with assms tip_sys_inv_refresh show ?thesis by simp
qed

lemma tip_reachable_inv: "tip_reachable st \<Longrightarrow> tip_sys_inv st"
proof (induction rule: tip_reachable.induct)
  case init
  show ?case by (simp add: tip_sys_inv_def tips_wf_def flight_ids_def)
next
  case (step st st')
  then show ?case using tip_step_inv by blast
qed



end
