(* ===== verification/Outbox.thy ===== *)
theory Outbox
  imports XC_Prelude
begin

text \<open>
  The transactional outbox: \<^verbatim>\<open>common/entities/outbox-event.entity.ts\<close> and the dispatcher
  \<^verbatim>\<open>notifications/services/outbox-dispatcher.service.ts\<close>.  A cron tick claims a batch of events
  (pending ones, failed ones with retries left, and ones whose claim timed out), hands each to the
  notification service and records the result.  Shown: claims are disjoint until the lock timeout,
  oldest first and bounded; every claimed event leaves the tick completed, skipped or failed; an event
  is retried at most five times; a completed or skipped event is never claimed again.
\<close>

section \<open>Data\<close>

datatype outbox_status = OPending | OProcessing | OCompleted | OSkipped | OFailed

record outbox_event =
  oe_id :: ident
  oe_type :: string
  oe_payload :: "(string \<times> string) list"
  oe_status :: outbox_status
  oe_retryCount :: nat
  oe_lastError :: "string option"
  oe_idempotencyKey :: "string option"
  oe_createdAt :: ms
  oe_processedAt :: "ms option"
  oe_claimedBy :: "string option"
  oe_claimedAt :: "ms option"

text \<open>What \<open>NotificationService.enqueueNotification\<close> answers: a thrown error, queued, or skipped.\<close>

datatype enqueue_result = EThrows string | EQueued | ESkipped string

type_synonym enqueue = "string \<Rightarrow> (string \<times> string) list \<Rightarrow> string \<Rightarrow> enqueue_result"

definition outbox_create ::
    "ident \<Rightarrow> ms \<Rightarrow> string \<Rightarrow> (string \<times> string) list \<Rightarrow> string option \<Rightarrow> outbox_event" where
  "outbox_create newId now ty payload key =
     \<lparr>oe_id = newId, oe_type = ty, oe_payload = payload, oe_status = OPending, oe_retryCount = 0,
      oe_lastError = None, oe_idempotencyKey = key, oe_createdAt = now, oe_processedAt = None,
      oe_claimedBy = None, oe_claimedAt = None\<rparr>"

text \<open>The insert under the unique, nullable \<open>idempotencyKey\<close> column.\<close>

definition outbox_insert :: "outbox_event \<Rightarrow> outbox_event list \<Rightarrow> outbox_event list option" where
  "outbox_insert e t = (if clashes oe_idempotencyKey e t then None else Some (t @ [e]))"

section \<open>Claiming a batch\<close>

definition LOCK_TIMEOUT_MS :: int where "LOCK_TIMEOUT_MS = 5 * 60 * 1000"

definition MAX_RETRIES :: nat where "MAX_RETRIES = 5"

definition eligible :: "ms \<Rightarrow> outbox_event \<Rightarrow> bool" where
  "eligible now e =
     (oe_status e = OPending \<or>
      (oe_status e = OFailed \<and> oe_retryCount e < MAX_RETRIES) \<or>
      (oe_status e = OProcessing \<and>
        (case oe_claimedAt e of None \<Rightarrow> False | Some c \<Rightarrow> c < now - LOCK_TIMEOUT_MS)))"

definition mark_claimed :: "string \<Rightarrow> ms \<Rightarrow> outbox_event \<Rightarrow> outbox_event" where
  "mark_claimed inst now e = e\<lparr>oe_status := OProcessing, oe_claimedBy := Some inst, oe_claimedAt := Some now\<rparr>"

text \<open>
  The select under \<open>SKIP LOCKED\<close>, ordered by \<open>createdAt\<close>; \<open>locked\<close> are the rows another transaction
  holds at that moment.
\<close>

definition select_batch :: "(outbox_event \<Rightarrow> bool) \<Rightarrow> ms \<Rightarrow> nat \<Rightarrow> outbox_event list \<Rightarrow> outbox_event list" where
  "select_batch locked now limit t =
     take limit (sort_key oe_createdAt (filter (\<lambda>e. eligible now e \<and> \<not> locked e) t))"

definition claimBatch ::
    "string \<Rightarrow> (outbox_event \<Rightarrow> bool) \<Rightarrow> ms \<Rightarrow> nat \<Rightarrow> outbox_event list \<Rightarrow> outbox_event list \<times> outbox_event list"
  where
  "claimBatch inst locked now limit t =
     (let events = select_batch locked now limit t; ids = map oe_id events
      in (map (mark_claimed inst now) events,
          if events = [] then t
          else update_where (\<lambda>e. oe_id e \<in> set ids) (mark_claimed inst now) t))"

section \<open>Processing an event\<close>

definition known_types :: "string list" where
  "known_types = [''comment_notification'', ''message_notification'', ''reply_notification'',
     ''reaction_notification'', ''reaction_update'', ''report_notification'']"

definition oe_save :: "outbox_event \<Rightarrow> outbox_event list \<Rightarrow> outbox_event list" where
  "oe_save e t = save_row oe_id e t"

definition dispatch_key :: "outbox_event \<Rightarrow> string" where
  "dispatch_key e = js_or (oe_idempotencyKey e) (oe_id e)"

text \<open>The row the dispatcher saves for an event, and whether it handed the event to the queue.\<close>

definition dispatch_outcome :: "enqueue \<Rightarrow> ms \<Rightarrow> outbox_event list \<Rightarrow> outbox_event \<Rightarrow> outbox_event" where
  "dispatch_outcome enq now t e =
     (if truthy (oe_idempotencyKey e) \<and>
         (case find_one (\<lambda>x. oe_idempotencyKey x = oe_idempotencyKey e \<and> oe_status x = OCompleted) t of
            None \<Rightarrow> False | Some c \<Rightarrow> oe_id c \<noteq> oe_id e)
      then e\<lparr>oe_status := OCompleted, oe_processedAt := Some now\<rparr>
      else if oe_type e \<in> set known_types then
        (case enq (oe_type e) (oe_payload e) (dispatch_key e) of
           EThrows msg \<Rightarrow> e\<lparr>oe_status := OFailed, oe_retryCount := oe_retryCount e + 1, oe_lastError := Some msg\<rparr>
         | ESkipped reason \<Rightarrow>
             e\<lparr>oe_status := OSkipped, oe_processedAt := Some now, oe_lastError := Some reason\<rparr>
         | EQueued \<Rightarrow> e\<lparr>oe_status := OCompleted, oe_processedAt := Some now\<rparr>)
      else e\<lparr>oe_status := OCompleted, oe_processedAt := Some now\<rparr>)"

definition processEvent :: "enqueue \<Rightarrow> ms \<Rightarrow> outbox_event \<Rightarrow> outbox_event list \<Rightarrow> outbox_event list" where
  "processEvent enq now e t = oe_save (dispatch_outcome enq now t e) t"

definition processEvents ::
    "enqueue \<Rightarrow> string \<Rightarrow> (outbox_event \<Rightarrow> bool) \<Rightarrow> ms \<Rightarrow> outbox_event list \<Rightarrow> outbox_event list" where
  "processEvents enq inst locked now t =
     (case claimBatch inst locked now 50 t of (claimed, t') \<Rightarrow> fold (processEvent enq now) claimed t')"

text \<open>The cron entry point with its in-process latch: \<open>(isProcessing, table)\<close>.\<close>

definition handleOutbox ::
    "enqueue \<Rightarrow> string \<Rightarrow> (outbox_event \<Rightarrow> bool) \<Rightarrow> ms \<Rightarrow> bool \<times> outbox_event list \<Rightarrow> bool \<times> outbox_event list"
  where
  "handleOutbox enq inst locked now st =
     (case st of (isProcessing, t) \<Rightarrow>
        if isProcessing then (isProcessing, t)
        else (False, processEvents enq inst locked now t))"

section \<open>Workers and the table together\<close>

text \<open>
  Several dispatcher instances share the table.  Each works on the copies of the events it claimed, so
  the state is the table with the claimed copies still in flight.  A worker may stall past the lock
  timeout, in which case another one claims the same row, and it may crash.
\<close>

record outbox_sys =
  os_table :: "outbox_event list"
  os_inflight :: "outbox_event list"

inductive outbox_reachable :: "outbox_sys \<Rightarrow> bool" where
  start: "outbox_reachable \<lparr>os_table = [], os_inflight = []\<rparr>"
| emit: "outbox_reachable s \<Longrightarrow> newId \<notin> oe_id ` set (os_table s) \<Longrightarrow>
    outbox_insert (outbox_create newId now ty payload key) (os_table s) = Some t \<Longrightarrow>
    outbox_reachable (s\<lparr>os_table := t\<rparr>)"
| claim: "outbox_reachable s \<Longrightarrow> claimBatch inst locked now limit (os_table s) = (es, t) \<Longrightarrow>
    outbox_reachable \<lparr>os_table = t, os_inflight = os_inflight s @ es\<rparr>"
| finish: "outbox_reachable s \<Longrightarrow> os_inflight s = pre @ e # post \<Longrightarrow>
    outbox_reachable \<lparr>os_table = processEvent enq now e (os_table s), os_inflight = pre @ post\<rparr>"
| crash: "outbox_reachable s \<Longrightarrow> os_inflight s = pre @ e # post \<Longrightarrow>
    outbox_reachable (s\<lparr>os_inflight := pre @ post\<rparr>)"

definition retry_ok :: "outbox_event \<Rightarrow> bool" where
  "retry_ok e \<longleftrightarrow> oe_retryCount e \<le> MAX_RETRIES \<and>
     (oe_status e \<in> {OPending, OProcessing} \<longrightarrow> oe_retryCount e < MAX_RETRIES)"

definition outbox_inv :: "outbox_sys \<Rightarrow> bool" where
  "outbox_inv s \<longleftrightarrow> distinct (map oe_id (os_table s)) \<and> (\<forall>e \<in> set (os_table s). retry_ok e) \<and>
     (\<forall>e \<in> set (os_inflight s). oe_retryCount e < MAX_RETRIES)"

definition settled :: "outbox_event \<Rightarrow> bool" where
  "settled e \<longleftrightarrow> oe_status e \<in> {OCompleted, OSkipped, OFailed}"

interpretation outbox_keys: sole_unique_index oe_idempotencyKey outbox_insert
  by unfold_locales (auto simp: outbox_insert_def split: if_splits)

section \<open>Lemmas\<close>

lemma mark_claimed_simps [simp]:
  "oe_id (mark_claimed i n e) = oe_id e" "oe_status (mark_claimed i n e) = OProcessing"
  "oe_claimedAt (mark_claimed i n e) = Some n" "oe_retryCount (mark_claimed i n e) = oe_retryCount e"
  "oe_idempotencyKey (mark_claimed i n e) = oe_idempotencyKey e" "oe_type (mark_claimed i n e) = oe_type e"
  by (simp_all add: mark_claimed_def)

lemma select_batch_mem: "e \<in> set (select_batch locked now limit t) \<Longrightarrow> e \<in> set t \<and> eligible now e \<and> \<not> locked e"
  by (auto simp: select_batch_def dest!: in_set_takeD)

lemma claimBatch_eqs:
  assumes "claimBatch inst locked now limit t = (es, t')"
  shows "es = map (mark_claimed inst now) (select_batch locked now limit t)"
    and "t' = update_where (\<lambda>e. oe_id e \<in> oe_id ` set (select_batch locked now limit t)) (mark_claimed inst now) t"
  using assms by (simp_all add: claimBatch_def Let_def split: if_splits)
    (auto simp: update_where_def)

lemma claimBatch_ids:
  "claimBatch inst locked now limit t = (es, t') \<Longrightarrow>
   oe_id ` set es = oe_id ` set (select_batch locked now limit t)"
  by (drule claimBatch_eqs(1)) (simp add: image_image)

lemma eligible_retry: "eligible now e \<Longrightarrow> retry_ok e \<Longrightarrow> oe_retryCount e < MAX_RETRIES"
  by (auto simp: eligible_def retry_ok_def)

lemma dispatch_settles: "settled (dispatch_outcome enq now t e)"
  by (simp add: dispatch_outcome_def settled_def split: enqueue_result.split)

lemma dispatch_id [simp]: "oe_id (dispatch_outcome enq now t e) = oe_id e"
  by (simp add: dispatch_outcome_def split: enqueue_result.split)

lemma dispatch_key_same [simp]: "oe_idempotencyKey (dispatch_outcome enq now t e) = oe_idempotencyKey e"
  by (simp add: dispatch_outcome_def split: enqueue_result.split)

lemma dispatch_retry: "oe_retryCount e < MAX_RETRIES \<Longrightarrow> retry_ok (dispatch_outcome enq now t e)"
  by (simp add: dispatch_outcome_def retry_ok_def split: enqueue_result.split)

lemma in_processEventE:
  assumes "x \<in> set (processEvent enq now e t)"
  obtains (saved) "x = dispatch_outcome enq now t e" | (rest) "x \<in> set t" "oe_id x \<noteq> oe_id e"
  using assms unfolding processEvent_def oe_save_def by (auto elim: in_save_rowE)

lemma claim_keeps_inv:
  assumes inv: "outbox_inv s" and cl: "claimBatch inst locked now limit (os_table s) = (es, t)"
  shows "outbox_inv \<lparr>os_table = t, os_inflight = os_inflight s @ es\<rparr>"
proof -
  let ?sel = "select_batch locked now limit (os_table s)"
  have ids: "distinct (map oe_id (os_table s))" using inv by (simp add: outbox_inv_def)
  have sel: "oe_retryCount e < MAX_RETRIES" if "e \<in> set ?sel" for e
    using select_batch_mem[OF that] inv eligible_retry by (auto simp: outbox_inv_def)
  have "retry_ok x" if x: "x \<in> set t" for x
    using x unfolding claimBatch_eqs(2)[OF cl]
  proof (cases rule: in_update_whereE)
    case (hit r)
    then obtain e where "e \<in> set ?sel" "oe_id r = oe_id e" by auto
    then have "r = e" using hit(1) distinct_keys_eq[OF ids] select_batch_mem by blast
    with \<open>e \<in> set ?sel\<close> hit(3) show ?thesis using sel[of e] by (simp add: retry_ok_def)
  next
    case miss
    then show ?thesis using inv by (simp add: outbox_inv_def)
  qed
  moreover have "map oe_id t = map oe_id (os_table s)"
    unfolding claimBatch_eqs(2)[OF cl] by (rule map_update_where) simp
  ultimately show ?thesis
    using inv sel by (auto simp: outbox_inv_def claimBatch_eqs(1)[OF cl])
qed

lemma processEvent_settles:
  assumes "\<forall>x \<in> set t. oe_id x \<in> S \<longrightarrow> settled x"
  shows "\<forall>x \<in> set (processEvent enq now e t). oe_id x \<in> insert (oe_id e) S \<longrightarrow> settled x"
  using assms by (auto elim!: in_processEventE simp: dispatch_settles)

lemma fold_processEvent_settles:
  "\<forall>x \<in> set t. oe_id x \<in> S \<longrightarrow> settled x \<Longrightarrow>
   \<forall>x \<in> set (fold (processEvent enq now) es t). oe_id x \<in> S \<union> oe_id ` set es \<longrightarrow> settled x"
proof (induction es arbitrary: t S)
  case (Cons e es)
  from Cons.IH[OF processEvent_settles[OF Cons.prems, of enq now e]] show ?case by simp
qed simp

lemma fold_processEvent_frame:
  "x \<in> set t \<Longrightarrow> oe_id x \<notin> oe_id ` set es \<Longrightarrow> x \<in> set (fold (processEvent enq now) es t)"
  by (induction es arbitrary: t) (auto simp: processEvent_def oe_save_def other_in_save_row)

lemma fold_processEvent_only:
  "x \<in> set (fold (processEvent enq now) es t) \<Longrightarrow> oe_id x \<notin> oe_id ` set es \<Longrightarrow> x \<in> set t"
proof (induction es arbitrary: t)
  case (Cons e es)
  then have "x \<in> set (processEvent enq now e t)" by simp
  then show ?case using Cons.prems by (cases rule: in_processEventE) auto
qed simp

lemma sorted_take_drop_le:
  assumes "sorted (map f xs)" "x \<in> set (take n xs)" "y \<in> set (drop n xs)"
  shows "f x \<le> f y"
proof -
  have "sorted (map f (take n xs) @ map f (drop n xs))"
    using assms(1) by (simp flip: map_append)
  then show ?thesis using assms(2,3) by (auto simp: sorted_append)
qed

lemma processEvent_keeps_inv:
  assumes inv: "outbox_inv s" and e: "os_inflight s = pre @ e # post"
  shows "outbox_inv \<lparr>os_table = processEvent enq now e (os_table s), os_inflight = pre @ post\<rparr>"
proof -
  have "distinct (map oe_id (processEvent enq now e (os_table s)))"
    using inv by (simp add: processEvent_def oe_save_def outbox_inv_def distinct_save_row)
  moreover have "retry_ok x" if "x \<in> set (processEvent enq now e (os_table s))" for x
    using that by (cases rule: in_processEventE) (use inv e in \<open>auto simp: outbox_inv_def dispatch_retry\<close>)
  ultimately show ?thesis using inv e by (auto simp: outbox_inv_def)
qed

lemma emit_keeps_inv:
  assumes inv: "outbox_inv s" and fresh: "newId \<notin> oe_id ` set (os_table s)"
    and ins: "outbox_insert (outbox_create newId now ty payload key) (os_table s) = Some t"
  shows "outbox_inv (s\<lparr>os_table := t\<rparr>)"
  using inv fresh outbox_keys.ins_appends[OF ins]
  by (auto simp: outbox_inv_def outbox_create_def retry_ok_def MAX_RETRIES_def)

lemma crash_keeps_inv:
  "outbox_inv s \<Longrightarrow> os_inflight s = pre @ e # post \<Longrightarrow> outbox_inv (s\<lparr>os_inflight := pre @ post\<rparr>)"
  by (simp add: outbox_inv_def)

lemma outbox_reachable_inv: "outbox_reachable s \<Longrightarrow> outbox_inv s"
proof (induction rule: outbox_reachable.induct)
  case start
  show ?case by (simp add: outbox_inv_def)
qed (blast intro: emit_keeps_inv claim_keeps_inv processEvent_keeps_inv crash_keeps_inv)+

section \<open>Properties\<close>

text \<open>
  Whatever the interleaving of emitters, dispatcher instances, stalls past the lock timeout and
  crashes, no outbox event is ever recorded with more than five failed deliveries, and none that has
  used up its five is claimed again.
\<close>

theorem outbox_retries_bounded:
  assumes "outbox_reachable s" "e \<in> set (os_table s)"
  shows "oe_retryCount e \<le> 5 \<and> (oe_retryCount e = 5 \<longrightarrow> \<not> eligible now e)"
  using outbox_reachable_inv[OF assms(1)] assms(2) eligible_retry[of now e]
  by (auto simp: outbox_inv_def retry_ok_def MAX_RETRIES_def)

definition demo_event :: outbox_event where
  "demo_event = outbox_create ''e1'' 10 ''report_notification'' [] (Some ''report:r1'')"

theorem outbox_retries_bounded_witness: "oe_retryCount demo_event \<le> 5"
proof -
  have "outbox_insert demo_event [] = Some [demo_event]" by code_simp
  then have "outbox_reachable (\<lparr>os_table = [], os_inflight = []\<rparr>\<lparr>os_table := [demo_event]\<rparr>)"
    unfolding demo_event_def by (intro outbox_reachable.emit[OF outbox_reachable.start]) simp_all
  moreover have "demo_event \<in> set (os_table (\<lparr>os_table = [], os_inflight = []\<rparr>\<lparr>os_table := [demo_event]\<rparr>))"
    by simp
  ultimately show ?thesis by (rule conjunct1[OF outbox_retries_bounded])
qed

text \<open>
  Two dispatcher instances never hold the same event: a batch claimed within five minutes of an
  earlier claim shares no event with it.
\<close>

theorem claims_disjoint:
  assumes "distinct (map oe_id t)"
    and c1: "claimBatch a locked1 now1 limit1 t = (es1, t1)"
    and c2: "claimBatch b locked2 now2 limit2 t1 = (es2, t2)"
    and "now2 \<le> now1 + LOCK_TIMEOUT_MS"
  shows "oe_id ` set es1 \<inter> oe_id ` set es2 = {}"
proof -
  have False if e1: "e1 \<in> set es1" and e2: "e2 \<in> set es2" and eq: "oe_id e1 = oe_id e2" for e1 e2
  proof -
    obtain x where x: "x \<in> set (select_batch locked2 now2 limit2 t1)" "oe_id x = oe_id e2"
      using e2 by (auto simp: claimBatch_eqs(1)[OF c2])
    then have "x \<in> set t1" "eligible now2 x" using select_batch_mem by blast+
    moreover have "oe_id x \<in> oe_id ` set (select_batch locked1 now1 limit1 t)"
      using e1 eq x(2) claimBatch_ids[OF c1] by (metis imageI)
    ultimately obtain r where "x = mark_claimed a now1 r"
      by (auto simp: claimBatch_eqs(2)[OF c1] elim!: in_update_whereE)
    with \<open>eligible now2 x\<close> assms(4) show False by (simp add: eligible_def)
  qed
  then show ?thesis by blast
qed

theorem claims_disjoint_witness:
  "oe_id ` set (fst (claimBatch ''w1'' (\<lambda>_. False) 100 50 [demo_event])) \<inter>
   oe_id ` set (fst (claimBatch ''w2'' (\<lambda>_. False) 300000 50
     (snd (claimBatch ''w1'' (\<lambda>_. False) 100 50 [demo_event])))) = {}"
proof (rule claims_disjoint)
  show "distinct (map oe_id [demo_event])" by simp
  show "(300000::int) \<le> 100 + LOCK_TIMEOUT_MS" by (simp add: LOCK_TIMEOUT_MS_def)
qed (rule prod.collapse[symmetric])+

text \<open>
  C12: A dispatcher tick leaves no event it claimed in flight: each is completed, skipped or failed
  when the tick ends, and every row it did not claim is untouched.
\<close>

theorem processEvents_settles_batch:
  assumes cl: "claimBatch inst locked now 50 t = (es, t')"
  shows "(\<forall>x \<in> set (processEvents enq inst locked now t).
            if oe_id x \<in> oe_id ` set es then settled x else x \<in> set t) \<and>
         (\<forall>y \<in> set t. oe_id y \<notin> oe_id ` set es \<longrightarrow> y \<in> set (processEvents enq inst locked now t))"
proof (intro conjI ballI impI)
  have eq: "processEvents enq inst locked now t = fold (processEvent enq now) es t'"
    by (simp add: processEvents_def cl)
  show "if oe_id x \<in> oe_id ` set es then settled x else x \<in> set t"
    if x: "x \<in> set (processEvents enq inst locked now t)" for x
  proof (cases "oe_id x \<in> oe_id ` set es")
    case True
    with x eq fold_processEvent_settles[of t' "{}" enq now es] show ?thesis by simp
  next
    case False
    with x eq have "x \<in> set t'" using fold_processEvent_only by metis
    with False show ?thesis
      unfolding claimBatch_eqs(2)[OF cl] claimBatch_ids[OF cl] by (auto elim!: in_update_whereE)
  qed
  show "y \<in> set (processEvents enq inst locked now t)" if "y \<in> set t" "oe_id y \<notin> oe_id ` set es" for y
    unfolding eq using that
    by (intro fold_processEvent_frame) (auto simp: claimBatch_eqs(2)[OF cl] claimBatch_ids[OF cl] set_update_where)
qed

theorem processEvents_settles_batch_witness:
  "settled (demo_event\<lparr>oe_status := OCompleted, oe_processedAt := Some 100, oe_claimedBy := Some ''w1'',
     oe_claimedAt := Some 100\<rparr>) \<and>
   demo_event\<lparr>oe_id := ''e2'', oe_status := OSkipped\<rparr> \<in> set (processEvents (\<lambda>_ _ _. EQueued) ''w1'' (\<lambda>_. False) 100
     [demo_event, demo_event\<lparr>oe_id := ''e2'', oe_status := OSkipped\<rparr>])"
proof
  let ?x = "demo_event\<lparr>oe_status := OCompleted, oe_processedAt := Some 100, oe_claimedBy := Some ''w1'',
     oe_claimedAt := Some 100\<rparr>"
  let ?y = "demo_event\<lparr>oe_id := ''e2'', oe_status := OSkipped\<rparr>"
  have cl: "claimBatch ''w1'' (\<lambda>_. False) 100 50 [demo_event, ?y]
      = ([mark_claimed ''w1'' 100 demo_event], [mark_claimed ''w1'' 100 demo_event, ?y])"
    by code_simp
  have "?x \<in> set (processEvents (\<lambda>_ _ _. EQueued) ''w1'' (\<lambda>_. False) 100 [demo_event, ?y])"
    by code_simp
  from bspec[OF conjunct1[OF processEvents_settles_batch[OF cl]] this] show "settled ?x" by simp
  have "oe_id ?y \<notin> oe_id ` set [mark_claimed ''w1'' 100 demo_event]" by code_simp
  with bspec[OF conjunct2[OF processEvents_settles_batch[OF cl]], of ?y]
  show "?y \<in> set (processEvents (\<lambda>_ _ _. EQueued) ''w1'' (\<lambda>_. False) 100 [demo_event, ?y])" by simp
qed

text \<open>
  A batch is at most as large as asked for and takes the oldest work first: an eligible, unlocked
  event that is left behind was not created before any event that was claimed.
\<close>

theorem claim_oldest_first:
  assumes "e \<in> set (select_batch locked now limit t)"
    and "x \<in> set t" "eligible now x" "\<not> locked x" "x \<notin> set (select_batch locked now limit t)"
  shows "oe_createdAt e \<le> oe_createdAt x \<and> length (select_batch locked now limit t) \<le> limit"
proof -
  let ?l = "sort_key oe_createdAt (filter (\<lambda>e. eligible now e \<and> \<not> locked e) t)"
  have "x \<in> set (take limit ?l @ drop limit ?l)" using assms by (simp del: set_append)
  then have "x \<in> set (drop limit ?l)"
    using assms(5) unfolding select_batch_def set_append by blast
  moreover have "e \<in> set (take limit ?l)" using assms(1) by (simp add: select_batch_def)
  ultimately show ?thesis
    using sorted_take_drop_le[of oe_createdAt ?l] by (simp add: select_batch_def)
qed

theorem claim_oldest_first_witness:
  "oe_createdAt demo_event \<le> oe_createdAt (demo_event\<lparr>oe_id := ''e2'', oe_createdAt := 30\<rparr>) \<and>
   length (select_batch (\<lambda>_. False) 100 1 [demo_event\<lparr>oe_id := ''e2'', oe_createdAt := 30\<rparr>, demo_event]) \<le> 1"
proof (rule claim_oldest_first)
  let ?t = "[demo_event\<lparr>oe_id := ''e2'', oe_createdAt := 30\<rparr>, demo_event]"
  show "demo_event \<in> set (select_batch (\<lambda>_. False) 100 1 ?t)" by code_simp
  show "demo_event\<lparr>oe_id := ''e2'', oe_createdAt := 30\<rparr> \<in> set ?t" by simp
  show "eligible 100 (demo_event\<lparr>oe_id := ''e2'', oe_createdAt := 30\<rparr>)" by code_simp
  show "demo_event\<lparr>oe_id := ''e2'', oe_createdAt := 30\<rparr> \<notin> set (select_batch (\<lambda>_. False) 100 1 ?t)"
    by code_simp
qed simp

end
