(* ===== verification/Reports.thy ===== *)
theory Reports
  imports Outbox "HOL-Library.List_Lexorder" "HOL-Library.Char_ord"
begin

text \<open>
  Reports of confessions: \<^verbatim>\<open>report/reports.service.ts\<close>, the entity
  \<^verbatim>\<open>admin/entities/report.entity.ts\<close>, the ownership check of anonymous identities
  (\<^verbatim>\<open>common/security/anonymous-identity-ownership.ts\<close>) and priorities
  (\<^verbatim>\<open>admin/services/report-priority.service.ts\<close>).

  The decisions of moderators are cut into reading the report and the guarded \<open>UPDATE\<close>, so that two
  moderators can interleave; the handlers compose the two.  The guarded update is an instance of
  \<open>versioned_rows\<close>, the insert under its partial unique indexes one of \<open>unique_index\<close>.
\<close>

section \<open>Data\<close>

datatype report_type = SPAM | HARASSMENT | HATE_SPEECH | INAPPROPRIATE_CONTENT | COPYRIGHT | OTHER

datatype report_status = RPending | RReviewing | RResolved | RDismissed

record report =
  rp_id :: ident
  rp_confessionId :: ident
  rp_reporterId :: "int option"
  rp_anonymousReporterId :: "ident option"
  rp_type :: report_type
  rp_reason :: "string option"
  rp_status :: report_status
  rp_resolvedBy :: "int option"
  rp_resolvedAt :: "ms option"
  rp_resolutionNotes :: "string option"
  rp_templateId :: "int option"
  rp_idempotencyKey :: "string option"
  rp_createdAt :: ms
  rp_updatedAt :: ms
  rp_priority :: nat
  rp_priorityReason :: "string option"
  rp_priorityCalculatedAt :: "ms option"
  rp_version :: nat

text \<open>An anonymous user with its links: the id of each linked account and its e-mail address, if the
  account could be loaded.\<close>

record user_link =
  ul_userId :: string
  ul_email :: "string option"

record anonymous_user =
  au_id :: ident
  au_userLinks :: "user_link list"

record reported_confession =
  rf_id :: ident
  rf_anonymousUser :: "anonymous_user option"

record report_user =
  ru_id :: int
  ru_username :: string
  ru_isAdmin :: bool

datatype report_audit =
    LogReport ident ident int string
  | LogReportResolved ident int report_status "string option" ident string
  | LogReportDismissed ident int report_status "string option" ident string

record report_state =
  rs_reports :: "report list"
  rs_outbox :: "outbox_event list"
  rs_audit :: "report_audit list"

text \<open>What the handler reads besides: anonymous users, confessions, and whether the database lets a
  transaction go on after a constraint violation (PostgreSQL does not).\<close>

record report_env =
  rv_anonymousUser :: "ident \<Rightarrow> anonymous_user option"
  rv_confession :: "ident \<Rightarrow> reported_confession option"
  rv_survives_violation :: bool

section \<open>Who may report\<close>

definition assertCanUseAnonymousIdentity :: "anonymous_user option \<Rightarrow> string option \<Rightarrow> unit outcome" where
  "assertCanUseAnonymousIdentity anonymousUser actorUserId =
     (case anonymousUser of
        None \<Rightarrow> Inl (NotFoundException ''Anonymous user not found'')
      | Some u \<Rightarrow>
          (let linkedUserIds = map ul_userId (au_userLinks u) in
           if linkedUserIds = [] then Inr ()
           else if \<not> truthy actorUserId \<or> the actorUserId \<notin> set linkedUserIds
           then Inl (NotFoundException ''Anonymous identity not found'')
           else Inr ()))"

definition check_reporter :: "report_env \<Rightarrow> int option \<Rightarrow> ident option \<Rightarrow> unit outcome" where
  "check_reporter env reporterId anonymousUserId =
     (if reporterId = None \<and> \<not> truthy anonymousUserId
      then Inl (BadRequestException ''Anonymous reports require a valid anonymous identity'')
      else if reporterId = None
      then assertCanUseAnonymousIdentity (rv_anonymousUser env (the anonymousUserId)) None
      else Inr ())"

section \<open>Creating a report\<close>

definition find_replay :: "string option \<Rightarrow> int option \<Rightarrow> report list \<Rightarrow> report option" where
  "find_replay idempotencyKey reporterId t =
     (if truthy idempotencyKey \<and> reporterId \<noteq> None
      then find_one (\<lambda>r. rp_idempotencyKey r = idempotencyKey \<and> rp_reporterId r = reporterId) t
      else None)"

definition DAY_MS :: ms where "DAY_MS = 24 * 60 * 60 * 1000"

definition find_duplicate :: "ident \<Rightarrow> int option \<Rightarrow> ident option \<Rightarrow> ms \<Rightarrow> report list \<Rightarrow> report option" where
  "find_duplicate confessionId reporterId anonymousUserId since t =
     find_one (\<lambda>r. rp_confessionId r = confessionId \<and> rp_createdAt r > since \<and>
        (if reporterId \<noteq> None then rp_reporterId r = reporterId
         else truthy anonymousUserId \<longrightarrow> rp_anonymousReporterId r = anonymousUserId)) t"

text \<open>The partial unique indexes of the migrations: one report per confession and account, one per
  confession and anonymous identity, one per key and account.\<close>

definition by_account :: "report \<Rightarrow> (ident \<times> int) option" where
  "by_account r = map_option (\<lambda>u. (rp_confessionId r, u)) (rp_reporterId r)"

definition by_identity :: "report \<Rightarrow> (ident \<times> ident) option" where
  "by_identity r = map_option (\<lambda>u. (rp_confessionId r, u)) (rp_anonymousReporterId r)"

definition by_key :: "report \<Rightarrow> (string \<times> int) option" where
  "by_key r = (case (rp_idempotencyKey r, rp_reporterId r) of (Some k, Some u) \<Rightarrow> Some (k, u) | _ \<Rightarrow> None)"

definition report_insert :: "report \<Rightarrow> report list \<Rightarrow> report list option" where
  "report_insert r t =
     (if clashes by_account r t \<or> clashes by_identity r t \<or> clashes by_key r t then None else Some (t @ [r]))"

definition new_report ::
  "ident \<Rightarrow> ident \<Rightarrow> int option \<Rightarrow> ident option \<Rightarrow> report_type option \<Rightarrow> string option \<Rightarrow> string option \<Rightarrow> ms \<Rightarrow> report" where
  "new_report newId confessionId reporterId anonymousUserId ty reason idempotencyKey now =
     \<lparr>rp_id = newId, rp_confessionId = confessionId, rp_reporterId = reporterId,
      rp_anonymousReporterId = (if reporterId = None then anonymousUserId else None),
      rp_type = nullish ty OTHER, rp_reason = reason, rp_status = RPending, rp_resolvedBy = None,
      rp_resolvedAt = None, rp_resolutionNotes = None, rp_templateId = None,
      rp_idempotencyKey = idempotencyKey, rp_createdAt = now, rp_updatedAt = now, rp_priority = 0,
      rp_priorityReason = None, rp_priorityCalculatedAt = None, rp_version = 1\<rparr>"

definition DUPLICATE_REPORT_MESSAGE :: string where
  "DUPLICATE_REPORT_MESSAGE = ''You have already reported this confession within the last 24 hours.''"

text \<open>The insert, and the look at the winner when it hits an index.\<close>

definition persist_report ::
  "report_env \<Rightarrow> report \<Rightarrow> int option \<Rightarrow> string option \<Rightarrow> report list \<Rightarrow> (report \<times> bool) outcome \<times> report list" where
  "persist_report env r reporterId idempotencyKey t =
     (case report_insert r t of
        Some t' \<Rightarrow> (Inr (r, True), t')
      | None \<Rightarrow>
          if \<not> rv_survives_violation env
          then (Inl (PlainError ''current transaction is aborted, commands ignored until end of transaction block''), t)
          else (case find_one (\<lambda>x. rp_confessionId x = rp_confessionId r \<and>
                     (truthy idempotencyKey \<and> reporterId \<noteq> None \<longrightarrow>
                        rp_idempotencyKey x = idempotencyKey \<and> rp_reporterId x = reporterId)) t of
                  Some concurrent \<Rightarrow> (Inr (concurrent, False), t)
                | None \<Rightarrow> (Inl (BadRequestException DUPLICATE_REPORT_MESSAGE), t)))"

definition getRecipientEmail :: "anonymous_user option \<Rightarrow> string option" where
  "getRecipientEmail anonymousUser =
     (case anonymousUser of
        None \<Rightarrow> None
      | Some u \<Rightarrow> (case au_userLinks u of [] \<Rightarrow> None | link # _ \<Rightarrow> ul_email link))"

fun report_type_str :: "report_type \<Rightarrow> string" where
  "report_type_str SPAM = ''spam''"
| "report_type_str HARASSMENT = ''harassment''"
| "report_type_str HATE_SPEECH = ''hate_speech''"
| "report_type_str INAPPROPRIATE_CONTENT = ''inappropriate_content''"
| "report_type_str COPYRIGHT = ''copyright''"
| "report_type_str OTHER = ''other''"

definition report_event :: "ident \<Rightarrow> ms \<Rightarrow> report \<Rightarrow> ident \<Rightarrow> string \<Rightarrow> outbox_event" where
  "report_event eventId now r confessionId recipientEmail =
     outbox_create eventId now ''report_notification''
       ([(''reportId'', rp_id r), (''confessionId'', confessionId), (''recipientEmail'', recipientEmail),
         (''type'', report_type_str (rp_type r))] @
        (case rp_reason r of None \<Rightarrow> [] | Some x \<Rightarrow> [(''reason'', x)]))
       (Some (''report:'' @ rp_id r))"

text \<open>Step 4: the notification of the author goes into the outbox in the same transaction; \<open>None\<close> is
  the error of the unique key column.\<close>

definition notify_author ::
  "reported_confession \<Rightarrow> report \<Rightarrow> ident \<Rightarrow> ms \<Rightarrow> outbox_event list \<Rightarrow> outbox_event list option" where
  "notify_author confession r eventId now events =
     (if truthy (getRecipientEmail (rf_anonymousUser confession))
      then outbox_insert (report_event eventId now r (rf_id confession)
             (the (getRecipientEmail (rf_anonymousUser confession)))) events
      else Some events)"

definition audit_creation :: "report \<Rightarrow> ident \<Rightarrow> int option \<Rightarrow> string option \<Rightarrow> report_audit list" where
  "audit_creation r confessionId reporterId reason =
     (case reporterId of
        None \<Rightarrow> []
      | Some u \<Rightarrow> if u = 0 then [] else [LogReport (rp_id r) confessionId u (nullish reason ''unspecified'')])"

text \<open>The transaction: an error undoes its writes.\<close>

definition create_in_transaction ::
  "report_env \<Rightarrow> ident \<Rightarrow> int option \<Rightarrow> ident option \<Rightarrow> report_type option \<Rightarrow> string option \<Rightarrow> string option \<Rightarrow>
     ident \<Rightarrow> ident \<Rightarrow> ms \<Rightarrow> report_state \<Rightarrow> report outcome \<times> report_state" where
  "create_in_transaction env confessionId reporterId anonymousUserId ty reason idempotencyKey newId eventId now st =
     (case rv_confession env confessionId of
        None \<Rightarrow> (Inl (NotFoundException ''Confession not found''), st)
      | Some confession \<Rightarrow>
          (case find_duplicate confessionId reporterId anonymousUserId (now - DAY_MS) (rs_reports st) of
             Some existingReport \<Rightarrow> (Inr existingReport, st)
           | None \<Rightarrow>
               (case persist_report env
                       (new_report newId confessionId reporterId anonymousUserId ty reason idempotencyKey now)
                       reporterId idempotencyKey (rs_reports st) of
                  (Inl e, _) \<Rightarrow> (Inl e, st)
                | (Inr (r, created), t') \<Rightarrow>
                    if \<not> created then (Inr r, st)
                    else (case notify_author confession r eventId now (rs_outbox st) of
                            None \<Rightarrow> (Inl (PlainError ''duplicate key value violates unique constraint''), st)
                          | Some events \<Rightarrow>
                              (Inr r, st\<lparr>rs_reports := t', rs_outbox := events,
                                 rs_audit := rs_audit st @ audit_creation r confessionId reporterId reason\<rparr>)))))"

definition createReport ::
  "report_env \<Rightarrow> ident \<Rightarrow> int option \<Rightarrow> report_type option \<Rightarrow> string option \<Rightarrow> ident option \<Rightarrow> string option \<Rightarrow>
     ident \<Rightarrow> ident \<Rightarrow> ms \<Rightarrow> report_state \<Rightarrow> report outcome \<times> report_state" where
  "createReport env confessionId reporterId ty reason anonymousUserId idempotencyKey newId eventId now st =
     (case check_reporter env reporterId anonymousUserId of
        Inl e \<Rightarrow> (Inl e, st)
      | Inr _ \<Rightarrow>
          (case find_replay idempotencyKey reporterId (rs_reports st) of
             Some prior \<Rightarrow> (Inr prior, st)
           | None \<Rightarrow>
               create_in_transaction env confessionId reporterId anonymousUserId ty reason idempotencyKey
                 newId eventId now st))"

section \<open>Decisions\<close>

fun report_status_str :: "report_status \<Rightarrow> string" where
  "report_status_str RPending = ''pending''"
| "report_status_str RReviewing = ''reviewing''"
| "report_status_str RResolved = ''resolved''"
| "report_status_str RDismissed = ''dismissed''"

definition isAdmin :: "report_user \<Rightarrow> bool" where
  "isAdmin u = ru_isAdmin u"

definition is_closed :: "report \<Rightarrow> bool" where
  "is_closed r \<longleftrightarrow> rp_status r = RResolved \<or> rp_status r = RDismissed"

record decision =
  dc_status :: report_status
  dc_by :: int
  dc_at :: ms
  dc_notes :: string

text \<open>\<open>UPDATE \<dots> WHERE id = :id AND version = :version RETURNING *\<close>; TypeORM adds \<open>updatedAt\<close> to the columns.\<close>

definition guarded_decision :: "ident \<Rightarrow> nat \<Rightarrow> decision \<Rightarrow> report list \<Rightarrow> report list option" where
  "guarded_decision i v d t =
     (if \<exists>r \<in> set t. rp_id r = i \<and> rp_version r = v
      then Some (update_where (\<lambda>r. rp_id r = i \<and> rp_version r = v)
             (\<lambda>r. r\<lparr>rp_status := dc_status d, rp_resolvedBy := Some (dc_by d), rp_resolvedAt := Some (dc_at d),
                    rp_resolutionNotes := Some (dc_notes d), rp_updatedAt := dc_at d, rp_version := v + 1\<rparr>) t)
      else None)"

definition stale_message :: string where
  "stale_message = ''Report was modified by another moderator. Please refresh and try again.''"

text \<open>The write of a decision on a report read earlier.\<close>

definition write_decision :: "report \<Rightarrow> decision \<Rightarrow> report_audit \<Rightarrow> report_state \<Rightarrow> report outcome \<times> report_state" where
  "write_decision snapshot d entry st =
     (case guarded_decision (rp_id snapshot) (rp_version snapshot) d (rs_reports st) of
        None \<Rightarrow> (Inl (BadRequestException stale_message), st)
      | Some t' \<Rightarrow>
          (case find_one (\<lambda>r. rp_id r = rp_id snapshot) t' of
             None \<Rightarrow> (Inl (BadRequestException stale_message), st)
           | Some updated \<Rightarrow> (Inr updated, st\<lparr>rs_reports := t', rs_audit := rs_audit st @ [entry]\<rparr>)))"

definition closed_error :: "report \<Rightarrow> exn" where
  "closed_error r = BadRequestException (''Report is already '' @ report_status_str (rp_status r))"

definition read_report :: "ident \<Rightarrow> report_state \<Rightarrow> report outcome" where
  "read_report reportId st =
     (case find_one (\<lambda>r. rp_id r = reportId) (rs_reports st) of
        None \<Rightarrow> Inl (NotFoundException (''Report with ID '' @ reportId @ '' not found''))
      | Some r \<Rightarrow> Inr r)"

definition read_for_decision :: "string \<Rightarrow> ident \<Rightarrow> report_user \<Rightarrow> report_state \<Rightarrow> report outcome" where
  "read_for_decision verb reportId admin st =
     (case read_report reportId st of
        Inl e \<Rightarrow> Inl e
      | Inr r \<Rightarrow>
          if \<not> isAdmin admin then Inl (ForbiddenException (''Only admins can '' @ verb @ '' reports''))
          else if is_closed r then Inl (closed_error r)
          else Inr r)"

definition resolveReport ::
  "ident \<Rightarrow> report_user \<Rightarrow> string option \<Rightarrow> ms \<Rightarrow> report_state \<Rightarrow> report outcome \<times> report_state" where
  "resolveReport reportId admin reason now st =
     (case read_for_decision ''resolve'' reportId admin st of
        Inl e \<Rightarrow> (Inl e, st)
      | Inr r \<Rightarrow>
          write_decision r \<lparr>dc_status = RResolved, dc_by = ru_id admin, dc_at = now,
                            dc_notes = js_or reason ''Report resolved''\<rparr>
            (LogReportResolved reportId (ru_id admin) (rp_status r) reason (rp_confessionId r) (ru_username admin)) st)"

definition dismissReport ::
  "ident \<Rightarrow> report_user \<Rightarrow> string option \<Rightarrow> ms \<Rightarrow> report_state \<Rightarrow> report outcome \<times> report_state" where
  "dismissReport reportId admin reason now st =
     (case read_for_decision ''dismiss'' reportId admin st of
        Inl e \<Rightarrow> (Inl e, st)
      | Inr r \<Rightarrow>
          write_decision r \<lparr>dc_status = RDismissed, dc_by = ru_id admin, dc_at = now,
                            dc_notes = nullish reason ''Report dismissed''\<rparr>
            (LogReportDismissed reportId (ru_id admin) (rp_status r) reason (rp_confessionId r) (ru_username admin)) st)"

datatype report_action = Act_resolved | Act_dismissed

definition actionReport ::
  "ident \<Rightarrow> report_user \<Rightarrow> report_action \<Rightarrow> string option \<Rightarrow> ms \<Rightarrow> report_state \<Rightarrow> report outcome \<times> report_state" where
  "actionReport reportId admin action note now st =
     (case read_report reportId st of
        Inl e \<Rightarrow> (Inl e, st)
      | Inr r \<Rightarrow>
          if is_closed r then (Inl (closed_error r), st)
          else let resolved = (action = Act_resolved);
                   d = \<lparr>dc_status = (if resolved then RResolved else RDismissed), dc_by = ru_id admin, dc_at = now,
                        dc_notes = nullish note (if resolved then ''Report resolved'' else ''Report dismissed'')\<rparr>;
                   entry = (if resolved
                     then LogReportResolved reportId (ru_id admin) (rp_status r) note (rp_confessionId r) (ru_username admin)
                     else LogReportDismissed reportId (ru_id admin) (rp_status r) note (rp_confessionId r) (ru_username admin))
               in write_decision r d entry st)"

section \<open>Queries\<close>

definition findAll :: "report_status option \<Rightarrow> nat \<Rightarrow> nat \<Rightarrow> report list \<Rightarrow> report list \<times> nat" where
  "findAll status page limit t =
     (let rows = order_desc rp_createdAt (filter (\<lambda>r. status = None \<or> Some (rp_status r) = status) t)
      in (skip_take ((page - 1) * limit) limit rows, length rows))"

definition findOne :: "ident \<Rightarrow> report_state \<Rightarrow> report outcome" where
  "findOne i st = read_report i st"

datatype sort_by = Sort_id | Sort_createdAt | Sort_status | Sort_reason

record reports_query =
  qy_status :: "report_status option"
  qy_reason :: "report_type option"
  qy_startDate :: "ms option"
  qy_endDate :: "ms option"
  qy_page :: nat
  qy_limit :: nat
  qy_sortBy :: "sort_by option"
  qy_ascending :: bool

fun status_rank :: "report_status \<Rightarrow> nat" where
  "status_rank RPending = 0"
| "status_rank RReviewing = 1"
| "status_rank RResolved = 2"
| "status_rank RDismissed = 3"

text \<open>Ascending; a missing reason sorts last, as \<open>NULL\<close> does.\<close>

definition sort_reports :: "sort_by \<Rightarrow> report list \<Rightarrow> report list" where
  "sort_reports f t =
     (case f of
        Sort_id \<Rightarrow> sort_key rp_id t
      | Sort_createdAt \<Rightarrow> sort_key rp_createdAt t
      | Sort_status \<Rightarrow> sort_key (\<lambda>r. status_rank (rp_status r)) t
      | Sort_reason \<Rightarrow> sort_key (\<lambda>r. the (rp_reason r)) (filter (\<lambda>r. rp_reason r \<noteq> None) t) @
                       filter (\<lambda>r. rp_reason r = None) t)"

definition query_matches :: "reports_query \<Rightarrow> report \<Rightarrow> bool" where
  "query_matches q r \<longleftrightarrow>
     (qy_status q = None \<or> Some (rp_status r) = qy_status q) \<and>
     (qy_reason q = None \<or> Some (rp_type r) = qy_reason q) \<and>
     (case qy_startDate q of None \<Rightarrow> True | Some d \<Rightarrow> d \<le> rp_createdAt r) \<and>
     (case qy_endDate q of None \<Rightarrow> True | Some d \<Rightarrow> rp_createdAt r \<le> d)"

definition query_rows :: "reports_query \<Rightarrow> report list \<Rightarrow> report list" where
  "query_rows q t =
     (let rows = sort_reports (nullish (qy_sortBy q) Sort_createdAt) (filter (query_matches q) t)
      in if qy_ascending q then rows else rev rows)"

record reports_page =
  pg_data :: "report list"
  pg_total :: nat
  pg_page :: nat
  pg_limit :: nat
  pg_totalPages :: nat

definition getReportsWithFilters :: "reports_query \<Rightarrow> report list \<Rightarrow> reports_page" where
  "getReportsWithFilters q t =
     (let page = (if qy_page q = 0 then 1 else qy_page q);
          limit = (if qy_limit q = 0 then 10 else qy_limit q);
          rows = query_rows q t
      in \<lparr>pg_data = skip_take ((page - 1) * limit) limit rows, pg_total = length rows, pg_page = page,
          pg_limit = limit, pg_totalPages = nat (ceil_div (int (length rows)) (int limit))\<rparr>)"

section \<open>Priorities\<close>

definition LOW :: nat where "LOW = 0"
definition MEDIUM :: nat where "MEDIUM = 1"
definition HIGH :: nat where "HIGH = 2"
definition CRITICAL :: nat where "CRITICAL = 3"

fun priorityMap :: "report_type \<Rightarrow> nat" where
  "priorityMap HATE_SPEECH = CRITICAL"
| "priorityMap HARASSMENT = HIGH"
| "priorityMap INAPPROPRIATE_CONTENT = HIGH"
| "priorityMap SPAM = MEDIUM"
| "priorityMap COPYRIGHT = MEDIUM"
| "priorityMap OTHER = LOW"

definition calculatePriority :: "report \<Rightarrow> nat \<times> string" where
  "calculatePriority r =
     (let priority = priorityMap (rp_type r) in
      if priority < HIGH
      then (HIGH, ''Escalated due to high-risk content type: '' @ report_type_str (rp_type r))
      else (priority, ''Based on report type: '' @ report_type_str (rp_type r)))"

definition with_priority :: "ms \<Rightarrow> report \<Rightarrow> report" where
  "with_priority now r = r\<lparr>rp_priority := fst (calculatePriority r), rp_priorityReason := Some (snd (calculatePriority r)),
     rp_priorityCalculatedAt := Some now, rp_updatedAt := now\<rparr>"

definition updateReportPriority :: "report \<Rightarrow> ms \<Rightarrow> report list \<Rightarrow> report \<times> report list" where
  "updateReportPriority r now t = (with_priority now r, save_row rp_id (with_priority now r) t)"

definition is_active :: "report \<Rightarrow> bool" where
  "is_active r \<longleftrightarrow> rp_status r = RPending \<or> rp_status r = RReviewing"

definition recalculateAllPriorities :: "ms \<Rightarrow> report list \<Rightarrow> report list" where
  "recalculateAllPriorities now t =
     fold (\<lambda>r t. save_row rp_id (with_priority now r) t) (filter is_active t) t"

definition getHighPriorityReports :: "nat \<Rightarrow> report list \<Rightarrow> report list" where
  "getHighPriorityReports limit t =
     take limit (sort_key (\<lambda>r. - int (rp_priority r)) (sort_key rp_createdAt
       (filter (\<lambda>r. is_active r \<and> (rp_priority r = CRITICAL \<or> rp_priority r = HIGH)) t)))"

definition getReportsByPriority :: "nat \<Rightarrow> report_status option \<Rightarrow> nat \<Rightarrow> report list \<Rightarrow> report list" where
  "getReportsByPriority priority status limit t =
     take limit (sort_key rp_createdAt
       (filter (\<lambda>r. rp_priority r = priority \<and> (status = None \<or> Some (rp_status r) = status)) t))"

definition getPriorityLabel :: "nat \<Rightarrow> string" where
  "getPriorityLabel priority =
     (if priority = CRITICAL then ''CRITICAL'' else if priority = HIGH then ''HIGH''
      else if priority = MEDIUM then ''MEDIUM'' else if priority = LOW then ''LOW'' else ''UNKNOWN'')"

section \<open>The interfaces\<close>

interpretation account_index: unique_index by_account report_insert
  by unfold_locales (auto simp: report_insert_def split: if_splits)

interpretation identity_index: unique_index by_identity report_insert
  by unfold_locales (auto simp: report_insert_def split: if_splits)

interpretation key_index: unique_index by_key report_insert
  by unfold_locales (auto simp: report_insert_def split: if_splits)

lemma guarded_decision_ids:
  "guarded_decision i v d t = Some t' \<Longrightarrow> map rp_id t' = map rp_id t"
  by (auto simp: guarded_decision_def split: if_splits intro!: map_update_where)

interpretation moderated: versioned_rows rp_id rp_version guarded_decision
proof
  fix i v d t t' r
  assume cas: "guarded_decision i v d t = Some t'"
  then show "\<exists>r \<in> set t. rp_id r = i \<and> rp_version r = v"
    by (auto simp: guarded_decision_def split: if_splits)
  from cas show "map rp_id t' = map rp_id t" by (rule guarded_decision_ids)
  show "r \<in> set t'" if "r \<in> set t" "rp_id r \<noteq> i"
    using cas that by (auto simp: guarded_decision_def set_update_where split: if_splits)
  show "rp_version r = Suc v" if dist: "distinct (map rp_id t)" and r: "r \<in> set t'" "rp_id r = i"
  proof -
    from cas obtain r0 where r0: "r0 \<in> set t" "rp_id r0 = i" "rp_version r0 = v"
      by (auto simp: guarded_decision_def split: if_splits)
    with dist have only: "x = r0" if "x \<in> set t" "rp_id x = i" for x
      using that by (auto dest: distinct_keys_eq)
    from cas r(1) have "r \<in> set (update_where (\<lambda>r. rp_id r = i \<and> rp_version r = v)
        (\<lambda>r. r\<lparr>rp_status := dc_status d, rp_resolvedBy := Some (dc_by d), rp_resolvedAt := Some (dc_at d),
               rp_resolutionNotes := Some (dc_notes d), rp_updatedAt := dc_at d, rp_version := v + 1\<rparr>) t)"
      by (auto simp: guarded_decision_def split: if_splits)
    then show ?thesis
    proof (cases rule: in_update_whereE)
      case miss
      from only[OF miss(1) r(2)] r0 miss(2) show ?thesis by simp
    qed simp
  qed
qed

section \<open>Lemmas\<close>

definition reports_wf :: "report list \<Rightarrow> bool" where
  "reports_wf t \<longleftrightarrow> distinct (map rp_id t) \<and> uniq_on by_account t \<and> uniq_on by_identity t \<and> uniq_on by_key t"

text \<open>Every report names exactly one reporter.\<close>

definition one_reporter :: "report \<Rightarrow> bool" where
  "one_reporter r \<longleftrightarrow> (rp_reporterId r = None) \<noteq> (rp_anonymousReporterId r = None)"

definition same_report_keys :: "report \<Rightarrow> report \<Rightarrow> bool" where
  "same_report_keys r r' \<longleftrightarrow> rp_id r' = rp_id r \<and> by_account r' = by_account r \<and> by_identity r' = by_identity r \<and>
     by_key r' = by_key r"

lemma reports_wf_map:
  assumes "reports_wf t" "list_all2 same_report_keys t t'"
  shows "reports_wf t'"
proof -
  have eq: "map rp_id t' = map rp_id t" "map by_account t' = map by_account t"
    "map by_identity t' = map by_identity t" "map by_key t' = map by_key t"
    using assms(2) by (auto simp: list_all2_conv_all_nth same_report_keys_def intro!: nth_equalityI)
  show ?thesis
    using assms(1) eq(1) uniq_on_cong[OF eq(2)] uniq_on_cong[OF eq(3)] uniq_on_cong[OF eq(4)]
    by (simp add: reports_wf_def)
qed

lemma report_insert_wf:
  assumes "reports_wf t" "rp_id r \<notin> rp_id ` set t" "report_insert r t = Some t'"
  shows "reports_wf t' \<and> t' = t @ [r]"
  using assms account_index.ins_keeps_unique[OF _ assms(3)] identity_index.ins_keeps_unique[OF _ assms(3)]
    key_index.ins_keeps_unique[OF _ assms(3)] account_index.ins_appends[OF assms(3)]
  by (simp add: reports_wf_def)

lemma new_report_fields [simp]:
  "rp_id (new_report i c u a ty reason k now) = i" "rp_confessionId (new_report i c u a ty reason k now) = c"
  "rp_status (new_report i c u a ty reason k now) = RPending" "rp_reporterId (new_report i c u a ty reason k now) = u"
  "rp_createdAt (new_report i c u a ty reason k now) = now"
  by (simp_all add: new_report_def)

text \<open>The ways a creation can end.\<close>

lemma createReport_cases:
  assumes "createReport env c u ty reason a k i ev now st = (res, st')"
  obtains
    (refused) e where "res = Inl e" "st' = st"
  | (found) r where "res = Inr r" "st' = st" "r \<in> set (rs_reports st)"
  | (created) f where "res = Inr (new_report i c u a ty reason k now)" "rv_confession env c = Some f"
      "check_reporter env u a = Inr ()"
      "find_duplicate c u a (now - DAY_MS) (rs_reports st) = None"
      "report_insert (new_report i c u a ty reason k now) (rs_reports st) = Some (rs_reports st')"
      "notify_author f (new_report i c u a ty reason k now) ev now (rs_outbox st) = Some (rs_outbox st')"
      "rs_audit st' = rs_audit st @ audit_creation (new_report i c u a ty reason k now) c u reason"
proof (cases "check_reporter env u a")
  case (Inl e)
  with assms show ?thesis by (intro refused[of e]) (auto simp: createReport_def)
next
  case chk: (Inr x)
  show ?thesis
  proof (cases "find_replay k u (rs_reports st)")
    case (Some r)
    then have "r \<in> set (rs_reports st)" by (auto simp: find_replay_def dest: find_one_SomeD split: if_splits)
    with assms chk Some show ?thesis by (intro found[of r]) (auto simp: createReport_def)
  next
    case None
    with assms chk have tr: "create_in_transaction env c u a ty reason k i ev now st = (res, st')"
      by (simp add: createReport_def)
    show ?thesis
    proof (cases "rv_confession env c")
      case None
      with tr show ?thesis by (intro refused) (auto simp: create_in_transaction_def)
    next
      case conf: (Some f)
      show ?thesis
      proof (cases "find_duplicate c u a (now - DAY_MS) (rs_reports st)")
        case (Some r)
        then have "r \<in> set (rs_reports st)" by (auto simp: find_duplicate_def dest: find_one_SomeD)
        with tr conf Some show ?thesis by (intro found[of r]) (auto simp: create_in_transaction_def)
      next
        case dup: None
        let ?r = "new_report i c u a ty reason k now"
        show ?thesis
        proof (cases "report_insert ?r (rs_reports st)")
          case None
          with tr conf dup show ?thesis
            by (auto simp: create_in_transaction_def persist_report_def split: if_splits option.splits
                dest: find_one_SomeD intro: refused found)
        next
          case ins: (Some t')
          show ?thesis
          proof (cases "notify_author f ?r ev now (rs_outbox st)")
            case None
            with tr conf dup ins show ?thesis
              by (intro refused) (auto simp: create_in_transaction_def persist_report_def)
          next
            case (Some events)
            with tr conf dup ins chk show ?thesis
              by (intro created[of f]) (auto simp: create_in_transaction_def persist_report_def)
          qed
        qed
      qed
    qed
  qed
qed

text \<open>A new report's author is notified through the outbox exactly when an address is known.\<close>

definition author_events :: "reported_confession \<Rightarrow> report \<Rightarrow> ident \<Rightarrow> ms \<Rightarrow> outbox_event list" where
  "author_events f r ev now =
     (if truthy (getRecipientEmail (rf_anonymousUser f))
      then [report_event ev now r (rf_id f) (the (getRecipientEmail (rf_anonymousUser f)))] else [])"

lemma notify_author_appends:
  "notify_author f r ev now events = Some events' \<Longrightarrow> events' = events @ author_events f r ev now"
  by (auto simp: notify_author_def author_events_def outbox_insert_def split: if_splits)

lemma check_reporter_one:
  "check_reporter env u a = Inr () \<Longrightarrow> one_reporter (new_report i c u a ty reason k now)"
  by (auto simp: check_reporter_def one_reporter_def new_report_def truthy_iff split: if_splits)

text \<open>C15: creating a report is all or nothing.  An error changes nothing; an answer is either a report
  that was already there, and nothing changes, or the new report: then exactly that report is
  appended, by exactly one reporter, the unique indexes still hold, and the outbox gains exactly the
  author's notification when the author can be reached, under a type the dispatcher delivers.\<close>

theorem createReport_atomic:
  assumes "reports_wf (rs_reports st)" "newId \<notin> rp_id ` set (rs_reports st)"
  shows "case createReport env c u ty reason a k newId ev now st of
     (Inl e, st') \<Rightarrow> st' = st
   | (Inr r, st') \<Rightarrow> r \<in> set (rs_reports st') \<and> reports_wf (rs_reports st') \<and>
       (st' = st \<or>
        rs_reports st' = rs_reports st @ [r] \<and> rp_id r = newId \<and> rp_confessionId r = c \<and> one_reporter r \<and>
        rp_status r = RPending \<and>
        (\<exists>f. rv_confession env c = Some f \<and> rs_outbox st' = rs_outbox st @ author_events f r ev now \<and>
             set (map oe_type (author_events f r ev now)) \<subseteq> set known_types))"
proof -
  obtain res st' where run: "createReport env c u ty reason a k newId ev now st = (res, st')" by force
  then show ?thesis
  proof (cases rule: createReport_cases)
    case (created f)
    let ?r = "new_report newId c u a ty reason k now"
    have "rp_id ?r \<notin> rp_id ` set (rs_reports st)" using assms(2) by simp
    note report_insert_wf[OF assms(1) this created(5)]
    moreover have "set (map oe_type (author_events f ?r ev now)) \<subseteq> set known_types"
      by (auto simp: author_events_def report_event_def outbox_create_def known_types_def)
    ultimately show ?thesis
      using run created check_reporter_one[OF created(3)] notify_author_appends[OF created(6)]
      by auto
  qed (use run assms in auto)
qed

definition sample_author :: anonymous_user where
  "sample_author = \<lparr>au_id = ''a1'', au_userLinks = [\<lparr>ul_userId = ''7'', ul_email = Some ''x@y.z''\<rparr>]\<rparr>"

definition sample_report_env :: report_env where
  "sample_report_env = \<lparr>rv_anonymousUser = (\<lambda>_. None),
     rv_confession = (\<lambda>c. Some \<lparr>rf_id = c, rf_anonymousUser = Some sample_author\<rparr>), rv_survives_violation = False\<rparr>"

definition no_reports :: report_state where
  "no_reports = \<lparr>rs_reports = [], rs_outbox = [], rs_audit = []\<rparr>"

lemma sample_report:
  "\<exists>st'. createReport sample_report_env ''c1'' (Some 5) (Some SPAM) None None None ''r1'' ''e1'' 1000 no_reports =
     (Inr (new_report ''r1'' ''c1'' (Some 5) None (Some SPAM) None None 1000), st') \<and>
     rs_reports st' = [new_report ''r1'' ''c1'' (Some 5) None (Some SPAM) None None 1000]"
  by (simp add: createReport_def check_reporter_def find_replay_def create_in_transaction_def sample_report_env_def
      no_reports_def find_duplicate_def persist_report_def report_insert_def clashes_def by_account_def by_identity_def
      by_key_def new_report_def notify_author_def getRecipientEmail_def sample_author_def outbox_insert_def
      report_event_def outbox_create_def)

theorem createReport_atomic_witness:
  "reports_wf (rs_reports no_reports) \<and>
   (case createReport sample_report_env ''c1'' (Some 5) (Some SPAM) None None None ''r1'' ''e1'' 1000 no_reports of
      (Inl e, st') \<Rightarrow> False
    | (Inr r, st') \<Rightarrow> r \<in> set (rs_reports st') \<and> reports_wf (rs_reports st') \<and> length (rs_reports st') = 1)"
proof -
  have wf: "reports_wf (rs_reports no_reports)" by (simp add: reports_wf_def no_reports_def)
  obtain st' where run: "createReport sample_report_env ''c1'' (Some 5) (Some SPAM) None None None ''r1'' ''e1'' 1000 no_reports =
     (Inr (new_report ''r1'' ''c1'' (Some 5) None (Some SPAM) None None 1000), st')"
    "rs_reports st' = [new_report ''r1'' ''c1'' (Some 5) None (Some SPAM) None None 1000]"
    using sample_report by blast
  have "''r1'' \<notin> rp_id ` set (rs_reports no_reports)" by (simp add: no_reports_def)
  from createReport_atomic[OF wf this, where env = sample_report_env and c = "''c1''" and u = "Some 5"
      and ty = "Some SPAM" and reason = None and a = None and k = None and ev = "''e1''" and now = 1000]
  show ?thesis using run wf by simp
qed

text \<open>A report is not repeated within a day: once a signed-in reporter has a report on a
  confession, a further report without a key within the next 24 hours returns that very report and
  leaves reports, outbox and audit trail as they were.\<close>

theorem report_not_repeated_within_day:
  assumes "reports_wf (rs_reports st)" "r \<in> set (rs_reports st)"
    "rp_confessionId r = c" "rp_reporterId r = Some u" "now - rp_createdAt r < DAY_MS"
    "rv_confession env c \<noteq> None"
  shows "createReport env c (Some u) ty reason a None newId ev now st = (Inr r, st)"
proof -
  have "find_duplicate c (Some u) a (now - DAY_MS) (rs_reports st) = Some r"
    unfolding find_duplicate_def
  proof (rule find_one_unique[OF assms(2)])
    fix x assume x: "x \<in> set (rs_reports st)" "rp_confessionId x = c \<and> rp_createdAt x > now - DAY_MS \<and>
        (if Some u \<noteq> None then rp_reporterId x = Some u else truthy a \<longrightarrow> rp_anonymousReporterId x = a)"
    have "uniq_on by_account (rs_reports st)" using assms(1) by (simp add: reports_wf_def)
    from uniq_on_eq[OF this x(1) assms(2), of "(c, u)"] x(2) assms(3,4) show "x = r"
      by (simp add: by_account_def)
  qed (use assms in simp)
  with assms(6) show ?thesis
    by (auto simp: createReport_def check_reporter_def find_replay_def create_in_transaction_def)
qed

theorem report_not_repeated_within_day_witness:
  "\<exists>st'. snd (createReport sample_report_env ''c1'' (Some 5) (Some SPAM) None None None ''r1'' ''e1'' 1000 no_reports) = st' \<and>
     createReport sample_report_env ''c1'' (Some 5) (Some OTHER) None None None ''r2'' ''e2'' 86400999 st' =
       (Inr (new_report ''r1'' ''c1'' (Some 5) None (Some SPAM) None None 1000), st')"
proof -
  obtain st' where run: "createReport sample_report_env ''c1'' (Some 5) (Some SPAM) None None None ''r1'' ''e1'' 1000 no_reports =
     (Inr (new_report ''r1'' ''c1'' (Some 5) None (Some SPAM) None None 1000), st')"
    "rs_reports st' = [new_report ''r1'' ''c1'' (Some 5) None (Some SPAM) None None 1000]"
    using sample_report by blast
  then have "reports_wf (rs_reports st')"
    by (simp add: reports_wf_def uniq_on_def new_report_def by_account_def by_identity_def by_key_def)
  from report_not_repeated_within_day[OF this, where r = "new_report ''r1'' ''c1'' (Some 5) None (Some SPAM) None None 1000"
      and c = "''c1''" and u = 5 and now = 86400999 and env = sample_report_env] run
  show ?thesis by (simp add: DAY_MS_def) (simp add: sample_report_env_def)
qed

section \<open>Moderators at work\<close>

lemma decided_row:
  assumes "guarded_decision i v d t = Some t'" "distinct (map rp_id t)" "r \<in> set t'" "rp_id r = i"
  shows "rp_status r = dc_status d \<and> rp_resolvedBy r = Some (dc_by d) \<and> rp_version r = Suc v"
proof -
  from assms(1) obtain r0 where r0: "r0 \<in> set t" "rp_id r0 = i" "rp_version r0 = v"
    by (auto simp: guarded_decision_def split: if_splits)
  from assms(1,3) have "r \<in> set (update_where (\<lambda>r. rp_id r = i \<and> rp_version r = v)
      (\<lambda>r. r\<lparr>rp_status := dc_status d, rp_resolvedBy := Some (dc_by d), rp_resolvedAt := Some (dc_at d),
             rp_resolutionNotes := Some (dc_notes d), rp_updatedAt := dc_at d, rp_version := v + 1\<rparr>) t)"
    by (auto simp: guarded_decision_def split: if_splits)
  then show ?thesis
  proof (cases rule: in_update_whereE)
    case miss
    with assms(2,4) r0 have "r = r0" by (auto dest: distinct_keys_eq)
    with miss(2) assms(4) r0 show ?thesis by simp
  qed simp
qed

lemma write_decision_cases:
  assumes "write_decision s d e st = (res, st')" "distinct (map rp_id (rs_reports st))"
  obtains (stale) "res = Inl (BadRequestException stale_message)" "st' = st"
      "guarded_decision (rp_id s) (rp_version s) d (rs_reports st) = None"
  | (written) t' u where "guarded_decision (rp_id s) (rp_version s) d (rs_reports st) = Some t'" "res = Inr u"
      "st' = st\<lparr>rs_reports := t', rs_audit := rs_audit st @ [e]\<rparr>" "u \<in> set t'" "rp_id u = rp_id s"
      "rp_status u = dc_status d" "rp_version u = Suc (rp_version s)"
proof (cases "guarded_decision (rp_id s) (rp_version s) d (rs_reports st)")
  case None
  with assms show ?thesis by (intro stale) (auto simp: write_decision_def)
next
  case (Some t')
  from moderated.cas_guard[OF Some] obtain r where "r \<in> set (rs_reports st)" "rp_id r = rp_id s" by blast
  then have "rp_id s \<in> set (map rp_id t')"
    unfolding guarded_decision_ids[OF Some] by (metis image_eqI set_map)
  then obtain u where u: "find_one (\<lambda>r. rp_id r = rp_id s) t' = Some u"
    by (cases "find_one (\<lambda>r. rp_id r = rp_id s) t'") (auto simp: find_one_None_iff)
  from find_one_SomeD[OF u] have mem: "u \<in> set t'" "rp_id u = rp_id s" by auto
  from decided_row[OF Some assms(2) mem] Some u mem assms(1) show ?thesis
    by (intro written[of t' u]) (auto simp: write_decision_def)
qed

text \<open>Of two moderators who read the same version of a report, one decides it: after the first
  decision is written, the report carries it under the next version, and the second write is refused
  with the request to refresh and changes nothing, whatever it wanted to decide.\<close>

theorem one_moderator_wins:
  assumes "distinct (map rp_id (rs_reports st))"
    and "write_decision snapshot d1 e1 st = (Inr u, st1)"
  shows "write_decision snapshot d2 e2 st1 = (Inl (BadRequestException stale_message), st1) \<and>
    u \<in> set (rs_reports st1) \<and> rp_status u = dc_status d1 \<and> rp_version u = Suc (rp_version snapshot) \<and>
    rs_audit st1 = rs_audit st @ [e1]"
  using assms(2,1)
proof (cases rule: write_decision_cases)
  case (written t' u')
  have "guarded_decision (rp_id snapshot) (rp_version snapshot) d2 t' = None"
    by (rule moderated.stale_writer_refused[OF written(1) assms(1)])
  with written show ?thesis by (auto simp: write_decision_def)
qed simp

theorem one_moderator_wins_witness:
  "\<exists>u st1. write_decision (new_report ''r1'' ''c1'' (Some 5) None None None None 0)
      \<lparr>dc_status = RResolved, dc_by = 1, dc_at = 10, dc_notes = ''ok''\<rparr> (LogReport ''r1'' ''c1'' 5 ''x'')
      \<lparr>rs_reports = [new_report ''r1'' ''c1'' (Some 5) None None None None 0], rs_outbox = [], rs_audit = []\<rparr> = (Inr u, st1) \<and>
     fst (write_decision (new_report ''r1'' ''c1'' (Some 5) None None None None 0)
      \<lparr>dc_status = RDismissed, dc_by = 2, dc_at = 11, dc_notes = ''no''\<rparr> (LogReport ''r1'' ''c1'' 5 ''x'') st1) =
     Inl (BadRequestException stale_message)"
proof -
  let ?r = "new_report ''r1'' ''c1'' (Some 5) None None None None 0"
  let ?st = "\<lparr>rs_reports = [?r], rs_outbox = [], rs_audit = []\<rparr>"
  obtain u st1 where run: "write_decision ?r \<lparr>dc_status = RResolved, dc_by = 1, dc_at = 10, dc_notes = ''ok''\<rparr>
      (LogReport ''r1'' ''c1'' 5 ''x'') ?st = (Inr u, st1)"
    by (simp add: write_decision_def guarded_decision_def)
  from one_moderator_wins[OF _ this] run show ?thesis by auto
qed

text \<open>
  Moderators, reporters and the priority job interleaved: \<open>mo_open\<close> holds the reports moderators have
  read and not yet decided.
\<close>

record mod_sys =
  mo_state :: report_state
  mo_open :: "report list"

inductive mod_step :: "mod_sys \<Rightarrow> mod_sys \<Rightarrow> bool" where
  take: "read_report i (mo_state m) = Inr r \<Longrightarrow> \<not> is_closed r \<Longrightarrow> mod_step m (m\<lparr>mo_open := r # mo_open m\<rparr>)"
| decide: "s \<in> set (mo_open m) \<Longrightarrow> dc_status d = RResolved \<or> dc_status d = RDismissed \<Longrightarrow>
     write_decision s d e (mo_state m) = (res, st') \<Longrightarrow>
     mod_step m (m\<lparr>mo_state := st', mo_open := remove1 s (mo_open m)\<rparr>)"
| create: "newId \<notin> rp_id ` set (rs_reports (mo_state m)) \<Longrightarrow>
     createReport env c u ty reason a k newId ev now (mo_state m) = (res, st') \<Longrightarrow>
     mod_step m (m\<lparr>mo_state := st'\<rparr>)"
| prioritise: "r \<in> set (rs_reports (mo_state m)) \<Longrightarrow>
     updateReportPriority r now (rs_reports (mo_state m)) = (r', t') \<Longrightarrow>
     mod_step m (m\<lparr>mo_state := (mo_state m)\<lparr>rs_reports := t'\<rparr>\<rparr>)"

inductive mod_reachable :: "mod_sys \<Rightarrow> bool" where
  init: "mod_reachable \<lparr>mo_state = no_reports, mo_open = []\<rparr>"
| step: "mod_reachable m \<Longrightarrow> mod_step m m' \<Longrightarrow> mod_reachable m'"

text \<open>A report that was read open is either unchanged in version, and then still open, or was decided
  since.\<close>

definition open_ok :: "report list \<Rightarrow> report \<Rightarrow> bool" where
  "open_ok t s \<longleftrightarrow> (\<exists>r \<in> set t. rp_id r = rp_id s \<and>
     (rp_version s < rp_version r \<or> rp_version s = rp_version r \<and> \<not> is_closed r))"

definition mod_inv :: "mod_sys \<Rightarrow> bool" where
  "mod_inv m \<longleftrightarrow> reports_wf (rs_reports (mo_state m)) \<and>
     (\<forall>s \<in> set (mo_open m). open_ok (rs_reports (mo_state m)) s)"

definition closure :: "report \<Rightarrow> ident \<times> report_status \<times> int option \<times> ms option \<times> string option \<times> nat" where
  "closure r = (rp_id r, rp_status r, rp_resolvedBy r, rp_resolvedAt r, rp_resolutionNotes r, rp_version r)"

lemma keys_with_priority: "same_report_keys r (with_priority now r)" "closure (with_priority now r) = closure r"
  by (simp_all add: same_report_keys_def with_priority_def by_account_def by_identity_def by_key_def closure_def)

lemma priority_rows:
  assumes "reports_wf t" "r \<in> set t"
  shows "list_all2 (\<lambda>x y. same_report_keys x y \<and> closure y = closure x) t (save_row rp_id (with_priority now r) t)"
proof -
  have "x = r" if "x \<in> set t" "rp_id x = rp_id r" for x
    using assms that by (auto simp: reports_wf_def dest: distinct_keys_eq)
  then have "same_report_keys x (if rp_id x = rp_id r then with_priority now r else x) \<and>
      closure (if rp_id x = rp_id r then with_priority now r else x) = closure x" if "x \<in> set t" for x
    using that keys_with_priority by (auto simp: same_report_keys_def)
  moreover have "save_row rp_id (with_priority now r) t = map (\<lambda>x. if rp_id x = rp_id r then with_priority now r else x) t"
    using assms(2) by (auto simp: save_row_def update_where_def with_priority_def)
  ultimately show ?thesis by (auto simp: list_all2_conv_all_nth)
qed

lemma closure_rows:
  assumes "list_all2 (\<lambda>x y. same_report_keys x y \<and> closure y = closure x) t t'" "r \<in> set t"
  shows "\<exists>r' \<in> set t'. closure r' = closure r"
  using assms by (auto simp: list_all2_conv_all_nth in_set_conv_nth) (metis in_set_conv_nth)

lemma open_ok_closure: "(\<And>r. r \<in> set t \<Longrightarrow> \<exists>r' \<in> set t'. closure r' = closure r) \<Longrightarrow> open_ok t s \<Longrightarrow> open_ok t' s"
  by (fastforce simp: open_ok_def closure_def is_closed_def)

lemma open_ok_mono: "open_ok t s \<Longrightarrow> set t \<subseteq> set t' \<Longrightarrow> open_ok t' s"
  by (fastforce simp: open_ok_def)

lemma createReport_rows:
  assumes "reports_wf (rs_reports st)" "i \<notin> rp_id ` set (rs_reports st)"
    "createReport env c u ty reason a k i ev now st = (res, st')"
  shows "reports_wf (rs_reports st') \<and> set (rs_reports st) \<subseteq> set (rs_reports st')"
  using assms(3)
proof (cases rule: createReport_cases)
  case (created f)
  have "rp_id (new_report i c u a ty reason k now) \<notin> rp_id ` set (rs_reports st)" using assms(2) by simp
  from report_insert_wf[OF assms(1) this created(5)] show ?thesis by auto
qed (use assms in auto)

text \<open>A decision leaves closed reports alone: the version it saw open is no longer theirs.\<close>

lemma write_decision_rows:
  assumes wf: "reports_wf (rs_reports st)" and s: "open_ok (rs_reports st) s"
    and w: "write_decision s d e st = (res, st')"
  shows "reports_wf (rs_reports st') \<and>
    (\<forall>r \<in> set (rs_reports st). is_closed r \<longrightarrow> r \<in> set (rs_reports st')) \<and>
    (\<forall>r \<in> set (rs_reports st). \<exists>r' \<in> set (rs_reports st'). rp_id r' = rp_id r \<and>
       (rp_version r < rp_version r' \<or> r' = r))"
proof -
  have dist: "distinct (map rp_id (rs_reports st))" using wf by (simp add: reports_wf_def)
  from w dist show ?thesis
  proof (cases rule: write_decision_cases)
    case stale
    with wf show ?thesis by auto
  next
    case (written t' u)
    let ?P = "\<lambda>r. rp_id r = rp_id s \<and> rp_version r = rp_version s"
    let ?f = "\<lambda>r. r\<lparr>rp_status := dc_status d, rp_resolvedBy := Some (dc_by d), rp_resolvedAt := Some (dc_at d),
             rp_resolutionNotes := Some (dc_notes d), rp_updatedAt := dc_at d, rp_version := rp_version s + 1\<rparr>"
    from written(1) have t': "t' = update_where ?P ?f (rs_reports st)"
      by (auto simp: guarded_decision_def split: if_splits)
    have "list_all2 same_report_keys (rs_reports st) t'"
      by (auto simp: t' list_all2_conv_all_nth update_where_def same_report_keys_def by_account_def by_identity_def
          by_key_def split: option.split)
    with wf have "reports_wf t'" by (rule reports_wf_map)
    moreover have "\<not> ?P r" if "r \<in> set (rs_reports st)" "is_closed r" for r
    proof
      assume P: "?P r"
      from s obtain x where x: "x \<in> set (rs_reports st)" "rp_id x = rp_id s"
        "rp_version s < rp_version x \<or> rp_version s = rp_version x \<and> \<not> is_closed x" by (auto simp: open_ok_def)
      from dist that(1) x(1) P x(2) have "x = r" by (metis distinct_keys_eq)
      with x(3) P that(2) show False by auto
    qed
    then have "r \<in> set t'" if "r \<in> set (rs_reports st)" "is_closed r" for r
      using update_where_missI[of r "rs_reports st" ?P ?f] that t' by blast
    moreover have "\<exists>r' \<in> set t'. rp_id r' = rp_id r \<and> (rp_version r < rp_version r' \<or> r' = r)"
      if "r \<in> set (rs_reports st)" for r
    proof (rule bexI[of _ "if ?P r then ?f r else r"])
      show "(if ?P r then ?f r else r) \<in> set t'" unfolding t' by (rule update_where_memI[OF that])
    qed simp
    ultimately show ?thesis using written(3) by simp
  qed
qed

lemma mod_step_effect:
  assumes "mod_step m m'" "mod_inv m"
  shows "mod_inv m' \<and> (\<forall>r \<in> set (rs_reports (mo_state m)). is_closed r \<longrightarrow>
           (\<exists>r' \<in> set (rs_reports (mo_state m')). closure r' = closure r))"
  using assms(1)
proof (cases rule: mod_step.cases)
  case (take i r)
  then have "r \<in> set (rs_reports (mo_state m))"
    by (auto simp: read_report_def split: option.splits dest: find_one_SomeD)
  with take assms(2) show ?thesis by (auto simp: mod_inv_def open_ok_def)
next
  case (decide s d e res st')
  have wf: "reports_wf (rs_reports (mo_state m))" and s: "open_ok (rs_reports (mo_state m)) s"
    using assms(2) decide(2) by (auto simp: mod_inv_def)
  note rows = write_decision_rows[OF wf s decide(4)]
  have "open_ok (rs_reports st') x" if "open_ok (rs_reports (mo_state m)) x" for x
  proof -
    from that obtain r where r: "r \<in> set (rs_reports (mo_state m))" "rp_id r = rp_id x"
      "rp_version x < rp_version r \<or> rp_version x = rp_version r \<and> \<not> is_closed r" by (auto simp: open_ok_def)
    with rows obtain r' where "r' \<in> set (rs_reports st')" "rp_id r' = rp_id r" "rp_version r < rp_version r' \<or> r' = r"
      by blast
    with r show ?thesis by (auto simp: open_ok_def intro!: bexI[of _ r'])
  qed
  with rows decide(1) assms(2) show ?thesis
    by (auto simp: mod_inv_def dest: notin_set_remove1)
next
  case (create newId env c u ty reason a k ev now res st')
  have wf: "reports_wf (rs_reports (mo_state m))" using assms(2) by (simp add: mod_inv_def)
  from createReport_rows[OF wf create(2,3)] create(1) assms(2) show ?thesis
    by (auto simp: mod_inv_def intro: open_ok_mono)
next
  case (prioritise r now r' t')
  have wf: "reports_wf (rs_reports (mo_state m))" using assms(2) by (simp add: mod_inv_def)
  have t': "t' = save_row rp_id (with_priority now r) (rs_reports (mo_state m))"
    using prioritise(3) by (auto simp: updateReportPriority_def)
  note rows = priority_rows[OF wf prioritise(2), of now, folded t']
  have "reports_wf t'" using rows by (intro reports_wf_map[OF wf]) (auto simp: list_all2_conv_all_nth)
  with closure_rows[OF rows] open_ok_closure[of "rs_reports (mo_state m)" t'] prioritise(1) assms(2) show ?thesis
    by (auto simp: mod_inv_def)
qed

lemma mod_reachable_inv: "mod_reachable m \<Longrightarrow> mod_inv m"
proof (induction rule: mod_reachable.induct)
  case init
  show ?case by (simp add: mod_inv_def no_reports_def reports_wf_def)
next
  case (step m m')
  then show ?case using mod_step_effect by blast
qed



section \<open>Pages and priorities\<close>

lemma mset_sort_reports [simp]: "mset (sort_reports f t) = mset t"
proof -
  have "mset (filter P t) + mset (filter (\<lambda>r. \<not> P r) t) = mset t" for P by (induction t) auto
  from this[of "\<lambda>r. rp_reason r \<noteq> None"] show ?thesis by (cases f) (simp_all add: sort_reports_def)
qed

lemma ceil_div_enough:
  assumes "0 < m"
  shows "n \<le> nat (ceil_div (int n) (int m)) * m"
proof -
  have "int n \<le> ceil_div (int n) (int m) * int m" using ceil_div_bounds(2)[of "int m" "int n"] assms by simp
  moreover have "0 \<le> ceil_div (int n) (int m)"
    using assms by (simp add: ceil_div_def div_nonpos_pos_le0)
  ultimately show ?thesis by (metis nat_0_le of_nat_le_iff of_nat_mult)
qed

text \<open>Paging through the filtered reports shows every matching report exactly once: laid end to
  end, the pages 1 to \<open>totalPages\<close> are a rearrangement of the matching rows, the total counts them,
  and no page holds more than the limit.\<close>

theorem pages_cover_reports:
  assumes "0 < qy_limit q"
  shows "mset (concat (map (\<lambda>p. pg_data (getReportsWithFilters (q\<lparr>qy_page := Suc p\<rparr>) t))
           [0..<pg_totalPages (getReportsWithFilters q t)])) = mset (filter (query_matches q) t) \<and>
    pg_total (getReportsWithFilters q t) = length (filter (query_matches q) t) \<and>
    length (pg_data (getReportsWithFilters q t)) \<le> qy_limit q"
proof -
  let ?rows = "query_rows q t"
  have "query_matches (q\<lparr>qy_page := p\<rparr>) = query_matches q" for p
    by (rule ext) (simp add: query_matches_def)
  then have same: "query_rows (q\<lparr>qy_page := p\<rparr>) t = ?rows" for p
    by (simp add: query_rows_def)
  have ms: "mset ?rows = mset (filter (query_matches q) t)"
    by (simp add: query_rows_def Let_def)
  then have len: "length ?rows = length (filter (query_matches q) t)" by (metis size_mset)
  have "concat (map (\<lambda>p. pg_data (getReportsWithFilters (q\<lparr>qy_page := Suc p\<rparr>) t)) [0..<n]) = take (n * qy_limit q) ?rows" for n
    using assms pages_concat[of "qy_limit q" ?rows n] by (simp add: getReportsWithFilters_def same Let_def)
  moreover have "take (pg_totalPages (getReportsWithFilters q t) * qy_limit q) ?rows = ?rows"
    using ceil_div_enough[OF assms, of "length ?rows"] assms by (simp add: getReportsWithFilters_def Let_def)
  ultimately show ?thesis
    using ms len assms by (simp add: getReportsWithFilters_def Let_def skip_take_def)
qed

theorem pages_cover_reports_witness:
  "length (pg_data (getReportsWithFilters \<lparr>qy_status = None, qy_reason = None, qy_startDate = None, qy_endDate = None,
      qy_page = 1, qy_limit = 1, qy_sortBy = None, qy_ascending = True\<rparr>
      [new_report ''r1'' ''c1'' (Some 5) None None None None 0, new_report ''r2'' ''c1'' (Some 6) None None None None 1])) \<le> 1"
  using pages_cover_reports[of "\<lparr>qy_status = None, qy_reason = None, qy_startDate = None, qy_endDate = None,
      qy_page = 1, qy_limit = 1, qy_sortBy = None, qy_ascending = True\<rparr>"
      "[new_report ''r1'' ''c1'' (Some 5) None None None None 0, new_report ''r2'' ''c1'' (Some 6) None None None None 1]"]
  by simp

text \<open>The escalation meant for repeat offenders applies to every type below HIGH, so the two lower
  levels are never assigned.\<close>

lemma priority_at_least_high:
  "HIGH \<le> fst (calculatePriority r) \<and> getPriorityLabel (fst (calculatePriority r)) \<in> {''HIGH'', ''CRITICAL''}"
  by (cases "rp_type r")
    (simp_all add: calculatePriority_def getPriorityLabel_def LOW_def MEDIUM_def HIGH_def CRITICAL_def)

end
