(* ===== verification/Reactions.thy ===== *)
theory Reactions
  imports Reports
begin

text \<open>
  Reactions to confessions (\<^verbatim>\<open>reaction/reaction.service.ts\<close>, \<^verbatim>\<open>reaction/entities/reaction.entity.ts\<close>), the
  counters over them (\<^verbatim>\<open>reaction/reaction-counter.service.ts\<close>) and bookmarks
  (\<^verbatim>\<open>bookmark/bookmark.service.ts\<close>).

  The transaction of \<open>createReaction\<close> reads the table once, then inserts under a savepoint; the table
  it read may be older than the one it writes to, which is how racing requests appear in the model.
\<close>

section \<open>Data\<close>

record reaction =
  rt_id :: ident
  rt_emoji :: string
  rt_confessionId :: ident
  rt_anonymousUserId :: ident
  rt_createdAt :: ms

text \<open>A confession that is not deleted, with its author; \<open>rxc_showReactions\<close> is the privacy setting of the
  author's account, if there is one.\<close>

record reacted_confession =
  rxc_id :: ident
  rxc_anonymousUser :: "anonymous_user option"
  rxc_showReactions :: "bool option"

datatype reaction_effect =
    InvalidateTrending
  | InvalidateReactionDistribution
  | RecordReactionCreated ident ident ident
  | BroadcastReactionAdded ident ident ident string nat

record reaction_state =
  rxs_reactions :: "reaction list"
  rxs_outbox :: "outbox_event list"

record reaction_env =
  rxe_confession :: "ident \<Rightarrow> reacted_confession option"
  rxe_anonymousUser :: "ident \<Rightarrow> anonymous_user option"
  rxe_analytics :: bool

record reaction_result =
  rr_reaction :: reaction
  rr_isNew :: bool
  rr_isUpdate :: bool

section \<open>Reacting\<close>

definition reaction_pair :: "reaction \<Rightarrow> (ident \<times> ident) option" where
  "reaction_pair r = Some (rt_confessionId r, rt_anonymousUserId r)"

definition reaction_insert :: "reaction \<Rightarrow> reaction list \<Rightarrow> reaction list option" where
  "reaction_insert r t = (if clashes reaction_pair r t then None else Some (t @ [r]))"

definition find_reaction :: "ident \<Rightarrow> ident \<Rightarrow> reaction list \<Rightarrow> reaction option" where
  "find_reaction confessionId anonymousUserId t =
     find_one (\<lambda>r. rt_confessionId r = confessionId \<and> rt_anonymousUserId r = anonymousUserId) t"

text \<open>Steps 1 to 2: who reacts to what.\<close>

definition check_reaction ::
  "reaction_env \<Rightarrow> ident \<Rightarrow> ident option \<Rightarrow> string option \<Rightarrow> reacted_confession outcome" where
  "check_reaction env confessionId anonymousUserId actorUserId =
     (if \<not> truthy anonymousUserId then Inl (BadRequestException ''Anonymous user id is required'')
      else case rxe_confession env confessionId of
        None \<Rightarrow> Inl (NotFoundException ''Confession not found'')
      | Some confession \<Rightarrow>
          if rxc_showReactions confession = Some False
          then Inl (ForbiddenException ''Reactions are disabled for this user'')
          else (case assertCanUseAnonymousIdentity (rxe_anonymousUser env (the anonymousUserId)) actorUserId of
                  Inl e \<Rightarrow> Inl e
                | Inr _ \<Rightarrow> Inr confession))"

definition reaction_event :: "ident \<Rightarrow> ms \<Rightarrow> string \<Rightarrow> reacted_confession \<Rightarrow> reaction \<Rightarrow> string \<Rightarrow> outbox_event" where
  "reaction_event eventId now ty confession r recipientEmail =
     outbox_create eventId now ty
       [(''reactionId'', rt_id r), (''confessionId'', rxc_id confession), (''recipientEmail'', recipientEmail),
        (''emoji'', rt_emoji r)]
       (Some (ty @ '':'' @ rt_id r @ '':'' @ rt_emoji r))"

text \<open>\<open>None\<close> is the violation of the unique key of the outbox.\<close>

definition createOutboxEvent ::
  "ident \<Rightarrow> ms \<Rightarrow> reacted_confession \<Rightarrow> reaction \<Rightarrow> string \<Rightarrow> outbox_event list \<Rightarrow> outbox_event list option" where
  "createOutboxEvent eventId now confession r ty events =
     (let recipientEmail = getRecipientEmail (rxc_anonymousUser confession) in
      if truthy recipientEmail
      then outbox_insert (reaction_event eventId now ty confession r (the recipientEmail)) events
      else Some events)"

definition unique_violation :: exn where
  "unique_violation = PlainError ''duplicate key value violates unique constraint''"

text \<open>The savepoint: the row and its notification, or neither.\<close>

definition insert_reaction ::
  "reacted_confession \<Rightarrow> reaction \<Rightarrow> ident \<Rightarrow> ms \<Rightarrow> reaction_state \<Rightarrow> reaction_state option" where
  "insert_reaction confession r eventId now st =
     (case reaction_insert r (rxs_reactions st) of
        None \<Rightarrow> None
      | Some t \<Rightarrow>
          (case createOutboxEvent eventId now confession r ''reaction_notification'' (rxs_outbox st) of
             None \<Rightarrow> None
           | Some events \<Rightarrow> Some (st\<lparr>rxs_reactions := t, rxs_outbox := events\<rparr>)))"

text \<open>The switch of an existing reaction to another emoji.\<close>

definition switch_reaction ::
  "reacted_confession \<Rightarrow> reaction \<Rightarrow> string \<Rightarrow> ident \<Rightarrow> ms \<Rightarrow> reaction_state \<Rightarrow> reaction_result outcome \<times> reaction_state" where
  "switch_reaction confession existing emoji eventId now st =
     (if rt_emoji existing = emoji
      then (Inr \<lparr>rr_reaction = existing, rr_isNew = False, rr_isUpdate = False\<rparr>, st)
      else let updated = existing\<lparr>rt_emoji := emoji\<rparr> in
        (case createOutboxEvent eventId now confession updated ''reaction_update'' (rxs_outbox st) of
           None \<Rightarrow> (Inl unique_violation, st)
         | Some events \<Rightarrow>
             (Inr \<lparr>rr_reaction = updated, rr_isNew = False, rr_isUpdate = True\<rparr>,
              st\<lparr>rxs_reactions := save_row rt_id updated (rxs_reactions st), rxs_outbox := events\<rparr>)))"

definition react_transaction ::
  "reacted_confession \<Rightarrow> ident \<Rightarrow> ident \<Rightarrow> string \<Rightarrow> ident \<Rightarrow> ident \<Rightarrow> ms \<Rightarrow> reaction list \<Rightarrow> reaction_state \<Rightarrow>
     reaction_result outcome \<times> reaction_state" where
  "react_transaction confession confessionId anonymousUserId emoji newId eventId now t_read st =
     (case find_reaction confessionId anonymousUserId t_read of
        Some existing \<Rightarrow> switch_reaction confession existing emoji eventId now st
      | None \<Rightarrow>
          (let r = \<lparr>rt_id = newId, rt_emoji = emoji, rt_confessionId = confessionId,
                    rt_anonymousUserId = anonymousUserId, rt_createdAt = now\<rparr> in
           case insert_reaction confession r eventId now st of
             Some st' \<Rightarrow> (Inr \<lparr>rr_reaction = r, rr_isNew = True, rr_isUpdate = False\<rparr>, st')
           | None \<Rightarrow>
               (case find_reaction confessionId anonymousUserId (rxs_reactions st) of
                  None \<Rightarrow> (Inl unique_violation, st)
                | Some existing \<Rightarrow> switch_reaction confession existing emoji eventId now st)))"

definition getReactionCount :: "ident \<Rightarrow> reaction list \<Rightarrow> nat" where
  "getReactionCount confessionId t = length (filter (\<lambda>r. rt_confessionId r = confessionId) t)"

definition after_reaction ::
  "reaction_env \<Rightarrow> reacted_confession \<Rightarrow> ident \<Rightarrow> reaction_result \<Rightarrow> reaction list \<Rightarrow> reaction_effect list" where
  "after_reaction env confession anonymousUserId res t =
     [InvalidateTrending, InvalidateReactionDistribution] @
     (if rr_isNew res
      then (if rxe_analytics env
            then [RecordReactionCreated anonymousUserId (rt_id (rr_reaction res)) (rxc_id confession)] else []) @
           [BroadcastReactionAdded (rxc_id confession) (rt_id (rr_reaction res)) anonymousUserId
              (rt_emoji (rr_reaction res)) (getReactionCount (rxc_id confession) t)]
      else [])"

definition createReaction ::
  "reaction_env \<Rightarrow> ident \<Rightarrow> ident option \<Rightarrow> string option \<Rightarrow> string \<Rightarrow> ident \<Rightarrow> ident \<Rightarrow> ms \<Rightarrow> reaction list \<Rightarrow>
     reaction_state \<Rightarrow> reaction outcome \<times> reaction_state \<times> reaction_effect list" where
  "createReaction env confessionId anonymousUserId actorUserId emoji newId eventId now t_read st =
     (case check_reaction env confessionId anonymousUserId actorUserId of
        Inl e \<Rightarrow> (Inl e, st, [])
      | Inr confession \<Rightarrow>
          (case react_transaction confession confessionId (the anonymousUserId) emoji newId eventId now t_read st of
             (Inl e, st') \<Rightarrow> (Inl e, st', [])
           | (Inr res, st') \<Rightarrow>
               (Inr (rr_reaction res), st',
                after_reaction env confession (the anonymousUserId) res (rxs_reactions st'))))"

section \<open>Counters\<close>

text \<open>The column \<open>reaction_counts\<close> of the confessions, \<open>None\<close> for \<open>NULL\<close>; unknown ids have no row.\<close>

type_synonym counts = "(string \<times> nat) list"
type_synonym counter_table = "(ident \<times> counts option) list"

fun json_get :: "counts \<Rightarrow> string \<Rightarrow> nat option" where
  "json_get [] k = None"
| "json_get ((k', v) # m) k = (if k' = k then Some v else json_get m k)"

fun jsonb_set :: "counts \<Rightarrow> string \<Rightarrow> nat \<Rightarrow> counts" where
  "jsonb_set [] k v = [(k, v)]"
| "jsonb_set ((k', v') # m) k v = (if k' = k then (k', v) # m else (k', v') # jsonb_set m k v)"

definition bump_counter :: "(nat \<Rightarrow> nat) \<Rightarrow> ident \<Rightarrow> string \<Rightarrow> counter_table \<Rightarrow> nat \<times> counter_table" where
  "bump_counter f confessionId emoji t =
     (let upd = (\<lambda>(i, c). (i, Some (jsonb_set (nullish c []) emoji (f (nullish (json_get (nullish c []) emoji) 0)))));
          t' = update_where (\<lambda>row. fst row = confessionId) upd t
      in (case find_one (\<lambda>row. fst row = confessionId) t' of
            None \<Rightarrow> (0, t')
          | Some (i, c) \<Rightarrow> (nullish (json_get (nullish c []) emoji) 0, t')))"

definition incrementReactionCount :: "ident \<Rightarrow> string \<Rightarrow> counter_table \<Rightarrow> nat \<times> counter_table" where
  "incrementReactionCount confessionId emoji t = bump_counter (\<lambda>n. n + 1) confessionId emoji t"

text \<open>\<open>GREATEST(0, n - 1)\<close> is subtraction on natural numbers.\<close>

definition decrementReactionCount :: "ident \<Rightarrow> string \<Rightarrow> counter_table \<Rightarrow> nat \<times> counter_table" where
  "decrementReactionCount confessionId emoji t = bump_counter (\<lambda>n. n - 1) confessionId emoji t"

definition getReactionCounts :: "ident \<Rightarrow> reaction list \<Rightarrow> counts" where
  "getReactionCounts confessionId t =
     (let rows = filter (\<lambda>r. rt_confessionId r = confessionId) t
      in map (\<lambda>e. (e, length (filter (\<lambda>r. rt_emoji r = e) rows))) (remdups (map rt_emoji rows)))"

definition recalculateReactionCounts :: "ident \<Rightarrow> reaction list \<Rightarrow> counter_table \<Rightarrow> counter_table" where
  "recalculateReactionCounts confessionId rows t =
     update_where (\<lambda>row. fst row = confessionId) (\<lambda>(i, c). (i, Some (getReactionCounts confessionId rows))) t"

section \<open>Bookmarks\<close>

record bookmark =
  bm_id :: ident
  bm_userId :: int
  bm_confessionId :: ident
  bm_createdAt :: ms

definition bookmark_pair :: "bookmark \<Rightarrow> (int \<times> ident) option" where
  "bookmark_pair b = Some (bm_userId b, bm_confessionId b)"

definition bookmark_insert :: "bookmark \<Rightarrow> bookmark list \<Rightarrow> bookmark list option" where
  "bookmark_insert b t = (if clashes bookmark_pair b t then None else Some (t @ [b]))"

definition find_bookmark :: "int \<Rightarrow> ident \<Rightarrow> bookmark list \<Rightarrow> bookmark option" where
  "find_bookmark userId confessionId t = find_one (\<lambda>b. bm_userId b = userId \<and> bm_confessionId b = confessionId) t"

definition remove_bookmark :: "bookmark \<Rightarrow> bookmark list \<Rightarrow> bookmark list" where
  "remove_bookmark b t = delete_where (\<lambda>x. bm_id x = bm_id b) t"

definition toggle ::
  "(ident \<Rightarrow> bool) \<Rightarrow> int \<Rightarrow> ident \<Rightarrow> ident \<Rightarrow> ms \<Rightarrow> bookmark list \<Rightarrow> (bool \<times> ident option) outcome \<times> bookmark list" where
  "toggle confession userId confessionId newId now t =
     (if \<not> confession confessionId then (Inl (NotFoundException ''Confession not found''), t)
      else case find_bookmark userId confessionId t of
        Some existing \<Rightarrow> (Inr (False, None), remove_bookmark existing t)
      | None \<Rightarrow>
          (let b = \<lparr>bm_id = newId, bm_userId = userId, bm_confessionId = confessionId, bm_createdAt = now\<rparr> in
           case bookmark_insert b t of
             None \<Rightarrow> (Inl unique_violation, t)
           | Some t' \<Rightarrow> (Inr (True, Some newId), t')))"

definition bookmark_list :: "int \<Rightarrow> nat \<Rightarrow> nat \<Rightarrow> bookmark list \<Rightarrow> bookmark list \<times> nat \<times> nat \<times> nat" where
  "bookmark_list userId page limit t =
     (let n = min limit 100; rows = order_desc bm_createdAt (filter (\<lambda>b. bm_userId b = userId) t)
      in (skip_take ((page - 1) * n) n rows, length rows, page, n))"

definition isBookmarked :: "int \<Rightarrow> ident \<Rightarrow> bookmark list \<Rightarrow> bool" where
  "isBookmarked userId confessionId t \<longleftrightarrow>
     0 < length (filter (\<lambda>b. bm_userId b = userId \<and> bm_confessionId b = confessionId) t)"

definition bookmark_remove :: "int \<Rightarrow> ident \<Rightarrow> bookmark list \<Rightarrow> unit outcome \<times> bookmark list" where
  "bookmark_remove userId confessionId t =
     (case find_bookmark userId confessionId t of
        None \<Rightarrow> (Inl (NotFoundException ''Bookmark not found''), t)
      | Some existing \<Rightarrow> (Inr (), remove_bookmark existing t))"

definition countForUser :: "int \<Rightarrow> bookmark list \<Rightarrow> nat" where
  "countForUser userId t = length (filter (\<lambda>b. bm_userId b = userId) t)"

section \<open>The interfaces\<close>

interpretation reaction_index: sole_unique_index reaction_pair reaction_insert
  by unfold_locales (auto simp: reaction_insert_def split: if_splits)

interpretation bookmark_index: sole_unique_index bookmark_pair bookmark_insert
  by unfold_locales (auto simp: bookmark_insert_def split: if_splits)

section \<open>Reactions: properties\<close>

definition reactions_wf :: "reaction list \<Rightarrow> bool" where
  "reactions_wf t \<longleftrightarrow> distinct (map rt_id t) \<and> uniq_on reaction_pair t"

text \<open>A table read earlier in the transaction: its rows still exist, possibly with another emoji.\<close>

definition older_read :: "reaction list \<Rightarrow> reaction list \<Rightarrow> bool" where
  "older_read t_read t \<longleftrightarrow> (\<forall>x \<in> set t_read. \<exists>y \<in> set t. rt_id y = rt_id x \<and> reaction_pair y = reaction_pair x)"

definition broadcasts :: "reaction_effect list \<Rightarrow> nat" where
  "broadcasts fx = length (filter (\<lambda>e. case e of BroadcastReactionAdded _ _ _ _ _ \<Rightarrow> True | _ \<Rightarrow> False) fx)"

lemma reactions_wf_insert:
  assumes "reactions_wf t" "rt_id r \<notin> rt_id ` set t" "reaction_insert r t = Some t'"
  shows "reactions_wf t' \<and> t' = t @ [r]"
  using assms reaction_index.ins_keeps_unique[OF _ assms(3)] reaction_index.ins_appends[OF assms(3)]
  by (simp add: reactions_wf_def)

lemma save_known_row:
  assumes "reactions_wf t" "g \<in> set t" "rt_id r = rt_id g" "reaction_pair r = reaction_pair g"
  shows "reactions_wf (save_row rt_id r t) \<and> length (save_row rt_id r t) = length t"
proof -
  have dist: "distinct (map rt_id t)" using assms(1) by (simp add: reactions_wf_def)
  have "map rt_id (save_row rt_id r t) = map rt_id t"
    by (rule map_save_row[OF dist assms(2,3)]) (simp add: assms(3))
  moreover have "map reaction_pair (save_row rt_id r t) = map reaction_pair t"
    by (rule map_save_row[OF dist assms(2,3,4)])
  ultimately show ?thesis
    using assms(1) uniq_on_cong[of reaction_pair "save_row rt_id r t" t]
    by (metis length_map reactions_wf_def)
qed

lemma find_reaction_SomeD:
  "find_reaction c u t = Some r \<Longrightarrow> r \<in> set t \<and> rt_confessionId r = c \<and> rt_anonymousUserId r = u"
  using find_one_SomeD by (fastforce simp: find_reaction_def)

lemma find_reaction_unique:
  assumes "reactions_wf t" "r \<in> set t" "rt_confessionId r = c" "rt_anonymousUserId r = u"
  shows "find_reaction c u t = Some r"
  unfolding find_reaction_def
proof (rule find_one_unique[OF assms(2)])
  fix x assume "x \<in> set t" "rt_confessionId x = c \<and> rt_anonymousUserId x = u"
  with assms show "x = r" by (auto simp: reactions_wf_def reaction_pair_def intro: uniq_on_eq)
qed (use assms in simp)

lemma switch_reaction_effect:
  assumes "reactions_wf (rxs_reactions st)" "g \<in> set (rxs_reactions st)"
    "rt_id existing = rt_id g" "reaction_pair existing = reaction_pair g"
    "switch_reaction conf existing emoji ev now st = (res, st')"
  shows "case res of Inl e \<Rightarrow> st' = st
    | Inr x \<Rightarrow> reactions_wf (rxs_reactions st') \<and> length (rxs_reactions st') = length (rxs_reactions st) \<and>
        \<not> rr_isNew x \<and> rt_emoji (rr_reaction x) = emoji \<and> reaction_pair (rr_reaction x) = reaction_pair existing \<and>
        (existing \<in> set (rxs_reactions st) \<longrightarrow> rr_reaction x \<in> set (rxs_reactions st'))"
  using assms(5) save_known_row[OF assms(1,2), of "existing\<lparr>rt_emoji := emoji\<rparr>"] assms(1,3,4)
  by (auto simp: switch_reaction_def Let_def reaction_pair_def split: if_splits option.splits)

lemma insert_reaction_effect:
  assumes "reactions_wf (rxs_reactions st)" "rt_id r \<notin> rt_id ` set (rxs_reactions st)"
    "insert_reaction conf r ev now st = Some st'"
  shows "reactions_wf (rxs_reactions st') \<and> rxs_reactions st' = rxs_reactions st @ [r]"
  using assms(3) reactions_wf_insert[OF assms(1,2)]
  by (auto simp: insert_reaction_def split: option.splits)

lemma react_transaction_effect:
  assumes wf: "reactions_wf (rxs_reactions st)" and fresh: "i \<notin> rt_id ` set (rxs_reactions st)"
    and old: "older_read t_read (rxs_reactions st)"
    and run: "react_transaction conf c u emoji i ev now t_read st = (res, st')"
  shows "case res of Inl e \<Rightarrow> st' = st
    | Inr x \<Rightarrow> reactions_wf (rxs_reactions st') \<and>
        length (rxs_reactions st') = length (rxs_reactions st) + (if rr_isNew x then 1 else 0) \<and>
        rt_emoji (rr_reaction x) = emoji \<and> rt_confessionId (rr_reaction x) = c \<and> rt_anonymousUserId (rr_reaction x) = u \<and>
        (t_read = rxs_reactions st \<longrightarrow> rr_reaction x \<in> set (rxs_reactions st'))"
proof (cases "find_reaction c u t_read")
  case (Some existing)
  from find_reaction_SomeD[OF Some] have ex: "existing \<in> set t_read" "rt_confessionId existing = c"
    "rt_anonymousUserId existing = u" by auto
  from old ex(1) obtain g where g: "g \<in> set (rxs_reactions st)" "rt_id existing = rt_id g"
    "reaction_pair existing = reaction_pair g" by (auto simp: older_read_def)
  have "switch_reaction conf existing emoji ev now st = (res, st')" using run Some by (simp add: react_transaction_def)
  from switch_reaction_effect[OF wf g this] ex show ?thesis
    by (auto simp: reaction_pair_def split: sum.splits)
next
  case None
  let ?r = "\<lparr>rt_id = i, rt_emoji = emoji, rt_confessionId = c, rt_anonymousUserId = u, rt_createdAt = now\<rparr>"
  show ?thesis
  proof (cases "insert_reaction conf ?r ev now st")
    case (Some st1)
    from insert_reaction_effect[OF wf _ Some] fresh run None Some show ?thesis
      by (auto simp: react_transaction_def)
  next
    case ins: None
    show ?thesis
    proof (cases "find_reaction c u (rxs_reactions st)")
      case None
      with run \<open>find_reaction c u t_read = None\<close> ins show ?thesis by (auto simp: react_transaction_def)
    next
      case (Some existing)
      from find_reaction_SomeD[OF Some] have ex: "existing \<in> set (rxs_reactions st)" "rt_confessionId existing = c"
        "rt_anonymousUserId existing = u" by auto
      have "switch_reaction conf existing emoji ev now st = (res, st')"
        using run None ins Some by (simp add: react_transaction_def)
      from switch_reaction_effect[OF wf ex(1) refl refl this] ex show ?thesis
        by (auto simp: reaction_pair_def split: sum.splits)
    qed
  qed
qed

text \<open>C17: reactions settle on one row per confession and identity, also when requests race.  Whatever
  earlier state of the table the request read, an error changes nothing and emits nothing; an answer
  carries the requested emoji for the requested pair, the table still has at most one row for each
  pair, and exactly as many rows were added as creations were broadcast, at most one.  A request
  whose read was current leaves its answer as the stored row.\<close>

theorem reaction_settles_on_one_row:
  assumes "reactions_wf (rxs_reactions st)" "newId \<notin> rt_id ` set (rxs_reactions st)"
    and "older_read t_read (rxs_reactions st)"
  shows "case createReaction env c anon actor emoji newId ev now t_read st of (res, st', fx) \<Rightarrow>
     reactions_wf (rxs_reactions st') \<and>
     length (rxs_reactions st') = length (rxs_reactions st) + broadcasts fx \<and> broadcasts fx \<le> 1 \<and>
     (case res of
        Inl e \<Rightarrow> st' = st \<and> fx = []
      | Inr r \<Rightarrow> rt_emoji r = emoji \<and> rt_confessionId r = c \<and> Some (rt_anonymousUserId r) = anon \<and>
          (t_read = rxs_reactions st \<longrightarrow> find_reaction c (the anon) (rxs_reactions st') = Some r))"
proof (cases "check_reaction env c anon actor")
  case (Inl e)
  with assms(1) show ?thesis by (simp add: createReaction_def broadcasts_def)
next
  case (Inr conf)
  then have anon: "anon = Some (the anon)"
    by (auto simp: check_reaction_def truthy_iff split: if_splits)
  obtain res st' where run: "react_transaction conf c (the anon) emoji newId ev now t_read st = (res, st')" by force
  note eff = react_transaction_effect[OF assms run]
  show ?thesis
  proof (cases res)
    case (Inl e)
    with eff run Inr assms(1) show ?thesis by (simp add: createReaction_def broadcasts_def)
  next
    case x: (Inr x)
    have "broadcasts (after_reaction env conf (the anon) x (rxs_reactions st')) = (if rr_isNew x then 1 else 0)"
      by (simp add: broadcasts_def after_reaction_def)
    with eff run Inr x anon find_reaction_unique[of "rxs_reactions st'" "rr_reaction x"] show ?thesis
      by (simp add: createReaction_def)
  qed
qed

definition sample_reaction_env :: reaction_env where
  "sample_reaction_env = \<lparr>rxe_confession = (\<lambda>c. Some \<lparr>rxc_id = c, rxc_anonymousUser = Some sample_author,
     rxc_showReactions = Some True\<rparr>), rxe_anonymousUser = (\<lambda>a. Some \<lparr>au_id = a, au_userLinks = []\<rparr>), rxe_analytics = False\<rparr>"

definition no_reactions :: reaction_state where
  "no_reactions = \<lparr>rxs_reactions = [], rxs_outbox = []\<rparr>"

text \<open>A request whose read is current.\<close>

definition react :: "string \<Rightarrow> ident \<Rightarrow> ident \<Rightarrow> ms \<Rightarrow> reaction_state \<Rightarrow> reaction outcome \<times> reaction_state \<times> reaction_effect list" where
  "react emoji newId ev now st =
     createReaction sample_reaction_env ''c1'' (Some ''u1'') None emoji newId ev now (rxs_reactions st) st"

lemma sample_email: "getRecipientEmail (Some sample_author) = Some ''x@y.z''"
  by (simp add: getRecipientEmail_def sample_author_def)

lemma react_first:
  "\<exists>fx. react ''A'' ''r1'' ''e1'' 1 no_reactions =
     (Inr \<lparr>rt_id = ''r1'', rt_emoji = ''A'', rt_confessionId = ''c1'', rt_anonymousUserId = ''u1'', rt_createdAt = 1\<rparr>,
      \<lparr>rxs_reactions = [\<lparr>rt_id = ''r1'', rt_emoji = ''A'', rt_confessionId = ''c1'', rt_anonymousUserId = ''u1'', rt_createdAt = 1\<rparr>],
       rxs_outbox = [reaction_event ''e1'' 1 ''reaction_notification'' \<lparr>rxc_id = ''c1'', rxc_anonymousUser = Some sample_author,
         rxc_showReactions = Some True\<rparr> \<lparr>rt_id = ''r1'', rt_emoji = ''A'', rt_confessionId = ''c1'',
         rt_anonymousUserId = ''u1'', rt_createdAt = 1\<rparr> ''x@y.z'']\<rparr>, fx)"
  by (simp add: react_def createReaction_def check_reaction_def sample_reaction_env_def assertCanUseAnonymousIdentity_def
      react_transaction_def find_reaction_def no_reactions_def insert_reaction_def reaction_insert_def clashes_def
      reaction_pair_def createOutboxEvent_def sample_email outbox_insert_def Let_def
      reaction_event_def outbox_create_def)

theorem reaction_settles_on_one_row_witness:
  "reactions_wf (rxs_reactions no_reactions) \<and>
   (case react ''A'' ''r1'' ''e1'' 1 no_reactions of (res, st', fx) \<Rightarrow>
      reactions_wf (rxs_reactions st') \<and> broadcasts fx = 1)"
proof -
  have wf: "reactions_wf (rxs_reactions no_reactions)" by (simp add: reactions_wf_def no_reactions_def)
  obtain fx where run: "react ''A'' ''r1'' ''e1'' 1 no_reactions =
     (Inr \<lparr>rt_id = ''r1'', rt_emoji = ''A'', rt_confessionId = ''c1'', rt_anonymousUserId = ''u1'', rt_createdAt = 1\<rparr>,
      \<lparr>rxs_reactions = [\<lparr>rt_id = ''r1'', rt_emoji = ''A'', rt_confessionId = ''c1'', rt_anonymousUserId = ''u1'', rt_createdAt = 1\<rparr>],
       rxs_outbox = [reaction_event ''e1'' 1 ''reaction_notification'' \<lparr>rxc_id = ''c1'', rxc_anonymousUser = Some sample_author,
         rxc_showReactions = Some True\<rparr> \<lparr>rt_id = ''r1'', rt_emoji = ''A'', rt_confessionId = ''c1'',
         rt_anonymousUserId = ''u1'', rt_createdAt = 1\<rparr> ''x@y.z'']\<rparr>, fx)" using react_first by blast
  have "''r1'' \<notin> rt_id ` set (rxs_reactions no_reactions)" "older_read (rxs_reactions no_reactions) (rxs_reactions no_reactions)"
    by (simp_all add: no_reactions_def older_read_def)
  from reaction_settles_on_one_row[OF wf this, where env = sample_reaction_env and c = "''c1''" and anon = "Some ''u1''"
      and actor = None and emoji = "''A''" and ev = "''e1''" and now = 1]
  show ?thesis using wf run by (simp add: react_def no_reactions_def)
qed

text \<open>A reaction cannot go back to an emoji it was switched to before: the notification of the
  switch has a key made of the reaction and the emoji only, so the second one violates the unique
  key of the outbox, and the whole switch is undone and answered with an error.\<close>

theorem reaction_cannot_return:
  assumes "check_reaction env c (Some u) actor = Inr conf"
    "find_reaction c u (rxs_reactions st) = Some r" "rt_emoji r \<noteq> emoji"
    "truthy (getRecipientEmail (rxc_anonymousUser conf))"
    "earlier \<in> set (rxs_outbox st)" "oe_idempotencyKey earlier = Some (''reaction_update:'' @ rt_id r @ '':'' @ emoji)"
  shows "createReaction env c (Some u) actor emoji newId ev now (rxs_reactions st) st = (Inl unique_violation, st, [])"
proof -
  have "outbox_insert (reaction_event ev now ''reaction_update'' conf (r\<lparr>rt_emoji := emoji\<rparr>) email) (rxs_outbox st) = None" for email
    using assms(5,6)
    by (auto simp: outbox_insert_def clashes_def set_keys_of reaction_event_def outbox_create_def)
  with assms show ?thesis
    by (simp add: createReaction_def react_transaction_def switch_reaction_def createOutboxEvent_def Let_def)
qed

text \<open>Reacting with A, then B, then A, then B again.\<close>

theorem reaction_cannot_return_witness:
  "let st1 = fst (snd (react ''A'' ''r1'' ''e1'' 1 no_reactions));
        st2 = fst (snd (react ''B'' ''r2'' ''e2'' 2 st1));
        st3 = fst (snd (react ''A'' ''r3'' ''e3'' 3 st2))
    in fst (react ''B'' ''r4'' ''e4'' 4 st3) = Inl unique_violation"
proof -
  let ?conf = "\<lparr>rxc_id = ''c1'', rxc_anonymousUser = Some sample_author, rxc_showReactions = Some True\<rparr>"
  have chk: "check_reaction sample_reaction_env ''c1'' (Some ''u1'') None = Inr ?conf"
    by (simp add: check_reaction_def sample_reaction_env_def assertCanUseAnonymousIdentity_def)
  let ?r = "\<lambda>e. \<lparr>rt_id = ''r1'', rt_emoji = e, rt_confessionId = ''c1'', rt_anonymousUserId = ''u1'', rt_createdAt = 1\<rparr>"
  define st1 where "st1 = fst (snd (react ''A'' ''r1'' ''e1'' 1 no_reactions))"
  define st2 where "st2 = fst (snd (react ''B'' ''r2'' ''e2'' 2 st1))"
  define st3 where "st3 = fst (snd (react ''A'' ''r3'' ''e3'' 3 st2))"
  note defs = react_def createReaction_def chk react_transaction_def find_reaction_def switch_reaction_def
    createOutboxEvent_def sample_email outbox_insert_def clashes_def reaction_event_def outbox_create_def save_row_def Let_def
  obtain fx where "react ''A'' ''r1'' ''e1'' 1 no_reactions = (Inr (?r ''A''), \<lparr>rxs_reactions = [?r ''A''],
       rxs_outbox = [reaction_event ''e1'' 1 ''reaction_notification'' ?conf (?r ''A'') ''x@y.z'']\<rparr>, fx)"
    using react_first by blast
  then have s1: "st1 = \<lparr>rxs_reactions = [?r ''A''],
      rxs_outbox = [reaction_event ''e1'' 1 ''reaction_notification'' ?conf (?r ''A'') ''x@y.z'']\<rparr>"
    by (simp add: st1_def)
  have s2: "st2 = \<lparr>rxs_reactions = [?r ''B''], rxs_outbox = rxs_outbox st1 @
      [reaction_event ''e2'' 2 ''reaction_update'' ?conf (?r ''B'') ''x@y.z'']\<rparr>"
    by (simp add: st2_def s1 defs)
  have s3: "st3 = \<lparr>rxs_reactions = [?r ''A''], rxs_outbox = rxs_outbox st2 @
      [reaction_event ''e3'' 3 ''reaction_update'' ?conf (?r ''A'') ''x@y.z'']\<rparr>"
    by (simp add: st3_def s1 s2 defs)
  have "createReaction sample_reaction_env ''c1'' (Some ''u1'') None ''B'' ''r4'' ''e4'' 4 (rxs_reactions st3) st3 =
      (Inl unique_violation, st3, [])"
    by (rule reaction_cannot_return[OF chk, where r = "?r ''A''" and
          earlier = "reaction_event ''e2'' 2 ''reaction_update'' ?conf (?r ''B'') ''x@y.z''"])
      (simp_all add: s3 s2 s1 find_reaction_def sample_email reaction_event_def outbox_create_def)
  then show ?thesis by (simp add: react_def st1_def st2_def st3_def Let_def)
qed

section \<open>Counters: properties\<close>

definition counter_value :: "ident \<Rightarrow> string \<Rightarrow> counter_table \<Rightarrow> nat" where
  "counter_value c e t =
     (case find_one (\<lambda>row. fst row = c) t of None \<Rightarrow> 0 | Some (_, m) \<Rightarrow> nullish (json_get (nullish m []) e) 0)"

lemma json_get_set: "json_get (jsonb_set m k v) k' = (if k' = k then Some v else json_get m k')"
  by (induction m k v rule: jsonb_set.induct) auto

lemma find_row_update:
  assumes "\<And>row. fst (f row) = fst row"
  shows "find_one (\<lambda>row. fst row = c') (update_where (\<lambda>row. fst row = c) f t) =
    map_option (\<lambda>row. if c' = c then f row else row) (find_one (\<lambda>row. fst row = c') t)"
  using assms by (induction t) auto

lemma counter_value_bump:
  assumes "c \<in> fst ` set t"
  shows "counter_value c' e' (snd (bump_counter f c e t)) =
     (if c' = c \<and> e' = e then f (counter_value c e t) else counter_value c' e' t) \<and>
    fst (bump_counter f c e t) = f (counter_value c e t) \<and> fst ` set (snd (bump_counter f c e t)) = fst ` set t"
proof -
  let ?upd = "\<lambda>(i, m). (i, Some (jsonb_set (nullish m []) e (f (nullish (json_get (nullish m []) e) 0))))"
  have keep: "fst (?upd row) = fst row" for row :: "ident \<times> counts option" by (cases row) simp
  have t': "snd (bump_counter f c e t) = update_where (\<lambda>row. fst row = c) ?upd t"
    by (simp add: bump_counter_def Let_def split: option.split)
  obtain row where row: "find_one (\<lambda>row. fst row = c) t = Some row"
    using assms by (cases "find_one (\<lambda>row. fst row = c) t") (auto simp: find_one_None_iff)
  have "fst (bump_counter f c e t) = f (counter_value c e t)"
    using row find_row_update[of ?upd c c t, OF keep]
    by (cases row) (simp add: bump_counter_def counter_value_def Let_def json_get_set)
  moreover have "fst ` set (snd (bump_counter f c e t)) = fst ` set t"
    unfolding t' using map_update_where[of "\<lambda>row. fst row = c" fst ?upd t, OF keep] by (metis image_set)
  ultimately show ?thesis
    unfolding t' counter_value_def find_row_update[OF keep] using row
    by (cases row) (auto simp: json_get_set split: option.split)
qed

lemma json_get_map: "json_get (map (\<lambda>e. (e, f e)) es) k = (if k \<in> set es then Some (f k) else None)"
  by (induction es) auto

lemma counts_are_counts:
  "nullish (json_get (getReactionCounts c rs) e) 0 =
     length (filter (\<lambda>r. rt_confessionId r = c \<and> rt_emoji r = e) rs)"
proof -
  have "length (filter (\<lambda>r. rt_confessionId r = c \<and> rt_emoji r = e) rs) =
      length (filter (\<lambda>r. rt_emoji r = e) (filter (\<lambda>r. rt_confessionId r = c) rs))"
    by (simp add: conj_commute)
  then show ?thesis by (auto simp: getReactionCounts_def Let_def json_get_map filter_empty_conv)
qed

text \<open>The counters count.  On a stored confession an increment raises exactly the counter it names
  by one and returns the new value, a following decrement brings every counter back, no counter goes
  below zero, and recalculating sets every counter of the confession to the number of reactions with
  that emoji and touches no other confession.\<close>

theorem counters_count:
  assumes "c \<in> fst ` set t"
  shows "fst (incrementReactionCount c e t) = counter_value c e t + 1 \<and>
    counter_value c' e' (snd (incrementReactionCount c e t)) =
      counter_value c' e' t + (if c' = c \<and> e' = e then 1 else 0) \<and>
    counter_value c' e' (snd (decrementReactionCount c e (snd (incrementReactionCount c e t)))) = counter_value c' e' t \<and>
    fst (decrementReactionCount c e t) = counter_value c e t - 1 \<and>
    counter_value c' e' (recalculateReactionCounts c rs t) =
      (if c' = c then length (filter (\<lambda>r. rt_confessionId r = c \<and> rt_emoji r = e') rs) else counter_value c' e' t)"
proof -
  have "c \<in> fst ` set (snd (incrementReactionCount c e t))"
    using assms counter_value_bump[OF assms, where f = "\<lambda>n. n + 1"] by (simp add: incrementReactionCount_def)
  note dec = counter_value_bump[OF this, where f = "\<lambda>n. n - 1", folded decrementReactionCount_def]
  note inc = counter_value_bump[OF assms, where f = "\<lambda>n. n + 1", folded incrementReactionCount_def]
  have keep: "fst ((\<lambda>(i, m). (i, Some (getReactionCounts c rs))) row) = fst row" for row :: "ident \<times> counts option"
    by (cases row) simp
  have "counter_value c' e' (recalculateReactionCounts c rs t) =
      (if c' = c then length (filter (\<lambda>r. rt_confessionId r = c \<and> rt_emoji r = e') rs) else counter_value c' e' t)"
  proof (cases "find_one (\<lambda>row. fst row = c') t")
    case None
    then have "c' \<noteq> c" using assms by (auto simp: find_one_None_iff)
    with None show ?thesis
      unfolding counter_value_def recalculateReactionCounts_def find_row_update[OF keep] by simp
  next
    case (Some row)
    then show ?thesis
      unfolding counter_value_def recalculateReactionCounts_def find_row_update[OF keep]
      using counts_are_counts[of c rs e'] by (cases row) simp
  qed
  with inc dec counter_value_bump[OF assms, where f = "\<lambda>n. n - 1", folded decrementReactionCount_def] show ?thesis by auto
qed

theorem counters_count_witness:
  "fst (incrementReactionCount ''c1'' ''A'' [(''c1'', None), (''c2'', Some [(''A'', 4)])]) = 1 \<and>
   counter_value ''c2'' ''A'' (snd (incrementReactionCount ''c1'' ''A'' [(''c1'', None), (''c2'', Some [(''A'', 4)])])) = 4"
  using counters_count[of "''c1''" "[(''c1'', None), (''c2'', Some [(''A'', 4)])]" "''A''" "''c2''" "''A''" "[]"]
  by (simp add: counter_value_def)

section \<open>Bookmarks: properties\<close>

definition bookmarks_wf :: "bookmark list \<Rightarrow> bool" where
  "bookmarks_wf t \<longleftrightarrow> distinct (map bm_id t) \<and> uniq_on bookmark_pair t"

lemma find_bookmark_None: "find_bookmark u c t = None \<longleftrightarrow> \<not> isBookmarked u c t"
  by (auto simp: find_bookmark_def isBookmarked_def find_one_None_iff filter_empty_conv)

lemma toggle_add:
  assumes "bookmarks_wf t" "conf c" "\<not> isBookmarked u c t" "i \<notin> bm_id ` set t"
  shows "toggle conf u c i now t = (Inr (True, Some i),
     t @ [\<lparr>bm_id = i, bm_userId = u, bm_confessionId = c, bm_createdAt = now\<rparr>])"
proof -
  let ?b = "\<lparr>bm_id = i, bm_userId = u, bm_confessionId = c, bm_createdAt = now\<rparr>"
  have "\<not> clashes bookmark_pair ?b t"
    using assms(3) by (auto simp: clashes_def bookmark_pair_def set_keys_of isBookmarked_def filter_empty_conv)
  then have "bookmark_insert ?b t = Some (t @ [?b])" by (rule bookmark_index.ins_free)
  with assms show ?thesis by (simp add: toggle_def find_bookmark_None[THEN iffD2])
qed

text \<open>The toggle of a bookmark.  It reports and sets the opposite of what was stored, touches no
  other user's or confession's bookmark, keeps at most one bookmark per user and confession, and
  toggling an absent bookmark twice leaves the table as it was.\<close>

theorem toggle_flips:
  assumes "bookmarks_wf t" "conf c" "newId \<notin> bm_id ` set t"
  shows "case toggle conf u c newId now t of
     (Inl e, t') \<Rightarrow> False
   | (Inr (on, i), t') \<Rightarrow> bookmarks_wf t' \<and> on = (\<not> isBookmarked u c t) \<and> isBookmarked u c t' = on \<and> (i \<noteq> None) = on \<and>
       filter (\<lambda>b. bookmark_pair b \<noteq> Some (u, c)) t' = filter (\<lambda>b. bookmark_pair b \<noteq> Some (u, c)) t \<and>
       (on \<longrightarrow> snd (toggle conf u c again later t') = t)"
proof (cases "find_bookmark u c t")
  case None
  then have nb: "\<not> isBookmarked u c t" by (simp add: find_bookmark_None)
  let ?b = "\<lparr>bm_id = newId, bm_userId = u, bm_confessionId = c, bm_createdAt = now\<rparr>"
  have wf: "bookmarks_wf (t @ [?b])"
    using assms nb
    by (auto simp: bookmarks_wf_def uniq_on_def bookmark_pair_def set_keys_of isBookmarked_def filter_empty_conv)
  have "find_bookmark u c (t @ [?b]) = Some ?b"
    using None by (simp add: find_bookmark_def find_one_append)
  moreover have "remove_bookmark ?b (t @ [?b]) = t"
    using assms(3) by (auto simp: remove_bookmark_def delete_where_def intro!: filter_True)
  ultimately have "snd (toggle conf u c again later (t @ [?b])) = t" using assms(2) by (simp add: toggle_def)
  with wf nb assms toggle_add[of t conf c u newId now] show ?thesis
    by (simp add: bookmark_pair_def isBookmarked_def)
next
  case (Some b)
  from find_one_SomeD[OF Some[unfolded find_bookmark_def]] have b: "b \<in> set t" "bm_userId b = u" "bm_confessionId b = c" by auto
  then have on: "isBookmarked u c t" by (auto simp: isBookmarked_def filter_empty_conv)
  have same: "bm_id x = bm_id b \<longleftrightarrow> bm_userId x = u \<and> bm_confessionId x = c" if "x \<in> set t" for x
    using assms(1) b that distinct_keys_eq[of bm_id t x b] uniq_on_eq[of bookmark_pair t x b "(u, c)"]
    by (auto simp: bookmarks_wf_def bookmark_pair_def)
  then have rm: "remove_bookmark b t = filter (\<lambda>x. bookmark_pair x \<noteq> Some (u, c)) t"
    by (auto simp: remove_bookmark_def delete_where_def bookmark_pair_def intro!: filter_cong)
  have "bookmarks_wf (remove_bookmark b t)"
    using assms(1) by (simp add: bookmarks_wf_def remove_bookmark_def uniq_on_delete_where)
      (simp add: delete_where_def distinct_map_filter)
  with Some on rm assms(2) show ?thesis
    by (simp add: toggle_def isBookmarked_def bookmark_pair_def filter_empty_conv)
qed

theorem toggle_flips_witness:
  "snd (toggle (\<lambda>_. True) 1 ''c1'' ''b2'' 6 (snd (toggle (\<lambda>_. True) 1 ''c1'' ''b1'' 5 []))) = []"
proof -
  have r: "toggle (\<lambda>_. True) 1 ''c1'' ''b1'' 5 [] = (Inr (True, Some ''b1''),
      [\<lparr>bm_id = ''b1'', bm_userId = 1, bm_confessionId = ''c1'', bm_createdAt = 5\<rparr>])"
    by (simp add: toggle_def find_bookmark_def bookmark_insert_def clashes_def bookmark_pair_def)
  have "bookmarks_wf []" by (simp add: bookmarks_wf_def)
  from toggle_flips[OF this, where conf = "\<lambda>_. True" and c = "''c1''" and newId = "''b1''" and u = 1 and now = 5
      and again = "''b2''" and later = 6] r
  show ?thesis by simp
qed

end
