(* ===== verification/Drafts.thy ===== *)
theory Drafts
  imports XC_Prelude
begin

text \<open>
  Drafts of confessions and their publication: \<^verbatim>\<open>confession-draft/confession-draft.service.ts\<close> with its
  entity and queue worker, and the scheduler of stored confessions
  (\<^verbatim>\<open>confession/confession-scheduler.service.ts\<close>).

  Encryption, date parsing (luxon and \<open>Date\<close>) and the creation of a confession are arguments
  (\<open>draft_env\<close>).  A transaction whose body throws leaves the tables as they were.
\<close>

section \<open>Data\<close>

datatype draft_status = DRAFT | SCHEDULED | POSTED

record revision =
  rev_content :: string
  rev_version :: nat
  rev_createdAt :: ms

record draft =
  df_id :: ident
  df_userId :: int
  df_content :: string
  df_category :: "string option"
  df_scheduledFor :: "ms option"
  df_timezone :: "string option"
  df_status :: draft_status
  df_publishAttempts :: nat
  df_lastPublishError :: "string option"
  df_createdAt :: ms
  df_updatedAt :: ms
  df_version :: nat
  df_revisions :: "revision list"

record draft_state =
  ds_drafts :: "draft list"
  ds_confessions :: "string list"

record draft_env =
  de_encrypt :: "string \<Rightarrow> string"
  de_decrypt :: "string \<Rightarrow> string"
  de_parse :: "string \<Rightarrow> string option \<Rightarrow> ms option"
  de_create :: "string \<Rightarrow> unit outcome"

definition MAX_DRAFTS_PER_USER :: nat where "MAX_DRAFTS_PER_USER = 10"
definition MAX_PUBLISH_ATTEMPTS :: nat where "MAX_PUBLISH_ATTEMPTS = 5"

section \<open>Helpers\<close>

definition toUtcDate :: "draft_env \<Rightarrow> string \<Rightarrow> string option \<Rightarrow> ms outcome" where
  "toUtcDate env scheduledFor timezone =
     (let trimmed = js_trim scheduledFor in
      if trimmed = [] then Inl (BadRequestException ''scheduledFor is required'')
      else if truthy timezone
      then (case de_parse env trimmed timezone of
              None \<Rightarrow> Inl (BadRequestException ''Invalid scheduledFor/timezone'')
            | Some d \<Rightarrow> Inr d)
      else (case de_parse env trimmed None of
              None \<Rightarrow> Inl (BadRequestException ''Invalid scheduledFor'')
            | Some d \<Rightarrow> Inr d))"

definition sanitizeForResponse :: "draft_env \<Rightarrow> draft \<Rightarrow> draft" where
  "sanitizeForResponse env d =
     d\<lparr>df_content := de_decrypt env (df_content d),
       df_revisions := map (\<lambda>r. r\<lparr>rev_content := de_decrypt env (rev_content r)\<rparr>) (df_revisions d)\<rparr>"

text \<open>\<open>save\<close> of a loaded draft writes the columns that changed; the version and update columns move
  with every write.\<close>

definition save_draft :: "ms \<Rightarrow> draft \<Rightarrow> draft list \<Rightarrow> draft \<times> draft list" where
  "save_draft now d t =
     (if d \<in> set t then (d, t)
      else let d' = d\<lparr>df_version := df_version d + 1, df_updatedAt := now\<rparr> in (d', save_row df_id d' t))"

definition count_drafts :: "int \<Rightarrow> draft list \<Rightarrow> nat" where
  "count_drafts userId t = length (filter (\<lambda>d. df_userId d = userId) t)"

definition limit_error :: exn where
  "limit_error = BadRequestException (''Draft limit reached (max '' @ nat_str MAX_DRAFTS_PER_USER @ '')'')"

definition future_error :: exn where
  "future_error = BadRequestException ''scheduledFor must be in the future''"

text \<open>Load a draft and check its owner.\<close>

definition own_draft :: "int \<Rightarrow> ident \<Rightarrow> draft list \<Rightarrow> draft outcome" where
  "own_draft userId i t =
     (case find_one (\<lambda>d. df_id d = i) t of
        None \<Rightarrow> Inl (NotFoundException ''Draft not found'')
      | Some d \<Rightarrow> if df_userId d \<noteq> userId then Inl (ForbiddenException ''Forbidden'') else Inr d)"

definition respond :: "draft_env \<Rightarrow> draft \<times> draft list \<Rightarrow> draft_state \<Rightarrow> draft outcome \<times> draft_state" where
  "respond env saved st = (Inr (sanitizeForResponse env (fst saved)), st\<lparr>ds_drafts := snd saved\<rparr>)"

section \<open>Operations of the service\<close>

definition schedule_time :: "draft_env \<Rightarrow> string \<Rightarrow> string option \<Rightarrow> ms \<Rightarrow> ms outcome" where
  "schedule_time env scheduledFor timezone now =
     (case toUtcDate env scheduledFor timezone of
        Inl e \<Rightarrow> Inl e
      | Inr d \<Rightarrow> if d \<le> now then Inl future_error else Inr d)"

definition new_draft ::
  "draft_env \<Rightarrow> ident \<Rightarrow> int \<Rightarrow> string \<Rightarrow> string option \<Rightarrow> ms option \<Rightarrow> string option \<Rightarrow> ms \<Rightarrow> draft" where
  "new_draft env newId userId content category scheduledForUtc timezone now =
     \<lparr>df_id = newId, df_userId = userId, df_content = de_encrypt env content, df_category = category,
      df_scheduledFor = scheduledForUtc, df_timezone = timezone,
      df_status = (if scheduledForUtc = None then DRAFT else SCHEDULED), df_publishAttempts = 0,
      df_lastPublishError = None, df_createdAt = now, df_updatedAt = now, df_version = 1, df_revisions = []\<rparr>"

definition createDraft ::
  "draft_env \<Rightarrow> int \<Rightarrow> string \<Rightarrow> string option \<Rightarrow> string option \<Rightarrow> string option \<Rightarrow> ident \<Rightarrow> ms \<Rightarrow> draft_state \<Rightarrow>
     draft outcome \<times> draft_state" where
  "createDraft env userId content category scheduledFor timezone newId now st =
     (if count_drafts userId (ds_drafts st) \<ge> MAX_DRAFTS_PER_USER then (Inl limit_error, st)
      else case (if truthy scheduledFor
                 then map_sum id Some (schedule_time env (the scheduledFor) timezone now) else Inr None) of
        Inl e \<Rightarrow> (Inl e, st)
      | Inr scheduledForUtc \<Rightarrow>
          (let d = new_draft env newId userId content category scheduledForUtc timezone now
           in respond env (d, ds_drafts st @ [d]) st))"

definition listDrafts :: "draft_env \<Rightarrow> int \<Rightarrow> draft_state \<Rightarrow> draft list" where
  "listDrafts env userId st =
     map (sanitizeForResponse env) (order_desc df_updatedAt (filter (\<lambda>d. df_userId d = userId) (ds_drafts st)))"

definition getDraft :: "draft_env \<Rightarrow> int \<Rightarrow> ident \<Rightarrow> draft_state \<Rightarrow> draft outcome" where
  "getDraft env userId i st = map_sum id (sanitizeForResponse env) (own_draft userId i (ds_drafts st))"

record draft_patch =
  dp_content :: "string option"
  dp_category :: "string option"
  dp_version :: "nat option"

definition edit_draft :: "draft_env \<Rightarrow> draft_patch \<Rightarrow> ms \<Rightarrow> draft \<Rightarrow> draft" where
  "edit_draft env p now d =
     (let d1 = (case dp_content p of
                  None \<Rightarrow> d
                | Some content \<Rightarrow>
                    d\<lparr>df_revisions := take 10 (\<lparr>rev_content = df_content d, rev_version = df_version d, rev_createdAt = now\<rparr>
                                               # df_revisions d),
                      df_content := de_encrypt env content\<rparr>)
      in (case dp_category p of
            None \<Rightarrow> d1
          | Some category \<Rightarrow> d1\<lparr>df_category := (if category = [] then None else Some category)\<rparr>))"

definition updateDraft ::
  "draft_env \<Rightarrow> int \<Rightarrow> ident \<Rightarrow> draft_patch \<Rightarrow> ms \<Rightarrow> draft_state \<Rightarrow> draft outcome \<times> draft_state" where
  "updateDraft env userId i p now st =
     (case find_one (\<lambda>d. df_id d = i) (ds_drafts st) of
        None \<Rightarrow> (Inl (if dp_version p \<noteq> None then ConflictException ''remote_deleted''
                     else NotFoundException ''Draft not found''), st)
      | Some d \<Rightarrow>
          if df_userId d \<noteq> userId then (Inl (ForbiddenException ''Forbidden''), st)
          else if df_status d = POSTED then (Inl (BadRequestException ''Cannot edit a posted draft''), st)
          else if dp_version p \<noteq> None \<and> dp_version p \<noteq> Some (df_version d)
          then (Inl (ConflictException ''remote_updated''), st)
          else respond env (save_draft now (edit_draft env p now d) (ds_drafts st)) st)"

definition autoSaveDraft ::
  "draft_env \<Rightarrow> int \<Rightarrow> ident option \<Rightarrow> draft_patch \<Rightarrow> ident \<Rightarrow> ms \<Rightarrow> draft_state \<Rightarrow> draft outcome \<times> draft_state" where
  "autoSaveDraft env userId i p newId now st =
     (if truthy i then updateDraft env userId (the i) p now st
      else case dp_content p of
        None \<Rightarrow> (Inl (BadRequestException ''content is required''), st)
      | Some content \<Rightarrow>
          if js_trim content = [] then (Inl (BadRequestException ''content is required''), st)
          else createDraft env userId content (dp_category p) None None newId now st)"

definition deleteDraft :: "int \<Rightarrow> ident \<Rightarrow> draft_state \<Rightarrow> string outcome \<times> draft_state" where
  "deleteDraft userId i st =
     (case own_draft userId i (ds_drafts st) of
        Inl e \<Rightarrow> (Inl e, st)
      | Inr d \<Rightarrow> (Inr ''Draft deleted'', st\<lparr>ds_drafts := delete_where (\<lambda>x. df_id x = df_id d) (ds_drafts st)\<rparr>))"

definition deleteAllDrafts :: "int \<Rightarrow> draft_state \<Rightarrow> string outcome \<times> draft_state" where
  "deleteAllDrafts userId st =
     (Inr ''Drafts deleted'',
      st\<lparr>ds_drafts := fold (\<lambda>d. delete_where (\<lambda>x. df_id x = df_id d)) (filter (\<lambda>d. df_userId d = userId) (ds_drafts st))
                        (ds_drafts st)\<rparr>)"

definition scheduleDraft ::
  "draft_env \<Rightarrow> int \<Rightarrow> ident \<Rightarrow> string \<Rightarrow> string option \<Rightarrow> ms \<Rightarrow> draft_state \<Rightarrow> draft outcome \<times> draft_state" where
  "scheduleDraft env userId i scheduledFor timezone now st =
     (case own_draft userId i (ds_drafts st) of
        Inl e \<Rightarrow> (Inl e, st)
      | Inr d \<Rightarrow>
          if df_status d = POSTED then (Inl (BadRequestException ''Cannot schedule a posted draft''), st)
          else (case schedule_time env scheduledFor timezone now of
                  Inl e \<Rightarrow> (Inl e, st)
                | Inr scheduledUtc \<Rightarrow>
                    respond env (save_draft now (d\<lparr>df_scheduledFor := Some scheduledUtc,
                      df_timezone := (case timezone of None \<Rightarrow> df_timezone d | Some z \<Rightarrow> Some z),
                      df_status := SCHEDULED\<rparr>) (ds_drafts st)) st))"

definition cancelSchedule :: "draft_env \<Rightarrow> int \<Rightarrow> ident \<Rightarrow> ms \<Rightarrow> draft_state \<Rightarrow> draft outcome \<times> draft_state" where
  "cancelSchedule env userId i now st =
     (case own_draft userId i (ds_drafts st) of
        Inl e \<Rightarrow> (Inl e, st)
      | Inr d \<Rightarrow>
          if df_status d \<noteq> SCHEDULED then (Inl (BadRequestException ''Draft is not scheduled''), st)
          else respond env (save_draft now (d\<lparr>df_scheduledFor := None, df_status := DRAFT\<rparr>) (ds_drafts st)) st)"

text \<open>A draft becomes a confession: the message is created and the draft marked in one transaction.\<close>

definition posted :: "draft \<Rightarrow> draft" where
  "posted d = d\<lparr>df_status := POSTED, df_scheduledFor := None, df_publishAttempts := 0, df_lastPublishError := None\<rparr>"

definition publish_draft :: "draft_env \<Rightarrow> draft \<Rightarrow> ms \<Rightarrow> draft_state \<Rightarrow> draft outcome \<times> draft_state" where
  "publish_draft env d now st =
     (case de_create env (de_decrypt env (df_content d)) of
        Inl e \<Rightarrow> (Inl e, st)
      | Inr _ \<Rightarrow>
          respond env (save_draft now (posted d) (ds_drafts st))
            (st\<lparr>ds_confessions := ds_confessions st @ [de_decrypt env (df_content d)]\<rparr>))"

definition read_to_publish :: "int \<Rightarrow> ident \<Rightarrow> draft_state \<Rightarrow> draft outcome" where
  "read_to_publish userId i st =
     (case own_draft userId i (ds_drafts st) of
        Inl e \<Rightarrow> Inl e
      | Inr d \<Rightarrow> if df_status d = POSTED then Inl (BadRequestException ''Draft already posted'') else Inr d)"

definition publishNow :: "draft_env \<Rightarrow> int \<Rightarrow> ident \<Rightarrow> ms \<Rightarrow> draft_state \<Rightarrow> draft outcome \<times> draft_state" where
  "publishNow env userId i now st =
     (case read_to_publish userId i st of Inl e \<Rightarrow> (Inl e, st) | Inr d \<Rightarrow> publish_draft env d now st)"

definition convertPostedToDraft :: "draft_env \<Rightarrow> int \<Rightarrow> ident \<Rightarrow> ms \<Rightarrow> draft_state \<Rightarrow> draft outcome \<times> draft_state" where
  "convertPostedToDraft env userId i now st =
     (case own_draft userId i (ds_drafts st) of
        Inl e \<Rightarrow> (Inl e, st)
      | Inr d \<Rightarrow>
          if df_status d \<noteq> POSTED then (Inl (BadRequestException ''Only posted drafts can be converted''), st)
          else if count_drafts userId (ds_drafts st) \<ge> MAX_DRAFTS_PER_USER then (Inl limit_error, st)
          else respond env (save_draft now (d\<lparr>df_status := DRAFT, df_scheduledFor := None, df_lastPublishError := None,
                 df_publishAttempts := 0\<rparr>) (ds_drafts st)) st)"

section \<open>The worker\<close>

definition due :: "ms \<Rightarrow> draft \<Rightarrow> bool" where
  "due now d \<longleftrightarrow> df_status d = SCHEDULED \<and>
     (case df_scheduledFor d of None \<Rightarrow> False | Some s \<Rightarrow> s \<le> now) \<and> df_publishAttempts d < MAX_PUBLISH_ATTEMPTS"

definition enqueueDueDraftIds :: "ms \<Rightarrow> draft_state \<Rightarrow> ident list" where
  "enqueueDueDraftIds now st =
     map df_id (take 200 (order_asc (\<lambda>d. nullish (df_scheduledFor d) 0) (filter (due now) (ds_drafts st))))"

text \<open>The body of the transaction, then the transaction: the catch saves the failed attempt and
  rethrows, which undoes that save as well.\<close>

definition publish_scheduled_body :: "draft_env \<Rightarrow> ident \<Rightarrow> ms \<Rightarrow> draft_state \<Rightarrow> unit outcome \<times> draft_state" where
  "publish_scheduled_body env draftId now st =
     (case find_one (\<lambda>d. df_id d = draftId) (ds_drafts st) of
        None \<Rightarrow> (Inr (), st)
      | Some d \<Rightarrow>
          if \<not> due now d then (Inr (), st)
          else (case publish_draft env d now st of
                  (Inr _, st') \<Rightarrow> (Inr (), st')
                | (Inl e, st') \<Rightarrow>
                    (Inl e, st'\<lparr>ds_drafts := snd (save_draft now
                       (d\<lparr>df_publishAttempts := df_publishAttempts d + 1, df_lastPublishError := Some (exn_message e)\<rparr>)
                       (ds_drafts st'))\<rparr>)))"

definition transaction :: "('s \<Rightarrow> 'a outcome \<times> 's) \<Rightarrow> 's \<Rightarrow> 'a outcome \<times> 's" where
  "transaction body st = (case body st of (Inl e, _) \<Rightarrow> (Inl e, st) | (Inr x, st') \<Rightarrow> (Inr x, st'))"

definition publishScheduledDraftById :: "draft_env \<Rightarrow> ident \<Rightarrow> ms \<Rightarrow> draft_state \<Rightarrow> unit outcome \<times> draft_state" where
  "publishScheduledDraftById env draftId now st = transaction (publish_scheduled_body env draftId now) st"

text \<open>The queue worker: \<open>publish-due\<close> adds one job per due draft, \<open>publish-one\<close> publishes.\<close>

datatype draft_job = Publish_due | Publish_one "ident option"

definition draft_worker :: "draft_env \<Rightarrow> draft_job \<Rightarrow> ms \<Rightarrow> draft_state \<Rightarrow> draft_job list outcome \<times> draft_state" where
  "draft_worker env job now st =
     (case job of
        Publish_due \<Rightarrow> (Inr (map (\<lambda>i. Publish_one (Some i)) (enqueueDueDraftIds now st)), st)
      | Publish_one i \<Rightarrow>
          if \<not> truthy i then (Inr [], st)
          else (case publishScheduledDraftById env (the i) now st of
                  (Inl e, st') \<Rightarrow> (Inl e, st') | (Inr _, st') \<Rightarrow> (Inr [], st')))"

section \<open>Stored confessions on a schedule\<close>

record scheduled_confession =
  sf_id :: ident
  sf_anonymousUserId :: ident
  sf_status :: string
  sf_publishAt :: "ms option"
  sf_created_at :: ms

datatype cache_effect = CacheDel ident | CacheDelList

definition due_confession :: "ms \<Rightarrow> scheduled_confession \<Rightarrow> bool" where
  "due_confession now c \<longleftrightarrow> sf_status c = ''scheduled'' \<and> (case sf_publishAt c of None \<Rightarrow> False | Some p \<Rightarrow> p \<le> now)"

text \<open>One guarded \<open>UPDATE\<close> of the loop; \<open>fails\<close> says for which rows it throws.  A statement that fails
  aborts the PostgreSQL transaction: the loop goes on, but every later statement throws too, and the
  commit at the end rolls back.\<close>

record publish_run =
  pr_rows :: "scheduled_confession list"
  pr_publishedIds :: "ident list"
  pr_aborted :: bool

definition publish_one_confession :: "(ident \<Rightarrow> bool) \<Rightarrow> ms \<Rightarrow> scheduled_confession \<Rightarrow> publish_run \<Rightarrow> publish_run" where
  "publish_one_confession fails now c r =
     (if pr_aborted r \<or> fails (sf_id c) then r\<lparr>pr_aborted := True\<rparr>
      else let hit = (\<lambda>x. sf_id x = sf_id c \<and> sf_status x = ''scheduled'') in
        r\<lparr>pr_rows := update_where hit (\<lambda>x. x\<lparr>sf_status := ''published'', sf_created_at := now\<rparr>) (pr_rows r),
          pr_publishedIds := (if affected hit (pr_rows r) > 0 then pr_publishedIds r @ [sf_id c] else pr_publishedIds r)\<rparr>)"

definition invalidatePublishedCache :: "bool \<Rightarrow> ident list \<Rightarrow> cache_effect list" where
  "invalidatePublishedCache has_cache publishedIds =
     (if \<not> has_cache \<or> publishedIds = [] then [] else map CacheDel publishedIds @ [CacheDelList])"

definition publishScheduledConfessions ::
  "bool \<Rightarrow> (ident \<Rightarrow> bool) \<Rightarrow> ms \<Rightarrow> scheduled_confession list \<Rightarrow> scheduled_confession list \<times> ident list \<times> cache_effect list" where
  "publishScheduledConfessions has_cache fails now t =
     (let r = fold (publish_one_confession fails now) (filter (due_confession now) t)
                \<lparr>pr_rows = t, pr_publishedIds = [], pr_aborted = False\<rparr>
      in (if pr_aborted r then t else pr_rows r, pr_publishedIds r, invalidatePublishedCache has_cache (pr_publishedIds r)))"

definition scheduleConfession ::
  "ident \<Rightarrow> ms \<Rightarrow> ms \<Rightarrow> scheduled_confession list \<Rightarrow> scheduled_confession outcome \<times> scheduled_confession list" where
  "scheduleConfession confessionId publishAt now t =
     (case find_one (\<lambda>c. sf_id c = confessionId) t of
        None \<Rightarrow> (Inl (PlainError ''Confession not found''), t)
      | Some c \<Rightarrow>
          if publishAt \<le> now then (Inl (PlainError ''Publish date must be in the future''), t)
          else let c' = c\<lparr>sf_status := ''scheduled'', sf_publishAt := Some publishAt\<rparr> in (Inr c', save_row sf_id c' t))"

definition cancel_scheduled_confession ::
  "ident \<Rightarrow> scheduled_confession list \<Rightarrow> scheduled_confession outcome \<times> scheduled_confession list" where
  "cancel_scheduled_confession confessionId t =
     (case find_one (\<lambda>c. sf_id c = confessionId) t of
        None \<Rightarrow> (Inl (PlainError ''Confession not found''), t)
      | Some c \<Rightarrow> (let c' = c\<lparr>sf_status := ''draft'', sf_publishAt := None\<rparr> in (Inr c', save_row sf_id c' t)))"

definition getScheduledConfessions :: "ident \<Rightarrow> scheduled_confession list \<Rightarrow> scheduled_confession list" where
  "getScheduledConfessions userId t =
     (let rows = filter (\<lambda>c. sf_anonymousUserId c = userId \<and> sf_status c = ''scheduled'') t in
      order_asc (\<lambda>c. nullish (sf_publishAt c) 0) (filter (\<lambda>c. sf_publishAt c \<noteq> None) rows) @
      filter (\<lambda>c. sf_publishAt c = None) rows)"

section \<open>What the operations keep\<close>

definition history_ok :: "nat \<Rightarrow> revision list \<Rightarrow> bool" where
  "history_ok v rs \<longleftrightarrow> length rs \<le> 10 \<and> sorted_wrt (>) (v # map rev_version rs)"

definition draft_ok :: "draft \<Rightarrow> bool" where
  "draft_ok d \<longleftrightarrow> (df_status d = SCHEDULED \<longleftrightarrow> df_scheduledFor d \<noteq> None) \<and> history_ok (df_version d) (df_revisions d) \<and>
     df_publishAttempts d = 0"

lemma history_ok_Suc: "history_ok v rs \<Longrightarrow> history_ok (Suc v) rs"
  by (auto simp: history_ok_def)

lemma history_ok_push:
  "history_ok v rs \<Longrightarrow> history_ok (Suc v) (\<lparr>rev_content = c, rev_version = v, rev_createdAt = t\<rparr> # take 9 rs)"
  by (fastforce simp: history_ok_def take_map[symmetric] intro: sorted_wrt_take less_SucI dest!: in_set_takeD)

definition drafts_inv :: "draft_state \<Rightarrow> bool" where
  "drafts_inv st \<longleftrightarrow> distinct (map df_id (ds_drafts st)) \<and> list_all draft_ok (ds_drafts st) \<and>
     (\<forall>u. count_drafts u (ds_drafts st) \<le> MAX_DRAFTS_PER_USER)"

text \<open>What an operation on behalf of user \<open>u\<close> must leave alone.\<close>

definition others :: "int \<Rightarrow> draft list \<Rightarrow> draft list" where
  "others u t = filter (\<lambda>d. df_userId d \<noteq> u) t"

lemma filter_map_id:
  "(\<And>x. x \<in> set t \<Longrightarrow> P (g x) = P x) \<Longrightarrow> (\<And>x. x \<in> set t \<Longrightarrow> P x \<Longrightarrow> g x = x) \<Longrightarrow> filter P (map g t) = filter P t"
  by (induction t) auto

lemma count_drafts_map: "map df_userId t' = map df_userId t \<Longrightarrow> count_drafts u t' = count_drafts u t"
proof -
  assume eq: "map df_userId t' = map df_userId t"
  have "count_drafts u x = length (filter (\<lambda>v. v = u) (map df_userId x))" for x
    by (simp add: count_drafts_def filter_map comp_def)
  then show ?thesis using eq by metis
qed

lemma own_draft_ok: "own_draft u i t = Inr d \<Longrightarrow> d \<in> set t \<and> df_id d = i \<and> df_userId d = u"
  by (auto simp: own_draft_def dest: find_one_SomeD split: option.splits if_splits)

lemma save_draft_rows:
  assumes "distinct (map df_id t)" "d \<in> set t" "df_id d' = df_id d" "df_userId d' = df_userId d"
  shows "\<exists>g. snd (save_draft now d' t) = map g t \<and> (\<forall>x \<in> set t. df_id x \<noteq> df_id d \<longrightarrow> g x = x) \<and>
     (g d = d \<or> g d = d'\<lparr>df_version := df_version d' + 1, df_updatedAt := now\<rparr>)"
proof (cases "d' \<in> set t")
  case True
  with assms have "d' = d" by (metis distinct_keys_eq)
  with True show ?thesis by (intro exI[of _ id]) (simp add: save_draft_def)
next
  case False
  let ?d = "d'\<lparr>df_version := df_version d' + 1, df_updatedAt := now\<rparr>"
  have "snd (save_draft now d' t) = map (\<lambda>x. if df_id x = df_id d then ?d else x) t"
    using False assms by (auto simp: save_draft_def save_row_def update_where_def Let_def)
  then show ?thesis by (intro exI[of _ "\<lambda>x. if df_id x = df_id d then ?d else x"]) simp
qed

text \<open>Saving an edited draft of the user keeps the invariant and every draft of the others.\<close>

lemma save_draft_keeps:
  assumes inv: "drafts_inv st" and d: "d \<in> set (ds_drafts st)" "df_userId d = u"
    and d': "df_id d' = df_id d" "df_userId d' = df_userId d"
      "draft_ok (d'\<lparr>df_version := df_version d' + 1, df_updatedAt := now\<rparr>)"
    and st': "ds_drafts st' = snd (save_draft now d' (ds_drafts st))"
  shows "drafts_inv st' \<and> others u (ds_drafts st') = others u (ds_drafts st)"
proof -
  have dist: "distinct (map df_id (ds_drafts st))" using inv by (simp add: drafts_inv_def)
  from save_draft_rows[OF dist d(1) d'(1,2), of now] obtain g where
    g: "ds_drafts st' = map g (ds_drafts st)" "\<forall>x \<in> set (ds_drafts st). df_id x \<noteq> df_id d \<longrightarrow> g x = x"
      "g d = d \<or> g d = d'\<lparr>df_version := df_version d' + 1, df_updatedAt := now\<rparr>"
    unfolding st' by blast
  have row: "g x = x \<or> x = d" if "x \<in> set (ds_drafts st)" for x
    using g(2) that dist d(1) by (metis distinct_keys_eq)
  have gd: "df_id (g d) = df_id d" "df_userId (g d) = df_userId d" "draft_ok (g d)"
    using g(3) d' d(1) inv by (auto simp: drafts_inv_def list_all_iff)
  have col: "df_id (g x) = df_id x \<and> df_userId (g x) = df_userId x \<and> draft_ok (g x)" if x: "x \<in> set (ds_drafts st)" for x
  proof (cases "x = d")
    case False
    then have "g x = x" using row[OF x] by simp
    then show ?thesis using inv x by (simp add: drafts_inv_def list_all_iff)
  qed (use gd in simp)
  have ids: "map df_id (ds_drafts st') = map df_id (ds_drafts st)" using col by (simp add: g(1))
  have users: "map df_userId (ds_drafts st') = map df_userId (ds_drafts st)" using col by (simp add: g(1))
  have "list_all draft_ok (ds_drafts st')" using col by (auto simp: g(1) list_all_iff)
  moreover have "others u (ds_drafts st') = others u (ds_drafts st)"
    unfolding others_def g(1) by (rule filter_map_id) (use col row d(2) in \<open>simp, metis\<close>)
  ultimately show ?thesis using inv ids count_drafts_map[OF users] by (simp add: drafts_inv_def)
qed

lemma respond_drafts [simp]:
  "ds_drafts (snd (respond env sv st)) = snd sv" "ds_confessions (snd (respond env sv st)) = ds_confessions st"
  by (simp_all add: respond_def)

text \<open>An operation of user \<open>u\<close> keeps the invariant and leaves everyone else's drafts alone.\<close>

definition keeps :: "int \<Rightarrow> draft_state \<Rightarrow> draft_state \<Rightarrow> bool" where
  "keeps u st st' \<longleftrightarrow> drafts_inv st' \<and> others u (ds_drafts st') = others u (ds_drafts st)"

lemma keeps_refl [simp]: "drafts_inv st \<Longrightarrow> keeps u st st"
  by (simp add: keeps_def)

lemma keeps_save:
  assumes "drafts_inv st" "d \<in> set (ds_drafts st)" "df_userId d = u"
    "df_id d' = df_id d" "df_userId d' = df_userId d"
    "draft_ok (d'\<lparr>df_version := df_version d' + 1, df_updatedAt := now\<rparr>)" "ds_drafts st0 = ds_drafts st"
  shows "keeps u st (snd (respond env (save_draft now d' (ds_drafts st)) st0))"
  unfolding keeps_def by (rule save_draft_keeps[OF assms(1-6)]) simp

lemma inv_row_ok: "drafts_inv st \<Longrightarrow> d \<in> set (ds_drafts st) \<Longrightarrow> draft_ok d"
  by (simp add: drafts_inv_def list_all_iff)

lemma own_draft_inv: "own_draft u i (ds_drafts st) = Inr d \<Longrightarrow> drafts_inv st \<Longrightarrow>
    d \<in> set (ds_drafts st) \<and> df_id d = i \<and> df_userId d = u \<and> draft_ok d"
  using own_draft_ok inv_row_ok by blast

lemma keeps_create:
  assumes inv: "drafts_inv st" and fresh: "newId \<notin> df_id ` set (ds_drafts st)"
  shows "keeps u st (snd (createDraft env u c cat s z newId now st))"
proof (cases "snd (createDraft env u c cat s z newId now st) = st")
  case False
  then obtain w where room: "count_drafts u (ds_drafts st) < MAX_DRAFTS_PER_USER"
    and st': "ds_drafts (snd (createDraft env u c cat s z newId now st)) = ds_drafts st @ [new_draft env newId u c cat w z now]"
    by (auto simp: createDraft_def Let_def split: sum.splits if_splits)
  have cnt: "count_drafts v (ds_drafts st @ [new_draft env newId u c cat w z now]) \<le> MAX_DRAFTS_PER_USER" for v
    using inv room by (cases "v = u") (auto simp: drafts_inv_def count_drafts_def new_draft_def)
  show ?thesis
    using inv fresh cnt unfolding keeps_def drafts_inv_def st' others_def
    by (auto simp: new_draft_def draft_ok_def history_ok_def)
qed (use inv in simp)

lemma edit_draft_keeps:
  "df_id (edit_draft env p now d) = df_id d" "df_userId (edit_draft env p now d) = df_userId d"
  "df_version (edit_draft env p now d) = df_version d" "df_status (edit_draft env p now d) = df_status d"
  "draft_ok d \<Longrightarrow> draft_ok ((edit_draft env p now d)\<lparr>df_version := df_version d + 1, df_updatedAt := now\<rparr>)"
  by (auto simp: edit_draft_def draft_ok_def Let_def history_ok_Suc history_ok_push split: option.splits)

lemma edit_draft_content:
  assumes "dp_content p = Some c"
  shows "df_content (edit_draft env p now d) = de_encrypt env c"
    "df_revisions (edit_draft env p now d) =
       \<lparr>rev_content = df_content d, rev_version = df_version d, rev_createdAt = now\<rparr> # take 9 (df_revisions d)"
  using assms by (auto simp: edit_draft_def Let_def split: option.splits)

lemma keeps_update:
  assumes inv: "drafts_inv st" shows "keeps u st (snd (updateDraft env u i p now st))"
  using inv by (auto simp: updateDraft_def edit_draft_keeps inv_row_ok intro!: keeps_save
      edit_draft_keeps(5)[simplified] dest!: find_one_SomeD split: option.splits)

lemma keeps_autoSave:
  assumes "drafts_inv st" "newId \<notin> df_id ` set (ds_drafts st)"
  shows "keeps u st (snd (autoSaveDraft env u i p newId now st))"
  using assms by (simp add: autoSaveDraft_def keeps_update keeps_create split: option.splits)

lemma keeps_filter:
  assumes inv: "drafts_inv st" and own: "\<And>d. d \<in> set (ds_drafts st) \<Longrightarrow> df_userId d \<noteq> u \<Longrightarrow> P d"
  shows "keeps u st (st\<lparr>ds_drafts := filter P (ds_drafts st)\<rparr>)"
proof -
  have "count_drafts v (filter P t) \<le> count_drafts v t" for v t
    by (simp add: count_drafts_def filter_filter conj_commute[of "P _"]) (metis filter_filter length_filter_le)
  moreover have "others u (filter P (ds_drafts st)) = others u (ds_drafts st)"
    using own unfolding others_def filter_filter by (intro filter_cong) auto
  ultimately show ?thesis using inv
    by (auto simp: keeps_def drafts_inv_def list_all_iff distinct_map_filter) (meson order_trans)
qed

lemma keeps_delete:
  assumes inv: "drafts_inv st" shows "keeps u st (snd (deleteDraft u i st))"
proof (cases "own_draft u i (ds_drafts st)")
  case (Inr d)
  have dist: "distinct (map df_id (ds_drafts st))" using inv by (simp add: drafts_inv_def)
  have "keeps u st (st\<lparr>ds_drafts := filter (\<lambda>x. df_id x \<noteq> df_id d) (ds_drafts st)\<rparr>)"
    by (rule keeps_filter[OF inv]) (use own_draft_ok[OF Inr] dist in \<open>metis distinct_keys_eq\<close>)
  then show ?thesis using Inr by (simp add: deleteDraft_def delete_where_def)
qed (use inv in \<open>simp add: deleteDraft_def\<close>)

lemma fold_delete:
  "fold (\<lambda>d. delete_where (\<lambda>x. df_id x = df_id d)) ds t = filter (\<lambda>x. df_id x \<notin> df_id ` set ds) t"
  by (induction ds arbitrary: t) (auto simp: delete_where_def intro: filter_cong)

lemma keeps_deleteAll:
  assumes inv: "drafts_inv st" shows "keeps u st (snd (deleteAllDrafts u st))"
proof -
  have dist: "distinct (map df_id (ds_drafts st))" using inv by (simp add: drafts_inv_def)
  have "keeps u st (st\<lparr>ds_drafts := filter (\<lambda>x. df_id x \<notin> df_id ` set (filter (\<lambda>d. df_userId d = u) (ds_drafts st))) (ds_drafts st)\<rparr>)"
    by (rule keeps_filter[OF inv]) (use dist in \<open>auto dest: distinct_keys_eq\<close>)
  then show ?thesis by (simp add: deleteAllDrafts_def fold_delete)
qed

lemma keeps_schedule:
  assumes inv: "drafts_inv st" shows "keeps u st (snd (scheduleDraft env u i s z now st))"
  using inv by (auto simp: scheduleDraft_def draft_ok_def history_ok_Suc intro!: keeps_save
      dest!: own_draft_inv split: sum.splits option.splits)

lemma keeps_cancel:
  assumes inv: "drafts_inv st" shows "keeps u st (snd (cancelSchedule env u i now st))"
  using inv by (auto simp: cancelSchedule_def draft_ok_def history_ok_Suc intro!: keeps_save
      dest!: own_draft_inv split: sum.splits)

lemma keeps_convert:
  assumes inv: "drafts_inv st" shows "keeps u st (snd (convertPostedToDraft env u i now st))"
  using inv by (auto simp: convertPostedToDraft_def draft_ok_def history_ok_Suc intro!: keeps_save
      dest!: own_draft_inv split: sum.splits)

lemma keeps_publish_draft:
  assumes "drafts_inv st" "d \<in> set (ds_drafts st)"
  shows "keeps (df_userId d) st (snd (publish_draft env d now st))"
  using assms inv_row_ok[OF assms]
  by (auto simp: publish_draft_def posted_def draft_ok_def history_ok_Suc intro!: keeps_save split: sum.splits)

lemma keeps_publishNow:
  assumes inv: "drafts_inv st" shows "keeps u st (snd (publishNow env u i now st))"
  using inv by (auto simp: publishNow_def read_to_publish_def dest!: own_draft_ok
      intro: keeps_publish_draft split: sum.splits if_splits)

text \<open>What one run of the worker on a draft does.\<close>

lemma publishScheduled_cases:
  "publishScheduledDraftById env i now st =
     (case find_one (\<lambda>d. df_id d = i) (ds_drafts st) of
        None \<Rightarrow> (Inr (), st)
      | Some d \<Rightarrow>
          if \<not> due now d then (Inr (), st)
          else (case de_create env (de_decrypt env (df_content d)) of
                  Inl e \<Rightarrow> (Inl e, st)
                | Inr _ \<Rightarrow> (Inr (), snd (publish_draft env d now st))))"
  by (simp add: publishScheduledDraftById_def transaction_def publish_scheduled_body_def publish_draft_def respond_def
      split: option.splits sum.splits)

lemma worker_keeps_inv:
  assumes inv: "drafts_inv st" shows "drafts_inv (snd (publishScheduledDraftById env i now st))"
proof -
  have "drafts_inv (snd (publish_draft env d now st))" if "find_one (\<lambda>d. df_id d = i) (ds_drafts st) = Some d" for d
    using keeps_publish_draft[OF inv, of d] find_one_SomeD[OF that] by (simp add: keeps_def)
  then show ?thesis using inv by (simp add: publishScheduled_cases split: option.splits sum.splits)
qed

section \<open>Reachable states\<close>

text \<open>One request of a user, or one job of the worker (\<open>None\<close>).  Ids of new drafts are fresh.\<close>

inductive draft_step :: "draft_env \<Rightarrow> int option \<Rightarrow> draft_state \<Rightarrow> draft_state \<Rightarrow> bool" for env where
  create: "newId \<notin> df_id ` set (ds_drafts st) \<Longrightarrow>
     draft_step env (Some u) st (snd (createDraft env u c cat s z newId now st))"
| update: "draft_step env (Some u) st (snd (updateDraft env u i p now st))"
| autoSave: "newId \<notin> df_id ` set (ds_drafts st) \<Longrightarrow>
     draft_step env (Some u) st (snd (autoSaveDraft env u oi p newId now st))"
| delete: "draft_step env (Some u) st (snd (deleteDraft u i st))"
| deleteAll: "draft_step env (Some u) st (snd (deleteAllDrafts u st))"
| schedule: "draft_step env (Some u) st (snd (scheduleDraft env u i sf z now st))"
| cancel: "draft_step env (Some u) st (snd (cancelSchedule env u i now st))"
| publish: "draft_step env (Some u) st (snd (publishNow env u i now st))"
| convert: "draft_step env (Some u) st (snd (convertPostedToDraft env u i now st))"
| worker: "draft_step env None st (snd (draft_worker env job now st))"

inductive_cases draft_step_user: "draft_step env (Some u) st st'"
inductive_cases draft_step_worker: "draft_step env None st st'"

inductive drafts_reachable :: "draft_env \<Rightarrow> draft_state \<Rightarrow> bool" for env where
  start: "drafts_reachable env \<lparr>ds_drafts = [], ds_confessions = cs\<rparr>"
| step: "drafts_reachable env st \<Longrightarrow> draft_step env who st st' \<Longrightarrow> drafts_reachable env st'"

lemmas draft_keeps = keeps_create keeps_update keeps_autoSave keeps_delete keeps_deleteAll keeps_schedule
  keeps_cancel keeps_publishNow keeps_convert

lemma user_step_keeps: "draft_step env (Some u) st st' \<Longrightarrow> drafts_inv st \<Longrightarrow> keeps u st st'"
  by (erule draft_step_user) (simp_all add: draft_keeps)

lemma draft_worker_keeps_inv:
  assumes "drafts_inv st" shows "drafts_inv (snd (draft_worker env job now st))"
  using assms worker_keeps_inv[OF assms, of env _ now]
  by (auto simp: draft_worker_def split: draft_job.splits prod.splits sum.splits) (metis snd_conv)+

lemma step_keeps_inv:
  assumes "draft_step env who st st'" "drafts_inv st" shows "drafts_inv st'"
  using assms user_step_keeps[of env _ st st']
  by (cases who) (auto simp: keeps_def draft_worker_keeps_inv elim: draft_step_worker)

lemma reachable_inv: "drafts_reachable env st \<Longrightarrow> drafts_inv st"
proof (induction rule: drafts_reachable.induct)
  case (start cs) then show ?case by (simp add: drafts_inv_def count_drafts_def)
next
  case (step st who st') then show ?case using step_keeps_inv by blast
qed

text \<open>Looking up the row just saved.\<close>

lemma find_after_save:
  assumes inv: "drafts_inv st" and f: "find_one (\<lambda>d. df_id d = i) (ds_drafts st) = Some d"
    and d': "df_id d' = df_id d" "d' \<noteq> d"
  shows "find_one (\<lambda>d. df_id d = i) (snd (save_draft now d' (ds_drafts st))) =
    Some (d'\<lparr>df_version := df_version d' + 1, df_updatedAt := now\<rparr>)"
proof -
  have d: "d \<in> set (ds_drafts st)" "df_id d = i" using find_one_SomeD[OF f] by auto
  have "d' \<notin> set (ds_drafts st)" using inv d d' by (metis distinct_keys_eq drafts_inv_def)
  moreover have "find_one (\<lambda>x. df_id x = i) (save_row df_id (r :: draft) t) = Some r"
    if "find_one (\<lambda>x. df_id x = i) t = Some d" "df_id r = i" for r t
    using that d(2) by (induction t) (auto simp: find_one_def save_row_def update_where_def split: if_splits)
  ultimately show ?thesis using f d d' by (simp add: save_draft_def Let_def)
qed

lemma posted_status [simp]: "df_status (posted d) = POSTED" "df_id (posted d) = df_id d"
  by (simp_all add: posted_def)

lemma posted_differs: "due now d \<Longrightarrow> posted d \<noteq> d"
  unfolding due_def by (metis draft_status.distinct(5) posted_status(1))

abbreviation worker_runs :: "draft_env \<Rightarrow> ident \<Rightarrow> ms list \<Rightarrow> draft_state \<Rightarrow> draft_state" where
  "worker_runs env i nows st \<equiv> fold (\<lambda>now st. snd (publishScheduledDraftById env i now st)) nows st"

lemma worker_runs_idle:
  assumes "\<And>now. snd (publishScheduledDraftById env i now st) = st"
  shows "worker_runs env i nows st = st"
  using assms by (induction nows) auto

subsection \<open>The loop over due confessions\<close>

lemma fold_aborted: "fold (publish_one_confession fails now) cs (r\<lparr>pr_aborted := True\<rparr>) = r\<lparr>pr_aborted := True\<rparr>"
  by (induction cs) (auto simp: publish_one_confession_def)

abbreviation published_row :: "ms \<Rightarrow> scheduled_confession \<Rightarrow> scheduled_confession" where
  "published_row now x \<equiv> x\<lparr>sf_status := ''published'', sf_created_at := now\<rparr>"

text \<open>Over rows that are all still scheduled, the loop marks exactly them, unless a statement fails.\<close>

lemma publish_loop:
  assumes "distinct (map sf_id cs)" "\<not> pr_aborted r"
    and "\<And>c. c \<in> set cs \<Longrightarrow> \<exists>x \<in> set (pr_rows r). sf_id x = sf_id c \<and> sf_status x = ''scheduled''"
  shows "pr_publishedIds (fold (publish_one_confession fails now) cs r) =
       pr_publishedIds r @ takeWhile (\<lambda>i. \<not> fails i) (map sf_id cs) \<and>
     pr_aborted (fold (publish_one_confession fails now) cs r) = list_ex (\<lambda>c. fails (sf_id c)) cs \<and>
     (\<not> list_ex (\<lambda>c. fails (sf_id c)) cs \<longrightarrow> pr_rows (fold (publish_one_confession fails now) cs r) =
       update_where (\<lambda>x. sf_id x \<in> sf_id ` set cs \<and> sf_status x = ''scheduled'') (published_row now) (pr_rows r))"
  using assms
proof (induction cs arbitrary: r)
  case Nil then show ?case by (simp add: update_where_def)
next
  case (Cons c cs)
  let ?r = "publish_one_confession fails now c r"
  show ?case
  proof (cases "fails (sf_id c)")
    case True
    then have "?r = r\<lparr>pr_aborted := True\<rparr>" by (simp add: publish_one_confession_def)
    with True show ?thesis by (simp add: fold_aborted)
  next
    case False
    let ?hit = "\<lambda>x. sf_id x = sf_id c \<and> sf_status x = ''scheduled''"
    have "0 < affected ?hit (pr_rows r)" using Cons.prems(3)[of c] by (simp add: affected_pos_iff)
    then have r: "?r = r\<lparr>pr_rows := update_where ?hit (published_row now) (pr_rows r),
        pr_publishedIds := pr_publishedIds r @ [sf_id c]\<rparr>"
      using False Cons.prems(2) by (simp add: publish_one_confession_def Let_def)
    have later: "\<exists>x \<in> set (pr_rows ?r). sf_id x = sf_id c' \<and> sf_status x = ''scheduled''" if c': "c' \<in> set cs" for c'
    proof -
      obtain x where "x \<in> set (pr_rows r)" "sf_id x = sf_id c'" "sf_status x = ''scheduled''"
        using Cons.prems(3)[of c'] c' by force
      moreover have "sf_id c' \<noteq> sf_id c" using c' Cons.prems(1) by (metis distinct.simps(2) image_eqI list.set_map list.simps(9))
      ultimately show ?thesis unfolding r by (force simp: update_where_def)
    qed
    have compose: "update_where (\<lambda>x. sf_id x \<in> sf_id ` set cs \<and> sf_status x = ''scheduled'') (published_row now)
        (update_where ?hit (published_row now) t) =
      update_where (\<lambda>x. sf_id x \<in> sf_id ` set (c # cs) \<and> sf_status x = ''scheduled'') (published_row now) t" for t
      by (induction t) auto
    show ?thesis using Cons.IH[of ?r] Cons.prems(1,2) later False compose by (simp add: r)
  qed
qed

section \<open>Properties\<close>


definition sample_env :: draft_env where
  "sample_env = \<lparr>de_encrypt = (\<lambda>s. CHR ''*'' # s), de_decrypt = tl,
     de_parse = (\<lambda>s z. Some (int (length s) * 100)),
     de_create = (\<lambda>m. if m = ''spam'' then Inl (BadRequestException ''blocked'') else Inr ())\<rparr>"

definition sample_drafts :: draft_state where
  "sample_drafts = snd (createDraft sample_env 7 ''hello'' None (Some ''later'') None ''d1'' 10
     \<lparr>ds_drafts = [], ds_confessions = []\<rparr>)"

lemma sample_reachable: "drafts_reachable sample_env sample_drafts"
  unfolding sample_drafts_def
  by (rule drafts_reachable.step[OF drafts_reachable.start draft_step.create]) simp


text \<open>A request of user \<open>u\<close>, whichever operation it is and whether it succeeds or fails, leaves
  the drafts of every other user exactly as they were.\<close>

theorem drafts_isolated:
  assumes "drafts_reachable env st" "draft_step env (Some u) st st'"
  shows "filter (\<lambda>d. df_userId d \<noteq> u) (ds_drafts st') = filter (\<lambda>d. df_userId d \<noteq> u) (ds_drafts st)"
  using user_step_keeps[OF assms(2) reachable_inv[OF assms(1)]] by (simp add: keeps_def others_def)

theorem drafts_isolated_witness:
  "filter (\<lambda>d. df_userId d \<noteq> 8) (ds_drafts (snd (deleteDraft 8 ''d1'' sample_drafts))) =
   filter (\<lambda>d. df_userId d \<noteq> 8) (ds_drafts sample_drafts) \<and>
   filter (\<lambda>d. df_userId d \<noteq> 8) (ds_drafts sample_drafts) \<noteq> []"
proof -
  have "filter (\<lambda>d. df_userId d \<noteq> 8) (ds_drafts sample_drafts) \<noteq> []" by code_simp
  then show ?thesis using drafts_isolated[OF sample_reachable draft_step.delete] by blast
qed

text \<open>C19: a due draft is published by the worker exactly once: the run that succeeds adds its text to
  the confessions and marks the draft posted, and no later run of the worker on it, at any time, adds
  a second confession or touches the draft again.\<close>

theorem scheduled_published_once:
  assumes r: "drafts_reachable env st" and f: "find_one (\<lambda>d. df_id d = i) (ds_drafts st) = Some d"
    and due: "due now d" and ok: "de_create env (de_decrypt env (df_content d)) = Inr ()"
  shows "ds_confessions (worker_runs env i (now # nows) st) = ds_confessions st @ [de_decrypt env (df_content d)] \<and>
    find_one (\<lambda>d. df_id d = i) (ds_drafts (worker_runs env i (now # nows) st)) =
      Some ((posted d)\<lparr>df_version := df_version d + 1, df_updatedAt := now\<rparr>)"
proof -
  let ?st = "snd (publishScheduledDraftById env i now st)"
  let ?d = "(posted d)\<lparr>df_version := df_version d + 1, df_updatedAt := now\<rparr>"
  have st: "?st = snd (publish_draft env d now st)" using f due ok by (simp add: publishScheduled_cases)
  have c: "ds_confessions ?st = ds_confessions st @ [de_decrypt env (df_content d)]"
    unfolding st using ok by (simp add: publish_draft_def)
  have p: "find_one (\<lambda>d. df_id d = i) (ds_drafts ?st) = Some ?d"
    unfolding st using ok find_after_save[OF reachable_inv[OF r] f, of "posted d" now] posted_differs[OF due]
    by (simp add: publish_draft_def posted_def)
  have "snd (publishScheduledDraftById env i t ?st) = ?st" for t
    using p by (simp add: publishScheduled_cases[of env i t ?st] due_def)
  then have "worker_runs env i (now # nows) st = ?st" using worker_runs_idle by (simp del: fold_simps add: fold_simps(2))
  then show ?thesis using c p by simp
qed

theorem scheduled_published_once_witness:
  "ds_confessions (worker_runs sample_env ''d1'' [600, 600, 700] sample_drafts) = [''hello'']"
proof -
  let ?d = "hd (ds_drafts sample_drafts)"
  have f: "find_one (\<lambda>d. df_id d = ''d1'') (ds_drafts sample_drafts) = Some ?d" by code_simp
  have due: "due 600 ?d" by code_simp
  have ok: "de_create sample_env (de_decrypt sample_env (df_content ?d)) = Inr ()" by code_simp
  have "ds_confessions sample_drafts @ [de_decrypt sample_env (df_content ?d)] = [''hello'']" by code_simp
  then show ?thesis using scheduled_published_once[OF sample_reachable f due ok, of "[600, 700]"] by simp
qed

text \<open>An edit made against a version that another session has already replaced is refused: after an
  update with content succeeds, a second update that names the same version gets the conflict
  \<open>remote_updated\<close> and changes nothing, and the content the first update replaced is still the
  newest revision.\<close>

theorem stale_version_refused:
  assumes r: "drafts_reachable env st" and f: "find_one (\<lambda>d. df_id d = i) (ds_drafts st) = Some d"
    and ok: "updateDraft env u i p now st = (Inr resp, st')" and c: "dp_content p = Some c"
    and q: "dp_version q = Some (df_version d)"
  shows "updateDraft env u i q later st' = (Inl (ConflictException ''remote_updated''), st') \<and>
    (\<exists>d' rest. find_one (\<lambda>d. df_id d = i) (ds_drafts st') = Some d' \<and> df_content d' = de_encrypt env c \<and>
       df_revisions d' = \<lparr>rev_content = df_content d, rev_version = df_version d, rev_createdAt = now\<rparr> # rest)"
proof -
  let ?e = "edit_draft env p now d"
  let ?d = "?e\<lparr>df_version := df_version ?e + 1, df_updatedAt := now\<rparr>"
  have guards: "df_userId d = u" "df_status d \<noteq> POSTED" "st' = snd (respond env (save_draft now ?e (ds_drafts st)) st)"
    using ok f by (auto simp: updateDraft_def split: if_splits)
  have "?e \<noteq> d"
  proof
    assume "?e = d"
    then have "\<lparr>rev_content = df_content d, rev_version = df_version d, rev_createdAt = now\<rparr> \<in> set (df_revisions d)"
      using edit_draft_content(2)[OF c, of env now d] by (metis list.set_intros(1))
    then have "df_version d \<in> set (map rev_version (df_revisions d))" by (force simp: image_iff)
    moreover have "draft_ok d" using reachable_inv[OF r] find_one_SomeD[OF f] by (auto intro: inv_row_ok)
    ultimately show False by (auto simp: draft_ok_def history_ok_def)
  qed
  then have "find_one (\<lambda>d. df_id d = i) (ds_drafts st') = Some ?d"
    using find_after_save[OF reachable_inv[OF r] f, of ?e now] guards(3) by (auto simp: edit_draft_keeps)
  then show ?thesis using guards(1,2) q by (simp add: updateDraft_def edit_draft_keeps edit_draft_content[OF c])
qed

definition sample_patch :: "string \<Rightarrow> draft_patch" where
  "sample_patch c = \<lparr>dp_content = Some c, dp_category = None, dp_version = Some 1\<rparr>"

theorem stale_version_refused_witness:
  "updateDraft sample_env 7 ''d1'' (sample_patch ''b'') 30 (snd (updateDraft sample_env 7 ''d1'' (sample_patch ''a'') 20 sample_drafts)) =
     (Inl (ConflictException ''remote_updated''), snd (updateDraft sample_env 7 ''d1'' (sample_patch ''a'') 20 sample_drafts))"
proof -
  let ?u = "updateDraft sample_env 7 ''d1'' (sample_patch ''a'') 20 sample_drafts"
  have f: "find_one (\<lambda>d. df_id d = ''d1'') (ds_drafts sample_drafts) = Some (hd (ds_drafts sample_drafts))" by code_simp
  have "isl (fst ?u) = False" by code_simp
  then have ok: "?u = (Inr (projr (fst ?u)), snd ?u)" by (cases ?u) (auto simp: isl_def split: sum.splits)
  have "dp_version (sample_patch ''b'') = Some (df_version (hd (ds_drafts sample_drafts)))" by code_simp
  then show ?thesis
    using stale_version_refused[OF sample_reachable f ok, of "''a''" "sample_patch ''b''" 30] by (simp add: sample_patch_def)
qed

text \<open>A failed publication leaves no trace: the attempt counted in the catch block is undone with
  the transaction that the rethrown error aborts, so after any number of failing runs the state is the
  one before them and the draft is still due, its attempts unchanged.\<close>

theorem failed_publish_forgets:
  assumes f: "find_one (\<lambda>d. df_id d = i) (ds_drafts st) = Some d" and due: "due now d"
    and err: "de_create env (de_decrypt env (df_content d)) = Inl e"
  shows "fst (publishScheduledDraftById env i now st) = Inl e \<and>
    fold (\<lambda>_ s. snd (publishScheduledDraftById env i now s)) [0..<n] st = st \<and>
    find_one (\<lambda>d. df_id d = i) (filter (due now) (ds_drafts st)) = Some d"
proof -
  have run: "publishScheduledDraftById env i now st = (Inl e, st)"
    using f due err by (simp add: publishScheduled_cases)
  then have "fold (\<lambda>_ s. snd (publishScheduledDraftById env i now s)) ns st = st" for ns :: "nat list"
    by (induction ns) auto
  moreover have "find_one (\<lambda>d. df_id d = i) (filter (due now) t) = Some d"
    if "find_one (\<lambda>d. df_id d = i) t = Some d" for t
    using that due by (induction t) (auto split: if_splits)
  ultimately show ?thesis using f run by simp
qed

definition spam_drafts :: draft_state where
  "spam_drafts = snd (createDraft sample_env 7 ''spam'' None (Some ''later'') None ''d1'' 10
     \<lparr>ds_drafts = [], ds_confessions = []\<rparr>)"

theorem failed_publish_forgets_witness:
  "fold (\<lambda>_ s. snd (publishScheduledDraftById sample_env ''d1'' 600 s)) [0..<7] spam_drafts = spam_drafts \<and>
   enqueueDueDraftIds 600 spam_drafts = [''d1'']"
proof -
  let ?d = "hd (ds_drafts spam_drafts)"
  have f: "find_one (\<lambda>d. df_id d = ''d1'') (ds_drafts spam_drafts) = Some ?d" by code_simp
  have due: "due 600 ?d" by code_simp
  have err: "de_create sample_env (de_decrypt sample_env (df_content ?d)) = Inl (BadRequestException ''blocked'')" by code_simp
  have "enqueueDueDraftIds 600 spam_drafts = [''d1'']" by code_simp
  then show ?thesis using failed_publish_forgets[OF f due err, of 7] by blast
qed

text \<open>The two ways of publishing do not exclude each other: when \<open>publishNow\<close> has read the draft
  (without a lock) and the worker publishes it before \<open>publishNow\<close> goes on, both succeed and the
  confession is created twice.\<close>

theorem publish_race_duplicates:
  assumes read: "read_to_publish u i st = Inr d" and due: "due now d"
    and ok: "de_create env (de_decrypt env (df_content d)) = Inr ()"
  shows "\<exists>st1. publishScheduledDraftById env i now st = (Inr (), st1) \<and>
    (\<exists>r st2. publish_draft env d later st1 = (Inr r, st2) \<and>
       ds_confessions st2 = ds_confessions st @ [de_decrypt env (df_content d), de_decrypt env (df_content d)])"
proof -
  have f: "find_one (\<lambda>d. df_id d = i) (ds_drafts st) = Some d"
    using read by (auto simp: read_to_publish_def own_draft_def split: option.splits if_splits sum.splits)
  then show ?thesis using due ok by (simp add: publishScheduled_cases publish_draft_def respond_def)
qed

theorem publish_race_duplicates_witness:
  "\<exists>st1. publishScheduledDraftById sample_env ''d1'' 600 sample_drafts = (Inr (), st1) \<and>
    (\<exists>r st2. publish_draft sample_env (hd (ds_drafts sample_drafts)) 610 st1 = (Inr r, st2) \<and>
       ds_confessions st2 = [''hello'', ''hello''])"
proof -
  let ?d = "hd (ds_drafts sample_drafts)"
  have r: "read_to_publish 7 ''d1'' sample_drafts = Inr ?d" by code_simp
  have due: "due 600 ?d" by code_simp
  have ok: "de_create sample_env (de_decrypt sample_env (df_content ?d)) = Inr ()" by code_simp
  have "ds_confessions sample_drafts @ [de_decrypt sample_env (df_content ?d), de_decrypt sample_env (df_content ?d)] =
    [''hello'', ''hello'']" by code_simp
  then show ?thesis using publish_race_duplicates[OF r due ok, of 610] by simp
qed

text \<open>A run of the scheduler over confessions with unique ids is all or nothing: with no failing
  statement it publishes exactly the scheduled confessions whose time has come, with the run's time as
  their creation time, and reports exactly those ids for cache invalidation; when the statement for
  one due confession fails, the table stays as it was, although the ids handled before the failure are
  still invalidated.\<close>

theorem scheduler_all_or_nothing:
  assumes dist: "distinct (map sf_id t)"
  shows "publishScheduledConfessions True fails now t =
    (let dues = filter (due_confession now) t; ids = takeWhile (\<lambda>i. \<not> fails i) (map sf_id dues)
     in (if list_ex (\<lambda>c. fails (sf_id c)) dues then t
         else map (\<lambda>c. if due_confession now c then published_row now c else c) t,
         ids, if ids = [] then [] else map CacheDel ids @ [CacheDelList]))"
proof -
  let ?r = "\<lparr>pr_rows = t, pr_publishedIds = [], pr_aborted = False\<rparr>"
  let ?d = "filter (due_confession now) t"
  have rows: "update_where (\<lambda>x. sf_id x \<in> sf_id ` set ?d \<and> sf_status x = ''scheduled'') (published_row now) t =
    map (\<lambda>c. if due_confession now c then published_row now c else c) t"
    unfolding update_where_def
  proof (rule map_cong[OF refl])
    fix x assume x: "x \<in> set t"
    have "sf_id x \<in> sf_id ` set ?d \<longleftrightarrow> due_confession now x" using x dist by (auto dest: distinct_keys_eq)
    moreover have "due_confession now x \<Longrightarrow> sf_status x = ''scheduled''" by (simp add: due_confession_def)
    ultimately show "(if sf_id x \<in> sf_id ` set ?d \<and> sf_status x = ''scheduled'' then published_row now x else x) =
      (if due_confession now x then published_row now x else x)" by auto
  qed
  have "\<exists>x \<in> set t. sf_id x = sf_id c \<and> sf_status x = ''scheduled''" if "c \<in> set ?d" for c
    using that by (auto simp: due_confession_def)
  then show ?thesis
    using publish_loop[of ?d ?r fails now] distinct_map_filter[OF dist, of "due_confession now"] rows
    by (simp add: publishScheduledConfessions_def Let_def invalidatePublishedCache_def)
qed

definition sample_schedule :: "scheduled_confession list" where
  "sample_schedule =
     [\<lparr>sf_id = ''a'', sf_anonymousUserId = ''u'', sf_status = ''scheduled'', sf_publishAt = Some 5, sf_created_at = 1\<rparr>,
      \<lparr>sf_id = ''b'', sf_anonymousUserId = ''u'', sf_status = ''scheduled'', sf_publishAt = Some 50, sf_created_at = 1\<rparr>,
      \<lparr>sf_id = ''c'', sf_anonymousUserId = ''v'', sf_status = ''scheduled'', sf_publishAt = Some 7, sf_created_at = 1\<rparr>]"

theorem scheduler_all_or_nothing_witness:
  "map sf_status (fst (publishScheduledConfessions True (\<lambda>_. False) 10 sample_schedule)) = [''published'', ''scheduled'', ''published''] \<and>
   fst (publishScheduledConfessions True (\<lambda>i. i = ''c'') 10 sample_schedule) = sample_schedule \<and>
   snd (publishScheduledConfessions True (\<lambda>i. i = ''c'') 10 sample_schedule) = ([''a''], [CacheDel ''a'', CacheDelList])"
proof -
  have d: "distinct (map sf_id sample_schedule)" by (simp add: sample_schedule_def)
  show ?thesis unfolding scheduler_all_or_nothing[OF d] by (simp add: sample_schedule_def due_confession_def)
qed

end
