(* ===== verification/One_Shot.thy ===== *)
theory One_Shot
  imports XC_Prelude
begin

text \<open>
  What a one-time token promises, independent of how it is stored.  A state of the specification
  is the set of tokens ever issued, the set of those still live, and the log of grants.  The locale
  \<open>one_shot\<close> asks a system for a simulation into it; from this alone no token is granted
  twice.  The password resets and the download links of data exports are such systems.
\<close>

type_synonym 'k one_shot_state = "'k set \<times> 'k set \<times> 'k list"

inductive one_shot_step :: "'k one_shot_state \<Rightarrow> 'k one_shot_state \<Rightarrow> bool" where
  issue: "new \<inter> issued = {} \<Longrightarrow> one_shot_step (issued, live, log) (issued \<union> new, (live - revoked) \<union> new, log)"
| grant: "k \<in> live \<Longrightarrow> one_shot_step (issued, live, log) (issued, live - revoked - {k}, k # log)"

inductive_cases one_shot_stepE: "one_shot_step a b"

definition one_shot_inv :: "'k one_shot_state \<Rightarrow> bool" where
  "one_shot_inv a = (case a of (issued, live, log) \<Rightarrow>
     live \<subseteq> issued \<and> set log \<subseteq> issued \<and> live \<inter> set log = {} \<and> distinct log)"

lemma one_shot_step_inv: "one_shot_step a b \<Longrightarrow> one_shot_inv a \<Longrightarrow> one_shot_inv b"
  by (induction rule: one_shot_step.induct) (auto simp: one_shot_inv_def)

locale one_shot =
  fixes abs :: "'s \<Rightarrow> 'k one_shot_state"
    and init :: 's
    and step :: "'s \<Rightarrow> 's \<Rightarrow> bool"
    and inv :: "'s \<Rightarrow> bool"
  assumes init_inv: "inv init" and init_empty: "abs init = ({}, {}, [])"
    and step_inv: "inv s \<Longrightarrow> step s s' \<Longrightarrow> inv s'"
    and simulates: "inv s \<Longrightarrow> step s s' \<Longrightarrow> one_shot_step (abs s) (abs s')"
begin

lemma run_inv:
  assumes "step\<^sup>*\<^sup>* init s"
  shows "inv s \<and> one_shot_inv (abs s)"
  using assms
proof (induction rule: rtranclp_induct)
  case base
  show ?case by (simp add: init_inv init_empty one_shot_inv_def)
next
  case (step s s')
  then show ?case using step_inv one_shot_step_inv simulates by blast
qed

lemma granted_once:
  assumes "step\<^sup>*\<^sup>* init s"
  shows "distinct (snd (snd (abs s)))"
  using run_inv[OF assms] by (auto simp: one_shot_inv_def split: prod.splits)

text \<open>A token that was granted is not live, so whoever presents it again is refused.\<close>

lemma granted_is_dead:
  assumes "step\<^sup>*\<^sup>* init s" "k \<in> set (snd (snd (abs s)))"
  shows "k \<notin> fst (snd (abs s))"
  using run_inv[OF assms(1)] assms(2) by (auto simp: one_shot_inv_def split: prod.splits)

end

end
