(* ===== verification/Password_Reset.thy ===== *)
theory Password_Reset
  imports One_Shot
begin

text \<open>
  Password resets: the token table of \<^verbatim>\<open>auth/password-reset.service.ts\<close> and the two requests of
  \<^verbatim>\<open>auth/auth.service.ts\<close> that use it (\<open>forgotPassword\<close>, \<open>resetPassword\<close>), with \<open>updatePassword\<close> of
  \<^verbatim>\<open>user/user.service.ts\<close>.

  SHA-256 and bcrypt are arguments, and so are the random tokens.  \<open>consumeValidToken\<close> reads first and
  updates later, both with the time at which it was called; the step relation lets any other request
  run in between.
\<close>

section \<open>Tokens\<close>

record password_reset =
  pw_id :: nat
  pw_tokenHash :: string
  pw_userId :: int
  pw_expiresAt :: ms
  pw_used :: bool
  pw_usedAt :: "ms option"
  pw_ipAddress :: "string option"
  pw_userAgent :: "string option"
  pw_createdAt :: ms

datatype consume_reason = Valid | Invalid | Expired | Reused

definition RESET_TTL_MS :: int where "RESET_TTL_MS = 15 * 60 * 1000"

definition reset_insert :: "password_reset \<Rightarrow> password_reset list \<Rightarrow> password_reset list option" where
  "reset_insert r t = (if clashes (\<lambda>r. Some (pw_tokenHash r)) r t then None else Some (t @ [r]))"

definition use_token :: "ms \<Rightarrow> password_reset \<Rightarrow> password_reset" where
  "use_token now r = r\<lparr>pw_used := True, pw_usedAt := Some now\<rparr>"

definition invalidateUserTokens :: "int \<Rightarrow> ms \<Rightarrow> password_reset list \<Rightarrow> password_reset list" where
  "invalidateUserTokens userId now t = update_where (\<lambda>r. pw_userId r = userId \<and> \<not> pw_used r) (use_token now) t"

definition new_reset ::
  "(string \<Rightarrow> string) \<Rightarrow> nat \<Rightarrow> int \<Rightarrow> string \<Rightarrow> string option \<Rightarrow> string option \<Rightarrow> ms \<Rightarrow> password_reset" where
  "new_reset hash newId userId token ipAddress userAgent now =
     \<lparr>pw_id = newId, pw_tokenHash = hash token, pw_userId = userId, pw_expiresAt = now + RESET_TTL_MS,
      pw_used = False, pw_usedAt = None, pw_ipAddress = ipAddress, pw_userAgent = userAgent, pw_createdAt = now\<rparr>"

definition createResetToken ::
  "(string \<Rightarrow> string) \<Rightarrow> int \<Rightarrow> string option \<Rightarrow> string option \<Rightarrow> nat \<Rightarrow> string \<Rightarrow> ms \<Rightarrow> password_reset list \<Rightarrow>
     string outcome \<times> password_reset list" where
  "createResetToken hash userId ipAddress userAgent newId token now t =
     (let t1 = invalidateUserTokens userId now t in
      case reset_insert (new_reset hash newId userId token ipAddress userAgent now) t1 of
        None \<Rightarrow> (Inl (PlainError ''Failed to create reset token: duplicate key value violates unique constraint''), t1)
      | Some t2 \<Rightarrow> (Inr token, t2))"

definition findValidToken :: "(string \<Rightarrow> string) \<Rightarrow> string \<Rightarrow> ms \<Rightarrow> password_reset list \<Rightarrow> password_reset option" where
  "findValidToken hash token now t =
     (case find_one (\<lambda>r. pw_tokenHash r = hash token \<and> \<not> pw_used r) t of
        None \<Rightarrow> None
      | Some r \<Rightarrow> if now > pw_expiresAt r then None else Some r)"

text \<open>The reading half of \<open>consumeValidToken\<close>, its guarded update, and the whole.\<close>

definition read_token :: "string \<Rightarrow> ms \<Rightarrow> password_reset list \<Rightarrow> consume_reason + password_reset" where
  "read_token tokenHash now t =
     (case find_one (\<lambda>r. pw_tokenHash r = tokenHash) t of
        None \<Rightarrow> Inl Invalid
      | Some existing \<Rightarrow>
          if pw_used existing then Inl Reused
          else if pw_expiresAt existing \<le> now then Inl Expired
          else Inr existing)"

definition claim_token ::
  "string \<Rightarrow> ms \<Rightarrow> password_reset list \<Rightarrow> (password_reset option \<times> consume_reason) \<times> password_reset list" where
  "claim_token tokenHash now t =
     (let hit = (\<lambda>r. pw_tokenHash r = tokenHash \<and> \<not> pw_used r \<and> pw_expiresAt r > now);
          t' = update_where hit (use_token now) t
      in if affected hit t = 0 then ((None, Reused), t')
         else case find_one (\<lambda>r. pw_tokenHash r = tokenHash) t' of
                None \<Rightarrow> ((None, Invalid), t')
              | Some consumed \<Rightarrow> ((Some consumed, Valid), t'))"

definition consumeValidToken ::
  "(string \<Rightarrow> string) \<Rightarrow> string \<Rightarrow> ms \<Rightarrow> password_reset list \<Rightarrow>
     (password_reset option \<times> consume_reason) \<times> password_reset list" where
  "consumeValidToken hash token now t =
     (case read_token (hash token) now t of
        Inl reason \<Rightarrow> ((None, reason), t)
      | Inr _ \<Rightarrow> claim_token (hash token) now t)"

definition markTokenAsUsed :: "nat \<Rightarrow> ms \<Rightarrow> password_reset list \<Rightarrow> password_reset list" where
  "markTokenAsUsed tokenId now t = update_where (\<lambda>r. pw_id r = tokenId) (use_token now) t"

definition cleanupExpiredTokens :: "ms \<Rightarrow> password_reset list \<Rightarrow> password_reset list" where
  "cleanupExpiredTokens now t = delete_where (\<lambda>r. pw_expiresAt r < now) t"

section \<open>Requests\<close>

record account =
  ac_id :: int
  ac_username :: string
  ac_emailHash :: string
  ac_password :: string
  ac_resetPasswordToken :: "string option"
  ac_resetPasswordExpires :: "ms option"

record auth_state =
  as_users :: "account list"
  as_resets :: "password_reset list"

text \<open>\<open>AppException(message, code, status)\<close>; other exceptions of a request are wrapped in it.\<close>

datatype app_exn = AppException string string nat

definition updatePassword :: "(string \<Rightarrow> string) \<Rightarrow> int \<Rightarrow> string \<Rightarrow> account list \<Rightarrow> account list outcome" where
  "updatePassword bcrypt userId newPassword us =
     (case find_one (\<lambda>u. ac_id u = userId) us of
        None \<Rightarrow> Inl (NotFoundException ''User not found'')
      | Some u \<Rightarrow> Inr (save_row ac_id (u\<lparr>ac_password := bcrypt newPassword, ac_resetPasswordToken := None,
                                          ac_resetPasswordExpires := None\<rparr>) us))"

fun reject_reason :: "consume_reason \<Rightarrow> app_exn" where
  "reject_reason Invalid = AppException ''Invalid reset token'' ''AUTH_TOKEN_INVALID'' 400"
| "reject_reason Expired = AppException ''Reset token expired'' ''AUTH_SESSION_EXPIRED'' 422"
| "reject_reason Reused = AppException ''Reset token already used'' ''RESOURCE_GONE'' 410"
| "reject_reason Valid = AppException ''Invalid reset token'' ''AUTH_TOKEN_INVALID'' 400"

definition resetPassword ::
  "(string \<Rightarrow> string) \<Rightarrow> (string \<Rightarrow> string) \<Rightarrow> string \<Rightarrow> string \<Rightarrow> ms \<Rightarrow> auth_state \<Rightarrow> (app_exn + string) \<times> auth_state" where
  "resetPassword hash bcrypt token newPassword now st =
     (case consumeValidToken hash token now (as_resets st) of
        ((None, reason), t') \<Rightarrow> (Inl (reject_reason reason), st\<lparr>as_resets := t'\<rparr>)
      | ((Some reset, _), t') \<Rightarrow>
          (case updatePassword bcrypt (pw_userId reset) newPassword (as_users st) of
             Inl _ \<Rightarrow> (Inl (AppException ''Failed to reset password'' ''INTERNAL_SERVER_ERROR'' 500), st\<lparr>as_resets := t'\<rparr>)
           | Inr us \<Rightarrow> (Inr ''Password has been reset successfully'', \<lparr>as_users = us, as_resets = t'\<rparr>)))"

record forgot_dto =
  fd_email :: "string option"
  fd_userId :: "int option"

definition normalized_email :: "string \<Rightarrow> string" where
  "normalized_email email = lower_case (js_trim email)"

definition FORGOT_MESSAGE :: string where
  "FORGOT_MESSAGE = ''If the user exists, a password reset email has been sent.''"

text \<open>The e-mail that leaves the system: account and token.  A failure on the way, also of the mail
  server (\<open>mail_ok\<close>), is answered like success; the one \<open>throw\<close> of the \<open>try\<close> block, for a request
  with neither field, is an \<open>AppException\<close> and no \<open>BadRequestException\<close>, so the \<open>catch\<close> answers it the
  same way.\<close>

definition forgotPassword ::
  "(string \<Rightarrow> string) \<Rightarrow> bool \<Rightarrow> forgot_dto \<Rightarrow> string option \<Rightarrow> string option \<Rightarrow> nat \<Rightarrow> string \<Rightarrow> ms \<Rightarrow> auth_state \<Rightarrow>
     string \<times> auth_state \<times> (int \<times> string) list" where
  "forgotPassword hash mail_ok dto ipAddress userAgent newId token now st =
     (let user = (if truthy (fd_email dto)
                  then find_one (\<lambda>u. ac_emailHash u = hash (normalized_email (the (fd_email dto)))) (as_users st)
                  else case fd_userId dto of
                    None \<Rightarrow> None
                  | Some i \<Rightarrow> if i = 0 then None else find_one (\<lambda>u. ac_id u = i) (as_users st))
      in case user of
           None \<Rightarrow> (FORGOT_MESSAGE, st, [])
         | Some u \<Rightarrow>
             (let t1 = invalidateUserTokens (ac_id u) now (as_resets st) in
              case createResetToken hash (ac_id u) ipAddress userAgent newId token now t1 of
                (Inl _, t2) \<Rightarrow> (FORGOT_MESSAGE, st\<lparr>as_resets := t2\<rparr>, [])
              | (Inr tok, t2) \<Rightarrow>
                  (FORGOT_MESSAGE, st\<lparr>as_resets := t2\<rparr>, if mail_ok then [(ac_id u, tok)] else [])))"

section \<open>Facts about the table\<close>

interpretation reset_hashes: sole_unique_index "\<lambda>r. Some (pw_tokenHash r)" reset_insert
  by unfold_locales (auto simp: reset_insert_def split: if_splits)

lemma use_token_sel [simp]:
  "pw_tokenHash (use_token now r) = pw_tokenHash r" "pw_userId (use_token now r) = pw_userId r"
  "pw_used (use_token now r)" "pw_expiresAt (use_token now r) = pw_expiresAt r" "pw_id (use_token now r) = pw_id r"
  by (simp_all add: use_token_def)

text \<open>Every statement but the insert and the clean-up keeps the columns that name a token, and no
  statement makes a used token usable again.\<close>

lemma hashes_kept [simp]:
  "map pw_tokenHash (update_where P (use_token now) t) = map pw_tokenHash t"
  by (rule map_update_where) simp

abbreviation hashes :: "password_reset list \<Rightarrow> string set" where
  "hashes t \<equiv> pw_tokenHash ` set t"

lemma hashes_update [simp]: "hashes (update_where P (use_token now) t) = hashes t"
  by (metis hashes_kept list.set_map)

lemma update_where_nohit: "affected P t = 0 \<Longrightarrow> update_where P f t = t"
  by (induction t) (auto simp: affected_def)

text \<open>What the guarded update does: it wins exactly when the row of the token is unused and unexpired.\<close>

lemma claim_token_cases:
  assumes "distinct (map pw_tokenHash t)" "claim_token h now t = ((res, reason), t')"
  obtains (lost) "res = None" "reason = Reused" "t' = t"
    | (won) r where "r \<in> set t" "pw_tokenHash r = h" "\<not> pw_used r" "pw_expiresAt r > now"
        "res = Some (use_token now r)" "reason = Valid" "t' = update_where (\<lambda>x. x = r) (use_token now) t"
proof (cases "affected (\<lambda>r. pw_tokenHash r = h \<and> \<not> pw_used r \<and> pw_expiresAt r > now) t = 0")
  case True
  with assms(2) show ?thesis by (intro lost) (auto simp: claim_token_def Let_def update_where_nohit)
next
  case False
  then obtain r where r: "r \<in> set t" "pw_tokenHash r = h" "\<not> pw_used r" "pw_expiresAt r > now"
    by (auto simp: affected_def filter_empty_conv)
  have upd: "update_where (\<lambda>r. pw_tokenHash r = h \<and> \<not> pw_used r \<and> pw_expiresAt r > now) (use_token now) t =
      update_where (\<lambda>x. x = r) (use_token now) t"
    unfolding update_where_def by (rule map_cong[OF refl]) (use assms(1) r in \<open>auto dest: distinct_keys_eq\<close>)
  have "use_token now r \<in> set (update_where (\<lambda>x. x = r) (use_token now) t)"
    using r(1) by (force simp: update_where_def)
  then have "find_one (\<lambda>x. pw_tokenHash x = h) (update_where (\<lambda>x. x = r) (use_token now) t) = Some (use_token now r)"
    using find_one_by_key[of pw_tokenHash _ "use_token now r"] assms(1) r(2) by simp
  with False assms(2) upd r show ?thesis by (intro won[of r]) (auto simp: claim_token_def Let_def)
qed

section \<open>Interleavings\<close>

text \<open>Creation is split at its \<open>await\<close>: the invalidation and the insert are steps of their own.  A
  consumer that has read a usable token waits in \<open>readers\<close> with the time of its call; \<open>wins\<close> logs the
  hashes whose consumption succeeded and \<open>issued\<close> all hashes ever stored.  Tokens are random, so a new
  one has a hash that was never issued.\<close>

record reset_sys =
  sy_table :: "password_reset list"
  sy_readers :: "(string \<times> ms) list"
  sy_wins :: "string list"
  sy_issued :: "string list"

inductive reset_step :: "(string \<Rightarrow> string) \<Rightarrow> reset_sys \<Rightarrow> reset_sys \<Rightarrow> bool" for hash where
  invalidate: "reset_step hash s (s\<lparr>sy_table := invalidateUserTokens u now (sy_table s)\<rparr>)"
| save: "hash token \<notin> set (sy_issued s) \<Longrightarrow> reset_insert (new_reset hash i u token ip ua now) (sy_table s) = Some t' \<Longrightarrow>
    reset_step hash s (s\<lparr>sy_table := t', sy_issued := hash token # sy_issued s\<rparr>)"
| read: "read_token (hash token) now (sy_table s) = Inr r \<Longrightarrow>
    reset_step hash s (s\<lparr>sy_readers := (hash token, now) # sy_readers s\<rparr>)"
| claim: "(h, now) \<in> set (sy_readers s) \<Longrightarrow> claim_token h now (sy_table s) = ((res, reason), t') \<Longrightarrow>
    reset_step hash s (s\<lparr>sy_table := t', sy_readers := remove1 (h, now) (sy_readers s),
                         sy_wins := (if res = None then sy_wins s else h # sy_wins s)\<rparr>)"
| mark: "reset_step hash s (s\<lparr>sy_table := markTokenAsUsed i now (sy_table s)\<rparr>)"
| cleanup: "reset_step hash s (s\<lparr>sy_table := cleanupExpiredTokens now (sy_table s)\<rparr>)"

inductive reset_reachable :: "(string \<Rightarrow> string) \<Rightarrow> reset_sys \<Rightarrow> bool" for hash where
  start: "reset_reachable hash \<lparr>sy_table = [], sy_readers = [], sy_wins = [], sy_issued = []\<rparr>"
| step: "reset_reachable hash s \<Longrightarrow> reset_step hash s s' \<Longrightarrow> reset_reachable hash s'"

definition reset_inv :: "reset_sys \<Rightarrow> bool" where
  "reset_inv s \<longleftrightarrow> distinct (map pw_tokenHash (sy_table s)) \<and> hashes (sy_table s) \<subseteq> set (sy_issued s) \<and>
     set (sy_wins s) \<subseteq> set (sy_issued s) \<and> distinct (sy_wins s) \<and>
     (\<forall>r \<in> set (sy_table s). pw_tokenHash r \<in> set (sy_wins s) \<longrightarrow> pw_used r)"

lemma used_update: "r \<in> set (update_where P (use_token now) t) \<Longrightarrow> \<exists>x \<in> set t. pw_tokenHash r = pw_tokenHash x \<and> (pw_used x \<longrightarrow> pw_used r)"
  by (auto simp: update_where_def)

lemma inv_update: "reset_inv s \<Longrightarrow> reset_inv (s\<lparr>sy_table := update_where P (use_token now) (sy_table s)\<rparr>)"
  by (auto simp: reset_inv_def dest!: used_update)

lemma inv_save:
  assumes "reset_inv s" "hash token \<notin> set (sy_issued s)"
    "reset_insert (new_reset hash i u token ip ua now) (sy_table s) = Some t'"
  shows "reset_inv (s\<lparr>sy_table := t', sy_issued := hash token # sy_issued s\<rparr>)"
proof -
  have "t' = sy_table s @ [new_reset hash i u token ip ua now]" by (rule reset_hashes.ins_appends[OF assms(3)])
  then show ?thesis using assms(1,2) by (auto simp: reset_inv_def new_reset_def)
qed

lemma inv_claim:
  assumes inv: "reset_inv s" and "claim_token h now (sy_table s) = ((res, reason), t')"
  shows "reset_inv (s\<lparr>sy_table := t', sy_readers := q, sy_wins := (if res = None then sy_wins s else h # sy_wins s)\<rparr>)"
proof -
  have dist: "distinct (map pw_tokenHash (sy_table s))" using inv by (simp add: reset_inv_def)
  from dist assms(2) show ?thesis
  proof (cases rule: claim_token_cases)
    case lost then show ?thesis using inv by (simp add: reset_inv_def)
  next
    case (won r)
    have "h \<notin> set (sy_wins s)" using inv won(1-3) by (auto simp: reset_inv_def)
    moreover have "pw_used x" if "x \<in> set t'" "pw_tokenHash x \<in> insert h (set (sy_wins s))" for x
      using that inv dist won(1,2) unfolding won(7)
      by (auto simp: reset_inv_def update_where_def dest: distinct_keys_eq split: if_splits)
    moreover have "h \<in> set (sy_issued s)" using inv won(1,2) by (auto simp: reset_inv_def)
    ultimately show ?thesis using inv dist by (simp add: reset_inv_def won(5,7))
  qed
qed

lemma reset_step_inv: "reset_step hash s s' \<Longrightarrow> reset_inv s \<Longrightarrow> reset_inv s'"
proof (induction rule: reset_step.induct)
  case (invalidate s u now) then show ?case by (simp add: invalidateUserTokens_def inv_update)
next
  case (save token s i u ip ua now t') then show ?case by (simp add: inv_save)
next
  case (read token now s r) then show ?case by (simp add: reset_inv_def)
next
  case (claim h now s res reason t') then show ?case using inv_claim by blast
next
  case (mark s i now) then show ?case by (simp add: markTokenAsUsed_def inv_update)
next
  case (cleanup s now) then show ?case
    by (auto simp: reset_inv_def cleanupExpiredTokens_def delete_where_def distinct_map_filter)
qed

lemma reset_reachable_inv: "reset_reachable hash s \<Longrightarrow> reset_inv s"
  by (induction rule: reset_reachable.induct) (simp_all add: reset_inv_def[of "\<lparr>sy_table = [], sy_readers = [], sy_wins = [], sy_issued = []\<rparr>"] reset_step_inv)

text \<open>The token table implements the one-time specification; the reading half of a consumption is invisible in it.\<close>

definition reset_abs :: "reset_sys \<Rightarrow> string one_shot_state" where
  "reset_abs s = (set (sy_issued s), {pw_tokenHash r |r. r \<in> set (sy_table s) \<and> \<not> pw_used r}, sy_wins s)"

lemma abs_revoke:
  assumes "sy_issued s' = sy_issued s" "sy_wins s' = sy_wins s"
    "{pw_tokenHash r |r. r \<in> set (sy_table s') \<and> \<not> pw_used r} \<subseteq> {pw_tokenHash r |r. r \<in> set (sy_table s) \<and> \<not> pw_used r}"
  shows "one_shot_step (reset_abs s) (reset_abs s')"
proof -
  let ?live = "\<lambda>s. {pw_tokenHash r |r. r \<in> set (sy_table s) \<and> \<not> pw_used r}"
  have "one_shot_step (set (sy_issued s), ?live s, sy_wins s)
      (set (sy_issued s) \<union> {}, (?live s - (?live s - ?live s')) \<union> {}, sy_wins s)"
    by (rule one_shot_step.issue) simp
  moreover have "?live s - (?live s - ?live s') = ?live s'" using assms(3) by blast
  ultimately show ?thesis using assms(1,2) by (simp add: reset_abs_def)
qed

lemma live_update: "r \<in> set (update_where P (use_token now) t) \<Longrightarrow> \<not> pw_used r \<Longrightarrow> r \<in> set t"
  by (auto simp: set_update_where)

lemma reset_simulates:
  assumes "reset_inv s" "reset_step hash s s'"
  shows "one_shot_step (reset_abs s) (reset_abs s')"
  using assms(2)
proof cases
  case (save token i u ip ua now t')
  have t': "t' = sy_table s @ [new_reset hash i u token ip ua now]" by (rule reset_hashes.ins_appends[OF save(3)])
  let ?live = "{pw_tokenHash r |r. r \<in> set (sy_table s) \<and> \<not> pw_used r}"
  have new: "pw_tokenHash (new_reset hash i u token ip ua now) = hash token" "\<not> pw_used (new_reset hash i u token ip ua now)"
    by (simp_all add: new_reset_def)
  have "{pw_tokenHash r |r. r \<in> set t' \<and> \<not> pw_used r} = (?live - {}) \<union> {hash token}"
    unfolding t' using new by (auto intro: exI[of _ "new_reset hash i u token ip ua now"])
  with one_shot_step.issue[of "{hash token}" "set (sy_issued s)" ?live "sy_wins s" "{}"] save(1,2) show ?thesis
    by (simp add: reset_abs_def)
next
  case (claim h now res reason t')
  have dist: "distinct (map pw_tokenHash (sy_table s))" using assms(1) by (simp add: reset_inv_def)
  from dist claim(3) show ?thesis
  proof (cases rule: claim_token_cases)
    case lost
    with claim(1) show ?thesis by (intro abs_revoke) simp_all
  next
    case (won r)
    let ?live = "{pw_tokenHash r |r. r \<in> set (sy_table s) \<and> \<not> pw_used r}"
    have "{pw_tokenHash x |x. x \<in> set t' \<and> \<not> pw_used x} = ?live - {} - {h}"
      using dist won(1,2) unfolding won(7) by (auto simp: update_where_def dest: distinct_keys_eq split: if_splits)
    moreover have "h \<in> ?live" using won(1-3) by auto
    ultimately show ?thesis
      using one_shot_step.grant[of h ?live "set (sy_issued s)" "sy_wins s" "{}"] claim(1) won(5) by (simp add: reset_abs_def)
  qed
qed (fastforce simp: invalidateUserTokens_def markTokenAsUsed_def cleanupExpiredTokens_def intro!: abs_revoke dest!: live_update)+

interpretation reset_tokens: one_shot reset_abs "\<lparr>sy_table = [], sy_readers = [], sy_wins = [], sy_issued = []\<rparr>" "reset_step hash" reset_inv
  for hash
proof unfold_locales
  show "reset_inv \<lparr>sy_table = [], sy_readers = [], sy_wins = [], sy_issued = []\<rparr>" by (simp add: reset_inv_def)
  show "reset_abs \<lparr>sy_table = [], sy_readers = [], sy_wins = [], sy_issued = []\<rparr> = ({}, {}, [])" by (simp add: reset_abs_def)
qed (rule reset_step_inv reset_simulates, assumption+)+

lemma reset_reachable_run:
  "reset_reachable hash s \<Longrightarrow> (reset_step hash)\<^sup>*\<^sup>* \<lparr>sy_table = [], sy_readers = [], sy_wins = [], sy_issued = []\<rparr> s"
  by (induction rule: reset_reachable.induct) (auto intro: rtranclp.rtrancl_into_rtrancl)

lemma count_list_distinct: "distinct xs \<Longrightarrow> count_list xs x \<le> 1"
  by (induction xs) (auto simp: count_list_0_iff)

text \<open>Creating a token leaves it as the only usable one of its user.\<close>

lemma createResetToken_cases:
  assumes "createResetToken hash u ip ua i token now t = (Inr tok, t')"
  shows "tok = token" "hash token \<notin> hashes t"
    "t' = invalidateUserTokens u now t @ [new_reset hash i u token ip ua now]"
proof -
  let ?new = "new_reset hash i u token ip ua now"
  have "reset_insert ?new (invalidateUserTokens u now t) = Some t'" and tok: "tok = token"
    using assms by (simp_all add: createResetToken_def Let_def split: option.splits)
  moreover from this(1) have "\<not> clashes (\<lambda>r. Some (pw_tokenHash r)) ?new (invalidateUserTokens u now t)"
    using reset_hashes.ins_checked by force
  ultimately show "tok = token" "t' = invalidateUserTokens u now t @ [?new]" "hash token \<notin> hashes t"
    using reset_hashes.ins_appends by (simp_all add: clashes_def invalidateUserTokens_def) (simp add: new_reset_def)
qed

lemma only_newest_usable:
  assumes "createResetToken hash u ip ua i token now t = (Inr tok, t')" "r \<in> set t'" "pw_userId r = u" "\<not> pw_used r"
  shows "r = new_reset hash i u token ip ua now"
proof (rule ccontr)
  assume "r \<noteq> new_reset hash i u token ip ua now"
  then have "r \<in> set (invalidateUserTokens u now t)" using assms(2) createResetToken_cases(3)[OF assms(1)] by simp
  then obtain x where "r = (if pw_userId x = u \<and> \<not> pw_used x then use_token now x else x)"
    unfolding invalidateUserTokens_def update_where_def set_map image_iff by blast
  then show False using assms(3,4) by (simp split: if_splits)
qed

lemma distinct_created:
  assumes "createResetToken hash u ip ua i token now t = (Inr tok, t')" "distinct (map pw_tokenHash t)"
  shows "distinct (map pw_tokenHash t')"
  using createResetToken_cases[OF assms(1)] assms(2) by (simp add: invalidateUserTokens_def new_reset_def)

lemma consume_usable:
  assumes "distinct (map pw_tokenHash t)" "r \<in> set t" "pw_tokenHash r = hash token" "\<not> pw_used r"
  shows "fst (consumeValidToken hash token now t) =
    (if pw_expiresAt r \<le> now then (None, Expired) else (Some (use_token now r), Valid))"
proof -
  have f: "find_one (\<lambda>x. pw_tokenHash x = hash token) t = Some r"
    using find_one_by_key[OF assms(1,2)] assms(3) by simp
  obtain res reason t' where c: "claim_token (hash token) now t = ((res, reason), t')" by (metis prod.collapse)
  show ?thesis
  proof (cases "pw_expiresAt r \<le> now")
    case True then show ?thesis using f assms(4) by (simp add: consumeValidToken_def read_token_def)
  next
    case False
    from assms(1) c have "(res, reason) = (Some (use_token now r), Valid)"
    proof (cases rule: claim_token_cases)
      case lost
      have "affected (\<lambda>r. pw_tokenHash r = hash token \<and> \<not> pw_used r \<and> pw_expiresAt r > now) t > 0"
        using assms False by (auto simp: affected_pos_iff)
      with c lost show ?thesis by (auto simp: claim_token_def Let_def split: option.splits if_splits)
    next
      case (won x) then show ?thesis using assms distinct_keys_eq[OF assms(1), of x r] by simp
    qed
    then show ?thesis using f False assms(4) c by (simp add: consumeValidToken_def read_token_def)
  qed
qed

lemma consume_granted:
  assumes "distinct (map pw_tokenHash t)" "consumeValidToken hash token now t = ((Some r, reason), t')"
  obtains x where "x \<in> set t" "pw_tokenHash x = hash token" "\<not> pw_used x" "pw_expiresAt x > now"
    "r = use_token now x" "t' = update_where (\<lambda>y. y = x) (use_token now) t"
proof -
  have "claim_token (hash token) now t = ((Some r, reason), t')"
    using assms(2) by (auto simp: consumeValidToken_def split: sum.splits)
  with assms(1) show thesis
  proof (cases rule: claim_token_cases)
    case (won x) then show thesis by (intro that[of x]) auto
  qed simp
qed

lemma save_row_others:
  assumes "ac_id v = i" shows "filter (\<lambda>u. ac_id u \<noteq> i) (save_row ac_id v us) = filter (\<lambda>u. ac_id u \<noteq> i) us"
proof -
  have "filter (\<lambda>u. ac_id u \<noteq> i) (update_where (\<lambda>x. ac_id x = i) (\<lambda>_. v) us) = filter (\<lambda>u. ac_id u \<noteq> i) us"
    using assms by (induction us) auto
  then show ?thesis using assms by (auto simp: save_row_def)
qed

text \<open>Two creations whose inserts both come after both invalidations leave one user with two usable tokens.\<close>

lemma create_race_two_usable:
  "\<exists>s. reset_reachable id s \<and> length (filter (\<lambda>r. pw_userId r = 7 \<and> \<not> pw_used r \<and> pw_expiresAt r > 100) (sy_table s)) = 2"
proof -
  let ?a = "new_reset id 1 7 ''a'' None None 0" and ?b = "new_reset id 2 7 ''b'' None None 0"
  let ?s0 = "\<lparr>sy_table = [], sy_readers = [], sy_wins = [], sy_issued = []\<rparr>"
  have "reset_reachable id ?s0"
    using reset_reachable.step[OF reset_reachable.step[OF reset_reachable.start
      reset_step.invalidate[of id _ 7 0]] reset_step.invalidate[of id _ 7 0]]
    by (simp add: invalidateUserTokens_def)
  from reset_reachable.step[OF this reset_step.save[of id "''a''" _ 1 7 None None 0 "[?a]"]]
  have "reset_reachable id \<lparr>sy_table = [?a], sy_readers = [], sy_wins = [], sy_issued = [''a'']\<rparr>"
    by (simp add: reset_insert_def clashes_def)
  from reset_reachable.step[OF this reset_step.save[of id "''b''" _ 2 7 None None 0 "[?a, ?b]"]]
  have "reset_reachable id \<lparr>sy_table = [?a, ?b], sy_readers = [], sy_wins = [], sy_issued = [''b'', ''a'']\<rparr>"
    by (simp add: reset_insert_def clashes_def new_reset_def)
  then show ?thesis by (intro exI conjI) (assumption, simp add: new_reset_def RESET_TTL_MS_def)
qed

section \<open>Properties\<close>

text \<open>C8: a reset token is consumed at most once.  However requests to create, consume, invalidate and
  clean up tokens interleave, with any number of consumers between their read and their update, no
  token is granted twice, and a token that was granted is marked as used for as long as it is stored.\<close>

theorem token_consumed_once:
  assumes "reset_reachable hash s"
  shows "count_list (sy_wins s) h \<le> 1 \<and>
    (h \<in> set (sy_wins s) \<longrightarrow> find_one (\<lambda>r. pw_tokenHash r = h \<and> \<not> pw_used r) (sy_table s) = None)"
  using count_list_distinct[OF reset_tokens.granted_once[OF reset_reachable_run[OF assms]], of h]
    reset_tokens.granted_is_dead[OF reset_reachable_run[OF assms], of h]
  by (auto simp: reset_abs_def find_one_None_iff)

theorem token_consumed_once_witness:
  "\<exists>s. reset_reachable id s \<and> sy_wins s = [''tok''] \<and> count_list (sy_wins s) ''tok'' \<le> 1"
proof -
  let ?r = "new_reset id 1 7 ''tok'' None None 0"
  let ?used = "use_token 5 ?r"
  have "reset_reachable id \<lparr>sy_table = [?r], sy_readers = [], sy_wins = [], sy_issued = [''tok'']\<rparr>"
    using reset_reachable.step[OF reset_reachable.start reset_step.save[of id "''tok''" _ 1 7 None None 0 "[?r]"]]
    by (simp add: reset_insert_def clashes_def)
  from reset_reachable.step[OF this reset_step.read[of id "''tok''" 5 _ ?r]]
  have "reset_reachable id \<lparr>sy_table = [?r], sy_readers = [(''tok'', 5)], sy_wins = [], sy_issued = [''tok'']\<rparr>"
    by (simp add: read_token_def new_reset_def RESET_TTL_MS_def)
  from reset_reachable.step[OF this reset_step.read[of id "''tok''" 6 _ ?r]]
  have "reset_reachable id \<lparr>sy_table = [?r], sy_readers = [(''tok'', 6), (''tok'', 5)], sy_wins = [], sy_issued = [''tok'']\<rparr>"
    by (simp add: read_token_def new_reset_def RESET_TTL_MS_def)
  from reset_reachable.step[OF this reset_step.claim[of "''tok''" 5 _ "Some ?used" Valid "[?used]"]]
  have "reset_reachable id \<lparr>sy_table = [?used], sy_readers = [(''tok'', 6)], sy_wins = [''tok''], sy_issued = [''tok'']\<rparr>"
    by (simp add: claim_token_def affected_def new_reset_def RESET_TTL_MS_def use_token_def)
  from reset_reachable.step[OF this reset_step.claim[of "''tok''" 6 _ None Reused "[?used]"]]
  have "reset_reachable id \<lparr>sy_table = [?used], sy_readers = [], sy_wins = [''tok''], sy_issued = [''tok'']\<rparr>"
    by (simp add: claim_token_def affected_def)
  from this token_consumed_once[OF this, of "''tok''"] show ?thesis by (intro exI conjI) auto
qed

text \<open>After a token is created it is the one token of its user that works: it is granted, for the
  user it was created for, until fifteen minutes have passed and not from then on, and no other token
  is granted for that user at any time.\<close>

theorem newest_token_only:
  assumes dist: "distinct (map pw_tokenHash t)"
    and created: "createResetToken hash u ip ua i token now t = (Inr tok, t')"
  shows "fst (consumeValidToken hash token later t') =
      (if later < now + RESET_TTL_MS then (Some (use_token later (new_reset hash i u token ip ua now)), Valid)
       else (None, Expired)) \<and>
    (\<forall>other r reason t''. consumeValidToken hash other later t' = ((Some r, reason), t'') \<and> pw_userId r = u \<longrightarrow>
       hash other = hash token)"
proof -
  let ?new = "new_reset hash i u token ip ua now"
  have dist': "distinct (map pw_tokenHash t')" by (rule distinct_created[OF created dist])
  have new: "?new \<in> set t'" "pw_tokenHash ?new = hash token" "\<not> pw_used ?new" "pw_expiresAt ?new = now + RESET_TTL_MS"
    using createResetToken_cases[OF created] by (simp_all add: new_reset_def)
  have "hash other = hash token"
    if "consumeValidToken hash other later t' = ((Some r, reason), t'')" "pw_userId r = u" for other r reason t''
    using dist' that(1)
  proof (cases rule: consume_granted)
    case (1 x)
    then have "x = ?new" using that(2) by (intro only_newest_usable[OF created]) auto
    with 1 new(2) show ?thesis by simp
  qed
  then show ?thesis using consume_usable[OF dist' new(1), of hash token later, OF new(2,3)] new(4) by auto
qed

theorem newest_token_only_witness:
  "fst (consumeValidToken id ''b'' 1000 (snd (createResetToken id 7 None None 2 ''b'' 60
     (snd (createResetToken id 7 None None 1 ''a'' 0 []))))) =
   (Some (use_token 1000 (new_reset id 2 7 ''b'' None None 60)), Valid) \<and>
   fst (consumeValidToken id ''a'' 1000 (snd (createResetToken id 7 None None 2 ''b'' 60
     (snd (createResetToken id 7 None None 1 ''a'' 0 []))))) = (None, Reused)"
proof -
  let ?t = "snd (createResetToken id 7 None None 1 ''a'' 0 [])"
  let ?c = "createResetToken id 7 None None 2 ''b'' 60 ?t"
  have d: "distinct (map pw_tokenHash ?t)" by code_simp
  have c: "?c = (Inr ''b'', snd ?c)" by code_simp
  have "fst (consumeValidToken id ''a'' 1000 (snd ?c)) = (None, Reused)" by code_simp
  then show ?thesis using newest_token_only[OF d c, of 1000] by (simp add: RESET_TTL_MS_def)
qed

text \<open>C9: a password changes only through a usable token of its account.  A refused reset changes no
  account.  A successful one was given a stored, unused and unexpired token, changes the password of
  that token's user and of nobody else, and leaves the token used, so that repeating the request is
  refused as a reuse and changes nothing.\<close>

theorem reset_password_safe:
  assumes dist: "distinct (map pw_tokenHash (as_resets st))"
  shows "case resetPassword hash bcrypt token newPassword now st of
     (Inl e, st') \<Rightarrow> as_users st' = as_users st
   | (Inr msg, st') \<Rightarrow>
       (\<exists>x \<in> set (as_resets st). pw_tokenHash x = hash token \<and> \<not> pw_used x \<and> now < pw_expiresAt x \<and>
          (\<exists>u \<in> set (as_users st'). ac_id u = pw_userId x \<and> ac_password u = bcrypt newPassword) \<and>
          filter (\<lambda>u. ac_id u \<noteq> pw_userId x) (as_users st') = filter (\<lambda>u. ac_id u \<noteq> pw_userId x) (as_users st)) \<and>
       resetPassword hash bcrypt token other later st' = (Inl (reject_reason Reused), st')"
proof -
  obtain res reason t' where c: "consumeValidToken hash token now (as_resets st) = ((res, reason), t')"
    by (metis prod.collapse)
  show ?thesis
  proof (cases res)
    case None then show ?thesis using c by (simp add: resetPassword_def)
  next
    case (Some r)
    from dist c[unfolded Some] obtain x where
      x: "x \<in> set (as_resets st)" "pw_tokenHash x = hash token" "\<not> pw_used x" "pw_expiresAt x > now"
        "r = use_token now x" "t' = update_where (\<lambda>y. y = x) (use_token now) (as_resets st)"
      by (rule consume_granted)
    have "use_token now x \<in> set t'" "distinct (map pw_tokenHash t')"
      using x(1) dist by (force simp: x(6) update_where_def, simp add: x(6))
    then have "find_one (\<lambda>y. pw_tokenHash y = hash token) t' = Some (use_token now x)"
      using find_one_by_key[of pw_tokenHash t' "use_token now x"] x(2) by simp
    then have again: "consumeValidToken hash token later t' = ((None, Reused), t')"
      by (simp add: consumeValidToken_def read_token_def)
    show ?thesis
    proof (cases "find_one (\<lambda>u. ac_id u = pw_userId x) (as_users st)")
      case None then show ?thesis using c Some x(5) by (simp add: resetPassword_def updatePassword_def)
    next
      case found: (Some u)
      let ?v = "u\<lparr>ac_password := bcrypt newPassword, ac_resetPasswordToken := None, ac_resetPasswordExpires := None\<rparr>"
      have u: "u \<in> set (as_users st)" "ac_id u = pw_userId x" using find_one_SomeD[OF found] by auto
      have "resetPassword hash bcrypt token newPassword now st =
          (Inr ''Password has been reset successfully'', \<lparr>as_users = save_row ac_id ?v (as_users st), as_resets = t'\<rparr>)"
        using c Some x(5) found by (simp add: resetPassword_def updatePassword_def)
      moreover have "?v \<in> set (save_row ac_id ?v (as_users st))" by simp
      moreover have "filter (\<lambda>a. ac_id a \<noteq> pw_userId x) (save_row ac_id ?v (as_users st)) =
          filter (\<lambda>a. ac_id a \<noteq> pw_userId x) (as_users st)" using u(2) by (intro save_row_others) simp
      moreover have "resetPassword hash bcrypt token other later \<lparr>as_users = us, as_resets = t'\<rparr> =
          (Inl (reject_reason Reused), \<lparr>as_users = us, as_resets = t'\<rparr>)" for us
        using again by (simp add: resetPassword_def)
      ultimately show ?thesis using x(1-4) u(2) by (auto intro!: bexI[of _ x] bexI[of _ ?v])
    qed
  qed
qed

definition reset_demo :: auth_state where
  "reset_demo = \<lparr>as_users = [\<lparr>ac_id = 7, ac_username = ''ann'', ac_emailHash = ''h'', ac_password = ''old'',
       ac_resetPasswordToken = None, ac_resetPasswordExpires = None\<rparr>],
     as_resets = [new_reset id 1 7 ''tok'' None None 0]\<rparr>"

theorem reset_password_safe_witness:
  "map ac_password (as_users (snd (resetPassword id id ''tok'' ''new'' 5 reset_demo))) = [''new''] \<and>
   resetPassword id id ''tok'' ''evil'' 9 (snd (resetPassword id id ''tok'' ''new'' 5 reset_demo)) =
     (Inl (reject_reason Reused), snd (resetPassword id id ''tok'' ''new'' 5 reset_demo))"
proof -
  have d: "distinct (map pw_tokenHash (as_resets reset_demo))" by code_simp
  obtain st' where r: "resetPassword id id ''tok'' ''new'' 5 reset_demo = (Inr ''Password has been reset successfully'', st')"
    "map ac_password (as_users st') = [''new'']"
    by (simp add: reset_demo_def resetPassword_def consumeValidToken_def read_token_def claim_token_def new_reset_def
        RESET_TTL_MS_def affected_def updatePassword_def save_row_def use_token_def)
  then show ?thesis
    using reset_password_safe[OF d, where hash = id and bcrypt = id and token = "''tok''" and newPassword = "''new''"
        and now = 5 and other = "''evil''" and later = 9] by simp
qed

end
