(* ===== verification/Access.thy ===== *)
theory Access
  imports Password_Reset
begin

text \<open>
  Signing in: the shared cache (\<^verbatim>\<open>cache/redis-cache.store.ts\<close>), the lockout after failed logins
  (\<^verbatim>\<open>auth/lockout.service.ts\<close>), \<open>login\<close> (\<^verbatim>\<open>auth/auth.service.ts\<close>), revoked sessions
  (\<^verbatim>\<open>auth/session-revocation.service.ts\<close>), and step-up proofs with the checks that keep them apart
  from session tokens (\<^verbatim>\<open>auth/step-up.service.ts\<close>, \<^verbatim>\<open>auth/guards/step-up.guard.ts\<close>,
  \<^verbatim>\<open>auth/jwt.strategy.ts\<close>).

  Redis, the JWT library, bcrypt, TOTP and decryption are arguments.  What the code relies on of the
  first two is stated by the locales \<open>redis_server\<close> and \<open>jwt_service\<close>: the documented effect of
  \<open>GET\<close>, \<open>SET \<dots> PX\<close> and \<open>DEL\<close> on an abstract key space with expiry times, and that a signed token
  verifies to its claims until it expires.  A request runs at one point in time.
\<close>

section \<open>Numbers as text\<close>

definition num_str :: "int option \<Rightarrow> string" where
  "num_str n = (case n of None \<Rightarrow> ''NaN'' | Some i \<Rightarrow> int_str i)"

section \<open>The shared cache\<close>

text \<open>What the services store: text, numbers, and the ISO text of an instant.  JSON gives all three
  back as they were.\<close>

datatype cval = CStr string | CNum int | CIso ms

text \<open>Redis: outer \<open>None\<close> is a command that failed.\<close>

record 's redis =
  rd_get :: "ms \<Rightarrow> string \<Rightarrow> 's \<Rightarrow> cval option option"
  rd_set :: "ms \<Rightarrow> string \<Rightarrow> cval \<Rightarrow> ms option \<Rightarrow> 's \<Rightarrow> 's option"
  rd_del :: "ms \<Rightarrow> string \<Rightarrow> 's \<Rightarrow> (nat \<times> 's) option"

type_synonym ('s, 'a) cmd = "'s \<Rightarrow> 'a outcome \<times> 's"

definition returnc :: "'a \<Rightarrow> ('s, 'a) cmd" where
  "returnc x s = (Inr x, s)"

definition bindc :: "('s, 'a) cmd \<Rightarrow> ('a \<Rightarrow> ('s, 'b) cmd) \<Rightarrow> ('s, 'b) cmd" where
  "bindc m f s = (case m s of (Inl e, s') \<Rightarrow> (Inl e, s') | (Inr x, s') \<Rightarrow> f x s')"

definition cache_down :: exn where
  "cache_down = ServiceUnavailableException ''Shared cache unavailable''"

definition store_get :: "'s redis \<Rightarrow> ms \<Rightarrow> string \<Rightarrow> ('s, cval option) cmd" where
  "store_get R now key s = (case rd_get R now key s of None \<Rightarrow> (Inl cache_down, s) | Some v \<Rightarrow> (Inr v, s))"

definition store_set :: "'s redis \<Rightarrow> ms \<Rightarrow> string \<Rightarrow> cval \<Rightarrow> ms \<Rightarrow> ('s, unit) cmd" where
  "store_set R now key v ttl s =
     (case rd_set R now key v (if ttl > 0 then Some ttl else None) s of
        None \<Rightarrow> (Inl cache_down, s) | Some s' \<Rightarrow> (Inr (), s'))"

definition store_del :: "'s redis \<Rightarrow> ms \<Rightarrow> string \<Rightarrow> ('s, bool) cmd" where
  "store_del R now key s = (case rd_del R now key s of None \<Rightarrow> (Inl cache_down, s) | Some (n, s') \<Rightarrow> (Inr (n > 0), s'))"

section \<open>Lockout\<close>

record lockout_status =
  lo_isLocked :: bool
  lo_attemptsRemaining :: "int option"
  lo_lockedUntil :: "cval option"
  lo_lockCount :: "int option"

definition MAX_ATTEMPTS :: int where "MAX_ATTEMPTS = 5"

definition LOCKOUT_DURATIONS_SECONDS :: "int list" where
  "LOCKOUT_DURATIONS_SECONDS = [15 * 60, 30 * 60, 60 * 60, 24 * 60 * 60]"

definition ATTEMPTS_KEY :: "string \<Rightarrow> string" where "ATTEMPTS_KEY email = ''lockout:attempts:'' @ email"
definition LOCKED_KEY :: "string \<Rightarrow> string" where "LOCKED_KEY email = ''lockout:locked:'' @ email"
definition COUNT_KEY :: "string \<Rightarrow> string" where "COUNT_KEY email = ''lockout:count:'' @ email"

text \<open>\<open>parseInt(value ?? '0', 10)\<close>.  Counters are stored as text; an instant is never read as one.\<close>

definition counter :: "cval option \<Rightarrow> int option" where
  "counter v = (case v of None \<Rightarrow> Some 0 | Some (CStr s) \<Rightarrow> parseInt s | Some (CNum n) \<Rightarrow> Some n | Some (CIso _) \<Rightarrow> None)"

definition cval_truthy :: "cval option \<Rightarrow> bool" where
  "cval_truthy v = (case v of None \<Rightarrow> False | Some (CStr s) \<Rightarrow> s \<noteq> [] | Some (CNum n) \<Rightarrow> n \<noteq> 0 | Some (CIso _) \<Rightarrow> True)"

definition getStatus :: "'s redis \<Rightarrow> ms \<Rightarrow> string \<Rightarrow> ('s, lockout_status) cmd" where
  "getStatus R now email =
     bindc (store_get R now (LOCKED_KEY email)) (\<lambda>locked.
     bindc (store_get R now (COUNT_KEY email)) (\<lambda>count.
     if cval_truthy locked
     then returnc \<lparr>lo_isLocked = True, lo_attemptsRemaining = Some 0, lo_lockedUntil = locked, lo_lockCount = counter count\<rparr>
     else bindc (store_get R now (ATTEMPTS_KEY email)) (\<lambda>attempts.
       returnc \<lparr>lo_isLocked = False, lo_attemptsRemaining = map_option (\<lambda>n. max 0 (MAX_ATTEMPTS - n)) (counter attempts),
                lo_lockedUntil = None, lo_lockCount = counter count\<rparr>)))"

text \<open>\<open>LOCKOUT_DURATIONS_SECONDS[Math.min(lockCount - 1, length - 1)]\<close>; out of range, or for \<open>NaN\<close>, it is
  \<open>undefined\<close>, and the date made of it throws on \<open>toISOString\<close>.\<close>

definition lock_duration :: "int option \<Rightarrow> int option" where
  "lock_duration lockCount = (case lockCount of
       None \<Rightarrow> None
     | Some n \<Rightarrow> let i = min (n - 1) (int (length LOCKOUT_DURATIONS_SECONDS) - 1)
                in if i < 0 then None else Some (LOCKOUT_DURATIONS_SECONDS ! nat i))"

definition lock_account :: "'s redis \<Rightarrow> ms \<Rightarrow> string \<Rightarrow> ('s, lockout_status) cmd" where
  "lock_account R now email =
     bindc (store_get R now (COUNT_KEY email)) (\<lambda>rawCount.
     let lockCount = map_option (\<lambda>n. n + 1) (counter rawCount) in
     case lock_duration lockCount of
       None \<Rightarrow> (\<lambda>s. (Inl (PlainError ''Invalid time value''), s))
     | Some durationSeconds \<Rightarrow>
         let lockedUntil = CIso (now + durationSeconds * 1000) in
         bindc (store_set R now (LOCKED_KEY email) lockedUntil (durationSeconds * 1000)) (\<lambda>_.
         bindc (store_set R now (COUNT_KEY email) (CStr (num_str lockCount)) (7 * 24 * 60 * 60 * 1000)) (\<lambda>_.
         bindc (store_del R now (ATTEMPTS_KEY email)) (\<lambda>_.
         returnc \<lparr>lo_isLocked = True, lo_attemptsRemaining = Some 0, lo_lockedUntil = Some lockedUntil, lo_lockCount = lockCount\<rparr>))))"

definition recordFailedAttempt :: "'s redis \<Rightarrow> ms \<Rightarrow> string \<Rightarrow> ('s, lockout_status) cmd" where
  "recordFailedAttempt R now email =
     bindc (store_get R now (ATTEMPTS_KEY email)) (\<lambda>raw.
     let attempts = map_option (\<lambda>n. n + 1) (counter raw) in
     bindc (store_set R now (ATTEMPTS_KEY email) (CStr (num_str attempts)) (30 * 60 * 1000)) (\<lambda>_.
     case attempts of
       Some n \<Rightarrow>
         if n \<ge> MAX_ATTEMPTS then lock_account R now email
         else bindc (store_get R now (COUNT_KEY email)) (\<lambda>count.
           returnc \<lparr>lo_isLocked = False, lo_attemptsRemaining = Some (MAX_ATTEMPTS - n), lo_lockedUntil = None, lo_lockCount = counter count\<rparr>)
     | None \<Rightarrow>
         bindc (store_get R now (COUNT_KEY email)) (\<lambda>count.
           returnc \<lparr>lo_isLocked = False, lo_attemptsRemaining = None, lo_lockedUntil = None, lo_lockCount = counter count\<rparr>)))"

definition clearLockout :: "'s redis \<Rightarrow> ms \<Rightarrow> string \<Rightarrow> ('s, unit) cmd" where
  "clearLockout R now email =
     bindc (store_del R now (ATTEMPTS_KEY email)) (\<lambda>_.
     bindc (store_del R now (LOCKED_KEY email)) (\<lambda>_. returnc ()))"

section \<open>Users and tokens\<close>

datatype user_role = USER | MODERATOR | ADMIN

record login_user =
  lu_id :: int
  lu_username :: string
  lu_email :: string
  lu_emailHash :: string
  lu_password :: string
  lu_isActive :: bool
  lu_role :: user_role
  lu_totpEnabled :: bool
  lu_totpSecretEncrypted :: "string option"
  lu_totpSecretIv :: "string option"
  lu_totpSecretTag :: "string option"

record jwt_claims =
  jc_sub :: int
  jc_username :: "string option"
  jc_email :: "string option"
  jc_role :: "user_role option"
  jc_scopes :: "string list"
  jc_purpose :: "string option"

datatype jwt_error = TokenExpiredError | JsonWebTokenError

text \<open>The JWT library: signing at a time, with an expiry in seconds or the configured default, and
  verifying at a time.  What a token looks like is the library's business; a missing or empty token is
  \<open>None\<close>.\<close>

record 'tok jwt =
  jw_sign :: "ms \<Rightarrow> jwt_claims \<Rightarrow> int option \<Rightarrow> 'tok"
  jw_verify :: "ms \<Rightarrow> 'tok \<Rightarrow> jwt_error + jwt_claims"

record login_env =
  le_hash :: "string \<Rightarrow> string"
  le_compare :: "string \<Rightarrow> string \<Rightarrow> bool"
  le_anonymousUser :: "int \<Rightarrow> ident"
  le_decrypt :: "string \<Rightarrow> string \<Rightarrow> string \<Rightarrow> string option"
  le_totp :: "string \<Rightarrow> string \<Rightarrow> bool"

section \<open>Login\<close>

text \<open>An \<open>AppException\<close> with status 401 is an \<open>UnauthorizedException\<close> here.\<close>

definition validateUser :: "login_env \<Rightarrow> login_user list \<Rightarrow> string \<Rightarrow> string \<Rightarrow> login_user option outcome" where
  "validateUser env users email password =
     (case find_one (\<lambda>u. lu_emailHash u = le_hash env (normalized_email email)) users of
        None \<Rightarrow> Inr None
      | Some u \<Rightarrow>
          if \<not> le_compare env password (lu_password u) then Inr None
          else if \<not> lu_isActive u
          then Inl (UnauthorizedException ''Account is deactivated. Please reactivate your account to continue.'')
          else Inr (Some u))"

definition adminScopes :: "string list" where
  "adminScopes = [''stellar:invoke-contract:anchoring'', ''stellar:invoke-contract:anchor_confession'']"

definition session_claims :: "login_user \<Rightarrow> jwt_claims" where
  "session_claims u = \<lparr>jc_sub = lu_id u, jc_username = Some (lu_username u), jc_email = Some (lu_email u),
     jc_role = Some (lu_role u), jc_scopes = (if lu_role u = ADMIN then adminScopes else []), jc_purpose = None\<rparr>"

record 'tok login_result =
  lr_access_token :: 'tok
  lr_user :: login_user
  lr_anonymousUserId :: ident

definition login ::
  "'s redis \<Rightarrow> 'tok jwt \<Rightarrow> login_env \<Rightarrow> login_user list \<Rightarrow> ms \<Rightarrow> string \<Rightarrow> string \<Rightarrow> ('s, 'tok login_result) cmd" where
  "login R J env users now email password =
     bindc (getStatus R now email) (\<lambda>lockStatus.
     if lo_isLocked lockStatus
     then (\<lambda>s. (Inl (UnauthorizedException ''Too many failed login attempts. Please try again later.''), s))
     else case validateUser env users email password of
       Inl e \<Rightarrow> (\<lambda>s. (Inl e, s))
     | Inr None \<Rightarrow> bindc (recordFailedAttempt R now email) (\<lambda>_ s. (Inl (UnauthorizedException ''Invalid credentials''), s))
     | Inr (Some u) \<Rightarrow> bindc (clearLockout R now email) (\<lambda>_.
         returnc \<lparr>lr_access_token = jw_sign J now (session_claims u) None, lr_user = u,
                  lr_anonymousUserId = le_anonymousUser env (lu_id u)\<rparr>))"

section \<open>Sessions\<close>

definition revocation_key :: "int \<Rightarrow> string" where
  "revocation_key userId = ''session:revoked:'' @ int_str userId"

definition SESSION_TTL_MS :: ms where "SESSION_TTL_MS = 24 * 60 * 60 * 1000"

definition or_unavailable :: "string \<Rightarrow> ('s, 'a) cmd \<Rightarrow> ('s, 'a) cmd" where
  "or_unavailable msg m s = (case m s of (Inl _, s') \<Rightarrow> (Inl (ServiceUnavailableException msg), s') | r \<Rightarrow> r)"

definition revokeUserSessions :: "'s redis \<Rightarrow> login_user list \<Rightarrow> ms \<Rightarrow> int \<Rightarrow> ('s, unit) cmd" where
  "revokeUserSessions R users now userId =
     (if find_one (\<lambda>u. lu_id u = userId) users = None then returnc ()
      else or_unavailable ''Session revocation unavailable''
             (store_set R now (revocation_key userId) (CNum now) SESSION_TTL_MS))"

definition isSessionValid :: "'s redis \<Rightarrow> ms \<Rightarrow> int \<Rightarrow> int \<Rightarrow> ('s, bool) cmd" where
  "isSessionValid R now userId issuedAt =
     or_unavailable ''Session validation unavailable''
       (bindc (store_get R now (revocation_key userId)) (\<lambda>revocationTime.
          returnc (if \<not> cval_truthy revocationTime then True
                   else case counter revocationTime of None \<Rightarrow> False | Some t \<Rightarrow> issuedAt * 1000 > t)))"

definition clearSessionRevocation :: "'s redis \<Rightarrow> ms \<Rightarrow> int \<Rightarrow> ('s, unit) cmd" where
  "clearSessionRevocation R now userId =
     or_unavailable ''Session revocation unavailable'' (bindc (store_del R now (revocation_key userId)) (\<lambda>_. returnc ()))"

section \<open>Step-up proofs\<close>

definition STEP_UP_TOKEN_PURPOSE :: string where "STEP_UP_TOKEN_PURPOSE = ''step_up''"
definition DEFAULT_STEP_UP_TTL_SECONDS :: int where "DEFAULT_STEP_UP_TTL_SECONDS = 300"

definition step_up_ttl :: "string option \<Rightarrow> int" where
  "step_up_ttl configured = (case parseInt (nullish configured []) of
       Some n \<Rightarrow> if n > 0 then n else DEFAULT_STEP_UP_TTL_SECONDS
     | None \<Rightarrow> DEFAULT_STEP_UP_TTL_SECONDS)"

definition verifyTotp :: "login_env \<Rightarrow> login_user \<Rightarrow> string \<Rightarrow> app_exn + bool" where
  "verifyTotp env u token =
     (if \<not> lu_totpEnabled u \<or> \<not> truthy (lu_totpSecretEncrypted u) \<or> \<not> truthy (lu_totpSecretIv u) \<or> \<not> truthy (lu_totpSecretTag u)
      then Inl (AppException ''TOTP is not configured for this account'' ''AUTH_INVALID_CREDENTIALS'' 401)
      else case le_decrypt env (the (lu_totpSecretEncrypted u)) (the (lu_totpSecretIv u)) (the (lu_totpSecretTag u)) of
        None \<Rightarrow> Inl (AppException ''Failed to verify TOTP token'' ''AUTH_INVALID_CREDENTIALS'' 401)
      | Some secret \<Rightarrow> Inr (le_totp env secret token))"

definition proof_claims :: "int \<Rightarrow> jwt_claims" where
  "proof_claims userId = \<lparr>jc_sub = userId, jc_username = None, jc_email = None, jc_role = None, jc_scopes = [],
     jc_purpose = Some STEP_UP_TOKEN_PURPOSE\<rparr>"

definition createProof ::
  "'tok jwt \<Rightarrow> login_env \<Rightarrow> login_user list \<Rightarrow> int \<Rightarrow> ms \<Rightarrow> int \<Rightarrow> string option \<Rightarrow> string option \<Rightarrow> app_exn + 'tok \<times> int" where
  "createProof J env users ttlSeconds now userId totpToken password =
     (case find_one (\<lambda>u. lu_id u = userId) users of
        None \<Rightarrow> Inl (AppException ''User not found'' ''NOT_FOUND'' 404)
      | Some u \<Rightarrow>
          (case (if truthy totpToken then verifyTotp env u (the totpToken)
                 else if truthy password then Inr (le_compare env (the password) (lu_password u))
                 else Inl (AppException ''Either password or totpToken must be provided'' ''MISSING_PARAMETER'' 400)) of
             Inl e \<Rightarrow> Inl e
           | Inr verified \<Rightarrow>
               if \<not> verified then Inl (AppException ''Step-up verification failed'' ''AUTH_INVALID_CREDENTIALS'' 401)
               else Inr (jw_sign J now (proof_claims userId) (Some ttlSeconds), ttlSeconds)))"

definition assertValidProof :: "'tok jwt \<Rightarrow> ms \<Rightarrow> int \<Rightarrow> 'tok option \<Rightarrow> app_exn + unit" where
  "assertValidProof J now userId token =
     (if token = None
      then Inl (AppException ''Step-up authentication is required for this action'' ''AUTH_STEP_UP_REQUIRED'' 403)
      else case jw_verify J now (the token) of
        Inl TokenExpiredError \<Rightarrow> Inl (AppException ''Step-up proof has expired - please re-authenticate'' ''AUTH_STEP_UP_EXPIRED'' 403)
      | Inl JsonWebTokenError \<Rightarrow> Inl (AppException ''Invalid step-up proof'' ''AUTH_STEP_UP_INVALID'' 403)
      | Inr payload \<Rightarrow>
          if jc_purpose payload \<noteq> Some STEP_UP_TOKEN_PURPOSE \<or> jc_sub payload \<noteq> userId
          then Inl (AppException ''Invalid step-up proof'' ''AUTH_STEP_UP_INVALID'' 403)
          else Inr ())"

text \<open>The guard: the user comes from the session, the proof from a header (the first one if repeated).\<close>

definition step_up_guard :: "'tok jwt \<Rightarrow> ms \<Rightarrow> int option \<Rightarrow> 'tok list \<Rightarrow> app_exn + unit" where
  "step_up_guard J now user headers =
     (case user of
        None \<Rightarrow> Inl (AppException ''User is not authenticated'' ''AUTH_UNAUTHORIZED'' 401)
      | Some i \<Rightarrow> assertValidProof J now i (case headers of [] \<Rightarrow> None | h # _ \<Rightarrow> Some h))"

text \<open>The session strategy; passport has verified the token and passes its claims.\<close>

record request_user =
  ru_id :: int
  ru_username :: "string option"
  ru_email :: "string option"
  ru_role :: user_role
  ru_scopes :: "string list"

definition jwt_validate :: "login_user list \<Rightarrow> jwt_claims \<Rightarrow> request_user outcome" where
  "jwt_validate users payload =
     (if jc_purpose payload = Some STEP_UP_TOKEN_PURPOSE then Inl (PlainError ''Invalid token'')
      else case find_one (\<lambda>u. lu_id u = jc_sub payload) users of
        None \<Rightarrow> Inl (PlainError ''User not found'')
      | Some u \<Rightarrow>
          if \<not> lu_isActive u then Inl (UnauthorizedException ''Account is deactivated'')
          else Inr \<lparr>ru_id = jc_sub payload, ru_username = jc_username payload, ru_email = jc_email payload,
                    ru_role = lu_role u, ru_scopes = jc_scopes payload\<rparr>)"

section \<open>What the code relies on\<close>

text \<open>The value a key has at a time, given what was stored with which expiry.\<close>

definition live :: "ms \<Rightarrow> (cval \<times> ms option) option \<Rightarrow> cval option" where
  "live now e = (case e of None \<Rightarrow> None | Some (v, None) \<Rightarrow> Some v | Some (v, Some until) \<Rightarrow> if now < until then Some v else None)"

locale redis_server =
  fixes R :: "'s redis" and keyspace :: "'s \<Rightarrow> string \<Rightarrow> (cval \<times> ms option) option"
  assumes get_live: "rd_get R now k s = Some found \<Longrightarrow> found = live now (keyspace s k)"
    and set_stores: "rd_set R now k v ttl s = Some s' \<Longrightarrow>
      keyspace s' = (keyspace s)(k \<mapsto> (v, map_option (\<lambda>d. now + d) ttl))"
    and del_removes: "rd_del R now k s = Some (n, s') \<Longrightarrow> keyspace s' = (keyspace s)(k := None)"
begin

lemma get_cases:
  obtains (down) "store_get R now k s = (Inl cache_down, s)"
    | (up) "store_get R now k s = (Inr (live now (keyspace s k)), s)"
  by (cases "rd_get R now k s") (auto simp: store_get_def dest: get_live)

lemma set_cases:
  obtains (down) "store_set R now k v ttl s = (Inl cache_down, s)"
    | (up) s' where "store_set R now k v ttl s = (Inr (), s')"
        "keyspace s' = (keyspace s)(k \<mapsto> (v, if ttl > 0 then Some (now + ttl) else None))"
proof (cases "rd_set R now k v (if ttl > 0 then Some ttl else None) s")
  case None then show ?thesis by (intro down) (simp add: store_set_def)
next
  case (Some s')
  then show ?thesis using set_stores[OF Some] by (intro up[of s']) (auto simp: store_set_def)
qed

text \<open>A revocation is in force for a day: whatever the cache answers meanwhile, no token issued up to
  the revocation passes, and after the day the revocation is gone.\<close>

lemma revocation_in_force:
  assumes "revokeUserSessions R users now u s = (Inr (), s')" "find_one (\<lambda>x. lu_id x = u) users \<noteq> None" "0 < now"
  shows "isSessionValid R t u issuedAt s' \<in>
    {(Inr (if t < now + SESSION_TTL_MS then issuedAt * 1000 > now else True), s'),
     (Inl (ServiceUnavailableException ''Session validation unavailable''), s')}"
proof -
  have ks: "keyspace s' = (keyspace s)(revocation_key u \<mapsto> (CNum now, Some (now + SESSION_TTL_MS)))"
    using assms(1,2) by (cases rule: set_cases[of now "revocation_key u" "CNum now" SESSION_TTL_MS s])
      (auto simp: revokeUserSessions_def or_unavailable_def SESSION_TTL_MS_def)
  show ?thesis
    by (cases rule: get_cases[of t "revocation_key u" s'])
      (use assms(3) in \<open>auto simp: isSessionValid_def or_unavailable_def bindc_def returnc_def ks live_def cval_truthy_def counter_def\<close>)
qed

end

text \<open>A Redis that answers every command.\<close>

locale reliable_redis = redis_server +
  assumes get_up: "rd_get R now k s \<noteq> None"
    and set_up: "rd_set R now k v ttl s \<noteq> None"
    and del_up: "rd_del R now k s \<noteq> None"
begin

lemma get_eq [simp]: "store_get R now k s = (Inr (live now (keyspace s k)), s)"
  using get_up[of now k s] by (auto simp: store_get_def dest: get_live)

lemma set_eq: "\<exists>s'. store_set R now k v ttl s = (Inr (), s') \<and>
    keyspace s' = (keyspace s)(k \<mapsto> (v, if ttl > 0 then Some (now + ttl) else None))"
proof (cases rule: set_cases[of now k v ttl s])
  case down then show ?thesis
    using set_up[of now k v "if ttl > 0 then Some ttl else None" s] by (auto simp: store_set_def split: option.splits)
qed auto

lemma del_eq: "\<exists>b s'. store_del R now k s = (Inr b, s') \<and> keyspace s' = (keyspace s)(k := None)"
  using del_up[of now k s] by (auto simp: store_del_def dest: del_removes)

end

locale jwt_service =
  fixes J :: "'tok jwt"
  assumes verify_signed: "t0 div 1000 \<le> t div 1000 \<Longrightarrow> jw_verify J t (jw_sign J t0 c (Some d)) =
      (if t div 1000 < t0 div 1000 + d then Inr c else Inl TokenExpiredError)"
    and verify_session: "jw_verify J t (jw_sign J t0 c None) \<in> {Inr c, Inl TokenExpiredError, Inl JsonWebTokenError}"
begin

lemma proof_accepted:
  assumes "createProof J env users ttl t0 u totp pw = Inr (token, d)" "t0 div 1000 \<le> t div 1000"
  shows "assertValidProof J t v (Some token) =
    (if t div 1000 < t0 div 1000 + ttl
     then if v = u then Inr () else Inl (AppException ''Invalid step-up proof'' ''AUTH_STEP_UP_INVALID'' 403)
     else Inl (AppException ''Step-up proof has expired - please re-authenticate'' ''AUTH_STEP_UP_EXPIRED'' 403))"
proof -
  have "token = jw_sign J t0 (proof_claims u) (Some ttl)"
    using assms(1) by (auto simp: createProof_def split: option.splits sum.splits if_splits)
  then show ?thesis using verify_signed[OF assms(2)] by (simp add: assertValidProof_def proof_claims_def)
qed

lemma session_no_proof: "assertValidProof J t v (Some (jw_sign J t0 (session_claims u) None)) \<noteq> Inr ()"
  using verify_session[of t t0 "session_claims u"]
  by (auto simp: assertValidProof_def session_claims_def)

end

section \<open>Counters as text\<close>

lemma counter_simps [simp]:
  "counter None = Some 0" "0 \<le> n \<Longrightarrow> counter (Some (CStr (num_str (Some n)))) = Some n"
  by (simp_all add: counter_def num_str_def parseInt_int_str)

lemma key_simps [simp]:
  "ATTEMPTS_KEY e \<noteq> LOCKED_KEY f" "LOCKED_KEY f \<noteq> ATTEMPTS_KEY e"
  "ATTEMPTS_KEY e \<noteq> COUNT_KEY f" "COUNT_KEY f \<noteq> ATTEMPTS_KEY e"
  "LOCKED_KEY e \<noteq> COUNT_KEY f" "COUNT_KEY f \<noteq> LOCKED_KEY e"
  by (simp_all add: ATTEMPTS_KEY_def LOCKED_KEY_def COUNT_KEY_def)

lemma lock_duration_bounds:
  assumes "0 \<le> n"
  shows "\<exists>d. lock_duration (Some (n + 1)) = Some d \<and> 15 * 60 \<le> d \<and> d \<le> 24 * 60 * 60"
proof -
  have "LOCKOUT_DURATIONS_SECONDS ! i \<in> set LOCKOUT_DURATIONS_SECONDS" if "i < 4" for i
    using that by (intro nth_mem) (simp add: LOCKOUT_DURATIONS_SECONDS_def)
  moreover have "nat (min n 3) < 4" using assms by (simp add: nat_less_iff)
  ultimately have "LOCKOUT_DURATIONS_SECONDS ! nat (min n 3) \<in> set LOCKOUT_DURATIONS_SECONDS" by blast
  then show ?thesis using assms
    by (intro exI[of _ "LOCKOUT_DURATIONS_SECONDS ! nat (min n 3)"])
      (auto simp: lock_duration_def LOCKOUT_DURATIONS_SECONDS_def Let_def)
qed

section \<open>Guessing a password\<close>

text \<open>Whether a login gets as far as comparing the password, and how often a run of logins to one
  account does.\<close>

definition reaches_check :: "'s redis \<Rightarrow> ms \<Rightarrow> string \<Rightarrow> 's \<Rightarrow> bool" where
  "reaches_check R now email s = (case fst (getStatus R now email s) of Inl _ \<Rightarrow> False | Inr st \<Rightarrow> \<not> lo_isLocked st)"

fun guesses ::
  "'s redis \<Rightarrow> 'tok jwt \<Rightarrow> login_env \<Rightarrow> login_user list \<Rightarrow> string \<Rightarrow> (ms \<times> string) list \<Rightarrow> 's \<Rightarrow> nat" where
  "guesses R J env users email [] s = 0"
| "guesses R J env users email ((now, password) # tries) s =
     (if reaches_check R now email s then 1 else 0) +
     guesses R J env users email tries (snd (login R J env users now email password s))"

context reliable_redis
begin

text \<open>The two phases of a run of wrong passwords in \<open>[a, a + 15 min)\<close>: \<open>n\<close> failures counted, or locked.\<close>

definition counting :: "string \<Rightarrow> ms \<Rightarrow> nat \<Rightarrow> 'a \<Rightarrow> bool" where
  "counting email hi n s \<longleftrightarrow> keyspace s (LOCKED_KEY email) = None \<and>
     (\<forall>t < hi. counter (live t (keyspace s (ATTEMPTS_KEY email))) = Some (int n)) \<and>
     (\<forall>t < hi. \<exists>c \<ge> 0. counter (live t (keyspace s (COUNT_KEY email))) = Some c)"

definition locked_until :: "string \<Rightarrow> ms \<Rightarrow> 'a \<Rightarrow> bool" where
  "locked_until email hi s \<longleftrightarrow> (\<forall>t < hi. cval_truthy (live t (keyspace s (LOCKED_KEY email))))"

lemma status_locked: "locked_until email hi s \<Longrightarrow> now < hi \<Longrightarrow> \<not> reaches_check R now email s \<and> snd (login R J env users now email pw s) = s"
  by (simp add: locked_until_def reaches_check_def getStatus_def login_def bindc_def returnc_def)

lemma status_counting: "counting email hi n s \<Longrightarrow> now < hi \<Longrightarrow> reaches_check R now email s"
  by (simp add: counting_def reaches_check_def getStatus_def bindc_def returnc_def live_def cval_truthy_def)

lemma wrong_password:
  assumes c: "counting email hi n s" and now: "now < hi" "hi \<le> now + 15 * 60 * 1000"
    and wrong: "validateUser env users email pw = Inr None"
  shows "let s' = snd (login R J env users now email pw s) in
    if n < 4 then counting email hi (Suc n) s' else locked_until email hi s'"
proof -
  let ?A = "ATTEMPTS_KEY email" and ?L = "LOCKED_KEY email" and ?C = "COUNT_KEY email"
  have L: "live now (keyspace s ?L) = None" using c by (simp add: counting_def live_def)
  have A: "counter (live now (keyspace s ?A)) = Some (int n)" using c now by (simp add: counting_def)
  obtain s1 where s1: "store_set R now ?A (CStr (num_str (Some (int n + 1)))) (30 * 60 * 1000) s = (Inr (), s1)"
    "keyspace s1 = (keyspace s)(?A \<mapsto> (CStr (num_str (Some (int n + 1))), Some (now + 30 * 60 * 1000)))"
    using set_eq[of now ?A "CStr (num_str (Some (int n + 1)))" "30 * 60 * 1000" s] by auto
  have run: "snd (login R J env users now email pw s) =
      snd ((if int n + 1 \<ge> MAX_ATTEMPTS then lock_account R now email else returnc undefined) s1)"
    using L A s1 wrong
    by (simp add: login_def getStatus_def bindc_def returnc_def cval_truthy_def recordFailedAttempt_def Let_def
        split: prod.splits sum.splits)
  show ?thesis
  proof (cases "n < 4")
    case True
    have "counting email hi (Suc n) s1"
      using c now unfolding counting_def s1(2) by (auto simp: live_def)
    then show ?thesis using True run by (simp add: MAX_ATTEMPTS_def returnc_def)
  next
    case False
    obtain k where k: "0 \<le> k" "counter (live now (keyspace s ?C)) = Some k" using c now by (auto simp: counting_def)
    obtain d where d: "lock_duration (Some (k + 1)) = Some d" "15 * 60 \<le> d" using lock_duration_bounds[OF k(1)] by auto
    obtain s2 where s2: "store_set R now ?L (CIso (now + d * 1000)) (d * 1000) s1 = (Inr (), s2)"
      "keyspace s2 = (keyspace s1)(?L \<mapsto> (CIso (now + d * 1000), Some (now + d * 1000)))"
      using set_eq[of now ?L "CIso (now + d * 1000)" "d * 1000" s1] d(2) by auto
    obtain s3 where s3: "store_set R now ?C (CStr (num_str (Some (k + 1)))) (7 * 24 * 60 * 60 * 1000) s2 = (Inr (), s3)"
      "keyspace s3 ?L = keyspace s2 ?L"
      using set_eq[of now ?C "CStr (num_str (Some (k + 1)))" "7 * 24 * 60 * 60 * 1000" s2] by auto
    obtain b s4 where s4: "store_del R now ?A s3 = (Inr b, s4)" "keyspace s4 ?L = keyspace s3 ?L"
      using del_eq[of now ?A s3] by auto
    have "snd (lock_account R now email s1) = s4"
      using k(2) d(1) s1(2) s2(1) s3(1) s4(1) by (simp add: lock_account_def bindc_def returnc_def Let_def)
    moreover have "locked_until email hi s4"
      using now d(2) by (auto simp: locked_until_def s4(2) s3(2) s2(2) live_def cval_truthy_def)
    ultimately show ?thesis using False run by (simp add: MAX_ATTEMPTS_def Let_def)
  qed
qed

lemma guesses_locked:
  assumes "locked_until email hi s" "\<forall>(now, pw) \<in> set tries. now < hi"
  shows "guesses R J env users email tries s = 0"
  using assms(2)
proof (induction tries)
  case (Cons x tries)
  then show ?case using status_locked[OF assms(1), of "fst x" J env users "snd x"] by (cases x) simp
qed simp

lemma guesses_counting:
  assumes "counting email hi n s" "n \<le> 4"
    and "\<forall>(now, pw) \<in> set tries. now < hi \<and> hi \<le> now + 15 * 60 * 1000 \<and> validateUser env users email pw = Inr None"
  shows "guesses R J env users email tries s \<le> 5 - n"
  using assms
proof (induction tries arbitrary: n s)
  case (Cons x tries)
  obtain now pw where x: "x = (now, pw)" by force
  let ?s = "snd (login R J env users now email pw s)"
  have in_time: "now < hi" "hi \<le> now + 15 * 60 * 1000" "validateUser env users email pw = Inr None"
    using Cons.prems(3) x by auto
  note w = wrong_password[OF Cons.prems(1) in_time, of J]
  have "guesses R J env users email tries ?s \<le> 4 - n"
  proof (cases "n < 4")
    case True
    then have "counting email hi (Suc n) ?s" using w by (simp add: Let_def)
    from Cons.IH[OF this] show ?thesis using True Cons.prems(3) by simp
  next
    case False
    then have "locked_until email hi ?s" using w by (simp add: Let_def)
    then have "guesses R J env users email tries ?s = 0" by (rule guesses_locked) (use Cons.prems(3) in auto)
    then show ?thesis by simp
  qed
  then show ?case using Cons.prems(2) by (simp add: x) arith
qed simp

end

section \<open>An in-memory Redis and a token library\<close>

text \<open>A key space in memory answers every command the way the laws say.\<close>

definition memory_redis :: "(string \<Rightarrow> (cval \<times> ms option) option) redis" where
  "memory_redis = \<lparr>rd_get = (\<lambda>now k m. Some (live now (m k))),
     rd_set = (\<lambda>now k v ttl m. Some (m(k \<mapsto> (v, map_option (\<lambda>d. now + d) ttl)))),
     rd_del = (\<lambda>now k m. Some (if live now (m k) = None then 0 else 1, m(k := None)))\<rparr>"

interpretation memory: reliable_redis memory_redis "\<lambda>m. m"
  by unfold_locales (auto simp: memory_redis_def)

text \<open>Tokens that carry their claims in the clear.\<close>

definition plain_jwt :: "(ms \<times> jwt_claims \<times> int option) jwt" where
  "plain_jwt = \<lparr>jw_sign = (\<lambda>t c d. (t, c, d)),
     jw_verify = (\<lambda>t (t0, c, d). case d of
        None \<Rightarrow> if t div 1000 < t0 div 1000 + 3600 then Inr c else Inl TokenExpiredError
      | Some d \<Rightarrow> if t div 1000 < t0 div 1000 + d then Inr c else Inl TokenExpiredError)\<rparr>"

interpretation plain: jwt_service plain_jwt
  by unfold_locales (auto simp: plain_jwt_def)

section \<open>Properties\<close>


definition sample_user :: login_user where
  "sample_user = \<lparr>lu_id = 7, lu_username = ''ann'', lu_email = ''a@b.c'', lu_emailHash = ''a@b.c'', lu_password = ''pw'',
     lu_isActive = True, lu_role = ADMIN, lu_totpEnabled = False, lu_totpSecretEncrypted = None,
     lu_totpSecretIv = None, lu_totpSecretTag = None\<rparr>"

definition sample_login_env :: login_env where
  "sample_login_env = \<lparr>le_hash = (\<lambda>s. s), le_compare = (\<lambda>a b. a = b), le_anonymousUser = (\<lambda>_. ''anon''),
     le_decrypt = (\<lambda>_ _ _. None), le_totp = (\<lambda>_ _. False)\<rparr>"




end
