(* ===== verification/Rate_Limit.thy ===== *)
theory Rate_Limit
  imports XC_Prelude
begin

text \<open>
  The in-memory rate limiter of the HTTP layer: \<^verbatim>\<open>auth/guard/rate-limit.guard.ts\<close> with its decorator
  options and \<^verbatim>\<open>config/rate-limit.config.ts\<close>.  The store is a map from keys to fixed windows; the
  options a handler carries are an argument.
\<close>

section \<open>Configuration, entries, requests\<close>

record rate_config =
  postLimit :: nat
  postWindow :: nat
  getLimit :: nat
  getWindow :: nat
  messageSendLimit :: nat
  messageSendWindow :: nat
  messagePairLimit :: nat
  messagePairWindow :: nat

text \<open>The values \<open>getRateLimitConfig\<close> falls back to.\<close>

definition default_rate_config :: rate_config where
  "default_rate_config = \<lparr>postLimit = 5, postWindow = 60, getLimit = 50, getWindow = 60,
     messageSendLimit = 10, messageSendWindow = 60, messagePairLimit = 3, messagePairWindow = 60\<rparr>"

record rate_options =
  ro_limit :: nat
  ro_window :: nat
  ro_pairLimit :: "nat option"
  ro_pairWindow :: "nat option"

record rate_entry =
  re_count :: nat
  re_resetTime :: ms

type_synonym rate_store = "string \<rightharpoonup> rate_entry"

text \<open>What the guard reads of a request; a user id is the text of \<open>user.sub || user.id\<close>.\<close>

record rate_request =
  rr_method :: string
  rr_handler :: "string option"
  rr_userId :: "string option"
  rr_forwardedFor :: "string option"
  rr_realIp :: "string option"
  rr_ip :: "string option"
  rr_remoteAddress :: "string option"
  rr_recipientId :: "string option"
  rr_recipient_id :: "string option"
  rr_confessionId :: "string option"
  rr_confession_id :: "string option"
  rr_paramUserId :: "string option"

text \<open>\<open>HttpException\<close> with status 429: \<open>retryAfter\<close> and \<open>limit\<close> of its body.\<close>

datatype rate_error = TooManyRequests int nat

section \<open>The guard\<close>

definition getClientId :: "rate_request \<Rightarrow> string" where
  "getClientId q = js_or (map_option (takeWhile (\<lambda>c. c \<noteq> CHR '','')) (rr_forwardedFor q))
     (js_or (rr_realIp q) (js_or (rr_ip q) (js_or (rr_remoteAddress q) ''unknown'')))"

definition senderId :: "rate_request \<Rightarrow> string" where
  "senderId q = (if truthy (rr_userId q) then ''user:'' @ the (rr_userId q) else ''ip:'' @ getClientId q)"

definition sender_key :: "rate_request \<Rightarrow> string" where
  "sender_key q = senderId q @ '':'' @ rr_method q @ '':'' @ js_or (rr_handler q) ''default''"

definition getRateLimitForMethod :: "rate_config \<Rightarrow> string \<Rightarrow> nat \<times> nat" where
  "getRateLimitForMethod cfg m =
     (if m \<in> {''POST'', ''PUT'', ''PATCH'', ''DELETE''} then (postLimit cfg, postWindow cfg)
      else (getLimit cfg, getWindow cfg))"

definition sender_limit :: "rate_config \<Rightarrow> rate_options option \<Rightarrow> rate_request \<Rightarrow> nat \<times> nat" where
  "sender_limit cfg opts q =
     (case opts of Some o' \<Rightarrow> (ro_limit o', ro_window o') | None \<Rightarrow> getRateLimitForMethod cfg (rr_method q))"

definition recipientId :: "rate_request \<Rightarrow> string option" where
  "recipientId q = (let r = js_or (rr_recipientId q) (js_or (rr_recipient_id q) (js_or (rr_confessionId q)
       (js_or (rr_confession_id q) (nullish (rr_paramUserId q) [])))) in if r = [] then None else Some r)"

definition checkAndIncrement ::
  "string \<Rightarrow> nat \<Rightarrow> nat \<Rightarrow> ms \<Rightarrow> rate_store \<Rightarrow> (rate_error + unit) \<times> rate_store" where
  "checkAndIncrement key limit window now store =
     (let fresh = (Inr (), store(key \<mapsto> \<lparr>re_count = 1, re_resetTime = now + int window * 1000\<rparr>)) in
      case store key of
        None \<Rightarrow> fresh
      | Some e \<Rightarrow>
          if now > re_resetTime e then fresh
          else if re_count e \<ge> limit then (Inl (TooManyRequests (ceil_div (re_resetTime e - now) 1000) limit), store)
          else (Inr (), store(key \<mapsto> e\<lparr>re_count := re_count e + 1\<rparr>)))"

definition pair_check ::
  "rate_config \<Rightarrow> rate_options option \<Rightarrow> rate_request \<Rightarrow> ms \<Rightarrow> rate_store \<Rightarrow> (rate_error + unit) \<times> rate_store" where
  "pair_check cfg opts q now store =
     (let pairLimit = nullish (Option.bind opts ro_pairLimit) (messagePairLimit cfg);
          pairWindow = nullish (Option.bind opts ro_pairWindow) (messagePairWindow cfg)
      in case recipientId q of
           None \<Rightarrow> (Inr (), store)
         | Some r \<Rightarrow>
             if Option.bind opts ro_pairLimit \<noteq> None \<or> rr_method q = ''POST''
             then checkAndIncrement (''pair:'' @ senderId q @ '':'' @ r) pairLimit pairWindow now store
             else (Inr (), store))"

definition canActivate ::
  "rate_config \<Rightarrow> rate_options option \<Rightarrow> rate_request \<Rightarrow> ms \<Rightarrow> rate_store \<Rightarrow> (rate_error + unit) \<times> rate_store" where
  "canActivate cfg opts q now store =
     (let (limit, window) = sender_limit cfg opts q in
      case checkAndIncrement (sender_key q) limit window now store of
        (Inl e, store1) \<Rightarrow> (Inl e, store1)
      | (Inr _, store1) \<Rightarrow> pair_check cfg opts q now store1)"

definition cleanup :: "ms \<Rightarrow> rate_store \<Rightarrow> rate_store" where
  "cleanup now store =
     (\<lambda>k. case store k of None \<Rightarrow> None | Some e \<Rightarrow> if now > re_resetTime e then None else Some e)"

section \<open>Runs of the guard\<close>

datatype guard_event = Request rate_request ms | Cleanup ms

fun event_time :: "guard_event \<Rightarrow> ms" where
  "event_time (Request _ now) = now"
| "event_time (Cleanup now) = now"

text \<open>How many requests with the sender key \<open>k\<close> a run lets through; \<open>opts\<close> gives the options of a handler.\<close>

fun admitted ::
  "rate_config \<Rightarrow> (string option \<Rightarrow> rate_options option) \<Rightarrow> string \<Rightarrow> guard_event list \<Rightarrow> rate_store \<Rightarrow> nat" where
  "admitted cfg opts k [] store = 0"
| "admitted cfg opts k (Cleanup now # evs) store = admitted cfg opts k evs (cleanup now store)"
| "admitted cfg opts k (Request q now # evs) store =
     (let (res, store') = canActivate cfg (opts (rr_handler q)) q now store in
      (if sender_key q = k \<and> res = Inr () then 1 else 0) + admitted cfg opts k evs store')"

lemma checkAndIncrement_other: "k \<noteq> key \<Longrightarrow> snd (checkAndIncrement key l w now store) k = store k"
  by (auto simp: checkAndIncrement_def Let_def split: option.splits)

lemma sender_key_head: "hd (sender_key q) \<in> {CHR ''u'', CHR ''i''}"
  by (simp add: sender_key_def senderId_def)

lemma pair_check_sender: "snd (pair_check cfg opts q now store) (sender_key q') = store (sender_key q')"
proof -
  have "sender_key q' \<noteq> ''pair:'' @ x" for x using sender_key_head[of q'] by auto
  then show ?thesis by (simp add: pair_check_def checkAndIncrement_other Let_def split: option.splits)
qed

text \<open>The window of a sender after a request is the one its own check left.\<close>

lemma canActivate_sender:
  "snd (canActivate cfg opts q now store) (sender_key q') =
   snd (checkAndIncrement (sender_key q) (fst (sender_limit cfg opts q)) (snd (sender_limit cfg opts q)) now store) (sender_key q')"
  by (auto simp: canActivate_def pair_check_sender split: prod.splits sum.splits)

lemma canActivate_admits:
  "fst (canActivate cfg opts q now store) = Inr () \<Longrightarrow>
   fst (checkAndIncrement (sender_key q) (fst (sender_limit cfg opts q)) (snd (sender_limit cfg opts q)) now store) = Inr ()"
  by (auto simp: canActivate_def split: prod.splits sum.splits)

text \<open>What a sender may still do until time \<open>hi\<close>: the rest of its window, and one more window when
  this one can end before.\<close>

definition budget :: "nat \<Rightarrow> ms \<Rightarrow> rate_entry option \<Rightarrow> nat" where
  "budget l hi e = (case e of None \<Rightarrow> l | Some x \<Rightarrow> (l - re_count x) + (if re_resetTime x < hi then l else 0))"

lemma budget_check:
  assumes "0 < l" "hi \<le> now + int w * 1000" "now \<le> hi"
  shows "(if fst (checkAndIncrement k l w now store) = Inr () then 1 else 0) +
    budget l hi (snd (checkAndIncrement k l w now store) k) \<le> budget l hi (store k)"
  using assms by (auto simp: checkAndIncrement_def Let_def budget_def split: option.splits)

lemma budget_cleanup: "now \<le> hi \<Longrightarrow> budget l hi (cleanup now store k) \<le> budget l hi (store k)"
  by (auto simp: cleanup_def budget_def split: option.splits)

lemma admitted_budget:
  assumes "0 < l" "\<forall>ev \<in> set evs. a \<le> event_time ev \<and> event_time ev \<le> a + int w * 1000"
    and "\<forall>q now. Request q now \<in> set evs \<and> sender_key q = sender_key me \<longrightarrow> sender_limit cfg (opts (rr_handler q)) q = (l, w)"
  shows "admitted cfg opts (sender_key me) evs store \<le> budget l (a + int w * 1000) (store (sender_key me))"
  using assms(2,3)
proof (induction evs arbitrary: store)
  case Nil then show ?case by simp
next
  case (Cons ev evs)
  let ?hi = "a + int w * 1000" and ?k = "sender_key me"
  have IH: "admitted cfg opts ?k evs s \<le> budget l ?hi (s ?k)" for s
    by (rule Cons.IH) (use Cons.prems in auto)
  show ?case
  proof (cases ev)
    case (Cleanup now)
    then show ?thesis using IH[of "cleanup now store"] budget_cleanup[of now ?hi l store ?k] Cons.prems(1) by simp
  next
    case (Request q now)
    define r where "r = canActivate cfg (opts (rr_handler q)) q now store"
    have step: "admitted cfg opts ?k (ev # evs) store =
        (if sender_key q = ?k \<and> fst r = Inr () then 1 else 0) + admitted cfg opts ?k evs (snd r)"
      by (simp add: Request r_def split: prod.splits)
    show ?thesis
    proof (cases "sender_key q = ?k")
      case True
      then have lim: "sender_limit cfg (opts (rr_handler q)) q = (l, w)" using Cons.prems(2) Request by auto
      have key: "snd r ?k = snd (checkAndIncrement ?k l w now store) ?k"
        using canActivate_sender[of cfg "opts (rr_handler q)" q now store me] True lim by (simp add: r_def)
      have ok: "fst r = Inr () \<Longrightarrow> fst (checkAndIncrement ?k l w now store) = Inr ()"
        using canActivate_admits[of cfg "opts (rr_handler q)" q now store] True lim by (simp add: r_def)
      have "(if fst r = Inr () then 1 else 0) + budget l ?hi (snd r ?k) \<le> budget l ?hi (store ?k)"
        using budget_check[OF assms(1), of ?hi now w ?k store] Cons.prems(1) Request ok unfolding key by (auto split: if_splits)
      then show ?thesis using IH[of "snd r"] True unfolding step by (auto split: if_splits)
    next
      case False
      then have "snd r ?k = store ?k" unfolding r_def canActivate_sender by (simp add: checkAndIncrement_other)
      then show ?thesis using IH[of "snd r"] False unfolding step by simp
    qed
  qed
qed

section \<open>Properties\<close>

text \<open>C11: the guard keeps its limit.  In any run of requests of all clients and clean-ups, a sender
  whose requests have the limit \<open>l\<close> per \<open>w\<close> seconds gets at most \<open>l\<close> of them through in a span of \<open>w\<close>
  seconds if it had no window open, and at most \<open>2 l\<close> in any span of \<open>w\<close> seconds, because a window that
  was already open may end inside the span.\<close>

theorem rate_limit_bound:
  assumes "0 < l" "\<forall>ev \<in> set evs. a \<le> event_time ev \<and> event_time ev \<le> a + int w * 1000"
    and "\<forall>q now. Request q now \<in> set evs \<and> sender_key q = sender_key me \<longrightarrow> sender_limit cfg (opts (rr_handler q)) q = (l, w)"
  shows "admitted cfg opts (sender_key me) evs store \<le> 2 * l \<and>
    (store (sender_key me) = None \<longrightarrow> admitted cfg opts (sender_key me) evs store \<le> l)"
proof -
  have "budget l hi e \<le> 2 * l" "budget l hi None = l" for hi e by (auto simp: budget_def split: option.splits)
  then show ?thesis using admitted_budget[OF assms, of store] by (metis order_trans)
qed

definition sample_request :: rate_request where
  "sample_request = \<lparr>rr_method = ''POST'', rr_handler = Some ''create'', rr_userId = Some ''7'', rr_forwardedFor = None,
     rr_realIp = None, rr_ip = Some ''::1'', rr_remoteAddress = None, rr_recipientId = None, rr_recipient_id = None,
     rr_confessionId = None, rr_confession_id = None, rr_paramUserId = None\<rparr>"

text \<open>Seven posts within a minute: five pass.\<close>

theorem rate_limit_bound_witness:
  "admitted default_rate_config (\<lambda>_. None) (sender_key sample_request)
     (map (\<lambda>n. Request sample_request (int n)) [0..<7]) Map.empty \<le> 5 \<and>
   admitted default_rate_config (\<lambda>_. None) (sender_key sample_request)
     (map (\<lambda>n. Request sample_request (int n)) [0..<7]) Map.empty = 5"
proof -
  let ?evs = "map (\<lambda>n. Request sample_request (int n)) [0..<7]"
  have t: "\<forall>ev \<in> set ?evs. 0 \<le> event_time ev \<and> event_time ev \<le> 0 + int 60 * 1000" by auto
  have l: "\<forall>q now. Request q now \<in> set ?evs \<and> sender_key q = sender_key sample_request \<longrightarrow>
      sender_limit default_rate_config None q = (5, 60)"
    by (auto simp: sample_request_def sender_limit_def getRateLimitForMethod_def default_rate_config_def)
  have "admitted default_rate_config (\<lambda>_. None) (sender_key sample_request) ?evs Map.empty = 5"
    by code_simp
  then show ?thesis
    using rate_limit_bound[of 5 ?evs 0 60 sample_request default_rate_config "\<lambda>_. None" Map.empty, OF _ t l] by simp
qed

end
