(* ===== verification/Pagination.thy ===== *)
theory Pagination
  imports Codec "HOL-Library.Product_Lexorder" "HOL-Library.List_Lexorder" "HOL-Library.Char_ord"
begin

text \<open>
  Cursor pagination: \<^verbatim>\<open>common/pagination/\<close>.  A list endpoint orders its rows by a key without ties,
  fetches one row more than the page holds, and hands out a cursor made of the key of the last row of
  the page; the next request asks for the rows after that key.

  The locale \<open>keyset_feed\<close> states what such an endpoint promises for a single request.  From this it
  follows that the pages refine the ordered list (\<open>page_refines\<close>: the request with the cursor of position
  \<open>i\<close> returns the slice at \<open>i\<close>), that a walk over a table that changes between the requests repeats
  nothing and misses nothing that was there all along, and that the walk ends.  The message threads and
  the confession feeds interpret it.
\<close>

section \<open>Bounds and cursors\<close>

definition DEFAULT_LIMIT :: nat where "DEFAULT_LIMIT = 20"
definition MIN_LIMIT :: int where "MIN_LIMIT = 1"
definition MAX_LIMIT :: int where "MAX_LIMIT = 100"

text \<open>\<open>query.limit || 20\<close>: a missing limit and zero take the default.\<close>

definition page_limit :: "nat option \<Rightarrow> nat" where
  "page_limit limit = (case limit of None \<Rightarrow> 20 | Some n \<Rightarrow> if n = 0 then 20 else n)"

text \<open>The checks of \<open>CursorPaginationDto\<close> on an integral limit.\<close>

definition limit_errors :: "int option \<Rightarrow> string list" where
  "limit_errors limit =
     (case limit of
        None \<Rightarrow> []
      | Some n \<Rightarrow>
          (if n < MIN_LIMIT then [''limit must be at least '' @ int_str MIN_LIMIT @ ''.''] else []) @
          (if n > MAX_LIMIT then [''limit must not exceed '' @ int_str MAX_LIMIT @ ''.''] else []))"

text \<open>
  \<open>IsValidCursor\<close>: an empty cursor is allowed; any other one has to hold an id and either an offset or
  a date under one of three names.  \<open>date_parse\<close> is \<open>Date.parse\<close>, with \<open>None\<close> for \<open>NaN\<close>.
\<close>

definition is_position :: "(string \<Rightarrow> ms option) \<Rightarrow> json option \<Rightarrow> bool" where
  "is_position date_parse v = (case v of Some (JStr s) \<Rightarrow> date_parse s \<noteq> None | _ \<Rightarrow> False)"

definition isValidCursor :: "(string \<Rightarrow> ms option) \<Rightarrow> string option \<Rightarrow> bool" where
  "isValidCursor date_parse value =
     (\<not> truthy value \<or>
      (case decodeCursor value of
         None \<Rightarrow> False
       | Some obj \<Rightarrow>
           (case map_of obj ''id'' of Some (JStr _) \<Rightarrow> True | Some (JInt _) \<Rightarrow> True | Some (JFloat _) \<Rightarrow> True | _ \<Rightarrow> False) \<and>
           ((case map_of obj ''offset'' of Some (JInt n) \<Rightarrow> 0 \<le> n | _ \<Rightarrow> False) \<or>
            list_ex (\<lambda>k. is_position date_parse (map_of obj k)) [''created_at'', ''createdAt'', ''lastMessageAt''])))"

text \<open>A date format that can be read back, for instances of the parameters.\<close>

definition ms_text :: "ms \<Rightarrow> string" where "ms_text d = json_text (JInt d)"
definition ms_parse :: "string \<Rightarrow> ms option" where
  "ms_parse s = (case json_parse s of Some (JInt d) \<Rightarrow> Some d | _ \<Rightarrow> None)"

lemma ms_parse_text: "ms_parse (ms_text d) = Some d"
  using json_roundtrip[of "JInt d"] by (simp add: ms_parse_def ms_text_def)

lemma ms_text_nonempty [simp]: "ms_text d \<noteq> []"
  by (simp add: ms_text_def int_str_def)

section \<open>Pages\<close>

record 'r cursor_page =
  cp_data :: "'r list"
  cp_nextCursor :: "string option"
  cp_hasMore :: bool
  cp_hasNextPage :: bool
  cp_limit :: nat

definition CursorPaginatedResponseDto :: "'r list \<Rightarrow> string option \<Rightarrow> bool \<Rightarrow> nat \<Rightarrow> 'r cursor_page" where
  "CursorPaginatedResponseDto data nextCursor hasMore limit =
     \<lparr>cp_data = data, cp_nextCursor = nextCursor, cp_hasMore = hasMore, cp_hasNextPage = hasMore, cp_limit = limit\<rparr>"

text \<open>The page made of the rows of a query that asked for \<open>limit + 1\<close>.\<close>

definition probe_page :: "('r \<Rightarrow> string) \<Rightarrow> nat \<Rightarrow> 'r list \<Rightarrow> 'r cursor_page" where
  "probe_page cursor_of limit rows =
     (let hasMore = length rows > limit;
          data = (if hasMore then take limit rows else rows)
      in CursorPaginatedResponseDto data
           (if hasMore \<and> data \<noteq> [] then Some (cursor_of (last data)) else None) hasMore limit)"

section \<open>The feed cursor\<close>

record feed_position =
  fp_id :: string
  fp_created_at :: ms

definition toFeedCursorPosition :: "(ms \<Rightarrow> string) \<Rightarrow> ident \<Rightarrow> ms \<Rightarrow> (string \<times> json) list" where
  "toFeedCursorPosition isoText i created_at = [(''id'', JStr i), (''created_at'', JStr (isoText created_at))]"

definition encodeFeedCursor :: "(ms \<Rightarrow> string) \<Rightarrow> ident \<Rightarrow> ms \<Rightarrow> string" where
  "encodeFeedCursor isoText i created_at = encodeCursor (toFeedCursorPosition isoText i created_at)"

text \<open>\<open>(created_at, id) < (:createdAt, :id)\<close>, a comparison of row values; both columns descend.\<close>

definition feedKeysetPredicate :: "feed_position \<Rightarrow> ms \<Rightarrow> ident \<Rightarrow> bool" where
  "feedKeysetPredicate position created_at i \<longleftrightarrow> (created_at, i) < (fp_created_at position, fp_id position)"

definition applyNewestFeedOrder :: "('r \<Rightarrow> ms) \<Rightarrow> ('r \<Rightarrow> ident) \<Rightarrow> 'r list \<Rightarrow> 'r list" where
  "applyNewestFeedOrder created_at rid t = rev (sort_key (\<lambda>r. (created_at r, rid r)) t)"

section \<open>Walking a feed\<close>

text \<open>A client follows the cursors; \<open>ts\<close> are the tables its requests find.  The flag tells whether it
  reached the last page.\<close>

fun walk :: "('c option \<Rightarrow> 't \<Rightarrow> 'r list \<times> 'c option) \<Rightarrow> 'c option \<Rightarrow> 't list \<Rightarrow> 'r list \<times> bool" where
  "walk fetch c [] = ([], False)"
| "walk fetch c (t # ts) =
     (case fetch c t of
        (data, None) \<Rightarrow> (data, True)
      | (data, Some d) \<Rightarrow> (case walk fetch (Some d) ts of (rest, fin) \<Rightarrow> (data @ rest, fin)))"

definition page_fetch :: "'r cursor_page \<Rightarrow> 'r list \<times> string option" where
  "page_fetch p = (cp_data p, cp_nextCursor p)"

lemma page_fetch_probe:
  "0 < limit \<Longrightarrow> page_fetch (probe_page cursor_of limit (take (limit + 1) xs)) =
     (take limit xs, if limit < length xs then Some (cursor_of (xs ! (limit - 1))) else None)"
  by (auto simp: page_fetch_def probe_page_def CursorPaginatedResponseDto_def Let_def last_conv_nth min_def)

lemma strict_sorted_unique:
  assumes "sorted_wrt P xs" "sorted_wrt P ys" "set xs = set ys"
    and irrefl: "\<And>x. \<not> P x x" and trans: "\<And>x y z. P x y \<Longrightarrow> P y z \<Longrightarrow> P x z"
  shows "xs = ys"
  using assms(1-3)
proof (induction xs arbitrary: ys)
  case (Cons x xs)
  then obtain y zs where ys: "ys = y # zs" by (cases ys) auto
  have "x = y"
  proof (rule ccontr)
    assume "x \<noteq> y"
    then have "P x y" "P y x" using Cons.prems ys by auto
    with irrefl trans show False by blast
  qed
  moreover have "x \<notin> set xs" "y \<notin> set zs" using Cons.prems ys irrefl by auto
  ultimately have "set xs = set zs" using Cons.prems(3) ys by (auto simp: insert_ident)
  then show ?case using Cons ys \<open>x = y\<close> by simp
qed simp

text \<open>The cursor that leads to position \<open>i\<close> of an ordered list.\<close>

definition cursor_at :: "('r \<Rightarrow> 'c) \<Rightarrow> 'r list \<Rightarrow> nat \<Rightarrow> 'c option" where
  "cursor_at cursor_of L i = (if i = 0 then None else Some (cursor_of (L ! (i - 1))))"

locale keyset_feed =
  fixes key :: "'r \<Rightarrow> 'k"
    and before :: "'k \<Rightarrow> 'k \<Rightarrow> bool"
    and rows :: "'t \<Rightarrow> 'r list"
    and limit :: nat
    and enc :: "'k \<Rightarrow> 'c"
    and fetch :: "'c option \<Rightarrow> 't \<Rightarrow> 'r list \<times> 'c option"
  assumes before_irrefl: "\<not> before k k"
    and before_trans: "before k l \<Longrightarrow> before l m \<Longrightarrow> before k m"
    and limit_pos: "0 < limit"
    and page_law: "distinct (map key (rows t)) \<Longrightarrow>
      \<exists>xs. mset xs = mset (filter (\<lambda>r. case c of None \<Rightarrow> True | Some k \<Rightarrow> before k (key r)) (rows t)) \<and>
           sorted_wrt (\<lambda>r q. before (key r) (key q)) xs \<and>
           fetch (map_option enc c) t =
             (take limit xs, if limit < length xs then Some (enc (key (xs ! (limit - 1)))) else None)"
begin

lemma page_cases:
  assumes "distinct (map key (rows t))" "fetch (map_option enc c) t = (data, next)"
  obtains xs where
    "set xs = {r \<in> set (rows t). case c of None \<Rightarrow> True | Some k \<Rightarrow> before k (key r)}"
    "sorted_wrt (\<lambda>r q. before (key r) (key q)) xs" "data = take limit xs"
    "next = None \<and> data = xs \<or> next = Some (enc (key (last data))) \<and> data \<noteq> [] \<and> xs = data @ drop limit xs"
proof -
  obtain xs where xs: "mset xs = mset (filter (\<lambda>r. case c of None \<Rightarrow> True | Some k \<Rightarrow> before k (key r)) (rows t))"
    "sorted_wrt (\<lambda>r q. before (key r) (key q)) xs"
    "(data, next) = (take limit xs, if limit < length xs then Some (enc (key (xs ! (limit - 1)))) else None)"
    using page_law[OF assms(1), of c] assms(2) by auto
  have "last (take limit xs) = xs ! (limit - 1)" if "limit < length xs"
    using that limit_pos by (subst last_conv_nth) auto
  with xs limit_pos mset_eq_setD[OF xs(1)] show thesis
    by (intro that[of xs]) (auto split: if_splits)
qed

text \<open>A walk never goes back, so it never repeats a row, and everything it returns lies after its start.\<close>

lemma walk_after:
  assumes "\<forall>t \<in> set ts. distinct (map key (rows t))"
  shows "sorted_wrt before (map key (fst (walk fetch (map_option enc c) ts))) \<and>
    (\<forall>r \<in> set (fst (walk fetch (map_option enc c) ts)). \<forall>k. c = Some k \<longrightarrow> before k (key r))"
  using assms
proof (induction ts arbitrary: c)
  case (Cons t ts)
  obtain data "next" where f: "fetch (map_option enc c) t = (data, next)" by force
  from Cons.prems have "distinct (map key (rows t))" by simp
  from page_cases[OF this f] obtain xs where xs:
    "set xs = {r \<in> set (rows t). case c of None \<Rightarrow> True | Some k \<Rightarrow> before k (key r)}"
    "sorted_wrt (\<lambda>r q. before (key r) (key q)) xs" "data = take limit xs"
    "next = None \<and> data = xs \<or> next = Some (enc (key (last data))) \<and> data \<noteq> [] \<and> xs = data @ drop limit xs" .
  have data: "sorted_wrt before (map key data)" "\<forall>r \<in> set data. \<forall>k. c = Some k \<longrightarrow> before k (key r)"
    using xs(1-3) set_take_subset[of limit xs] by (auto simp: sorted_wrt_map sorted_wrt_take)
  show ?case
  proof (cases "next")
    case None
    with f data show ?thesis by simp
  next
    case (Some d)
    with xs(4) have d: "d = enc (key (last data))" "data \<noteq> []" by auto
    obtain rest fin where w: "walk fetch (Some d) ts = (rest, fin)" by force
    have rest: "sorted_wrt before (map key rest)" "\<forall>r \<in> set rest. before (key (last data)) (key r)"
      using Cons.IH[of "Some (key (last data))"] Cons.prems w d by auto
    have "before (key r) (key q)" if "r \<in> set data" "q \<in> set rest" for r q
    proof (cases "r = last data")
      case False
      then have "r \<in> set (butlast data)" using that(1) d(2) by (metis append_butlast_last_id in_set_conv_decomp insertE list.set(2) rotate1.simps(2) set_rotate1)
      moreover have "sorted_wrt before (map key (butlast data @ [last data]))" using data(1) d(2) by simp
      ultimately have "before (key r) (key (last data))" by (auto simp: sorted_wrt_append simp del: append_butlast_last_id)
      with rest(2) that(2) before_trans show ?thesis by blast
    qed (use rest(2) that(2) in auto)
    moreover have "before k (key q)" if "c = Some k" "q \<in> set rest" for k q
      using data(2) d(2) rest(2) that before_trans last_in_set by blast
    ultimately show ?thesis using f Some w data rest by (auto simp: sorted_wrt_append)
  qed
qed simp

lemma walk_no_repeats:
  assumes "\<forall>t \<in> set ts. distinct (map key (rows t))"
  shows "sorted_wrt before (map key (fst (walk fetch None ts)))" "distinct (map key (fst (walk fetch None ts)))"
proof -
  show s: "sorted_wrt before (map key (fst (walk fetch None ts)))"
    using walk_after[OF assms, of None] by simp
  then show "distinct (map key (fst (walk fetch None ts)))"
    by (metis before_irrefl distinct_conv_nth less_linear sorted_wrt_iff_nth_less)
qed

text \<open>A finished walk has returned every key that stayed in the table while it ran.\<close>

lemma walk_complete:
  assumes "\<forall>t \<in> set ts. distinct (map key (rows t)) \<and> k \<in> key ` set (rows t)"
    and "snd (walk fetch (map_option enc c) ts)" "case c of None \<Rightarrow> True | Some l \<Rightarrow> before l k"
    and total: "\<And>k l. k \<noteq> l \<Longrightarrow> before k l \<or> before l k"
  shows "k \<in> key ` set (fst (walk fetch (map_option enc c) ts))"
  using assms(1-3)
proof (induction ts arbitrary: c)
  case (Cons t ts)
  obtain data "next" where f: "fetch (map_option enc c) t = (data, next)" by force
  from Cons.prems have "distinct (map key (rows t))" by simp
  from page_cases[OF this f] obtain xs where xs:
    "set xs = {r \<in> set (rows t). case c of None \<Rightarrow> True | Some k \<Rightarrow> before k (key r)}"
    "sorted_wrt (\<lambda>r q. before (key r) (key q)) xs" "data = take limit xs"
    "next = None \<and> data = xs \<or> next = Some (enc (key (last data))) \<and> data \<noteq> [] \<and> xs = data @ drop limit xs" .
  have k: "k \<in> key ` set xs" using Cons.prems xs(1) by auto
  show ?case
  proof (cases "next")
    case None
    with f xs(4) k show ?thesis by simp
  next
    case (Some d)
    with xs(4) have d: "d = enc (key (last data))" "data \<noteq> []" "xs = data @ drop limit xs" by auto
    obtain rest fin where w: "walk fetch (Some d) ts = (rest, fin)" by force
    show ?thesis
    proof (cases "k \<in> key ` set data")
      case False
      then have "k \<in> key ` set (drop limit xs)" using k d(3) by (metis Un_iff image_Un set_append)
      moreover have "sorted_wrt (\<lambda>r q. before (key r) (key q)) (data @ drop limit xs)" using xs(2) d(3) by simp
      ultimately have "before (key (last data)) k" using d(2) by (auto simp: sorted_wrt_append)
      then have "k \<in> key ` set rest"
        using Cons.IH[of "Some (key (last data))"] Cons.prems f Some w d(1) by simp
      with f Some w show ?thesis by auto
    qed (use f Some w in auto)
  qed
qed simp

text \<open>
  Refinement: the cursor of position \<open>i\<close> of the ordered list, and the request that carries it returns
  the slice at \<open>i\<close> and the cursor of the position after it.
\<close>

lemma page_refines:
  assumes dist: "distinct (map key (rows t))"
    and L: "mset L = mset (rows t)" "sorted_wrt (\<lambda>r q. before (key r) (key q)) L" and i: "i \<le> length L"
  shows "fetch (cursor_at (\<lambda>r. enc (key r)) L i) t =
    (take limit (drop i L), if i + limit < length L then cursor_at (\<lambda>r. enc (key r)) L (i + limit) else None)"
proof -
  let ?c = "if i = 0 then None else Some (key (L ! (i - 1)))"
  let ?after = "\<lambda>r. case ?c of None \<Rightarrow> True | Some k \<Rightarrow> before k (key r)"
  obtain xs where xs: "mset xs = mset (filter ?after (rows t))" "sorted_wrt (\<lambda>r q. before (key r) (key q)) xs"
    "fetch (map_option enc ?c) t = (take limit xs, if limit < length xs then Some (enc (key (xs ! (limit - 1)))) else None)"
    using page_law[OF dist, of ?c] by blast
  have nth: "before (key (L ! a)) (key (L ! b))" if "a < b" "b < length L" for a b
    using L(2) that by (simp add: sorted_wrt_iff_nth_less)
  have "set (drop i L) = {r \<in> set L. ?after r}"
  proof (intro equalityI subsetI)
    fix r assume "r \<in> set (drop i L)"
    then obtain n where "r = L ! (i + n)" "i + n < length L" by (auto simp: in_set_conv_nth)
    with nth[of "i - 1" "i + n"] show "r \<in> {r \<in> set L. ?after r}" by auto
  next
    fix r assume "r \<in> {r \<in> set L. ?after r}"
    then obtain n where n: "r = L ! n" "n < length L" "?after r" by (auto simp: in_set_conv_nth)
    have "i \<le> n"
    proof (rule ccontr)
      assume "\<not> i \<le> n"
      then have "n = i - 1 \<or> before (key (L ! n)) (key (L ! (i - 1)))"
        using nth[of n "i - 1"] i by (cases "n = i - 1") auto
      then show False using n(1,3) \<open>\<not> i \<le> n\<close> before_trans before_irrefl by (auto split: if_splits)
    qed
    with n show "r \<in> set (drop i L)" by (auto simp: in_set_conv_nth intro!: exI[of _ "n - i"])
  qed
  moreover have "set xs = {r \<in> set L. ?after r}"
    using mset_eq_setD[OF xs(1)] mset_eq_setD[OF L(1)] by auto
  ultimately have "xs = drop i L"
    using xs(2) sorted_wrt_drop[OF L(2), of i] before_irrefl before_trans
    by (intro strict_sorted_unique[where P = "\<lambda>r q. before (key r) (key q)"]) blast+
  moreover have "map_option enc ?c = cursor_at (\<lambda>r. enc (key r)) L i" by (simp add: cursor_at_def)
  ultimately show ?thesis
    using xs(3) limit_pos by (auto simp: cursor_at_def)
qed

text \<open>On a table that does not change, the walk ends and has read the whole ordered list.\<close>

lemma walk_static_from:
  assumes "distinct (map key (rows t))" "mset L = mset (rows t)" "sorted_wrt (\<lambda>r q. before (key r) (key q)) L"
    and "i \<le> length L" "0 < n" "length L \<le> i + n * limit"
  shows "walk fetch (cursor_at (\<lambda>r. enc (key r)) L i) (replicate n t) = (drop i L, True)"
  using assms(4-6)
proof (induction n arbitrary: i)
  case (Suc n)
  note page = page_refines[OF assms(1-3) Suc.prems(1)]
  show ?case
  proof (cases "i + limit < length L")
    case True
    then have "0 < n" using Suc.prems by (cases n) auto
    have "length L \<le> (i + limit) + n * limit" using Suc.prems(3) by (simp add: ac_simps)
    then have "walk fetch (cursor_at (\<lambda>r. enc (key r)) L (i + limit)) (replicate n t) = (drop (i + limit) L, True)"
      using True \<open>0 < n\<close> by (intro Suc.IH) auto
    moreover have "cursor_at (\<lambda>r. enc (key r)) L (i + limit) = Some (enc (key (L ! (i + limit - 1))))"
      using limit_pos by (simp add: cursor_at_def)
    moreover have "take limit (drop i L) @ drop (i + limit) L = drop i L"
      by (metis add.commute append_take_drop_id drop_drop)
    ultimately show ?thesis using page True by simp
  qed (use page in simp)
qed simp

lemma walk_static:
  assumes "distinct (map key (rows t))" "mset L = mset (rows t)" "sorted_wrt (\<lambda>r q. before (key r) (key q)) L"
    and "0 < n" "length L \<le> n * limit"
  shows "walk fetch None (replicate n t) = (L, True)"
  using walk_static_from[OF assms(1-3), of 0 n] assms(4,5) by (simp add: cursor_at_def)

end

end
