(* ===== verification/Anonymous_Users.thy ===== *)
theory Anonymous_Users
  imports XC_Prelude
begin

text \<open>
  Anonymous identities: \<^verbatim>\<open>user/anonymous-user.service.ts\<close> and the end-to-end keys attached to them,
  \<^verbatim>\<open>messages/message-keys.service.ts\<close>.  A signed-in user acts through the identity of the running
  24-hour session; a wallet has one identity, found again by its fingerprint.

  Shown: in every reachable state fingerprints are unique, links point at identities, and no identity is
  linked to two users; a session keeps its identity until it is rotated or expires; racing wallet
  connections get one identity; the clean-up of expired sessions removes the running ones instead.
\<close>

section \<open>Rows\<close>

record anon_user =
  au_id :: ident
  au_walletFingerprint :: "string option"
  au_createdAt :: ms
  au_messagePublicKey :: "string option"
  au_messageKeyVersion :: nat
  au_encryptedKeyBackup :: "string option"

record anon_link =
  al_id :: ident
  al_userId :: int
  al_anonymousUserId :: ident
  al_createdAt :: ms

record anon_state =
  as_users :: "anon_user list"
  as_links :: "anon_link list"

definition anon_insert :: "anon_user \<Rightarrow> anon_user list \<Rightarrow> anon_user list option" where
  "anon_insert u t = (if clashes au_walletFingerprint u t then None else Some (t @ [u]))"

definition new_anon :: "ident \<Rightarrow> string option \<Rightarrow> ms \<Rightarrow> anon_user" where
  "new_anon newId walletFingerprint now =
     \<lparr>au_id = newId, au_walletFingerprint = walletFingerprint, au_createdAt = now, au_messagePublicKey = None,
      au_messageKeyVersion = 0, au_encryptedKeyBackup = None\<rparr>"

section \<open>The accounts behind the identities\<close>

text \<open>What the services read of a user: the decrypted address, empty if there is none, and the privacy settings.\<close>

record dm_user =
  du_id :: int
  du_email :: string
  du_privacySettings :: "(string \<times> bool) list option"

definition canReceiveReplies :: "dm_user \<Rightarrow> bool" where
  "canReceiveReplies u =
     (case du_privacySettings u of None \<Rightarrow> True | Some ps \<Rightarrow> map_of ps ''canReceiveReplies'' \<noteq> Some False)"

text \<open>\<open>anonymousUser?.userLinks?.[0]?.user\<close>.\<close>

definition linked_user :: "ident option \<Rightarrow> anon_link list \<Rightarrow> dm_user list \<Rightarrow> dm_user option" where
  "linked_user anonId links users =
     Option.bind anonId (\<lambda>a.
     Option.bind (find_one (\<lambda>l. al_anonymousUserId l = a) links) (\<lambda>l.
     find_one (\<lambda>u. du_id u = al_userId l) users))"

section \<open>Wallets\<close>

definition base32_char :: "char \<Rightarrow> bool" where
  "base32_char c = (let n = (of_char c :: nat) in (65 \<le> n \<and> n \<le> 90) \<or> (50 \<le> n \<and> n \<le> 55))"

definition is_wallet_address :: "string \<Rightarrow> bool" where
  "is_wallet_address a = (length a = 56 \<and> hd a = CHR ''G'' \<and> list_all base32_char (tl a))"

definition getWalletFingerprint ::
  "(string \<Rightarrow> string \<Rightarrow> string) \<Rightarrow> (string \<Rightarrow> string) \<Rightarrow> string option \<Rightarrow> string option \<Rightarrow> string option" where
  "getWalletFingerprint hmac sha secret walletAddress =
     (case walletAddress of
        None \<Rightarrow> None
      | Some a \<Rightarrow>
          if \<not> is_wallet_address a then None
          else if truthy secret then Some (hmac (the secret) a) else Some (sha a))"

definition by_fingerprint :: "string option \<Rightarrow> anon_user list \<Rightarrow> anon_user option" where
  "by_fingerprint fp t = (if truthy fp then find_one (\<lambda>u. au_walletFingerprint u = fp) t else None)"

text \<open>\<open>create\<close>: \<open>seen\<close> is the table its lookup reads, \<open>t\<close> the one its insert finds.\<close>

definition anon_create ::
  "string option \<Rightarrow> ident \<Rightarrow> ms \<Rightarrow> anon_user list \<Rightarrow> anon_user list \<Rightarrow> anon_user outcome \<times> anon_user list" where
  "anon_create fp newId now seen t =
     (case by_fingerprint fp seen of
        Some existing \<Rightarrow> (Inr existing, t)
      | None \<Rightarrow>
          (let anon = new_anon newId fp now in
           case anon_insert anon t of
             Some t' \<Rightarrow> (Inr anon, t')
           | None \<Rightarrow>
               (case by_fingerprint fp t of
                  Some existing \<Rightarrow> (Inr existing, t)
                | None \<Rightarrow> (Inl (PlainError ''duplicate key value violates unique constraint''), t))))"

definition anon_findById :: "ident \<Rightarrow> anon_user list \<Rightarrow> anon_user option" where
  "anon_findById i t = find_one (\<lambda>u. au_id u = i) t"

definition findByWalletAddress ::
  "(string \<Rightarrow> string \<Rightarrow> string) \<Rightarrow> (string \<Rightarrow> string) \<Rightarrow> string option \<Rightarrow> string \<Rightarrow> anon_user list \<Rightarrow> anon_user option" where
  "findByWalletAddress hmac sha secret walletAddress t =
     by_fingerprint (getWalletFingerprint hmac sha secret (Some walletAddress)) t"

section \<open>Sessions\<close>

definition session_cutoff :: "nat \<Rightarrow> ms \<Rightarrow> ms" where
  "session_cutoff hours now = now - int hours * 3600000"

definition session_link :: "int \<Rightarrow> nat \<Rightarrow> ms \<Rightarrow> anon_link list \<Rightarrow> anon_link option" where
  "session_link userId hours now ls =
     (case order_desc al_createdAt (filter (\<lambda>l. al_userId l = userId \<and> al_createdAt l > session_cutoff hours now) ls) of
        [] \<Rightarrow> None | l # _ \<Rightarrow> Some l)"

definition new_link :: "ident \<Rightarrow> int \<Rightarrow> ident \<Rightarrow> ms \<Rightarrow> anon_link" where
  "new_link newId userId anonId now =
     \<lparr>al_id = newId, al_userId = userId, al_anonymousUserId = anonId, al_createdAt = now\<rparr>"

text \<open>A fresh identity without a wallet, linked to the user; the second half of the next operation.\<close>

definition rotateAnonymousContext ::
  "int \<Rightarrow> ident \<Rightarrow> ident \<Rightarrow> ms \<Rightarrow> anon_state \<Rightarrow> anon_user outcome \<times> anon_state" where
  "rotateAnonymousContext userId newAnon newLink now st =
     (case anon_create None newAnon now (as_users st) (as_users st) of
        (Inl e, us) \<Rightarrow> (Inl e, st\<lparr>as_users := us\<rparr>)
      | (Inr anon, us) \<Rightarrow>
          (Inr anon, st\<lparr>as_users := us, as_links := as_links st @ [new_link newLink userId (au_id anon) now]\<rparr>))"

definition getOrCreateForUserSession ::
  "int \<Rightarrow> nat \<Rightarrow> ident \<Rightarrow> ident \<Rightarrow> ms \<Rightarrow> anon_state \<Rightarrow> anon_user outcome \<times> anon_state" where
  "getOrCreateForUserSession userId hours newAnon newLink now st =
     (case Option.bind (session_link userId hours now (as_links st)) (\<lambda>l. anon_findById (al_anonymousUserId l) (as_users st)) of
        Some anon \<Rightarrow> (Inr anon, st)
      | None \<Rightarrow> rotateAnonymousContext userId newAnon newLink now st)"

definition getAnonIdsForUser :: "int \<Rightarrow> anon_link list \<Rightarrow> ident list" where
  "getAnonIdsForUser userId ls = map al_anonymousUserId (filter (\<lambda>l. al_userId l = userId) ls)"

definition cleanupExpiredSessions :: "nat \<Rightarrow> ms \<Rightarrow> anon_state \<Rightarrow> anon_state" where
  "cleanupExpiredSessions hours now st =
     st\<lparr>as_links := delete_where (\<lambda>l. al_createdAt l > session_cutoff hours now) (as_links st)\<rparr>"

section \<open>Message keys\<close>

definition nextKeyVersion :: "anon_user \<Rightarrow> string \<Rightarrow> nat" where
  "nextKeyVersion anon publicKey =
     (if truthy (au_messagePublicKey anon) \<and> au_messagePublicKey anon \<noteq> Some publicKey
      then au_messageKeyVersion anon + 1 else au_messageKeyVersion anon)"

definition with_key :: "string \<Rightarrow> string option \<Rightarrow> anon_user \<Rightarrow> anon_user" where
  "with_key publicKey backup anon =
     anon\<lparr>au_messagePublicKey := Some publicKey, au_messageKeyVersion := nextKeyVersion anon publicKey,
          au_encryptedKeyBackup := (case backup of None \<Rightarrow> au_encryptedKeyBackup anon | Some b \<Rightarrow> Some b)\<rparr>"

definition registerForSession ::
  "int \<Rightarrow> string \<Rightarrow> string option \<Rightarrow> ident \<Rightarrow> ident \<Rightarrow> ms \<Rightarrow> anon_state \<Rightarrow> (ident \<times> nat) outcome \<times> anon_state" where
  "registerForSession userId publicKey backup newAnon newLink now st =
     (case getOrCreateForUserSession userId 24 newAnon newLink now st of
        (Inl e, st') \<Rightarrow> (Inl e, st')
      | (Inr anon, st') \<Rightarrow>
          (let anon' = with_key publicKey backup anon
           in (Inr (au_id anon', au_messageKeyVersion anon'),
               st'\<lparr>as_users := save_row au_id anon' (as_users st')\<rparr>)))"

record session_key =
  sk_anonymousUserId :: ident
  sk_publicKey :: "string option"
  sk_keyVersion :: nat
  sk_hasBackup :: bool

definition getMySessionKey ::
  "int \<Rightarrow> ident \<Rightarrow> ident \<Rightarrow> ms \<Rightarrow> anon_state \<Rightarrow> session_key outcome \<times> anon_state" where
  "getMySessionKey userId newAnon newLink now st =
     (case getOrCreateForUserSession userId 24 newAnon newLink now st of
        (Inl e, st') \<Rightarrow> (Inl e, st')
      | (Inr anon, st') \<Rightarrow>
          (Inr \<lparr>sk_anonymousUserId = au_id anon, sk_publicKey = au_messagePublicKey anon,
                sk_keyVersion = au_messageKeyVersion anon, sk_hasBackup = truthy (au_encryptedKeyBackup anon)\<rparr>, st'))"

definition getPublicKey :: "ident \<Rightarrow> anon_state \<Rightarrow> (ident \<times> string \<times> nat) outcome" where
  "getPublicKey anonymousUserId st =
     (case anon_findById anonymousUserId (as_users st) of
        None \<Rightarrow> Inl (NotFoundException ''Anonymous identity not found'')
      | Some anon \<Rightarrow>
          if \<not> truthy (au_messagePublicKey anon)
          then Inl (NotFoundException ''Participant has not registered an E2E key yet'')
          else Inr (au_id anon, the (au_messagePublicKey anon), au_messageKeyVersion anon))"

definition getKeyBackup ::
  "int \<Rightarrow> ident \<Rightarrow> ident \<Rightarrow> ms \<Rightarrow> anon_state \<Rightarrow> (ident \<times> string \<times> nat) outcome \<times> anon_state" where
  "getKeyBackup userId newAnon newLink now st =
     (case getOrCreateForUserSession userId 24 newAnon newLink now st of
        (Inl e, st') \<Rightarrow> (Inl e, st')
      | (Inr anon, st') \<Rightarrow>
          if \<not> truthy (au_encryptedKeyBackup anon)
          then (Inl (NotFoundException ''No key backup found for this session''), st')
          else (Inr (au_id anon, the (au_encryptedKeyBackup anon), au_messageKeyVersion anon), st'))"

section \<open>The system\<close>

text \<open>
  Ids are fresh when generated.  A wallet identity is created by its own request, whose lookup may have
  read any earlier table.
\<close>

inductive anon_step :: "anon_state \<Rightarrow> anon_state \<Rightarrow> bool" where
  session: "newAnon \<notin> au_id ` set (as_users st) \<Longrightarrow> newAnon \<notin> al_anonymousUserId ` set (as_links st) \<Longrightarrow>
     anon_step st (snd (getOrCreateForUserSession userId hours newAnon newLink now st))"
| rotate: "newAnon \<notin> au_id ` set (as_users st) \<Longrightarrow> newAnon \<notin> al_anonymousUserId ` set (as_links st) \<Longrightarrow>
     anon_step st (snd (rotateAnonymousContext userId newAnon newLink now st))"
| wallet: "newAnon \<notin> au_id ` set (as_users st) \<Longrightarrow>
     anon_step st (st\<lparr>as_users := snd (anon_create fp newAnon now seen (as_users st))\<rparr>)"
| keys: "newAnon \<notin> au_id ` set (as_users st) \<Longrightarrow> newAnon \<notin> al_anonymousUserId ` set (as_links st) \<Longrightarrow>
     anon_step st (snd (registerForSession userId publicKey backup newAnon newLink now st))"
| cleanup: "anon_step st (cleanupExpiredSessions hours now st)"

inductive anon_reachable :: "anon_state \<Rightarrow> bool" where
  init: "anon_reachable \<lparr>as_users = [], as_links = []\<rparr>"
| step: "anon_reachable st \<Longrightarrow> anon_step st st' \<Longrightarrow> anon_reachable st'"

definition single_owner :: "anon_link list \<Rightarrow> bool" where
  "single_owner ls \<longleftrightarrow> (\<forall>l \<in> set ls. \<forall>m \<in> set ls. al_anonymousUserId l = al_anonymousUserId m \<longrightarrow> al_userId l = al_userId m)"

definition anon_inv :: "anon_state \<Rightarrow> bool" where
  "anon_inv st \<longleftrightarrow>
     uniq_on au_walletFingerprint (as_users st) \<and> distinct (map au_id (as_users st)) \<and>
     al_anonymousUserId ` set (as_links st) \<subseteq> au_id ` set (as_users st) \<and> single_owner (as_links st)"

section \<open>Lemmas\<close>

interpretation anon_index: sole_unique_index au_walletFingerprint anon_insert
  by unfold_locales (auto simp: anon_insert_def split: if_splits)

lemma anon_create_cases:
  assumes "anon_create fp newId now seen t = (res, t')"
  obtains (found) u where "res = Inr u" "t' = t" "truthy fp"
  | (created) "res = Inr (new_anon newId fp now)" "t' = t @ [new_anon newId fp now]" "anon_insert (new_anon newId fp now) t = Some t'"
  | (refused) e where "res = Inl e" "t' = t" "fp \<noteq> None"
  using assms
  by (auto simp: anon_create_def by_fingerprint_def anon_insert_def Let_def clashes_def new_anon_def
      split: option.splits if_splits)

lemma anon_create_plain: "anon_create None newId now seen t = (Inr (new_anon newId None now), t @ [new_anon newId None now])"
  by (simp add: anon_create_def by_fingerprint_def anon_insert_def clashes_def new_anon_def Let_def)

lemma rotate_simps:
  "rotateAnonymousContext userId newAnon newLink now st =
     (Inr (new_anon newAnon None now),
      st\<lparr>as_users := as_users st @ [new_anon newAnon None now],
         as_links := as_links st @ [new_link newLink userId newAnon now]\<rparr>)"
  by (simp add: rotateAnonymousContext_def anon_create_plain) (simp add: new_anon_def)

lemma session_link_SomeD:
  assumes "session_link userId hours now ls = Some l"
  shows "l \<in> set ls \<and> al_userId l = userId \<and> session_cutoff hours now < al_createdAt l"
proof -
  let ?P = "\<lambda>l. al_userId l = userId \<and> al_createdAt l > session_cutoff hours now"
  have "l \<in> set (order_desc al_createdAt (filter ?P ls))"
    using assms unfolding session_link_def by (cases "order_desc al_createdAt (filter ?P ls)") simp_all
  then show ?thesis by simp
qed

lemma session_cases:
  obtains (running) anon where "getOrCreateForUserSession userId hours newAnon newLink now st = (Inr anon, st)"
      "anon \<in> set (as_users st)" "au_id anon \<in> set (getAnonIdsForUser userId (as_links st))"
  | (fresh) "getOrCreateForUserSession userId hours newAnon newLink now st = rotateAnonymousContext userId newAnon newLink now st"
proof (cases "Option.bind (session_link userId hours now (as_links st)) (\<lambda>l. anon_findById (al_anonymousUserId l) (as_users st))")
  case None
  then show thesis by (intro fresh) (simp add: getOrCreateForUserSession_def)
next
  case (Some anon)
  then obtain l where l: "session_link userId hours now (as_links st) = Some l"
    "anon_findById (al_anonymousUserId l) (as_users st) = Some anon"
    by (auto simp: bind_eq_Some_conv)
  have "l \<in> set (as_links st)" "al_userId l = userId"
    using session_link_SomeD[OF l(1)] by simp_all
  moreover have "anon \<in> set (as_users st)" "au_id anon = al_anonymousUserId l"
    using find_one_SomeD[of _ "as_users st" anon] l(2) by (auto simp: anon_findById_def)
  ultimately show thesis
    using Some by (intro running[of anon]) (auto simp: getOrCreateForUserSession_def getAnonIdsForUser_def)
qed

lemma single_owner_new:
  "single_owner ls \<Longrightarrow> a \<notin> al_anonymousUserId ` set ls \<Longrightarrow> single_owner (ls @ [new_link i u a now])"
  unfolding single_owner_def by (fastforce simp: new_link_def)

lemma anon_inv_rotate [inv_intros]:
  assumes "anon_inv st" "newAnon \<notin> au_id ` set (as_users st)" "newAnon \<notin> al_anonymousUserId ` set (as_links st)"
  shows "anon_inv (snd (rotateAnonymousContext userId newAnon newLink now st))"
proof -
  have "single_owner (as_links st @ [new_link newLink userId newAnon now])"
    using assms by (intro single_owner_new) (simp_all add: anon_inv_def)
  moreover have "uniq_on au_walletFingerprint (as_users st @ [new_anon newAnon None now])"
    using assms(1) by (simp add: anon_inv_def uniq_on_def new_anon_def)
  ultimately show ?thesis
    using assms unfolding anon_inv_def rotate_simps by (auto simp: new_anon_def new_link_def)
qed

lemma anon_inv_session [inv_intros]:
  assumes "anon_inv st" "newAnon \<notin> au_id ` set (as_users st)" "newAnon \<notin> al_anonymousUserId ` set (as_links st)"
  shows "anon_inv (snd (getOrCreateForUserSession userId hours newAnon newLink now st))"
  by (rule session_cases[of userId hours newAnon newLink now st]) (simp_all add: assms anon_inv_rotate)

lemma anon_inv_wallet [inv_intros]:
  assumes "anon_inv st" "newAnon \<notin> au_id ` set (as_users st)"
  shows "anon_inv (st\<lparr>as_users := snd (anon_create fp newAnon now seen (as_users st))\<rparr>)"
proof -
  obtain res t' where c: "anon_create fp newAnon now seen (as_users st) = (res, t')" by force
  from c show ?thesis
  proof (cases rule: anon_create_cases)
    case created
    then have "uniq_on au_walletFingerprint t'"
      using anon_index.ins_keeps_unique assms(1) by (auto simp: anon_inv_def)
    moreover have "au_id ` set (as_users st) \<subseteq> au_id ` set t'" using created by auto
    moreover have "distinct (map au_id t')" using created assms by (auto simp: anon_inv_def new_anon_def)
    ultimately show ?thesis using c assms(1) unfolding anon_inv_def by simp blast
  qed (use c assms in simp_all)
qed

lemma save_keyed:
  assumes "anon_inv st" "u \<in> set (as_users st)" "au_id u' = au_id u" "au_walletFingerprint u' = au_walletFingerprint u"
  shows "anon_inv (st\<lparr>as_users := save_row au_id u' (as_users st)\<rparr>)"
proof -
  have "map au_id (save_row au_id u' (as_users st)) = map au_id (as_users st)"
    using assms by (auto intro!: keys_save_row)
  moreover have "map au_walletFingerprint (save_row au_id u' (as_users st)) = map au_walletFingerprint (as_users st)"
    using assms by (intro map_save_row[of _ _ u]) (auto simp: anon_inv_def)
  moreover have "au_id ` set (save_row au_id u' (as_users st)) = au_id ` set (as_users st)"
    using arg_cong[OF calculation(1), of set] by simp
  ultimately show ?thesis
    using assms(1) uniq_on_cong[of au_walletFingerprint "save_row au_id u' (as_users st)" "as_users st"]
    unfolding anon_inv_def by simp
qed

lemma session_member:
  assumes "getOrCreateForUserSession userId hours newAnon newLink now st = (Inr anon, st')"
  shows "anon \<in> set (as_users st')"
  by (rule session_cases[of userId hours newAnon newLink now st]) (use assms in \<open>auto simp: rotate_simps\<close>)

lemma anon_inv_keys [inv_intros]:
  assumes "anon_inv st" "newAnon \<notin> au_id ` set (as_users st)" "newAnon \<notin> al_anonymousUserId ` set (as_links st)"
  shows "anon_inv (snd (registerForSession userId publicKey backup newAnon newLink now st))"
proof -
  obtain res st' where s: "getOrCreateForUserSession userId 24 newAnon newLink now st = (res, st')" by force
  then have inv: "anon_inv st'" using anon_inv_session[OF assms, of userId 24 newLink now] by simp
  show ?thesis
  proof (cases res)
    case (Inr anon)
    with s session_member[of userId 24 newAnon newLink now st anon st'] inv show ?thesis
      by (auto simp: registerForSession_def Let_def with_key_def intro!: save_keyed[of st' anon])
  qed (use s inv in \<open>simp add: registerForSession_def\<close>)
qed

lemma anon_inv_cleanup [inv_intros]: "anon_inv st \<Longrightarrow> anon_inv (cleanupExpiredSessions hours now st)"
  by (auto simp: anon_inv_def cleanupExpiredSessions_def single_owner_def)

lemma anon_reachable_inv: "anon_reachable st \<Longrightarrow> anon_inv st"
proof (induction rule: anon_reachable.induct)
  case init
  show ?case by (simp add: anon_inv_def single_owner_def)
next
  case (step st st')
  from step.hyps(2) step.IH show ?case by cases (auto intro: inv_intros)
qed

lemma order_desc_filter: "order_desc k (filter P xs) = filter P (order_desc k xs)"
  by (simp add: order_desc_def filter_sort)

lemma session_link_later:
  assumes "session_link userId hours now ls = Some l" "now \<le> later" "session_cutoff hours later < al_createdAt l"
  shows "session_link userId hours later ls = Some l"
proof -
  let ?P = "\<lambda>t l. al_userId l = userId \<and> al_createdAt l > session_cutoff hours t"
  have "filter (?P later) ls = filter (?P later) (filter (?P now) ls)"
    using assms(2) by (auto simp: session_cutoff_def intro!: filter_cong)
  moreover obtain rest where "order_desc al_createdAt (filter (?P now) ls) = l # rest"
    using assms(1) by (auto simp: session_link_def split: list.splits)
  ultimately have "order_desc al_createdAt (filter (?P later) ls) = l # filter (?P later) rest"
    using session_link_SomeD[OF assms(1)] assms(3) by (simp only: order_desc_filter) simp
  then show ?thesis by (simp add: session_link_def)
qed

lemma session_resolves:
  assumes "anon_inv st" "session_link userId hours now (as_links st) = Some l"
  shows "\<exists>anon. getOrCreateForUserSession userId hours a b now st = (Inr anon, st) \<and> au_id anon = al_anonymousUserId l \<and>
    anon_findById (al_anonymousUserId l) (as_users st) = Some anon"
proof -
  have "al_anonymousUserId l \<in> au_id ` set (as_users st)"
    using session_link_SomeD[OF assms(2)] assms(1) by (auto simp: anon_inv_def)
  then obtain anon where "anon \<in> set (as_users st)" "au_id anon = al_anonymousUserId l" by auto
  then have "anon_findById (al_anonymousUserId l) (as_users st) = Some anon"
    using find_one_by_key[of au_id "as_users st" anon] assms(1) by (simp add: anon_findById_def anon_inv_def)
  with assms(2) \<open>au_id anon = _\<close> show ?thesis by (auto simp: getOrCreateForUserSession_def)
qed

lemma session_link_fresh:
  assumes "anon_inv st" "getOrCreateForUserSession userId hours a b now st = rotateAnonymousContext userId a b now st"
    "a \<notin> au_id ` set (as_users st)" "0 < hours"
  shows "session_link userId hours now (as_links st @ [new_link b userId a now]) = Some (new_link b userId a now)"
proof -
  have "session_link userId hours now (as_links st) = None"
  proof (rule ccontr)
    assume "session_link userId hours now (as_links st) \<noteq> None"
    then obtain l where "session_link userId hours now (as_links st) = Some l" by auto
    from session_resolves[OF assms(1) this, of a b] assms(2) show False
      by (auto simp: rotate_simps dest!: arg_cong[of _ _ "\<lambda>s. length (as_users s)"])
  qed
  then have "order_desc al_createdAt (filter (\<lambda>l. al_userId l = userId \<and> al_createdAt l > session_cutoff hours now) (as_links st)) = []"
    by (auto simp: session_link_def split: list.splits)
  then have "filter (\<lambda>l. al_userId l = userId \<and> al_createdAt l > session_cutoff hours now) (as_links st) = []"
    by (metis length_0_conv length_order_desc)
  with assms(4) show ?thesis
    by (simp add: session_link_def new_link_def session_cutoff_def order_desc_def)
qed

section \<open>Properties\<close>

text \<open>
  C24: Identities stay apart.  In every reachable state a wallet fingerprint belongs to one identity, every
  identity a user may act through exists, and no identity belongs to two users.
\<close>

theorem identities_separate:
  assumes "anon_reachable st"
  shows "uniq_on au_walletFingerprint (as_users st) \<and>
    (\<forall>u a. a \<in> set (getAnonIdsForUser u (as_links st)) \<longrightarrow> (\<exists>x. anon_findById a (as_users st) = Some x)) \<and>
    (\<forall>u v. set (getAnonIdsForUser u (as_links st)) \<inter> set (getAnonIdsForUser v (as_links st)) \<noteq> {} \<longrightarrow> u = v)"
proof (intro conjI allI impI)
  note inv = anon_reachable_inv[OF assms]
  show "uniq_on au_walletFingerprint (as_users st)" using inv by (simp add: anon_inv_def)
  show "\<exists>x. anon_findById a (as_users st) = Some x" if "a \<in> set (getAnonIdsForUser u (as_links st))" for u a
  proof -
    have "a \<in> au_id ` set (as_users st)" using that inv by (auto simp: getAnonIdsForUser_def anon_inv_def)
    then show ?thesis by (cases "anon_findById a (as_users st)") (auto simp: anon_findById_def find_one_None_iff)
  qed
  show "u = v" if "set (getAnonIdsForUser u (as_links st)) \<inter> set (getAnonIdsForUser v (as_links st)) \<noteq> {}" for u v
  proof -
    from that obtain l m where "l \<in> set (as_links st)" "m \<in> set (as_links st)" "al_userId l = u" "al_userId m = v"
      "al_anonymousUserId l = al_anonymousUserId m" by (auto simp: getAnonIdsForUser_def)
    moreover have "single_owner (as_links st)" using inv by (simp add: anon_inv_def)
    ultimately show ?thesis unfolding single_owner_def by blast
  qed
qed

definition one_session :: anon_state where
  "one_session = snd (getOrCreateForUserSession 1 24 ''a1'' ''l1'' 0 \<lparr>as_users = [], as_links = []\<rparr>)"

definition two_sessions :: anon_state where
  "two_sessions = snd (getOrCreateForUserSession 2 24 ''a2'' ''l2'' 5 one_session)"

lemma two_sessions_reachable: "anon_reachable two_sessions"
proof -
  have "anon_reachable one_session"
    unfolding one_session_def by (rule anon_reachable.step[OF anon_reachable.init]) (rule anon_step.session, simp_all)
  moreover have "map au_id (as_users one_session) = [''a1'']" "map al_anonymousUserId (as_links one_session) = [''a1'']"
    by code_simp+
  then have "''a2'' \<notin> au_id ` set (as_users one_session)" "''a2'' \<notin> al_anonymousUserId ` set (as_links one_session)"
    by (auto simp: image_set simp del: set_map)
  ultimately show ?thesis
    unfolding two_sessions_def by (intro anon_reachable.step[OF _ anon_step.session])
qed

theorem identities_separate_witness:
  "getAnonIdsForUser 1 (as_links two_sessions) = [''a1''] \<and> (\<exists>x. anon_findById ''a1'' (as_users two_sessions) = Some x) \<and>
   set (getAnonIdsForUser 1 (as_links two_sessions)) \<inter> set (getAnonIdsForUser 2 (as_links two_sessions)) = {}"
proof -
  have "getAnonIdsForUser 1 (as_links two_sessions) = [''a1'']" by code_simp
  then have "''a1'' \<in> set (getAnonIdsForUser 1 (as_links two_sessions))" by simp
  moreover have "(1 :: int) \<noteq> 2" by simp
  ultimately show ?thesis
    using identities_separate[OF two_sessions_reachable] \<open>_ = [''a1'']\<close> by blast
qed

text \<open>
  A session keeps its identity: after a request of the user every further one gets the same identity
  and creates nothing, for as long as the link of the session is younger than the window.
\<close>

theorem session_identity_stable:
  assumes "anon_reachable st" "getOrCreateForUserSession userId 24 a b now st = (Inr anon, st')"
    and "a \<notin> au_id ` set (as_users st)" "a \<notin> al_anonymousUserId ` set (as_links st)"
  shows "\<exists>l. session_link userId 24 now (as_links st') = Some l \<and>
    (\<forall>later \<ge> now. session_cutoff 24 later < al_createdAt l \<longrightarrow>
       getOrCreateForUserSession userId 24 x y later st' = (Inr anon, st'))"
proof -
  note inv = anon_reachable_inv[OF assms(1)]
  have inv': "anon_inv st'" using anon_inv_session[OF inv assms(3,4), of userId 24 b now] assms(2) by simp
  have "\<exists>l. session_link userId 24 now (as_links st') = Some l \<and> anon_findById (al_anonymousUserId l) (as_users st') = Some anon"
  proof (cases "session_link userId 24 now (as_links st)")
    case None
    then have rot: "getOrCreateForUserSession userId 24 a b now st = rotateAnonymousContext userId a b now st"
      by (simp add: getOrCreateForUserSession_def)
    have "anon_findById a (as_users st @ [new_anon a None now]) = Some (new_anon a None now)"
    proof -
      have "find_one (\<lambda>u. au_id u = a) (as_users st) = None" using assms(3) by (auto simp: find_one_None_iff)
      then show ?thesis by (simp add: anon_findById_def find_one_append new_anon_def)
    qed
    then show ?thesis
      using session_link_fresh[OF inv rot assms(3)] assms(2) rot by (auto simp: rotate_simps new_link_def)
  next
    case (Some l)
    with session_resolves[OF inv Some, of a b] assms(2) show ?thesis by auto
  qed
  then obtain l where l: "session_link userId 24 now (as_links st') = Some l"
    "anon_findById (al_anonymousUserId l) (as_users st') = Some anon" by blast
  have "getOrCreateForUserSession userId 24 x y later st' = (Inr anon, st')"
    if "now \<le> later" "session_cutoff 24 later < al_createdAt l" for later
    using session_resolves[OF inv' session_link_later[OF l(1) that], of x y] l(2) by auto
  with l(1) show ?thesis by blast
qed

text \<open>
  The clean-up of expired sessions compares the wrong way round: it removes every link younger than the
  window, so no session survives it, and keeps every expired one.
\<close>

theorem cleanup_ends_running_sessions:
  "session_link userId hours now (as_links (cleanupExpiredSessions hours now st)) = None"
  "l \<in> set (as_links st) \<Longrightarrow> al_createdAt l \<le> session_cutoff hours now \<Longrightarrow>
     l \<in> set (as_links (cleanupExpiredSessions hours now st))"
proof -
  show "session_link userId hours now (as_links (cleanupExpiredSessions hours now st)) = None"
  proof (cases "session_link userId hours now (as_links (cleanupExpiredSessions hours now st))")
    case (Some l)
    from session_link_SomeD[OF this] have False by (auto simp: cleanupExpiredSessions_def)
    then show ?thesis ..
  qed
qed (simp add: cleanupExpiredSessions_def)

text \<open>
  Registering a new key without a backup keeps the backup of the old key, which is then handed out under
  the version of the new one.
\<close>

theorem stale_backup_under_new_version:
  assumes "getOrCreateForUserSession userId 24 a b now st = (Inr anon, st)" "anon_inv st"
    and "au_messagePublicKey anon = Some old" "old \<noteq> []" "old \<noteq> new"
    and "au_encryptedKeyBackup anon = Some bk" "bk \<noteq> []"
  shows "\<exists>st'. registerForSession userId new None a b now st = (Inr (au_id anon, au_messageKeyVersion anon + 1), st') \<and>
    anon_findById (au_id anon) (as_users st') = Some (anon\<lparr>au_messagePublicKey := Some new,
      au_messageKeyVersion := au_messageKeyVersion anon + 1\<rparr>)"
proof -
  let ?anon = "with_key new None anon"
  have upd: "?anon = anon\<lparr>au_messagePublicKey := Some new, au_messageKeyVersion := au_messageKeyVersion anon + 1\<rparr>"
    using assms by (simp add: with_key_def nextKeyVersion_def)
  have "distinct (map au_id (as_users st))" using assms(2) by (simp add: anon_inv_def)
  then have "distinct (map au_id (save_row au_id ?anon (as_users st)))" by (rule distinct_save_row)
  from find_one_by_key[OF this save_row_mem] show ?thesis
    using assms(1) upd by (auto simp: registerForSession_def Let_def anon_findById_def)
qed

end
