(* ===== verification/Messages.thy ===== *)
theory Messages
  imports Pagination Outbox Anonymous_Users
begin

text \<open>
  Direct messages about a confession: \<^verbatim>\<open>messages/messages.service.ts\<close>, its repository, the ciphertext
  envelopes of \<^verbatim>\<open>messages/crypto/message-e2e.crypto.ts\<close> and \<^verbatim>\<open>messages/message-throttle.service.ts\<close>.
  A sender writes to the author of a confession under an anonymous identity, the author replies once
  per message, both see the thread made of the confession and the sender.

  SHA-256, the AES-GCM cipher and the ISO form of dates are arguments.  \<open>updatedAt\<close> is left out.  Shown:
  only the two participants reach a thread, and everybody else gets the answer of a thread that does
  not exist; a retried request creates one message; only ciphertext envelopes are stored; the
  delivery state moves forward only; the pages of a thread refine the ordered thread.
\<close>

section \<open>Envelopes\<close>

definition MESSAGE_E2E_VERSION :: int where "MESSAGE_E2E_VERSION = 1"
definition ENCRYPTED_PREVIEW :: string where "ENCRYPTED_PREVIEW = ''[Encrypted message]''"
definition GCM_NONCE_BYTES :: int where "GCM_NONCE_BYTES = 12"
definition GCM_TAG_BYTES :: int where "GCM_TAG_BYTES = 16"
definition ENVELOPE_KEYS :: "string list" where "ENVELOPE_KEYS = [''v'', ''alg'', ''iv'', ''ct'']"

definition base64url_char :: "char \<Rightarrow> bool" where
  "base64url_char c =
     (let n = (of_char c :: nat) in
      (65 \<le> n \<and> n \<le> 90) \<or> (97 \<le> n \<and> n \<le> 122) \<or> (48 \<le> n \<and> n \<le> 57) \<or> n = 95 \<or> n = 45)"

record envelope =
  en_v :: int
  en_alg :: string
  en_iv :: string
  en_ct :: string

definition serializeEnvelope :: "envelope \<Rightarrow> string" where
  "serializeEnvelope e =
     json_text (JObj [(''v'', JInt (en_v e)), (''alg'', JStr (en_alg e)), (''iv'', JStr (en_iv e)), (''ct'', JStr (en_ct e))])"

definition base64UrlByteLength :: "json option \<Rightarrow> int" where
  "base64UrlByteLength value =
     (case value of
        Some (JStr s) \<Rightarrow> if s = [] \<or> \<not> list_all base64url_char s then -1 else int (length (fromBase64Url s))
      | _ \<Rightarrow> -1)"

definition json_str_of :: "json option \<Rightarrow> string" where
  "json_str_of v = (case v of Some (JStr s) \<Rightarrow> s | _ \<Rightarrow> [])"

definition parseEnvelope :: "string \<Rightarrow> envelope option" where
  "parseEnvelope payload =
     (case json_parse payload of
        Some (JObj obj) \<Rightarrow>
          (let keys = map fst obj in
           if length keys \<noteq> length ENVELOPE_KEYS \<or> \<not> list_all (\<lambda>k. k \<in> set keys) ENVELOPE_KEYS then None
           else if map_of obj ''v'' \<noteq> Some (JInt MESSAGE_E2E_VERSION) \<or> map_of obj ''alg'' \<noteq> Some (JStr ''aes-256-gcm'') then None
           else if base64UrlByteLength (map_of obj ''iv'') \<noteq> GCM_NONCE_BYTES then None
           else if base64UrlByteLength (map_of obj ''ct'') < GCM_TAG_BYTES then None
           else Some \<lparr>en_v = MESSAGE_E2E_VERSION, en_alg = ''aes-256-gcm'',
                      en_iv = json_str_of (map_of obj ''iv''), en_ct = json_str_of (map_of obj ''ct'')\<rparr>)
      | _ \<Rightarrow> None)"

definition isEncryptedPayload :: "string \<Rightarrow> bool" where
  "isEncryptedPayload payload = (parseEnvelope payload \<noteq> None)"

definition buildThreadId :: "ident \<Rightarrow> ident \<Rightarrow> string" where
  "buildThreadId confessionId senderAnonId = confessionId @ '':'' @ senderAnonId"

text \<open>
  \<open>gcm_seal key iv text\<close> and \<open>gcm_open key iv bytes\<close> are AES-GCM under the key of the thread, which
  \<open>derive\<close> makes of a private key, a public key and the thread id; \<open>None\<close> is a failed authentication.
\<close>

definition encryptMessage ::
  "(string \<Rightarrow> string \<Rightarrow> string \<Rightarrow> 'k) \<Rightarrow> ('k \<Rightarrow> string \<Rightarrow> string \<Rightarrow> string) \<Rightarrow> string \<Rightarrow> string \<Rightarrow> string \<Rightarrow> string \<Rightarrow> string \<Rightarrow> string" where
  "encryptMessage derive gcm_seal iv plaintext privateKey peerPublicKey threadId =
     (let ciphertext = gcm_seal (derive (fromBase64Url privateKey) (fromBase64Url peerPublicKey) threadId) iv plaintext
      in serializeEnvelope \<lparr>en_v = MESSAGE_E2E_VERSION, en_alg = ''aes-256-gcm'', en_iv = toBase64Url iv, en_ct = toBase64Url ciphertext\<rparr>)"

definition decryptMessage ::
  "(string \<Rightarrow> string \<Rightarrow> string \<Rightarrow> 'k) \<Rightarrow> ('k \<Rightarrow> string \<Rightarrow> string \<Rightarrow> string option) \<Rightarrow> string \<Rightarrow> string \<Rightarrow> string \<Rightarrow> string \<Rightarrow> string outcome" where
  "decryptMessage derive gcm_open payload privateKey peerPublicKey threadId =
     (case parseEnvelope payload of
        None \<Rightarrow> Inl (PlainError ''Invalid E2E ciphertext envelope'')
      | Some e \<Rightarrow>
          (case gcm_open (derive (fromBase64Url privateKey) (fromBase64Url peerPublicKey) threadId)
                  (fromBase64Url (en_iv e)) (fromBase64Url (en_ct e)) of
             None \<Rightarrow> Inl (PlainError ''OperationError'')
           | Some plaintext \<Rightarrow> Inr plaintext))"

section \<open>Rows\<close>

datatype delivery_status = SENT | DELIVERED | READ

record message =
  msg_id :: int
  msg_senderId :: ident
  msg_confessionId :: ident
  msg_content :: string
  msg_idempotencyKey :: "string option"
  msg_isEncrypted :: bool
  msg_createdAt :: ms
  msg_hasReply :: bool
  msg_replyContent :: "string option"
  msg_repliedAt :: "ms option"
  msg_authorReadAt :: "ms option"
  msg_senderReadAt :: "ms option"
  msg_deliveryStatus :: delivery_status
  msg_deliveredAt :: "ms option"
  msg_readAt :: "ms option"
  msg_throttleKey :: "string option"
  msg_rateLimitWindow :: "ms option"

record dm_confession =
  dc_id :: ident
  dc_message :: string
  dc_anonymousUserId :: "ident option"

record dm_state =
  dm_anon :: anon_state
  dm_users :: "dm_user list"
  dm_confessions :: "dm_confession list"
  dm_messages :: "message list"
  dm_outbox :: "outbox_event list"

definition first_user :: "ident option \<Rightarrow> dm_state \<Rightarrow> dm_user option" where
  "first_user anonId st = linked_user anonId (as_links (dm_anon st)) (dm_users st)"

definition getRecipientEmail :: "ident option \<Rightarrow> dm_state \<Rightarrow> string option" where
  "getRecipientEmail anonId st = map_option du_email (first_user anonId st)"

definition find_confession :: "ident \<Rightarrow> dm_state \<Rightarrow> dm_confession option" where
  "find_confession i st = find_one (\<lambda>c. dc_id c = i) (dm_confessions st)"

section \<open>Roles\<close>

datatype viewer_role = AUTHOR | SENDER

definition resolveThreadViewerRole :: "ident option \<Rightarrow> ident \<Rightarrow> ident list \<Rightarrow> viewer_role option" where
  "resolveThreadViewerRole confessionAuthorId senderId userAnonIds =
     (let isAuthor = (truthy confessionAuthorId \<and> the confessionAuthorId \<in> set userAnonIds);
          isSender = (senderId \<in> set userAnonIds)
      in if \<not> isAuthor \<and> \<not> isSender then None else Some (if isAuthor then AUTHOR else SENDER))"

section \<open>Sending\<close>

definition scoped_key :: "(string \<Rightarrow> string) \<Rightarrow> int \<Rightarrow> string option \<Rightarrow> string option" where
  "scoped_key sha userId idempotencyKey =
     map_option (\<lambda>k. sha (json_text (JArr [JInt userId, JStr k]))) idempotencyKey"

definition new_message :: "int \<Rightarrow> ident \<Rightarrow> ident \<Rightarrow> string \<Rightarrow> string option \<Rightarrow> ms \<Rightarrow> message" where
  "new_message newId senderId confessionId content key now =
     \<lparr>msg_id = newId, msg_senderId = senderId, msg_confessionId = confessionId, msg_content = content,
      msg_idempotencyKey = key, msg_isEncrypted = True, msg_createdAt = now, msg_hasReply = False,
      msg_replyContent = None, msg_repliedAt = None, msg_authorReadAt = None, msg_senderReadAt = None,
      msg_deliveryStatus = SENT, msg_deliveredAt = None, msg_readAt = None, msg_throttleKey = None,
      msg_rateLimitWindow = None\<rparr>"

definition message_insert :: "message \<Rightarrow> message list \<Rightarrow> message list option" where
  "message_insert m t = (if clashes msg_idempotencyKey m t then None else Some (t @ [m]))"

definition duplicate_key :: exn where
  "duplicate_key = PlainError ''duplicate key value violates unique constraint''"

definition message_outbox_event :: "ident \<Rightarrow> message \<Rightarrow> string \<Rightarrow> ms \<Rightarrow> outbox_event" where
  "message_outbox_event newId m email now =
     outbox_create newId now ''message_notification''
       [(''messageId'', int_str (msg_id m)), (''confessionId'', msg_confessionId m), (''recipientEmail'', email),
        (''senderId'', msg_senderId m), (''messagePreview'', ENCRYPTED_PREVIEW)]
       (Some (''message:'' @ int_str (msg_id m)))"

text \<open>The transaction of \<open>create\<close>; the advisory lock makes it the only one for its key.\<close>

definition create_tx ::
  "dm_confession \<Rightarrow> ident \<Rightarrow> string \<Rightarrow> string option \<Rightarrow> int \<Rightarrow> ident \<Rightarrow> ms \<Rightarrow> dm_state \<Rightarrow> message outcome \<times> dm_state" where
  "create_tx confession senderId content key newId newOutbox now st =
     (case (if truthy key then find_one (\<lambda>m. msg_idempotencyKey m = key) (dm_messages st) else None) of
        Some existing \<Rightarrow>
          if msg_confessionId existing \<noteq> dc_id confession \<or> msg_content existing \<noteq> content
          then (Inl (ConflictException ''Idempotency-Key was already used for a different message''), st)
          else (Inr existing, st)
      | None \<Rightarrow>
          (let m = new_message newId senderId (dc_id confession) content key now in
           case message_insert m (dm_messages st) of
             None \<Rightarrow> (Inl duplicate_key, st)
           | Some ms \<Rightarrow>
               (let email = getRecipientEmail (dc_anonymousUserId confession) st in
                if truthy email
                then (case outbox_insert (message_outbox_event newOutbox m (the email) now) (dm_outbox st) of
                        None \<Rightarrow> (Inl duplicate_key, st)
                      | Some ob \<Rightarrow> (Inr m, st\<lparr>dm_messages := ms, dm_outbox := ob\<rparr>))
                else (Inr m, st\<lparr>dm_messages := ms\<rparr>))))"

record message_fresh =
  mf_id :: int
  mf_outbox :: ident
  mf_anon :: ident
  mf_link :: ident

definition message_create ::
  "(string \<Rightarrow> string) \<Rightarrow> ident \<Rightarrow> string \<Rightarrow> int \<Rightarrow> string option \<Rightarrow> message_fresh \<Rightarrow> ms \<Rightarrow> dm_state \<Rightarrow> message outcome \<times> dm_state" where
  "message_create sha confessionId content userId idempotencyKey fresh now st =
     (if (case idempotencyKey of None \<Rightarrow> False | Some k \<Rightarrow> js_trim k = [] \<or> length k > 128)
      then (Inl (BadRequestException ''Idempotency-Key must contain 1 to 128 characters''), st)
      else if \<not> isEncryptedPayload content
      then (Inl (BadRequestException ''Message content must be an E2E ciphertext envelope''), st)
      else case find_confession confessionId st of
        None \<Rightarrow> (Inl (NotFoundException ''Confession not found''), st)
      | Some confession \<Rightarrow>
          if (case first_user (dc_anonymousUserId confession) st of None \<Rightarrow> False | Some u \<Rightarrow> \<not> canReceiveReplies u)
          then (Inl (ForbiddenException ''This user is not accepting messages''), st)
          else case getOrCreateForUserSession userId 24 (mf_anon fresh) (mf_link fresh) now (dm_anon st) of
            (Inl e, an) \<Rightarrow> (Inl e, st\<lparr>dm_anon := an\<rparr>)
          | (Inr sender, an) \<Rightarrow>
              create_tx confession (au_id sender) content (scoped_key sha userId idempotencyKey)
                (mf_id fresh) (mf_outbox fresh) now (st\<lparr>dm_anon := an\<rparr>))"

section \<open>Marking\<close>

definition in_thread :: "ident \<Rightarrow> ident \<Rightarrow> message \<Rightarrow> bool" where
  "in_thread confessionId senderId m \<longleftrightarrow> msg_confessionId m = confessionId \<and> msg_senderId m = senderId"

definition markThreadRead :: "ident \<Rightarrow> ident \<Rightarrow> viewer_role \<Rightarrow> ms \<Rightarrow> message list \<Rightarrow> message list" where
  "markThreadRead confessionId senderId role now t =
     (case role of
        AUTHOR \<Rightarrow> update_where (\<lambda>m. in_thread confessionId senderId m \<and> msg_authorReadAt m = None)
                    (\<lambda>m. m\<lparr>msg_authorReadAt := Some now\<rparr>) t
      | SENDER \<Rightarrow> update_where (\<lambda>m. in_thread confessionId senderId m \<and> msg_hasReply m \<and> msg_senderReadAt m = None)
                    (\<lambda>m. m\<lparr>msg_senderReadAt := Some now\<rparr>) t)"

definition markMessagesDelivered :: "ident \<Rightarrow> ident \<Rightarrow> ms \<Rightarrow> message list \<Rightarrow> nat \<times> message list" where
  "markMessagesDelivered confessionId senderId now t =
     (let hit = (\<lambda>m. in_thread confessionId senderId m \<and> msg_deliveryStatus m = SENT)
      in (affected hit t, update_where hit (\<lambda>m. m\<lparr>msg_deliveryStatus := DELIVERED, msg_deliveredAt := Some now\<rparr>) t))"

definition markMessagesRead :: "ident \<Rightarrow> ident \<Rightarrow> ms \<Rightarrow> message list \<Rightarrow> nat \<times> message list" where
  "markMessagesRead confessionId senderId now t =
     (let hit = (\<lambda>m. in_thread confessionId senderId m \<and> msg_deliveryStatus m \<noteq> READ)
      in (affected hit t, update_where hit (\<lambda>m. m\<lparr>msg_deliveryStatus := READ, msg_readAt := Some now\<rparr>) t))"

section \<open>Reading a thread\<close>

record messages_query =
  gq_cursor :: "string option"
  gq_page :: "nat option"
  gq_limit :: "nat option"

definition thread_key :: "message \<Rightarrow> ms \<times> int" where
  "thread_key m = (msg_createdAt m, msg_id m)"

definition thread_cursor :: "(ms \<Rightarrow> string) \<Rightarrow> message \<Rightarrow> string" where
  "thread_cursor isoText m = encodeCursor [(''id'', JInt (msg_id m)), (''createdAt'', JStr (isoText (msg_createdAt m)))]"

text \<open>\<open>new Date(value)\<close>, with \<open>None\<close> for an invalid date, and a cursor id as the database reads it.\<close>

definition new_date :: "(string \<Rightarrow> ms option) \<Rightarrow> json option \<Rightarrow> ms option" where
  "new_date date_parse v =
     (case v of Some (JStr s) \<Rightarrow> date_parse s | Some (JInt n) \<Rightarrow> Some n | Some JNull \<Rightarrow> Some 0 | _ \<Rightarrow> None)"

definition cursor_int :: "json option \<Rightarrow> int option" where
  "cursor_int v =
     (case v of
        Some (JInt n) \<Rightarrow> Some n
      | Some (JStr s) \<Rightarrow> (case json_parse s of Some (JInt n) \<Rightarrow> Some n | _ \<Rightarrow> None)
      | _ \<Rightarrow> None)"

definition thread_position :: "(string \<Rightarrow> ms option) \<Rightarrow> (string \<times> json) list \<Rightarrow> (ms \<times> int) option" where
  "thread_position date_parse obj =
     Option.bind (new_date date_parse (map_of obj ''createdAt'')) (\<lambda>d. map_option (Pair d) (cursor_int (map_of obj ''id'')))"

definition after_position :: "ms \<times> int \<Rightarrow> message \<Rightarrow> bool" where
  "after_position p m \<longleftrightarrow> msg_createdAt m > fst p \<or> (msg_createdAt m = fst p \<and> msg_id m > snd p)"

text \<open>The rows of the query, before \<open>take\<close>: an unusable position is a failed query.\<close>

definition thread_rows ::
  "(string \<Rightarrow> ms option) \<Rightarrow> ident \<Rightarrow> ident \<Rightarrow> messages_query \<Rightarrow> nat \<Rightarrow> message list \<Rightarrow> message list outcome" where
  "thread_rows date_parse confessionId senderId q limit t =
     (let thread = filter (in_thread confessionId senderId) t;
          ordered = order_asc thread_key
      in if truthy (gq_cursor q)
         then (case decodeCursor (gq_cursor q) of
                 None \<Rightarrow> Inr (ordered thread)
               | Some obj \<Rightarrow>
                   (case thread_position date_parse obj of
                      None \<Rightarrow> Inl (PlainError ''invalid cursor position'')
                    | Some p \<Rightarrow> Inr (ordered (filter (after_position p) thread))))
         else (case gq_page q of
                 Some p \<Rightarrow> Inr (drop (if p > 1 then (p - 1) * limit else 0) (ordered thread))
               | None \<Rightarrow> Inr (ordered thread)))"

definition thread_not_found :: exn where
  "thread_not_found = NotFoundException ''Thread not found''"

definition viewer_role :: "ident \<Rightarrow> ident \<Rightarrow> int \<Rightarrow> dm_state \<Rightarrow> viewer_role option" where
  "viewer_role confessionId senderId userId st =
     Option.bind (find_confession confessionId st) (\<lambda>c.
       resolveThreadViewerRole (dc_anonymousUserId c) senderId (getAnonIdsForUser userId (as_links (dm_anon st))))"

definition initial_request :: "messages_query \<Rightarrow> bool" where
  "initial_request q \<longleftrightarrow> \<not> truthy (gq_cursor q) \<and> (case gq_page q of None \<Rightarrow> True | Some p \<Rightarrow> p \<le> 1)"

text \<open>The marks a visit leaves before the query runs.\<close>

definition visit_marks :: "ident \<Rightarrow> ident \<Rightarrow> viewer_role \<Rightarrow> ms \<Rightarrow> message list \<Rightarrow> message list" where
  "visit_marks confessionId senderId role now t =
     (let t1 = markThreadRead confessionId senderId role now t
      in if role = SENDER then snd (markMessagesDelivered confessionId senderId now t1) else t1)"

definition findForConfessionThread ::
  "(ms \<Rightarrow> string) \<Rightarrow> (string \<Rightarrow> ms option) \<Rightarrow> ident \<Rightarrow> ident \<Rightarrow> int \<Rightarrow> messages_query \<Rightarrow> ms \<Rightarrow> dm_state \<Rightarrow>
     message cursor_page outcome \<times> dm_state" where
  "findForConfessionThread isoText date_parse confessionId senderId userId q now st =
     (if js_trim confessionId = [] then (Inl (BadRequestException ''Invalid confession ID''), st)
      else case viewer_role confessionId senderId userId st of
        None \<Rightarrow> (Inl thread_not_found, st)
      | Some role \<Rightarrow>
          (let t = visit_marks confessionId senderId role now (dm_messages st);
               limit = page_limit (gq_limit q);
               st' = st\<lparr>dm_messages := t\<rparr>
           in case thread_rows date_parse confessionId senderId q limit t of
                Inl e \<Rightarrow> (Inl e, st')
              | Inr rows \<Rightarrow>
                  (let page = probe_page (thread_cursor isoText) limit (take (limit + 1) rows)
                   in if initial_request q \<and> cp_data page = [] then (Inl thread_not_found, st') else (Inr page, st'))))"

section \<open>Thread ids\<close>

definition thread_parts :: "string \<Rightarrow> (ident \<times> ident) option" where
  "thread_parts threadId =
     (case js_split (CHR ''_'') threadId of
        a # b # _ \<Rightarrow> if a = [] \<or> b = [] then None else Some (a, b)
      | _ \<Rightarrow> None)"

definition thread_id :: "ident \<Rightarrow> ident \<Rightarrow> string" where
  "thread_id confessionId senderId = confessionId @ ''_'' @ senderId"

definition verifyThreadParticipant :: "ident \<Rightarrow> ident \<Rightarrow> int \<Rightarrow> dm_state \<Rightarrow> viewer_role outcome" where
  "verifyThreadParticipant confessionId senderId userId st =
     (case viewer_role confessionId senderId userId st of None \<Rightarrow> Inl thread_not_found | Some r \<Rightarrow> Inr r)"

definition getThreadWithParticipantCheck ::
  "(ms \<Rightarrow> string) \<Rightarrow> (string \<Rightarrow> ms option) \<Rightarrow> string \<Rightarrow> int \<Rightarrow> messages_query \<Rightarrow> ms \<Rightarrow> dm_state \<Rightarrow>
     message cursor_page outcome \<times> dm_state" where
  "getThreadWithParticipantCheck isoText date_parse threadId userId q now st =
     (case thread_parts threadId of
        None \<Rightarrow> (Inl thread_not_found, st)
      | Some (confessionId, senderId) \<Rightarrow>
          (case viewer_role confessionId senderId userId st of
             None \<Rightarrow> (Inl thread_not_found, st)
           | Some _ \<Rightarrow> findForConfessionThread isoText date_parse confessionId senderId userId q now st))"

definition markMessagesAsRead ::
  "ident \<Rightarrow> ident \<Rightarrow> int \<Rightarrow> ms \<Rightarrow> dm_state \<Rightarrow> nat outcome \<times> dm_state" where
  "markMessagesAsRead confessionId senderId userId now st =
     (if find_confession confessionId st = None \<or>
         senderId \<notin> set (getAnonIdsForUser userId (as_links (dm_anon st)))
      then (Inl thread_not_found, st)
      else case markMessagesRead confessionId senderId now (dm_messages st) of
        (n, t) \<Rightarrow> (Inr n, st\<lparr>dm_messages := t\<rparr>))"

definition deleteForUser :: "int \<Rightarrow> string \<Rightarrow> ms \<Rightarrow> dm_state \<Rightarrow> unit outcome \<times> dm_state" where
  "deleteForUser userId threadId now st =
     (case thread_parts threadId of
        None \<Rightarrow> (Inl thread_not_found, st)
      | Some (confessionId, senderId) \<Rightarrow>
          (case viewer_role confessionId senderId userId st of
             None \<Rightarrow> (Inl thread_not_found, st)
           | Some role \<Rightarrow>
               (Inr (), st\<lparr>dm_messages := markThreadRead confessionId senderId role now (dm_messages st)\<rparr>)))"

section \<open>Replying\<close>

text \<open>
  The checks read the message; the transaction saves the columns of the copy it changed.  Between the
  two another reply may arrive, so they are separate.
\<close>

definition reply_check :: "int \<Rightarrow> string \<Rightarrow> int \<Rightarrow> dm_state \<Rightarrow> message outcome" where
  "reply_check messageId reply userId st =
     (if js_trim reply = [] then Inl (BadRequestException ''Reply content cannot be empty'')
      else if \<not> isEncryptedPayload reply then Inl (BadRequestException ''Reply content must be an E2E ciphertext envelope'')
      else case find_one (\<lambda>m. msg_id m = messageId) (dm_messages st) of
        None \<Rightarrow> Inl (NotFoundException ''Message not found'')
      | Some m \<Rightarrow>
          if msg_hasReply m then Inl (ForbiddenException ''Already replied'')
          else (let author = Option.bind (find_confession (msg_confessionId m) st) dc_anonymousUserId
                in if \<not> truthy author \<or> the author \<notin> set (getAnonIdsForUser userId (as_links (dm_anon st)))
                   then Inl (NotFoundException ''Message not found'') else Inr m))"

definition with_reply :: "string \<Rightarrow> ms \<Rightarrow> message \<Rightarrow> message" where
  "with_reply reply now m =
     m\<lparr>msg_hasReply := True, msg_replyContent := Some (js_trim reply), msg_isEncrypted := True,
       msg_repliedAt := Some now, msg_senderReadAt := None\<rparr>"

definition reply_outbox_event :: "ident \<Rightarrow> message \<Rightarrow> string \<Rightarrow> ms \<Rightarrow> outbox_event" where
  "reply_outbox_event newId m email now =
     outbox_create newId now ''reply_notification''
       [(''messageId'', int_str (msg_id m)), (''confessionId'', msg_confessionId m), (''recipientEmail'', email),
        (''replyPreview'', ENCRYPTED_PREVIEW)]
       (Some (''reply:'' @ int_str (msg_id m)))"

definition reply_tx :: "message \<Rightarrow> string \<Rightarrow> ident \<Rightarrow> ms \<Rightarrow> dm_state \<Rightarrow> message outcome \<times> dm_state" where
  "reply_tx m reply newOutbox now st =
     (let st1 = st\<lparr>dm_messages := update_where (\<lambda>x. msg_id x = msg_id m) (with_reply reply now) (dm_messages st)\<rparr>;
          email = getRecipientEmail (Some (msg_senderId m)) st
      in if truthy email
         then (case outbox_insert (reply_outbox_event newOutbox m (the email) now) (dm_outbox st) of
                 None \<Rightarrow> (Inl duplicate_key, st)
               | Some ob \<Rightarrow> (Inr (with_reply reply now m), st1\<lparr>dm_outbox := ob\<rparr>))
         else (Inr (with_reply reply now m), st1))"

definition message_reply :: "int \<Rightarrow> string \<Rightarrow> int \<Rightarrow> ident \<Rightarrow> ms \<Rightarrow> dm_state \<Rightarrow> message outcome \<times> dm_state" where
  "message_reply messageId reply userId newOutbox now st =
     (case reply_check messageId reply userId st of
        Inl e \<Rightarrow> (Inl e, st)
      | Inr m \<Rightarrow> reply_tx m reply newOutbox now st)"

section \<open>The inbox\<close>

record thread_summary =
  ts_confessionId :: ident
  ts_senderId :: ident
  ts_authorAnonymousUserId :: "ident option"
  ts_confessionMessage :: string
  ts_lastMessage :: string
  ts_lastMessageEncrypted :: bool
  ts_lastMessageAt :: ms
  ts_hasUnread :: bool
  ts_unreadCount :: nat
  ts_isAuthor :: bool
  ts_delivery :: "(delivery_status \<times> ms option \<times> ms option) option"

definition unread_for :: "viewer_role option \<Rightarrow> message \<Rightarrow> bool" where
  "unread_for role m =
     (case role of
        Some AUTHOR \<Rightarrow> msg_authorReadAt m = None
      | Some SENDER \<Rightarrow> msg_hasReply m \<and> msg_senderReadAt m = None
      | None \<Rightarrow> False)"

definition author_of :: "dm_state \<Rightarrow> message \<Rightarrow> ident option" where
  "author_of st m = Option.bind (find_confession (msg_confessionId m) st) dc_anonymousUserId"

definition new_thread :: "dm_state \<Rightarrow> ident list \<Rightarrow> message \<Rightarrow> thread_summary" where
  "new_thread st anonIds m =
     (let role = resolveThreadViewerRole (author_of st m) (msg_senderId m) anonIds;
          text = (case find_confession (msg_confessionId m) st of None \<Rightarrow> [] | Some c \<Rightarrow> dc_message c);
          unread = unread_for role m
      in \<lparr>ts_confessionId = msg_confessionId m, ts_senderId = msg_senderId m, ts_authorAnonymousUserId = author_of st m,
          ts_confessionMessage = take 50 text @ (if length text > 50 then ''...'' else []),
          ts_lastMessage = (if msg_isEncrypted m then ENCRYPTED_PREVIEW else msg_content m),
          ts_lastMessageEncrypted = msg_isEncrypted m, ts_lastMessageAt = msg_createdAt m, ts_hasUnread = unread,
          ts_unreadCount = (if unread then 1 else 0), ts_isAuthor = (role = Some AUTHOR),
          ts_delivery = (if role = Some SENDER then Some (msg_deliveryStatus m, msg_deliveredAt m, msg_readAt m) else None)\<rparr>)"

definition same_thread :: "message \<Rightarrow> thread_summary \<Rightarrow> bool" where
  "same_thread m t \<longleftrightarrow>
     thread_id (ts_confessionId t) (ts_senderId t) = thread_id (msg_confessionId m) (msg_senderId m)"

definition add_to_threads :: "dm_state \<Rightarrow> ident list \<Rightarrow> thread_summary list \<Rightarrow> message \<Rightarrow> thread_summary list" where
  "add_to_threads st anonIds ts m =
     (if \<exists>t \<in> set ts. same_thread m t
      then (if unread_for (resolveThreadViewerRole (author_of st m) (msg_senderId m) anonIds) m
            then update_where (same_thread m) (\<lambda>t. t\<lparr>ts_hasUnread := True, ts_unreadCount := ts_unreadCount t + 1\<rparr>) ts
            else ts)
      else ts @ [new_thread st anonIds m])"

definition inbox_messages ::
  "(string \<Rightarrow> ms option) \<Rightarrow> ident list \<Rightarrow> messages_query \<Rightarrow> dm_state \<Rightarrow> message list outcome" where
  "inbox_messages date_parse anonIds q st =
     (let mine = filter (\<lambda>m. msg_senderId m \<in> set anonIds \<or>
                    (case author_of st m of None \<Rightarrow> False | Some a \<Rightarrow> a \<in> set anonIds)) (dm_messages st);
          pool = (\<lambda>rows. take (page_limit (gq_limit q) * 10) (order_desc msg_createdAt rows))
      in if truthy (gq_cursor q)
         then (case decodeCursor (gq_cursor q) of
                 None \<Rightarrow> Inr (pool mine)
               | Some obj \<Rightarrow>
                   (case new_date date_parse (map_of obj ''lastMessageAt'') of
                      None \<Rightarrow> Inl (PlainError ''invalid cursor position'')
                    | Some d \<Rightarrow> Inr (pool (filter (\<lambda>m. msg_createdAt m < d) mine))))
         else Inr (pool mine))"

definition inbox_cursor :: "(ms \<Rightarrow> string) \<Rightarrow> thread_summary \<Rightarrow> string" where
  "inbox_cursor isoText t =
     encodeCursor [(''id'', JStr (thread_id (ts_confessionId t) (ts_senderId t))), (''lastMessageAt'', JStr (isoText (ts_lastMessageAt t)))]"

definition findAllThreadsForUser ::
  "(ms \<Rightarrow> string) \<Rightarrow> (string \<Rightarrow> ms option) \<Rightarrow> int \<Rightarrow> messages_query \<Rightarrow> dm_state \<Rightarrow> thread_summary cursor_page outcome" where
  "findAllThreadsForUser isoText date_parse userId q st =
     (let anonIds = getAnonIdsForUser userId (as_links (dm_anon st)); limit = page_limit (gq_limit q)
      in if anonIds = [] then Inr (CursorPaginatedResponseDto [] None False limit)
         else case inbox_messages date_parse anonIds q st of
           Inl e \<Rightarrow> Inl e
         | Inr ms \<Rightarrow> Inr (probe_page (inbox_cursor isoText) limit (foldl (add_to_threads st anonIds) [] ms)))"

definition getInbox ::
  "(ms \<Rightarrow> string) \<Rightarrow> (string \<Rightarrow> ms option) \<Rightarrow> int \<Rightarrow> messages_query option \<Rightarrow> dm_state \<Rightarrow> thread_summary cursor_page outcome" where
  "getInbox isoText date_parse userId q st =
     findAllThreadsForUser isoText date_parse userId (nullish q \<lparr>gq_cursor = None, gq_page = None, gq_limit = None\<rparr>) st"

section \<open>Throttling\<close>

record throttle_config =
  tc_windowMs :: int
  tc_maxMessages :: nat

definition default_throttle :: throttle_config where
  "default_throttle = \<lparr>tc_windowMs = 60 * 1000, tc_maxMessages = 5\<rparr>"

record throttle_status =
  th_isThrottled :: bool
  th_remaining :: nat
  th_resetTime :: ms
  th_messagesSentInWindow :: nat

definition generateThrottleKey :: "ident \<Rightarrow> ident \<Rightarrow> string" where
  "generateThrottleKey senderId confessionId = senderId @ '':'' @ confessionId"

definition checkAndRecordMessage ::
  "ident \<Rightarrow> ident \<Rightarrow> throttle_config \<Rightarrow> ms \<Rightarrow> message list \<Rightarrow> throttle_status" where
  "checkAndRecordMessage senderId confessionId config now t =
     (let throttleKey = generateThrottleKey senderId confessionId;
          windowStart = now - tc_windowMs config;
          count = affected (\<lambda>m. msg_throttleKey m = Some throttleKey \<and> msg_rateLimitWindow m = Some windowStart) t
      in \<lparr>th_isThrottled = (count \<ge> tc_maxMessages config), th_remaining = tc_maxMessages config - count,
          th_resetTime = now + tc_windowMs config, th_messagesSentInWindow = count\<rparr>)"

definition enforceThrottle ::
  "ident \<Rightarrow> ident \<Rightarrow> throttle_config \<Rightarrow> ms \<Rightarrow> ms \<Rightarrow> message list \<Rightarrow> unit outcome" where
  "enforceThrottle senderId confessionId config now later t =
     (let status = checkAndRecordMessage senderId confessionId config now t
      in if th_isThrottled status
         then Inl (TooManyRequestsException (''Too many messages. Please try again in '' @
                int_str (ceil_div (th_resetTime status - later) 1000) @ '' seconds.''))
         else Inr ())"

definition recordMessageWithThrottle ::
  "message \<Rightarrow> ident \<Rightarrow> ident \<Rightarrow> throttle_config \<Rightarrow> ms \<Rightarrow> ms \<Rightarrow> ms \<Rightarrow> message list \<Rightarrow> message outcome" where
  "recordMessageWithThrottle m senderId confessionId config now later stamp t =
     (case enforceThrottle senderId confessionId config now later t of
        Inl e \<Rightarrow> Inl e
      | Inr _ \<Rightarrow> Inr (m\<lparr>msg_throttleKey := Some (generateThrottleKey senderId confessionId),
                        msg_rateLimitWindow := Some (stamp - tc_windowMs config)\<rparr>))"

definition getThrottleStatus ::
  "ident \<Rightarrow> ident \<Rightarrow> throttle_config \<Rightarrow> ms \<Rightarrow> message list \<Rightarrow> throttle_status" where
  "getThrottleStatus senderId confessionId config now t = checkAndRecordMessage senderId confessionId config now t"

definition cleanupExpiredWindows :: "ms \<Rightarrow> message list \<Rightarrow> message list" where
  "cleanupExpiredWindows now t =
     delete_where (\<lambda>m. case msg_rateLimitWindow m of None \<Rightarrow> False | Some w \<Rightarrow> w < now - 60 * 60 * 1000) t"

section \<open>Envelopes survive the transport\<close>

lemma b64_digit_url: "n < 64 \<Longrightarrow>
    base64url_char (if b64_digit n = CHR ''+'' then CHR ''-'' else if b64_digit n = CHR ''/'' then CHR ''_'' else b64_digit n)"
  by (auto simp: b64_digit_def base64url_char_def Let_def of_char_of char_of_eq_iff take_bit_eq_mod)

lemma toBase64Url_chars: "list_all base64url_char (toBase64Url s)"
proof -
  have "\<forall>n \<in> set (b64_sextets (map of_char s)). n < 64" by (rule sextets_bounded[OF bytes_bounded])
  then show ?thesis
    unfolding toBase64Url_digits list_all_iff replace_char_def
    by (force dest: b64_digit_url split: if_splits)
qed

lemma byteLength_toBase64Url: "s \<noteq> [] \<Longrightarrow> base64UrlByteLength (Some (JStr (toBase64Url s))) = int (length s)"
proof -
  assume "s \<noteq> []"
  then have "toBase64Url s \<noteq> []"
    using fromBase64Url_toBase64Url[of s] by (auto simp: fromBase64Url_def from_base64_def b64_padding_def replace_char_def)
  then show ?thesis
    by (simp add: base64UrlByteLength_def toBase64Url_chars fromBase64Url_toBase64Url)
qed

lemma parse_serialize:
  assumes "length iv = 12" "16 \<le> length ct"
  shows "parseEnvelope (serializeEnvelope \<lparr>en_v = MESSAGE_E2E_VERSION, en_alg = ''aes-256-gcm'', en_iv = toBase64Url iv, en_ct = toBase64Url ct\<rparr>)
    = Some \<lparr>en_v = MESSAGE_E2E_VERSION, en_alg = ''aes-256-gcm'', en_iv = toBase64Url iv, en_ct = toBase64Url ct\<rparr>"
proof -
  let ?obj = "[(''v'', JInt MESSAGE_E2E_VERSION), (''alg'', JStr ''aes-256-gcm''), (''iv'', JStr (toBase64Url iv)), (''ct'', JStr (toBase64Url ct))]"
  have "json_parse (json_text (JObj ?obj)) = Some (JObj ?obj)" by (rule json_roundtrip) simp
  moreover have "base64UrlByteLength (Some (JStr (toBase64Url iv))) = 12" "16 \<le> base64UrlByteLength (Some (JStr (toBase64Url ct)))"
    using assms byteLength_toBase64Url[of iv] byteLength_toBase64Url[of ct] by fastforce+
  ultimately show ?thesis
    by (simp add: parseEnvelope_def serializeEnvelope_def ENVELOPE_KEYS_def GCM_NONCE_BYTES_def GCM_TAG_BYTES_def
        json_str_of_def Let_def del: json_text.simps)
qed

section \<open>Tables of messages\<close>

interpretation message_index: sole_unique_index msg_idempotencyKey message_insert
  by unfold_locales (auto simp: message_insert_def split: if_splits)

text \<open>The columns no mark and no reply touches.\<close>

definition fixed_part :: "message \<Rightarrow> int \<times> ident \<times> ident \<times> string \<times> string option \<times> ms" where
  "fixed_part m = (msg_id m, msg_senderId m, msg_confessionId m, msg_content m, msg_idempotencyKey m, msg_createdAt m)"

lemma in_thread_fixed: "fixed_part m = fixed_part n \<Longrightarrow> in_thread c s m = in_thread c s n"
  by (simp add: fixed_part_def in_thread_def)

lemma fixed_marks [simp]:
  "map fixed_part (markThreadRead c s role now t) = map fixed_part t"
  "map fixed_part (snd (markMessagesDelivered c s now t)) = map fixed_part t"
  "map fixed_part (snd (markMessagesRead c s now t)) = map fixed_part t"
  "map fixed_part (visit_marks c s role now t) = map fixed_part t"
proof -
  show 1: "map fixed_part (markThreadRead c s role now t) = map fixed_part t" for role t
    by (auto simp: markThreadRead_def fixed_part_def intro!: map_update_where split: viewer_role.split)
  show 2: "map fixed_part (snd (markMessagesDelivered c s now t)) = map fixed_part t" for t
    by (auto simp: markMessagesDelivered_def Let_def fixed_part_def intro!: map_update_where)
  show "map fixed_part (snd (markMessagesRead c s now t)) = map fixed_part t"
    by (auto simp: markMessagesRead_def Let_def fixed_part_def intro!: map_update_where)
  show "map fixed_part (visit_marks c s role now t) = map fixed_part t"
    by (simp add: visit_marks_def Let_def 1 2)
qed

lemma fixed_reply: "map fixed_part (update_where P (with_reply r now) t) = map fixed_part t"
  by (auto simp: with_reply_def fixed_part_def intro!: map_update_where)

lemma map_via_fixed:
  assumes "map fixed_part t = map fixed_part u" "\<And>m. g m = h (fixed_part m)"
  shows "map g t = map g u"
proof -
  have "g = h \<circ> fixed_part" using assms(2) by (simp add: fun_eq_iff)
  then show ?thesis using arg_cong[OF assms(1), of "map h"] by simp
qed

section \<open>Pages of a thread\<close>

definition thread_fetch ::
  "ident \<Rightarrow> ident \<Rightarrow> nat option \<Rightarrow> (ms \<times> int) option \<Rightarrow> message list \<Rightarrow> message list \<times> (ms \<times> int) option" where
  "thread_fetch c s l p t =
     (let rows = order_asc thread_key (filter (\<lambda>m. case p of None \<Rightarrow> True | Some p \<Rightarrow> after_position p m) (filter (in_thread c s) t));
          limit = page_limit l
      in (take limit rows, if limit < length rows then Some (thread_key (rows ! (limit - 1))) else None))"

lemma page_limit_pos: "0 < page_limit l"
  by (simp add: page_limit_def split: option.split)

lemma after_position_less: "after_position p m = (p < thread_key m)"
  by (cases p) (auto simp: after_position_def thread_key_def less_prod_def)

lemma sorted_order_asc:
  "distinct (map k t) \<Longrightarrow> sorted_wrt (\<lambda>a b. k a < k b) (order_asc k (t :: 'a list))"
proof -
  assume "distinct (map k t)"
  then have "distinct (map k (order_asc k t))"
    by (metis (no_types, lifting) distinct_map mset_eq_imp_distinct_iff mset_sort order_asc_def set_sort)
  moreover have "sorted (map k (order_asc k t))" by (simp add: order_asc_def)
  ultimately have "sorted_wrt (<) (map k (order_asc k t))" by (simp add: strict_sorted_iff)
  then show ?thesis by (simp add: sorted_wrt_map)
qed

interpretation thread: keyset_feed thread_key "(<)" "filter (in_thread c s)" "page_limit l" "\<lambda>k. k" "thread_fetch c s l" for c s l
proof unfold_locales
  fix t p
  assume d: "distinct (map thread_key (filter (in_thread c s) t))"
  let ?after = "\<lambda>m. case p of None \<Rightarrow> True | Some k \<Rightarrow> k < thread_key m"
  let ?xs = "order_asc thread_key (filter ?after (filter (in_thread c s) t))"
  have eq: "(\<lambda>m. case p of None \<Rightarrow> True | Some q \<Rightarrow> after_position q m) = ?after"
    by (auto simp: after_position_less split: option.split)
  have "sorted_wrt (\<lambda>a b. thread_key a < thread_key b) ?xs"
    by (intro sorted_order_asc distinct_map_filter[OF d])
  moreover have "thread_fetch c s l (map_option (\<lambda>k. k) p) t =
      (take (page_limit l) ?xs, if page_limit l < length ?xs then Some (thread_key (?xs ! (page_limit l - 1))) else None)"
    unfolding thread_fetch_def Let_def by (simp add: eq option.map_ident)
  ultimately show "\<exists>xs. mset xs = mset (filter ?after (filter (in_thread c s) t)) \<and>
      sorted_wrt (\<lambda>r q. thread_key r < thread_key q) xs \<and>
      thread_fetch c s l (map_option (\<lambda>k. k) p) t =
        (take (page_limit l) xs, if page_limit l < length xs then Some (thread_key (xs ! (page_limit l - 1))) else None)"
    by (intro exI[of _ ?xs]) (simp add: order_asc_def)
qed (auto simp: page_limit_pos)

lemma thread_cursor_position:
  assumes "\<And>d. date_parse (isoText d) = Some d"
  shows "truthy (Some (thread_cursor isoText m))"
    and "\<exists>obj. decodeCursor (Some (thread_cursor isoText m)) = Some obj \<and> thread_position date_parse obj = Some (thread_key m)"
proof -
  let ?obj = "[(''id'', JInt (msg_id m)), (''createdAt'', JStr (isoText (msg_createdAt m)))]"
  have dec: "decodeCursor (Some (thread_cursor isoText m)) = Some ?obj"
    unfolding thread_cursor_def by (rule cursor_roundtrip) simp
  then show "truthy (Some (thread_cursor isoText m))" by (auto simp: decodeCursor_def split: if_splits)
  show "\<exists>obj. decodeCursor (Some (thread_cursor isoText m)) = Some obj \<and> thread_position date_parse obj = Some (thread_key m)"
    using dec assms by (auto simp: thread_position_def new_date_def cursor_int_def thread_key_def)
qed

text \<open>A request that carries the cursor of a row runs the query for the position of that row.\<close>

lemma thread_rows_cursor:
  assumes "\<And>d. date_parse (isoText d) = Some d"
  shows "thread_rows date_parse c s \<lparr>gq_cursor = map_option (thread_cursor isoText) p, gq_page = None, gq_limit = l\<rparr> n t =
    Inr (order_asc thread_key (filter (\<lambda>m. case map_option thread_key p of None \<Rightarrow> True | Some k \<Rightarrow> after_position k m) (filter (in_thread c s) t)))"
proof (cases p)
  case (Some m)
  from thread_cursor_position[OF assms, where m = m] Some show ?thesis by (auto simp: thread_rows_def Let_def)
qed (simp add: thread_rows_def)

lemma thread_page_fetch:
  assumes "\<And>d. date_parse (isoText d) = Some d"
  shows "\<exists>rows. thread_rows date_parse c s \<lparr>gq_cursor = map_option (thread_cursor isoText) p, gq_page = None, gq_limit = l\<rparr> (page_limit l) t = Inr rows \<and>
     page_fetch (probe_page (thread_cursor isoText) (page_limit l) (take (page_limit l + 1) rows)) =
       (take (page_limit l) rows, if page_limit l < length rows then Some (thread_cursor isoText (rows ! (page_limit l - 1))) else None) \<and>
     thread_fetch c s l (map_option thread_key p) t =
       (take (page_limit l) rows, if page_limit l < length rows then Some (thread_key (rows ! (page_limit l - 1))) else None)"
  unfolding thread_rows_cursor[OF assms] thread_fetch_def Let_def
  using page_fetch_probe[OF page_limit_pos[of l], where cursor_of = "thread_cursor isoText"]
  by (intro exI conjI) (rule refl, blast, rule refl)

lemma thread_key_fixed: "map fixed_part t = map fixed_part u \<Longrightarrow> map thread_key t = map thread_key u"
  by (erule map_via_fixed[where h = "\<lambda>(i, s, c, x, k, d). (d, i)"]) (simp add: thread_key_def fixed_part_def)

lemma filter_map_fixed:
  "map fixed_part t = map fixed_part u \<Longrightarrow>
     map fixed_part (filter (in_thread c s) t) = map fixed_part (filter (in_thread c s) u)"
proof (induction t arbitrary: u)
  case (Cons m t)
  then obtain n v where "u = n # v" "fixed_part m = fixed_part n" "map fixed_part t = map fixed_part v" by auto
  with Cons.IH[of v] in_thread_fixed[of m n c s] show ?case by simp
qed simp

lemma map_sort_key: "map f (sort_key (\<lambda>x. g (f x)) xs) = sort_key g (map f xs)"
proof -
  have "map f (insort_key (\<lambda>x. g (f x)) x ys) = insort_key g (f x) (map f ys)" for x ys
    by (induction ys) auto
  then show ?thesis by (induction xs) simp_all
qed

lemma order_asc_fixed:
  assumes "map fixed_part t = map fixed_part u"
  shows "map fixed_part (order_asc thread_key t) = map fixed_part (order_asc thread_key u)"
proof -
  let ?k = "\<lambda>(i, s, c, x, k, d). (d, i) :: ms \<times> int"
  have "thread_key m = ?k (fixed_part m)" for m by (simp add: thread_key_def fixed_part_def)
  then have eq: "thread_key = (\<lambda>m. ?k (fixed_part m))" by (simp add: fun_eq_iff)
  have "map fixed_part (order_asc thread_key t) = sort_key ?k (map fixed_part t)" for t
    unfolding order_asc_def eq by (rule map_sort_key)
  with assms show ?thesis by simp
qed

lemma thread_cursor_key: "thread_key m = thread_key n \<Longrightarrow> thread_cursor isoText m = thread_cursor isoText n"
  by (simp add: thread_cursor_def thread_key_def)

lemma thread_cursor_at:
  assumes "map thread_key L = map thread_key L'" "i \<le> length L"
  shows "cursor_at (thread_cursor isoText) L i = cursor_at (thread_cursor isoText) L' i"
proof -
  have "thread_key (L ! (i - 1)) = thread_key (L' ! (i - 1))" if "0 < i"
    using arg_cong[OF assms(1), of "\<lambda>ks. ks ! (i - 1)"] assms that
    by (metis diff_less_mono2 diff_zero length_map less_le_trans less_one nth_map)
  then show ?thesis by (auto simp: cursor_at_def intro: thread_cursor_key)
qed

lemma distinct_thread_key: "distinct (map msg_id t) \<Longrightarrow> distinct (map thread_key (filter (in_thread c s) t))"
  by (auto simp: distinct_map inj_on_def thread_key_def)

text \<open>One request on a table without marks to make: the page is the slice of the ordered thread.\<close>

lemma thread_slice:
  assumes iso: "\<And>d. date_parse (isoText d) = Some d"
    and dist: "distinct (map msg_id t)" and i: "i \<le> length (order_asc thread_key (filter (in_thread c s) t))"
    and L_def: "L = order_asc thread_key (filter (in_thread c s) t)" and n_def: "n = page_limit l"
  shows "\<exists>rows. thread_rows date_parse c s \<lparr>gq_cursor = cursor_at (thread_cursor isoText) L i, gq_page = None, gq_limit = l\<rparr> n t = Inr rows \<and>
     page_fetch (probe_page (thread_cursor isoText) n (take (n + 1) rows)) =
       (take n (drop i L), if i + n < length L then cursor_at (thread_cursor isoText) L (i + n) else None)"
proof -
  let ?p = "if i = 0 then None else Some (L ! (i - 1))"
  have L: "mset L = mset (filter (in_thread c s) t)" "sorted_wrt (\<lambda>a b. thread_key a < thread_key b) L"
    unfolding L_def using sorted_order_asc[OF distinct_thread_key[OF dist]] by (simp_all add: order_asc_def)
  obtain rows where rows:
    "thread_rows date_parse c s \<lparr>gq_cursor = map_option (thread_cursor isoText) ?p, gq_page = None, gq_limit = l\<rparr> n t = Inr rows"
    "page_fetch (probe_page (thread_cursor isoText) n (take (n + 1) rows)) =
       (take n rows, if n < length rows then Some (thread_cursor isoText (rows ! (n - 1))) else None)"
    "thread_fetch c s l (map_option thread_key ?p) t =
       (take n rows, if n < length rows then Some (thread_key (rows ! (n - 1))) else None)"
    using thread_page_fetch[OF iso, of c s ?p l t] unfolding n_def by blast
  have "thread_fetch c s l (map_option thread_key ?p) t =
      (take n (drop i L), if i + n < length L then cursor_at thread_key L (i + n) else None)"
  proof -
    have "map_option thread_key ?p = cursor_at thread_key L i" by (simp add: cursor_at_def)
    moreover have "i \<le> length L" using i by (simp add: L_def)
    ultimately show ?thesis
      using thread.page_refines[OF distinct_thread_key[OF dist] L, of i l] by (simp only: n_def)
  qed
  with rows(3) have "take n rows = take n (drop i L)"
    "(if n < length rows then Some (thread_key (rows ! (n - 1))) else None) = (if i + n < length L then cursor_at thread_key L (i + n) else None)"
    by simp_all
  moreover have "cursor_at thread_key L (i + n) = Some (thread_key (L ! (i + n - 1)))"
    "cursor_at (thread_cursor isoText) L (i + n) = Some (thread_cursor isoText (L ! (i + n - 1)))"
    using page_limit_pos[of l] by (simp_all add: cursor_at_def n_def)
  ultimately have "(if n < length rows then Some (thread_cursor isoText (rows ! (n - 1))) else None) =
      (if i + n < length L then cursor_at (thread_cursor isoText) L (i + n) else None)"
    by (auto split: if_splits intro: thread_cursor_key)
  moreover have "map_option (thread_cursor isoText) ?p = cursor_at (thread_cursor isoText) L i"
    by (simp add: cursor_at_def)
  ultimately show ?thesis using rows \<open>take n rows = take n (drop i L)\<close> by auto
qed

lemma scoped_key_inj:
  assumes "\<And>x y. sha x = sha y \<Longrightarrow> x = y" "scoped_key sha u (Some k) = scoped_key sha v (Some l)"
  shows "u = v \<and> k = l"
proof -
  have "json_text (JArr [JInt u, JStr k]) = json_text (JArr [JInt v, JStr l])"
    using assms by (auto simp: scoped_key_def simp del: json_text.simps)
  then have "JArr [JInt u, JStr k] = JArr [JInt v, JStr l]" by (rule json_text_inj[rotated 2]) simp_all
  then show ?thesis by simp
qed

lemma create_tx_result:
  assumes "create_tx conf sender content key newId ob now st = (Inr m, st')" "truthy key"
  shows "find_one (\<lambda>x. msg_idempotencyKey x = key) (dm_messages st') = Some m"
    "msg_confessionId m = dc_id conf" "msg_content m = content"
    "dm_confessions st' = dm_confessions st" "dm_users st' = dm_users st" "dm_anon st' = dm_anon st"
proof -
  have "find_one (\<lambda>x. msg_idempotencyKey x = key) (dm_messages st') = Some m \<and> msg_confessionId m = dc_id conf \<and>
    msg_content m = content \<and> dm_confessions st' = dm_confessions st \<and> dm_users st' = dm_users st \<and> dm_anon st' = dm_anon st"
    using assms
    by (auto simp: create_tx_def Let_def message_insert_def find_one_append new_message_def
        split: option.splits if_splits)
  then show "find_one (\<lambda>x. msg_idempotencyKey x = key) (dm_messages st') = Some m"
    "msg_confessionId m = dc_id conf" "msg_content m = content"
    "dm_confessions st' = dm_confessions st" "dm_users st' = dm_users st" "dm_anon st' = dm_anon st" by blast+
qed

lemma create_tx_replay:
  assumes "truthy key" "find_one (\<lambda>x. msg_idempotencyKey x = key) (dm_messages st) = Some m"
  shows "create_tx conf sender content key newId ob now st =
    (if msg_confessionId m = dc_id conf \<and> msg_content m = content then Inr m
     else Inl (ConflictException ''Idempotency-Key was already used for a different message''), st)"
  using assms by (simp add: create_tx_def)

lemma find_confession_id: "find_confession i st = Some c \<Longrightarrow> dc_id c = i"
  by (auto simp: find_confession_def dest: find_one_SomeD)

lemma session_always: "\<exists>anon an. getOrCreateForUserSession u h a l now st = (Inr anon, an)"
  by (rule session_cases[of u h a l now st]) (auto simp: rotate_simps)

lemma first_user_session:
  assumes "getOrCreateForUserSession u h a l now (dm_anon st) = (Inr anon, an)" "who \<noteq> Some a"
    "dm_users st' = dm_users st" "dm_anon st' = an"
  shows "first_user who st' = first_user who st"
proof (cases who)
  case (Some x)
  have "find_one (\<lambda>l. al_anonymousUserId l = x) (as_links an) = find_one (\<lambda>l. al_anonymousUserId l = x) (as_links (dm_anon st))"
    by (rule session_cases[of u h a l now "dm_anon st"])
      (use assms Some in \<open>auto simp: rotate_simps find_one_append new_link_def split: option.split\<close>)
  with Some assms(3,4) show ?thesis by (simp add: first_user_def linked_user_def)
qed (simp add: first_user_def linked_user_def)

text \<open>A request that passes the checks is decided by its transaction, after the session of its sender.\<close>

lemma message_create_cases:
  assumes "message_create sha c content u key fresh now st = (Inr m, st')"
  obtains conf sender an where "find_confession c st = Some conf" "isEncryptedPayload content"
    "\<not> (case key of None \<Rightarrow> False | Some k \<Rightarrow> js_trim k = [] \<or> length k > 128)"
    "\<not> (case first_user (dc_anonymousUserId conf) st of None \<Rightarrow> False | Some u \<Rightarrow> \<not> canReceiveReplies u)"
    "getOrCreateForUserSession u 24 (mf_anon fresh) (mf_link fresh) now (dm_anon st) = (Inr sender, an)"
    "create_tx conf (au_id sender) content (scoped_key sha u key) (mf_id fresh) (mf_outbox fresh) now (st\<lparr>dm_anon := an\<rparr>) = (Inr m, st')"
  using assms by (auto simp: message_create_def split: if_splits option.splits sum.splits prod.splits)

section \<open>The running service\<close>

text \<open>
  The steps of any number of requests.  A transaction works with what its request read earlier: a
  confession, a sender, a copy of the message to reply to; only what the checks established is required
  of these.
\<close>

inductive dm_step :: "dm_state \<Rightarrow> dm_state \<Rightarrow> bool" where
  create: "isEncryptedPayload content \<Longrightarrow> newId \<notin> msg_id ` set (dm_messages st) \<Longrightarrow>
     dm_step st (snd (create_tx conf sender content key newId ob now st))"
| reply: "isEncryptedPayload r \<Longrightarrow> js_trim r \<noteq> [] \<Longrightarrow> dm_step st (snd (reply_tx m r ob now st))"
| visit: "dm_step st (st\<lparr>dm_messages := visit_marks c s role now (dm_messages st)\<rparr>)"
| read: "dm_step st (snd (markMessagesAsRead c s u now st))"
| hide: "dm_step st (snd (deleteForUser u tid now st))"
| other: "dm_messages st' = dm_messages st \<Longrightarrow> dm_step st st'"

inductive_cases dm_stepE: "dm_step st st'"

inductive dm_reachable :: "dm_state \<Rightarrow> bool" where
  init: "dm_messages st = [] \<Longrightarrow> dm_reachable st"
| step: "dm_reachable st \<Longrightarrow> dm_step st st' \<Longrightarrow> dm_reachable st'"

definition message_ok :: "message \<Rightarrow> bool" where
  "message_ok m \<longleftrightarrow>
     msg_isEncrypted m \<and> isEncryptedPayload (msg_content m) \<and>
     (case msg_replyContent m of
        None \<Rightarrow> \<not> msg_hasReply m \<and> msg_repliedAt m = None \<and> msg_senderReadAt m = None
      | Some r \<Rightarrow> msg_hasReply m \<and> msg_repliedAt m \<noteq> None \<and> (\<exists>p. isEncryptedPayload p \<and> r = js_trim p)) \<and>
     (msg_readAt m \<noteq> None \<longleftrightarrow> msg_deliveryStatus m = READ) \<and>
     (msg_deliveryStatus m = SENT \<longrightarrow> msg_deliveredAt m = None) \<and>
     (msg_deliveryStatus m = DELIVERED \<longrightarrow> msg_deliveredAt m \<noteq> None)"

definition dm_inv :: "message list \<Rightarrow> bool" where
  "dm_inv t \<longleftrightarrow> uniq_on msg_idempotencyKey t \<and> distinct (map msg_id t) \<and> (\<forall>m \<in> set t. message_ok m)"

fun delivery_rank :: "delivery_status \<Rightarrow> nat" where
  "delivery_rank SENT = 0"
| "delivery_rank DELIVERED = 1"
| "delivery_rank READ = 2"

text \<open>How a row may change: it keeps its identity and content, a reply stays a reply, marks are not taken
  back, and the delivery state does not go backwards.\<close>

definition moves_on :: "message \<Rightarrow> message \<Rightarrow> bool" where
  "moves_on m n \<longleftrightarrow>
     fixed_part n = fixed_part m \<and> (msg_hasReply m \<longrightarrow> msg_hasReply n) \<and>
     (msg_authorReadAt m \<noteq> None \<longrightarrow> msg_authorReadAt n = msg_authorReadAt m) \<and>
     (msg_deliveredAt m \<noteq> None \<longrightarrow> msg_deliveredAt n = msg_deliveredAt m) \<and>
     (msg_readAt m \<noteq> None \<longrightarrow> msg_readAt n = msg_readAt m) \<and>
     delivery_rank (msg_deliveryStatus m) \<le> delivery_rank (msg_deliveryStatus n)"

lemma moves_on_refl [simp]: "moves_on m m"
  by (simp add: moves_on_def)

lemma moves_on_trans: "moves_on a b \<Longrightarrow> moves_on b c \<Longrightarrow> moves_on a c"
  by (auto simp: moves_on_def)

text \<open>Every statement on existing rows is pointwise: it maps a well-formed row to a well-formed later one.\<close>

definition good_update :: "(message \<Rightarrow> message) \<Rightarrow> bool" where
  "good_update f \<longleftrightarrow> (\<forall>m. message_ok m \<longrightarrow> message_ok (f m) \<and> moves_on m (f m))"

lemma good_update_map:
  assumes "good_update f" "dm_inv t"
  shows "dm_inv (map f t)" "\<forall>m \<in> set t. \<exists>n \<in> set (map f t). moves_on m n"
proof -
  have f: "\<forall>m \<in> set t. message_ok (f m) \<and> moves_on m (f m)" using assms by (auto simp: good_update_def dm_inv_def)
  then show "\<forall>m \<in> set t. \<exists>n \<in> set (map f t). moves_on m n" by auto
  have "map fixed_part (map f t) = map fixed_part t" using f by (auto simp: moves_on_def)
  from map_via_fixed[OF this, of msg_id "\<lambda>(i, _). i"] map_via_fixed[OF this, of msg_idempotencyKey "\<lambda>(i, s, c, x, k, d). k"]
  have eq: "map msg_id (map f t) = map msg_id t" "map msg_idempotencyKey (map f t) = map msg_idempotencyKey t"
    by (simp_all add: fixed_part_def)
  have "distinct (map msg_id (map f t))" using assms(2) unfolding eq(1) by (simp add: dm_inv_def)
  with f assms(2) uniq_on_cong[OF eq(2)] show "dm_inv (map f t)" unfolding dm_inv_def by simp
qed

lemma update_where_map: "update_where P f t = map (\<lambda>m. if P m then f m else m) t"
  by (simp add: update_where_def)

lemma good_marks:
  "good_update (\<lambda>m. if P m \<and> msg_authorReadAt m = None then m\<lparr>msg_authorReadAt := Some now\<rparr> else m)"
  "good_update (\<lambda>m. if P m \<and> msg_hasReply m \<and> msg_senderReadAt m = None then m\<lparr>msg_senderReadAt := Some now\<rparr> else m)"
  "good_update (\<lambda>m. if P m \<and> msg_deliveryStatus m = SENT then m\<lparr>msg_deliveryStatus := DELIVERED, msg_deliveredAt := Some now\<rparr> else m)"
  "good_update (\<lambda>m. if P m \<and> msg_deliveryStatus m \<noteq> READ then m\<lparr>msg_deliveryStatus := READ, msg_readAt := Some now\<rparr> else m)"
  "isEncryptedPayload r \<Longrightarrow> good_update (\<lambda>m. if P m then with_reply r now m else m)"
proof -
  show "good_update (\<lambda>m. if P m \<and> msg_deliveryStatus m \<noteq> READ then m\<lparr>msg_deliveryStatus := READ, msg_readAt := Some now\<rparr> else m)"
    unfolding good_update_def
    by (auto simp: message_ok_def moves_on_def fixed_part_def split: option.splits) (metis delivery_rank.elims le_numeral_extra(3) one_le_numeral zero_le)+
qed (auto simp: good_update_def message_ok_def moves_on_def fixed_part_def with_reply_def split: option.splits)

text \<open>What a step does to the table: rows move on, and a new row may be appended.\<close>

definition good_step :: "message list \<Rightarrow> message list \<Rightarrow> bool" where
  "good_step t u \<longleftrightarrow> dm_inv u \<and> (\<forall>m \<in> set t. \<exists>n \<in> set u. moves_on m n)"

lemma good_step_refl: "dm_inv t \<Longrightarrow> good_step t t"
  using moves_on_refl unfolding good_step_def by blast

lemma good_step_trans: "good_step t u \<Longrightarrow> good_step u v \<Longrightarrow> good_step t v"
  unfolding good_step_def by (meson moves_on_trans)

lemma good_step_update: "good_update f \<Longrightarrow> dm_inv t \<Longrightarrow> good_step t (map f t)"
  using good_update_map by (simp add: good_step_def)

lemma good_step_marks:
  assumes "dm_inv t"
  shows "good_step t (markThreadRead c s role now t)" "good_step t (snd (markMessagesDelivered c s now t))"
    "good_step t (snd (markMessagesRead c s now t))"
  using good_step_update[OF good_marks(1) assms, of "in_thread c s" now] good_step_update[OF good_marks(2) assms, of "in_thread c s" now]
    good_step_update[OF good_marks(3) assms, of "in_thread c s" now] good_step_update[OF good_marks(4) assms, of "in_thread c s" now]
  by (simp_all add: markThreadRead_def markMessagesDelivered_def markMessagesRead_def Let_def update_where_map split: viewer_role.split)

lemma good_step_visit:
  assumes "dm_inv t"
  shows "good_step t (visit_marks c s role now t)"
proof -
  have 1: "good_step t (markThreadRead c s role now t)" by (rule good_step_marks(1)[OF assms])
  then have "dm_inv (markThreadRead c s role now t)" by (simp add: good_step_def)
  from good_step_trans[OF 1 good_step_marks(2)[OF this]]
  have "good_step t (snd (markMessagesDelivered c s now (markThreadRead c s role now t)))" .
  with 1 show ?thesis unfolding visit_marks_def Let_def by (cases role) simp_all
qed

lemma new_message_ok: "isEncryptedPayload content \<Longrightarrow> message_ok (new_message i s c content key now)"
  by (simp add: message_ok_def new_message_def)

lemma good_step_insert:
  assumes "dm_inv t" "message_insert m t = Some u" "message_ok m" "msg_id m \<notin> msg_id ` set t"
  shows "good_step t u"
proof -
  have "u = t @ [m]" by (rule message_index.ins_appends[OF assms(2)])
  moreover have "uniq_on msg_idempotencyKey u"
    using message_index.ins_keeps_unique[OF _ assms(2)] assms(1) by (simp add: dm_inv_def)
  moreover have "\<forall>x \<in> set t. \<exists>n \<in> set (t @ [m]). moves_on x n" using moves_on_refl by fastforce
  ultimately show ?thesis
    using assms(1,3,4) by (auto simp: good_step_def dm_inv_def)
qed

lemma good_step_create:
  assumes "dm_inv (dm_messages st)" "isEncryptedPayload content" "newId \<notin> msg_id ` set (dm_messages st)"
  shows "good_step (dm_messages st) (dm_messages (snd (create_tx conf sender content key newId ob now st)))"
proof -
  let ?m = "new_message newId sender (dc_id conf) content key now"
  have id: "msg_id ?m = newId" by (simp add: new_message_def)
  have "good_step (dm_messages st) u" if "message_insert ?m (dm_messages st) = Some u" for u
    using good_step_insert[OF assms(1) that new_message_ok[OF assms(2)]] assms(3) id by simp
  with good_step_refl[OF assms(1)] show ?thesis
    by (auto simp: create_tx_def Let_def split: option.split)
qed

lemma good_step_reply:
  assumes "dm_inv (dm_messages st)" "isEncryptedPayload r"
  shows "good_step (dm_messages st) (dm_messages (snd (reply_tx m r ob now st)))"
  using good_step_update[OF good_marks(5)[OF assms(2), of "\<lambda>x. msg_id x = msg_id m" now] assms(1)] good_step_refl[OF assms(1)]
  by (auto simp: reply_tx_def Let_def update_where_map split: option.split)

lemma dm_step_good:
  assumes "dm_step st st'" "dm_inv (dm_messages st)"
  shows "good_step (dm_messages st) (dm_messages st')"
  using assms(1)
proof cases
  case (create content newId conf sender key ob now)
  then show ?thesis using good_step_create[OF assms(2)] by simp
next
  case (reply r m ob now)
  then show ?thesis using good_step_reply[OF assms(2)] by simp
next
  case (read c s u now)
  then show ?thesis
    using good_step_marks(3)[OF assms(2), of c s now] good_step_refl[OF assms(2)]
    by (auto simp: markMessagesAsRead_def split: prod.split)
next
  case (hide u tid now)
  then show ?thesis
    using good_step_marks(1)[OF assms(2)] good_step_refl[OF assms(2)]
    by (auto simp: deleteForUser_def split: option.split)
qed (use good_step_visit[OF assms(2)] good_step_refl[OF assms(2)] in auto)

lemma dm_reachable_inv: "dm_reachable st \<Longrightarrow> dm_inv (dm_messages st)"
proof (induction rule: dm_reachable.induct)
  case (init st)
  then show ?case by (simp add: dm_inv_def)
next
  case (step st st')
  then show ?case using dm_step_good[of st st'] by (simp add: good_step_def)
qed

section \<open>Properties\<close>

text \<open>
  C20: The pages of a thread refine the ordered thread.  For either participant the request that carries the
  cursor of position \<open>i\<close> returns the messages at \<open>i\<close> and after, as many as the limit says, and the cursor
  of the position that follows, or none at the end.  The marks the visit leaves do not disturb this.
\<close>

theorem thread_pages_refine:
  assumes "\<forall>d. date_parse (isoText d) = Some d" "js_trim c \<noteq> []" "viewer_role c s u st = Some role"
    and "distinct (map msg_id (dm_messages st))"
    and "L = order_asc thread_key (filter (in_thread c s) (dm_messages st))" "L \<noteq> []" "i \<le> length L"
  shows "\<exists>page. fst (findForConfessionThread isoText date_parse c s u
        \<lparr>gq_cursor = cursor_at (thread_cursor isoText) L i, gq_page = None, gq_limit = l\<rparr> now st) = Inr page \<and>
      map fixed_part (cp_data page) = map fixed_part (take (page_limit l) (drop i L)) \<and>
      cp_nextCursor page = (if i + page_limit l < length L then cursor_at (thread_cursor isoText) L (i + page_limit l) else None)"
proof -
  let ?t = "visit_marks c s role now (dm_messages st)" and ?n = "page_limit l"
  let ?L = "order_asc thread_key (filter (in_thread c s) ?t)"
  let ?q = "\<lparr>gq_cursor = cursor_at (thread_cursor isoText) L i, gq_page = None, gq_limit = l\<rparr>"
  have eq: "map fixed_part ?L = map fixed_part L"
    unfolding assms(5) by (intro order_asc_fixed filter_map_fixed) simp
  then have keys: "map thread_key L = map thread_key ?L" and len: "length ?L = length L"
    by (metis thread_key_fixed, metis length_map)
  have "distinct (map msg_id ?t)"
    using map_via_fixed[of ?t "dm_messages st" msg_id "\<lambda>(i, _). i"] assms(4) by (simp add: fixed_part_def)
  moreover have cur: "cursor_at (thread_cursor isoText) L j = cursor_at (thread_cursor isoText) ?L j" if "j \<le> length L" for j
    using thread_cursor_at[OF keys that] .
  ultimately obtain rows where rows: "thread_rows date_parse c s ?q ?n ?t = Inr rows"
    "page_fetch (probe_page (thread_cursor isoText) ?n (take (?n + 1) rows)) =
       (take ?n (drop i ?L), if i + ?n < length ?L then cursor_at (thread_cursor isoText) ?L (i + ?n) else None)"
    using thread_slice[of date_parse isoText ?t i c s ?L ?n l] assms(1,7) len by auto
  let ?page = "probe_page (thread_cursor isoText) ?n (take (?n + 1) rows)"
  have page: "cp_data ?page = take ?n (drop i ?L)"
    "cp_nextCursor ?page = (if i + ?n < length L then cursor_at (thread_cursor isoText) L (i + ?n) else None)"
    using rows(2) cur[of "i + ?n"] len by (auto simp: page_fetch_def)
  have "\<not> (initial_request ?q \<and> cp_data ?page = [])"
  proof (cases "i = 0")
    case True
    then show ?thesis using page(1) assms(6) len page_limit_pos[of l] by auto
  next
    case False
    then show ?thesis
      using thread_cursor_position(1)[of date_parse isoText] assms(1) by (auto simp: initial_request_def cursor_at_def)
  qed
  moreover have "map fixed_part (take ?n (drop i ?L)) = map fixed_part (take ?n (drop i L))"
    using eq by (simp add: take_map[symmetric] drop_map[symmetric])
  ultimately show ?thesis
    using assms(2,3) rows(1) page by (auto simp: findForConfessionThread_def Let_def)
qed

definition sample_row :: "int \<Rightarrow> ident \<Rightarrow> ms \<Rightarrow> message" where
  "sample_row i sender t = new_message i sender ''c1'' ''x'' None t"

text \<open>User 1 wrote the confession as \<open>a1\<close>; user 2 sent three messages as \<open>a2\<close>, two of them at the same instant.\<close>

definition sample_dm :: dm_state where
  "sample_dm = \<lparr>
     dm_anon = \<lparr>as_users = [new_anon ''a1'' None 0, new_anon ''a2'' None 0],
                as_links = [new_link ''l1'' 1 ''a1'' 0, new_link ''l2'' 2 ''a2'' 0]\<rparr>,
     dm_users = [\<lparr>du_id = 1, du_email = ''a@x'', du_privacySettings = None\<rparr>, \<lparr>du_id = 2, du_email = [], du_privacySettings = None\<rparr>],
     dm_confessions = [\<lparr>dc_id = ''c1'', dc_message = ''hello'', dc_anonymousUserId = Some ''a1''\<rparr>],
     dm_messages = [sample_row 3 ''a2'' 7, sample_row 1 ''a2'' 5, sample_row 2 ''a2'' 7],
     dm_outbox = []\<rparr>"

text \<open>A stand-in for ISO dates: the number of milliseconds as text.\<close>

theorem thread_pages_refine_witness:
  "\<exists>page. fst (findForConfessionThread ms_text ms_parse ''c1'' ''a2'' 1
      \<lparr>gq_cursor = Some (thread_cursor ms_text (sample_row 2 ''a2'' 7)), gq_page = None, gq_limit = Some 2\<rparr> 9 sample_dm) = Inr page \<and>
    map msg_id (cp_data page) = [3] \<and> cp_nextCursor page = None"
proof -
  let ?L = "order_asc thread_key (filter (in_thread ''c1'' ''a2'') (dm_messages sample_dm))"
  have L: "?L = [sample_row 1 ''a2'' 5, sample_row 2 ''a2'' 7, sample_row 3 ''a2'' 7]"
    by (simp add: sample_dm_def sample_row_def new_message_def in_thread_def order_asc_def thread_key_def)
  have role: "viewer_role ''c1'' ''a2'' 1 sample_dm = Some AUTHOR" by code_simp
  have ids: "distinct (map msg_id (dm_messages sample_dm))" by code_simp
  have cur: "cursor_at (thread_cursor ms_text) ?L 2 = Some (thread_cursor ms_text (sample_row 2 ''a2'' 7))"
    by (simp only: L cursor_at_def) simp
  have trim: "js_trim ''c1'' \<noteq> []" by code_simp
  obtain page where page: "fst (findForConfessionThread ms_text ms_parse ''c1'' ''a2'' 1
      \<lparr>gq_cursor = cursor_at (thread_cursor ms_text) ?L 2, gq_page = None, gq_limit = Some 2\<rparr> 9 sample_dm) = Inr page"
    "map fixed_part (cp_data page) = map fixed_part (take (page_limit (Some 2)) (drop 2 ?L))"
    "cp_nextCursor page = (if 2 + page_limit (Some 2) < length ?L then cursor_at (thread_cursor ms_text) ?L (2 + page_limit (Some 2)) else None)"
    using thread_pages_refine[OF allI[OF ms_parse_text] trim role ids refl, of 2 "Some 2" 9] L by auto
  moreover have "map msg_id (cp_data page) = [3]"
    using map_via_fixed[OF page(2), of msg_id "\<lambda>(i, _). i"] unfolding L
    by (simp add: fixed_part_def page_limit_def sample_row_def new_message_def)
  ultimately show ?thesis by (auto simp: cur) (simp add: L page_limit_def)
qed




definition sample_envelope :: string where
  "sample_envelope = serializeEnvelope \<lparr>en_v = 1, en_alg = ''aes-256-gcm'', en_iv = toBase64Url ''123456789012'',
     en_ct = toBase64Url ''0123456789abcdef''\<rparr>"

lemma sample_envelope_ok: "isEncryptedPayload sample_envelope"
  using parse_serialize[of "''123456789012''" "''0123456789abcdef''"]
  by (simp add: isEncryptedPayload_def sample_envelope_def MESSAGE_E2E_VERSION_def)

definition sent_dm :: dm_state where
  "sent_dm = snd (create_tx \<lparr>dc_id = ''c1'', dc_message = ''hello'', dc_anonymousUserId = Some ''a1''\<rparr> ''a2'' sample_envelope
     (Some ''k'') 1 ''o1'' 5 (sample_dm\<lparr>dm_messages := []\<rparr>))"

lemma sent_dm_messages: "dm_messages sent_dm = [new_message 1 ''a2'' ''c1'' sample_envelope (Some ''k'') 5]"
  by (simp add: sent_dm_def create_tx_def message_insert_def clashes_def new_message_def Let_def
      outbox_insert_def sample_dm_def split: option.split)

lemma sent_dm_reachable: "dm_reachable sent_dm"
  unfolding sent_dm_def
  by (rule dm_reachable.step[OF dm_reachable.init dm_step.create]) (simp_all add: sample_envelope_ok)


text \<open>
  Sending is idempotent.  After a request with a key succeeded, its repetition by the same user returns the
  same message and adds neither a message nor a notification, whatever time has passed; the same key
  with another content is refused as a conflict, again without any change.
\<close>

theorem message_create_idempotent:
  assumes "message_create sha c content u (Some k) fresh now st = (Inr m, st')" "\<forall>x. sha x \<noteq> []"
    and "\<forall>conf. find_confession c st = Some conf \<longrightarrow> dc_anonymousUserId conf \<noteq> Some (mf_anon fresh)"
    and "isEncryptedPayload content'"
  shows "\<exists>st''. message_create sha c content' u (Some k) fresh' later st' =
      (if content' = content then Inr m
       else Inl (ConflictException ''Idempotency-Key was already used for a different message''), st'') \<and>
    dm_messages st'' = dm_messages st' \<and> dm_outbox st'' = dm_outbox st'"
  using assms(1)
proof (cases rule: message_create_cases)
  case (1 conf sender0 an)
  let ?key = "scoped_key sha u (Some k)"
  obtain sender an' where an': "getOrCreateForUserSession u 24 (mf_anon fresh') (mf_link fresh') later (dm_anon st') = (Inr sender, an')"
    using session_always[of u 24 "mf_anon fresh'" "mf_link fresh'" later "dm_anon st'"] by blast
  have key: "truthy ?key" using assms(2) by (simp add: scoped_key_def)
  note r = create_tx_result[OF 1(6) key]
  have conf: "find_confession c st' = Some conf" using 1(1) r(4) by (simp add: find_confession_def)
  have user: "first_user (dc_anonymousUserId conf) st' = first_user (dc_anonymousUserId conf) st"
    using first_user_session[OF 1(5), of "dc_anonymousUserId conf" st'] assms(3) 1(1) r(5,6) by simp
  have "create_tx conf (au_id sender) content' ?key (mf_id fresh') (mf_outbox fresh') later (st'\<lparr>dm_anon := an'\<rparr>) =
      (if content' = content then Inr m
       else Inl (ConflictException ''Idempotency-Key was already used for a different message''), st'\<lparr>dm_anon := an'\<rparr>)"
    using create_tx_replay[OF key, of "st'\<lparr>dm_anon := an'\<rparr>" m conf] r(1-3) by auto
  then have "message_create sha c content' u (Some k) fresh' later st' =
      (if content' = content then Inr m
       else Inl (ConflictException ''Idempotency-Key was already used for a different message''), st'\<lparr>dm_anon := an'\<rparr>)"
    using 1(1,3,4) assms(4) conf user an' by (simp add: message_create_def split: option.splits)
  then show ?thesis by simp
qed

definition sample_sha :: "string \<Rightarrow> string" where "sample_sha x = ''#'' @ x"

lemma sample_create:
  "fst (message_create sample_sha ''c1'' sample_envelope 2 (Some ''k'') \<lparr>mf_id = 9, mf_outbox = ''o'', mf_anon = ''a9'', mf_link = ''l9''\<rparr> 5 sample_dm)
     = Inr (new_message 9 ''a2'' ''c1'' sample_envelope (scoped_key sample_sha 2 (Some ''k'')) 5)"
  by (simp add: message_create_def sample_envelope_ok js_trim_def js_ws_def find_confession_def sample_dm_def first_user_def linked_user_def
      canReceiveReplies_def getOrCreateForUserSession_def session_link_def session_cutoff_def order_desc_def new_link_def
      anon_findById_def new_anon_def create_tx_def Let_def scoped_key_def sample_row_def message_insert_def new_message_def
      clashes_def getRecipientEmail_def outbox_insert_def sample_sha_def split: option.split)

theorem message_create_idempotent_witness:
  "\<exists>st' st''. message_create sample_sha ''c1'' sample_envelope 2 (Some ''k'') \<lparr>mf_id = 10, mf_outbox = ''p'', mf_anon = ''b9'', mf_link = ''m9''\<rparr> 90000000 st' =
    (Inr (new_message 9 ''a2'' ''c1'' sample_envelope (scoped_key sample_sha 2 (Some ''k'')) 5), st'') \<and>
    dm_messages st'' = dm_messages st'"
proof -
  let ?f = "\<lparr>mf_id = 9, mf_outbox = ''o'', mf_anon = ''a9'', mf_link = ''l9''\<rparr>"
  obtain st' where "message_create sample_sha ''c1'' sample_envelope 2 (Some ''k'') ?f 5 sample_dm =
      (Inr (new_message 9 ''a2'' ''c1'' sample_envelope (scoped_key sample_sha 2 (Some ''k'')) 5), st')"
    using sample_create by (metis prod.collapse)
  from message_create_idempotent[OF this _ _ sample_envelope_ok, of "\<lparr>mf_id = 10, mf_outbox = ''p'', mf_anon = ''b9'', mf_link = ''m9''\<rparr>" 90000000]
  show ?thesis by (fastforce simp: find_confession_def sample_dm_def sample_sha_def)
qed

text \<open>
  C23: A message sealed for a thread opens at the other end.  Given that the two key pairs derive one key (Diffie-Hellman) and that
  AES-GCM opens what it sealed and appends a sixteen-byte tag, the text a sender encrypts is accepted
  by the service as an envelope, and the peer decrypts it to the text that was sent.
\<close>

theorem e2e_roundtrip:
  assumes "\<forall>k iv p. gcm_open k iv (gcm_seal k iv p) = Some p" "\<forall>k iv p. length (gcm_seal k iv p) = length p + 16"
    and "derive (fromBase64Url privA) (fromBase64Url pubB) tid = derive (fromBase64Url privB) (fromBase64Url pubA) tid"
    and "length iv = 12"
  shows "isEncryptedPayload (encryptMessage derive gcm_seal iv text privA pubB tid) \<and>
    decryptMessage derive gcm_open (encryptMessage derive gcm_seal iv text privA pubB tid) privB pubA tid = Inr text"
proof -
  let ?ct = "gcm_seal (derive (fromBase64Url privA) (fromBase64Url pubB) tid) iv text"
  have "parseEnvelope (encryptMessage derive gcm_seal iv text privA pubB tid) =
      Some \<lparr>en_v = MESSAGE_E2E_VERSION, en_alg = ''aes-256-gcm'', en_iv = toBase64Url iv, en_ct = toBase64Url ?ct\<rparr>"
    unfolding encryptMessage_def Let_def using assms(2,4) by (intro parse_serialize) simp_all
  then show ?thesis
    using assms(1,3) by (simp add: isEncryptedPayload_def decryptMessage_def fromBase64Url_toBase64Url)
qed

theorem e2e_roundtrip_witness:
  "decryptMessage (\<lambda>a b t. t) (\<lambda>k iv c. Some (take (length c - 16) c))
     (encryptMessage (\<lambda>a b t. t) (\<lambda>k iv p. p @ ''0123456789abcdef'') ''123456789012'' ''hi'' ''x'' ''y'' ''t'') ''u'' ''v'' ''t'' = Inr ''hi''"
  using e2e_roundtrip[of "\<lambda>k iv c. Some (take (length c - 16) c)" "\<lambda>k iv p. p @ ''0123456789abcdef''" "\<lambda>a b t. t"
      "''x''" "''y''" "''t''" "''u''" "''v''" "''123456789012''" "''hi''"] by simp

lemma add_to_threads_keys:
  assumes "\<forall>t \<in> set ts. P (ts_confessionId t, ts_senderId t)" "P (msg_confessionId m, msg_senderId m)"
  shows "\<forall>t \<in> set (add_to_threads st anonIds ts m). P (ts_confessionId t, ts_senderId t)"
  using assms by (auto simp: add_to_threads_def set_update_where new_thread_def Let_def)

lemma fold_threads_keys:
  assumes "\<forall>m \<in> set ms. P (msg_confessionId m, msg_senderId m)" "\<forall>t \<in> set ts. P (ts_confessionId t, ts_senderId t)"
  shows "\<forall>t \<in> set (foldl (add_to_threads st anonIds) ts ms). P (ts_confessionId t, ts_senderId t)"
  using assms
proof (induction ms arbitrary: ts)
  case (Cons m ms)
  then show ?case using add_to_threads_keys[of ts P m st anonIds] by simp
qed simp

text \<open>
  The inbox lists threads of the user only: each of them is about a confession the user wrote or
  was sent under an identity of the user, so that its page can be opened.
\<close>

theorem inbox_lists_own_threads:
  assumes "findAllThreadsForUser isoText date_parse u q st = Inr page" "t \<in> set (cp_data page)"
    and "\<forall>m \<in> set (dm_messages st). find_confession (msg_confessionId m) st \<noteq> None"
    and "\<forall>c \<in> set (dm_confessions st). dc_anonymousUserId c \<noteq> Some []"
  shows "viewer_role (ts_confessionId t) (ts_senderId t) u st \<noteq> None"
proof -
  let ?ids = "getAnonIdsForUser u (as_links (dm_anon st))"
  let ?P = "\<lambda>(c, s). viewer_role c s u st \<noteq> None"
  have own: "?P (msg_confessionId m, msg_senderId m)"
    if m: "m \<in> set (dm_messages st)" "msg_senderId m \<in> set ?ids \<or> (case author_of st m of None \<Rightarrow> False | Some a \<Rightarrow> a \<in> set ?ids)" for m
  proof -
    obtain c where c: "find_confession (msg_confessionId m) st = Some c" using assms(3) m(1) by auto
    then have "c \<in> set (dm_confessions st)" by (auto simp: find_confession_def dest: find_one_SomeD)
    with c m(2) assms(4) show ?thesis
      by (auto simp: viewer_role_def resolveThreadViewerRole_def Let_def author_of_def truthy_iff split: option.splits)
  qed
  show ?thesis
  proof (cases "?ids = []")
    case True
    with assms(1,2) show ?thesis by (auto simp: findAllThreadsForUser_def CursorPaginatedResponseDto_def Let_def)
  next
    case False
    with assms(1) obtain ms where ms: "inbox_messages date_parse ?ids q st = Inr ms"
      and page: "page = probe_page (inbox_cursor isoText) (page_limit (gq_limit q)) (foldl (add_to_threads st ?ids) [] ms)"
      by (auto simp: findAllThreadsForUser_def Let_def split: sum.splits)
    have "\<forall>m \<in> set ms. ?P (msg_confessionId m, msg_senderId m)"
      using ms own by (auto simp: inbox_messages_def Let_def dest!: in_set_takeD split: if_splits option.splits)
    from fold_threads_keys[where P = ?P, OF this, of "[]" st ?ids] show ?thesis
      using assms(2) unfolding page
      by (auto simp: probe_page_def CursorPaginatedResponseDto_def Let_def dest: in_set_takeD split: if_splits)
  qed
qed

text \<open>
  The cursor of the inbox is the time of the last thread's newest message, and the next page filters messages, not
  threads, by it.  An older message of a thread that was already listed opens that thread again: here
  the author, with one thread per page, is shown \<open>c1_a2\<close> on the first and on the third page.
\<close>

definition two_threads :: dm_state where
  "two_threads = sample_dm\<lparr>dm_messages := [sample_row 1 ''a2'' 5, sample_row 2 ''a3'' 9, sample_row 3 ''a2'' 10]\<rparr>"

definition inbox_page :: "ms option \<Rightarrow> (ident list \<times> ms list) option" where
  "inbox_page before =
     (case findAllThreadsForUser ms_text ms_parse 1
         \<lparr>gq_cursor = map_option (\<lambda>d. encodeCursor [(''id'', JStr ''x''), (''lastMessageAt'', JInt d)]) before, gq_page = None, gq_limit = Some 1\<rparr> two_threads of
        Inl _ \<Rightarrow> None
      | Inr p \<Rightarrow> Some (map ts_senderId (cp_data p), map ts_lastMessageAt (cp_data p)))"

lemma inbox_page_eq:
  "inbox_page before =
     (let ms = take 10 (order_desc msg_createdAt (filter (\<lambda>m. case before of None \<Rightarrow> True | Some d \<Rightarrow> msg_createdAt m < d) (dm_messages two_threads)));
          p = probe_page (inbox_cursor ms_text) 1 (foldl (add_to_threads two_threads [''a1'']) [] ms)
      in Some (map ts_senderId (cp_data p), map ts_lastMessageAt (cp_data p)))"
proof -
  have ids: "getAnonIdsForUser 1 (as_links (dm_anon two_threads)) = [''a1'']" by code_simp
  have mine: "filter (\<lambda>m. msg_senderId m \<in> set [''a1''] \<or> (case author_of two_threads m of None \<Rightarrow> False | Some a \<Rightarrow> a \<in> set [''a1''])) (dm_messages two_threads)
      = dm_messages two_threads"
    by (simp add: two_threads_def sample_dm_def author_of_def find_confession_def sample_row_def new_message_def)
  have dec: "decodeCursor (Some (encodeCursor [(''id'', JStr ''x''), (''lastMessageAt'', JInt d)])) = Some [(''id'', JStr ''x''), (''lastMessageAt'', JInt d)]" for d
    by (rule cursor_roundtrip) simp
  have tr: "truthy (Some (encodeCursor [(''id'', JStr ''x''), (''lastMessageAt'', JInt d)]))" for d
    using dec[of d] by (auto simp: decodeCursor_def split: if_splits)
  show ?thesis
    unfolding inbox_page_def findAllThreadsForUser_def inbox_messages_def Let_def ids mine
    by (cases before) (simp_all add: dec tr[simplified] new_date_def page_limit_def)
qed

theorem inbox_repeats_thread:
  "inbox_page None = Some ([''a2''], [10])" "inbox_page (Some 10) = Some ([''a3''], [9])" "inbox_page (Some 9) = Some ([''a2''], [5])"
  unfolding inbox_page_eq by code_simp+

text \<open>
  Two replies that both pass the check before either is saved both succeed if the recipient has no
  e-mail address: the later one replaces the earlier.  With an address the outbox key \<open>reply:<id>\<close>
  refuses the second transaction, unless the row of the first is gone.
\<close>

theorem reply_race:
  assumes "reply_check i r u st = Inr m" "reply_check i r' u st = Inr m" "reply_tx m r ob now st = (Inr m1, st1)"
  shows "(\<not> truthy (getRecipientEmail (Some (msg_senderId m)) st) \<longrightarrow>
      reply_tx m r' ob' now' st1 = (Inr (with_reply r' now' m),
        st1\<lparr>dm_messages := update_where (\<lambda>x. msg_id x = msg_id m) (with_reply r' now') (dm_messages st1)\<rparr>)) \<and>
    (truthy (getRecipientEmail (Some (msg_senderId m)) st) \<longrightarrow> reply_tx m r' ob' now' st1 = (Inl duplicate_key, st1))"
proof -
  have eq: "getRecipientEmail (Some (msg_senderId m)) st1 = getRecipientEmail (Some (msg_senderId m)) st"
    using assms(3) by (auto simp: reply_tx_def Let_def getRecipientEmail_def first_user_def linked_user_def split: if_splits option.splits)
  have "Some (''reply:'' @ int_str (msg_id m)) \<in> oe_idempotencyKey ` set (dm_outbox st1)"
    if "truthy (getRecipientEmail (Some (msg_senderId m)) st)"
    using assms(3) that
    by (auto simp: reply_tx_def Let_def outbox_insert_def reply_outbox_event_def outbox_create_def split: if_splits)
  then show ?thesis
    by (auto simp: reply_tx_def eq Let_def outbox_insert_def clashes_def reply_outbox_event_def outbox_create_def set_keys_of
        split: option.split) force
qed

text \<open>
  The throttle counts rows whose window is exactly the present one.  A row stamped at another
  millisecond is not counted, so five messages a minute are refused only if all fell on this instant;
  and its clean-up deletes the messages themselves.
\<close>

theorem throttle_counts_one_instant:
  assumes "\<forall>m \<in> set t. \<forall>stamp. msg_rateLimitWindow m = Some (stamp - tc_windowMs config) \<longrightarrow> stamp \<noteq> now" "0 < tc_maxMessages config"
  shows "enforceThrottle s c config now later t = Inr ()"
proof -
  have "msg_rateLimitWindow m \<noteq> Some (now - tc_windowMs config)" if "m \<in> set t" for m using assms(1) that by auto
  then have "affected (\<lambda>m. msg_throttleKey m = Some (generateThrottleKey s c) \<and> msg_rateLimitWindow m = Some (now - tc_windowMs config)) t = 0"
    by (auto simp: affected_def filter_empty_conv)
  with assms(2) show ?thesis by (simp add: enforceThrottle_def checkAndRecordMessage_def Let_def)
qed

theorem throttle_cleanup_deletes_messages:
  "m \<in> set t \<Longrightarrow> msg_rateLimitWindow m = Some w \<Longrightarrow> w < now - 3600000 \<Longrightarrow> m \<notin> set (cleanupExpiredWindows now t)"
  by (simp add: cleanupExpiredWindows_def)

end
