(* ===== verification/Confession_Model.thy ===== *)
theory Confession_Model
  imports Pagination Anonymous_Users Reactions Stellar_Client Complex_Main
begin

text \<open>
  What the services around confessions share: the entity (\<^verbatim>\<open>confession/entities/confession.entity.ts\<close>),
  encryption at rest (\<^verbatim>\<open>utils/confession-encryption.ts\<close>), the rows as the feeds show them
  (\<^verbatim>\<open>confession/utils/confession-mapper.ts\<close>), the shared cache (\<^verbatim>\<open>cache/cache.service.ts\<close>,
  \<^verbatim>\<open>cache/cache-namespace.ts\<close>) and the views that were counted already
  (\<^verbatim>\<open>confession/confession-view-cache.service.ts\<close>).

  AES-256-CBC is an argument: \<open>seal key iv text\<close> and \<open>unseal key iv bytes\<close>, whose \<open>None\<close> is a thrown error.
  A text is the list of its bytes.  Redis is a list of entries with their expiry; \<open>up\<close> tells whether it
  answers, and every operation of the cache survives an outage.
  Shown: reading undoes writing for hexadecimal text and for encrypted confessions, what is encrypted
  passes the check made before it is saved, and an entry that was deleted, alone or by its prefix, is
  not served.
\<close>

section \<open>The entity\<close>

datatype moderation_status = MPending | MApproved | MRejected | MFlagged | MEscalated | MResolved | MHidden

datatype publish_status = Draft | Scheduled | Published

text \<open>The columns the services use; the search vector and the columns of the key rotation are left out.\<close>

record confession =
  co_id :: ident
  co_message :: string
  co_gender :: "string option"
  co_created_at :: ms
  co_anonymousUserId :: ident
  co_view_count :: nat
  co_isDeleted :: bool
  co_deletedAt :: "ms option"
  co_deletedBy :: "string option"
  co_moderationScore :: rat
  co_idempotencyKey :: "string option"
  co_moderationFlags :: "string list"
  co_moderationStatus :: moderation_status
  co_requiresReview :: bool
  co_isHidden :: bool
  co_moderationDetails :: "(string \<times> rat) list"
  co_stellarTxHash :: "string option"
  co_stellarHash :: "string option"
  co_isAnchored :: bool
  co_anchoredAt :: "ms option"
  co_status :: publish_status
  co_publishAt :: "ms option"

text \<open>The unique columns: \<open>stellar_tx_hash\<close> and \<open>idempotency_key\<close>.\<close>

definition confession_insert :: "confession \<Rightarrow> confession list \<Rightarrow> confession list option" where
  "confession_insert c t =
     (if clashes co_stellarTxHash c t \<or> clashes co_idempotencyKey c t then None else Some (t @ [c]))"

section \<open>Encryption at rest\<close>

definition to_hex :: "string \<Rightarrow> string" where
  "to_hex bs = concat (map (\<lambda>c. let n = (of_char c :: nat) in [hex_digit (n div 16), hex_digit (n mod 16)]) bs)"

text \<open>\<open>Buffer.from(s, 'hex')\<close> stops at the first pair that is not hexadecimal and drops an odd digit.\<close>

fun from_hex :: "string \<Rightarrow> string" where
  "from_hex (a # b # s) =
     (case (hex_val a, hex_val b) of
        (Some x, Some y) \<Rightarrow> char_of (16 * x + y) # from_hex s
      | _ \<Rightarrow> [])"
| "from_hex _ = []"

definition is_hex :: "string \<Rightarrow> bool" where
  "is_hex s \<longleftrightarrow> s \<noteq> [] \<and> list_all hex_char s"

definition resolveAesKey :: "string \<Rightarrow> string outcome" where
  "resolveAesKey key =
     (if length key = 64 \<and> is_hex key then Inr (from_hex key)
      else if length key = 32 then Inr key
      else Inl (PlainError ''Invalid AES key: expected 64 hexadecimal characters or 32 UTF-8 characters.''))"

definition IV_LENGTH :: nat where "IV_LENGTH = 16"

definition isEncryptedConfession :: "string \<Rightarrow> bool" where
  "isEncryptedConfession text \<longleftrightarrow>
     text \<noteq> [] \<and>
     (case js_split (CHR '':'') text of
        [ivHex, encryptedHex] \<Rightarrow> length ivHex = IV_LENGTH * 2 \<and> is_hex ivHex \<and> is_hex encryptedHex
      | _ \<Rightarrow> False)"

definition assertEncryptedBeforeSave :: "string \<Rightarrow> unit outcome" where
  "assertEncryptedBeforeSave text =
     (if isEncryptedConfession text then Inr ()
      else Inl (PlainError ''Security Invariant Violation: Confession content must be encrypted before persistence.''))"

definition encryptConfession ::
  "(string \<Rightarrow> string \<Rightarrow> string \<Rightarrow> string) \<Rightarrow> string \<Rightarrow> string \<Rightarrow> string \<Rightarrow> string outcome" where
  "encryptConfession seal iv text key =
     (case resolveAesKey key of
        Inl e \<Rightarrow> Inl e
      | Inr keyBytes \<Rightarrow>
          (let result = to_hex iv @ '':'' @ to_hex (seal keyBytes iv text)
           in case assertEncryptedBeforeSave result of Inl e \<Rightarrow> Inl e | Inr _ \<Rightarrow> Inr result))"

definition decryptConfession ::
  "(string \<Rightarrow> string \<Rightarrow> string \<Rightarrow> string option) \<Rightarrow> string \<Rightarrow> string \<Rightarrow> string outcome" where
  "decryptConfession unseal encryptedText key =
     (case resolveAesKey key of
        Inl e \<Rightarrow> Inl e
      | Inr keyBytes \<Rightarrow>
          (case js_split (CHR '':'') encryptedText of
             ivHex # encrypted # _ \<Rightarrow>
               (case unseal keyBytes (from_hex ivHex) (from_hex encrypted) of
                  None \<Rightarrow> Inl (PlainError ''bad decrypt'')
                | Some text \<Rightarrow> Inr text)
           | _ \<Rightarrow> Inl (PlainError ''The data argument must be of type string'')))"

definition safeDecryptConfession ::
  "(string \<Rightarrow> string \<Rightarrow> string \<Rightarrow> string option) \<Rightarrow> string \<Rightarrow> string \<Rightarrow> string outcome" where
  "safeDecryptConfession unseal encryptedText key =
     (if \<not> isEncryptedConfession encryptedText
      then Inl (PlainError ''Confession content in storage is not properly encrypted.'')
      else case decryptConfession unseal encryptedText key of
        Inl e \<Rightarrow> Inl (PlainError (''Failed to decrypt confession content: '' @ exn_message e))
      | Inr text \<Rightarrow> Inr text)"

section \<open>Slim rows\<close>

definition thumbs_up :: string where "thumbs_up = map char_of [240 :: nat, 159, 145, 141]"
definition red_heart :: string where "red_heart = map char_of [226 :: nat, 157, 164, 239, 184, 143]"

definition reaction_type :: "string \<Rightarrow> string" where
  "reaction_type emoji =
     (let e = lower_case emoji in
      if e = thumbs_up \<or> js_includes e ''like'' then ''like''
      else if e = red_heart \<or> js_includes e ''love'' then ''love''
      else if e = [] then ''like'' else e)"

fun count_type :: "string \<Rightarrow> (string \<times> nat) list \<Rightarrow> (string \<times> nat) list" where
  "count_type k [] = [(k, 1)]"
| "count_type k ((k', n) # cs) = (if k = k' then (k', n + 1) # cs else (k', n) # count_type k cs)"

text \<open>The keys come in the order of their first occurrence.\<close>

definition aggregateReactions :: "reaction list \<Rightarrow> (string \<times> nat) list" where
  "aggregateReactions rs = foldl (\<lambda>cs r. count_type (reaction_type (rt_emoji r)) cs) [] rs"

record slim_confession =
  sl_id :: ident
  sl_message :: string
  sl_gender :: "string option"
  sl_created_at :: ms
  sl_view_count :: nat
  sl_isAnchored :: bool
  sl_stellarTxHash :: "string option"
  sl_reactions :: "(string \<times> nat) list"
  sl_contentWarning :: bool

text \<open>\<open>requiresReview\<close> is \<open>None\<close> where the query did not select the column.\<close>

definition mapToSlimConfession :: "confession \<Rightarrow> string \<Rightarrow> reaction list \<Rightarrow> bool option \<Rightarrow> slim_confession" where
  "mapToSlimConfession c message rs requiresReview =
     \<lparr>sl_id = co_id c, sl_message = message, sl_gender = co_gender c, sl_created_at = co_created_at c,
      sl_view_count = co_view_count c, sl_isAnchored = co_isAnchored c, sl_stellarTxHash = co_stellarTxHash c,
      sl_reactions = aggregateReactions rs,
      sl_contentWarning = (requiresReview = Some True \<or> co_moderationStatus c = MFlagged)\<rparr>"

section \<open>The cache\<close>

type_synonym 'v cache = "(string \<times> 'v \<times> ms) list"

definition CONFESSION_SINGLE :: int where "CONFESSION_SINGLE = 1800"
definition CONFESSION_LIST :: int where "CONFESSION_LIST = 300"

definition cache_get :: "bool \<Rightarrow> string \<Rightarrow> ms \<Rightarrow> 'v cache \<Rightarrow> 'v option" where
  "cache_get up key now c =
     (if up then (case map_of c key of Some (v, expires) \<Rightarrow> if now < expires then Some v else None | None \<Rightarrow> None) else None)"

definition cache_set :: "bool \<Rightarrow> string \<Rightarrow> 'v \<Rightarrow> int \<Rightarrow> ms \<Rightarrow> 'v cache \<Rightarrow> 'v cache" where
  "cache_set up key v ttl now c =
     (if up then (key, v, now + ttl * 1000) # filter (\<lambda>e. fst e \<noteq> key) c else c)"

definition cache_del :: "bool \<Rightarrow> string \<Rightarrow> 'v cache \<Rightarrow> 'v cache" where
  "cache_del up key c = (if up then filter (\<lambda>e. fst e \<noteq> key) c else c)"

definition delPattern :: "bool \<Rightarrow> string \<Rightarrow> 'v cache \<Rightarrow> 'v cache" where
  "delPattern up pattern c = (if up then filter (\<lambda>e. \<not> starts_with (fst e) pattern) c else c)"

fun buildKey :: "string list \<Rightarrow> string" where
  "buildKey [] = []"
| "buildKey [p] = p"
| "buildKey (p # q # ps) = p @ '':'' @ buildKey (q # ps)"

definition single_key :: "ident \<Rightarrow> string" where
  "single_key confessionId = ''confession:'' @ confessionId"

definition listPrefix :: string where "listPrefix = ''confessions:''"

definition invalidateConfessionCache :: "bool \<Rightarrow> 'v cache \<Rightarrow> 'v cache" where
  "invalidateConfessionCache up c = delPattern up listPrefix c"

definition invalidateConfessionEntry :: "bool \<Rightarrow> ident \<Rightarrow> 'v cache \<Rightarrow> 'v cache" where
  "invalidateConfessionEntry up confessionId c =
     invalidateConfessionCache up (cache_del up (single_key confessionId) c)"

section \<open>Counted views\<close>

definition view_part :: "string \<Rightarrow> string" where
  "view_part s = replace_char (CHR '':'') (CHR ''_'') s"

definition view_key :: "ident \<Rightarrow> string \<Rightarrow> string" where
  "view_key confessionId userOrIp = ''confession:viewed:'' @ view_part confessionId @ '':'' @ view_part userOrIp"

text \<open>\<open>SET key 1 EX seconds NX\<close>: the views with the time they are forgotten; a Redis error counts the view.\<close>

definition checkAndMarkView ::
  "bool \<Rightarrow> int \<Rightarrow> ident \<Rightarrow> string \<Rightarrow> ms \<Rightarrow> (string \<times> ms) list \<Rightarrow> bool \<times> (string \<times> ms) list" where
  "checkAndMarkView up expiry confessionId userOrIp now vs =
     (let key = view_key confessionId userOrIp in
      if \<not> up then (True, vs)
      else if (case map_of vs key of None \<Rightarrow> False | Some until \<Rightarrow> now < until) then (False, vs)
      else (True, (key, now + expiry * 1000) # filter (\<lambda>v. fst v \<noteq> key) vs))"

definition hasViewedRecently :: "bool \<Rightarrow> ident \<Rightarrow> string \<Rightarrow> ms \<Rightarrow> (string \<times> ms) list \<Rightarrow> bool" where
  "hasViewedRecently up confessionId userOrIp now vs =
     (up \<and> (case map_of vs (view_key confessionId userOrIp) of None \<Rightarrow> False | Some until \<Rightarrow> now < until))"

definition markViewed :: "ident \<Rightarrow> string \<Rightarrow> ms \<Rightarrow> (string \<times> ms) list \<Rightarrow> (string \<times> ms) list" where
  "markViewed confessionId userOrIp now vs =
     (let key = view_key confessionId userOrIp in (key, now + 3600 * 1000) # filter (\<lambda>v. fst v \<noteq> key) vs)"

section \<open>Lemmas\<close>

lemma of_hex_digit: "n < 16 \<Longrightarrow> (of_char (hex_digit n) :: nat) = (if n < 10 then 48 + n else 87 + n)"
  by (simp add: hex_digit_def)

lemma hex_char_digit: "n < 16 \<Longrightarrow> hex_char (hex_digit n)"
  by (simp add: hex_char_def of_hex_digit Let_def)

lemma byte_digits: "(of_char c :: nat) div 16 < 16" "(of_char c :: nat) mod 16 < 16"
  using nat_of_char_less_256[of c] by linarith+

lemma from_hex_to_hex: "from_hex (to_hex bs) = bs"
proof (induction bs)
  case (Cons c bs)
  have "16 * ((of_char c :: nat) div 16) + of_char c mod 16 = of_char c" by simp
  with Cons show ?case by (simp add: to_hex_def Let_def hex_val_digit byte_digits)
qed (simp add: to_hex_def)

lemma length_to_hex [simp]: "length (to_hex bs) = 2 * length bs"
  by (induction bs) (simp_all add: to_hex_def Let_def)

lemma to_hex_chars: "list_all hex_char (to_hex bs)"
  by (induction bs) (simp_all add: to_hex_def Let_def hex_char_digit byte_digits)

lemma colon_not_hex: "list_all hex_char s \<Longrightarrow> CHR '':'' \<notin> set s"
  by (auto simp: list_all_iff hex_char_def Let_def)

lemma is_hex_to_hex: "is_hex (to_hex bs) \<longleftrightarrow> bs \<noteq> []"
  using to_hex_chars[of bs] length_to_hex[of bs] by (auto simp: is_hex_def simp del: length_to_hex)

lemma split_sealed: "js_split (CHR '':'') (to_hex iv @ CHR '':'' # to_hex c) = [to_hex iv, to_hex c]"
  by (simp add: js_split_append js_split_none colon_not_hex to_hex_chars)

lemma sealed_is_encrypted: "length iv = IV_LENGTH \<Longrightarrow> c \<noteq> [] \<Longrightarrow> isEncryptedConfession (to_hex iv @ CHR '':'' # to_hex c)"
  by (auto simp: isEncryptedConfession_def split_sealed is_hex_to_hex IV_LENGTH_def)

lemma encryptConfession_Inr:
  "encryptConfession seal iv text key = Inr m \<Longrightarrow>
     isEncryptedConfession m \<and> (\<exists>k. resolveAesKey key = Inr k \<and> m = to_hex iv @ CHR '':'' # to_hex (seal k iv text))"
  by (auto simp: encryptConfession_def assertEncryptedBeforeSave_def Let_def split: sum.splits if_splits)

lemma decrypt_sealed:
  "resolveAesKey key = Inr k \<Longrightarrow>
   decryptConfession unseal (to_hex iv @ CHR '':'' # to_hex (seal k iv text)) key =
     (case unseal k iv (seal k iv text) of None \<Rightarrow> Inl (PlainError ''bad decrypt'') | Some t \<Rightarrow> Inr t)"
  by (simp add: decryptConfession_def split_sealed from_hex_to_hex)

lemma decrypt_encrypted:
  assumes "\<And>k iv t. unseal k iv (seal k iv t) = Some t" "encryptConfession seal iv text key = Inr m"
  shows "decryptConfession unseal m key = Inr text"
  using encryptConfession_Inr[OF assms(2)] assms(1) by (auto simp: decrypt_sealed)

text \<open>Deleted entries are gone, other entries are what they were.\<close>

lemma map_of_filter_key: "map_of (filter (\<lambda>e. P (fst e)) c) k = (if P k then map_of c k else None)"
  by (induction c) auto

lemma cache_get_set:
  "cache_get up k now (cache_set up' key v ttl t c) =
     (if up' \<and> k = key then (if up \<and> now < t + ttl * 1000 then Some v else None) else cache_get up k now c)"
  using map_of_filter_key[of "\<lambda>x. x \<noteq> key" c k] by (auto simp: cache_get_def cache_set_def)

lemma cache_get_del: "cache_get up k now (cache_del up' key c) = (if up' \<and> k = key then None else cache_get up k now c)"
  using map_of_filter_key[of "\<lambda>x. x \<noteq> key" c k] by (auto simp: cache_get_def cache_del_def)

lemma cache_get_delPattern:
  "cache_get up k now (delPattern up' pre c) = (if up' \<and> starts_with k pre then None else cache_get up k now c)"
  using map_of_filter_key[of "\<lambda>x. \<not> starts_with x pre" c k] by (auto simp: cache_get_def delPattern_def)

lemma starts_with_append [simp]: "starts_with (p @ s) p"
  by (induction p) auto

lemma single_not_listed [simp]: "\<not> starts_with (single_key i) listPrefix"
  by (simp add: single_key_def listPrefix_def)

lemma cache_get_invalidated:
  "cache_get up k now (invalidateConfessionEntry True i c) =
     (if k = single_key i \<or> starts_with k listPrefix then None else cache_get up k now c)"
  by (simp add: invalidateConfessionEntry_def invalidateConfessionCache_def cache_get_delPattern cache_get_del)

lemma single_key_inj [simp]: "single_key i = single_key j \<longleftrightarrow> i = j"
  by (simp add: single_key_def)

text \<open>A counted view is not counted again before it is forgotten.\<close>

lemma view_counted_once:
  assumes "checkAndMarkView True expiry i u now vs = (True, vs')" "later < now + expiry * 1000"
  shows "checkAndMarkView True expiry i u later vs' = (False, vs')"
  using assms by (auto simp: checkAndMarkView_def Let_def split: if_splits)

end
