(* ===== verification/Comments.thy ===== *)
theory Comments
  imports Confession_Model
begin

text \<open>
  Comments on confessions and their moderation: \<^verbatim>\<open>comment/comment.service.ts\<close> with its entities, and the note
  templates of \<^verbatim>\<open>comment/moderation-template.service.ts\<close>.  The listing query is left out: its combined
  \<open>ORDER BY\<close> text is interpreted by the query builder.

  Every request reads first and writes later, so each is split into its check and its write; the step
  relation runs any write whose check passed at some earlier time.  Shown: replies stay one level deep, every comment has one moderation entry, keys and
  ids are unique, authors are fixed and deletions final; edits and deletions are the
  owner's, and edits belong to the first five minutes; creation is all or nothing.
\<close>

section \<open>Mentions\<close>

definition word_char :: "char \<Rightarrow> bool" where
  "word_char c =
     (let n = (of_char c :: nat) in
      (97 \<le> n \<and> n \<le> 122) \<or> (65 \<le> n \<and> n \<le> 90) \<or> (48 \<le> n \<and> n \<le> 57) \<or> n = 95)"

text \<open>The matches of \<open>/@([a-zA-Z0-9_]{1,50})/g\<close>, left to right.\<close>

function mention_scan :: "string \<Rightarrow> string list" where
  "mention_scan [] = []"
| "mention_scan (c # s) =
     (if c = CHR ''@'' \<and> s \<noteq> [] \<and> word_char (hd s)
      then take 50 (takeWhile word_char s) # mention_scan (drop (length (take 50 (takeWhile word_char s))) s)
      else mention_scan s)"
  by pat_completeness auto
termination by (relation "measure length") auto

definition parseMentions :: "string \<Rightarrow> string list" where
  "parseMentions content = foldl (\<lambda>ms u. if u \<in> set ms then ms else ms @ [u]) [] (mention_scan content)"

section \<open>Rows\<close>



record comment =
  cm_id :: int
  cm_content :: string
  cm_createdAt :: ms
  cm_anonymousUserId :: ident
  cm_confessionId :: ident
  cm_anonymousContextId :: "string option"
  cm_parentId :: "int option"
  cm_isDeleted :: bool
  cm_editedAt :: "ms option"
  cm_mentionedUsernames :: "string list option"
  cm_idempotencyKey :: "string option"

record moderation_comment =
  mo_id :: int
  mo_commentId :: int
  mo_status :: moderation_status
  mo_moderatedAt :: "ms option"
  mo_moderatedById :: "int option"
  mo_createdAt :: ms

record comment_confession =
  ck_id :: ident
  ck_isDeleted :: bool
  ck_anonymousUserId :: "ident option"

record comment_state =
  cst_confessions :: "comment_confession list"
  cst_links :: "anon_link list"
  cst_users :: "dm_user list"
  cst_comments :: "comment list"
  cst_moderation :: "moderation_comment list"
  cst_outbox :: "outbox_event list"

definition comment_insert :: "comment \<Rightarrow> comment list \<Rightarrow> comment list option" where
  "comment_insert c t = (if clashes cm_idempotencyKey c t then None else Some (t @ [c]))"

definition EDIT_WINDOW_MS :: int where "EDIT_WINDOW_MS = 5 * 60 * 1000"

section \<open>Creating\<close>

definition id_given :: "int option \<Rightarrow> bool" where
  "id_given i = (case i of None \<Rightarrow> False | Some n \<Rightarrow> n \<noteq> 0)"

definition comment_recipient :: "ident option \<Rightarrow> comment_state \<Rightarrow> string option" where
  "comment_recipient anonId st = map_option du_email (linked_user anonId (cst_links st) (cst_users st))"

text \<open>The reads of \<open>create\<close>: an error, a comment to replay, or the confession to comment on.\<close>

definition create_check ::
  "ident \<Rightarrow> int option \<Rightarrow> string option \<Rightarrow> comment_state \<Rightarrow> (comment + comment_confession) outcome" where
  "create_check confessionId parentId idempotencyKey st =
     (case find_one (\<lambda>c. ck_id c = confessionId \<and> \<not> ck_isDeleted c) (cst_confessions st) of
        None \<Rightarrow> Inl (NotFoundException ''Confession not found'')
      | Some confession \<Rightarrow>
          let parent = (if id_given parentId then find_one (\<lambda>c. Some (cm_id c) = parentId) (cst_comments st) else None) in
          if id_given parentId \<and> parent = None then Inl (NotFoundException ''Parent comment not found'')
          else if id_given parentId \<and> id_given (cm_parentId (the parent)) then
            Inl (BadRequestException ''Replies to replies are not supported. You can only reply to top-level comments.'')
          else (case (if truthy idempotencyKey then find_one (\<lambda>c. cm_idempotencyKey c = idempotencyKey) (cst_comments st) else None) of
                  Some existing \<Rightarrow> Inr (Inl existing)
                | None \<Rightarrow> Inr (Inr confession)))"

definition new_comment ::
  "int \<Rightarrow> string \<Rightarrow> ident \<Rightarrow> ident \<Rightarrow> string \<Rightarrow> int option \<Rightarrow> string option \<Rightarrow> ms \<Rightarrow> comment" where
  "new_comment newId content anonId confessionId contextId parentId key now =
     \<lparr>cm_id = newId, cm_content = content, cm_createdAt = now, cm_anonymousUserId = anonId, cm_confessionId = confessionId,
      cm_anonymousContextId = Some contextId, cm_parentId = (if id_given parentId then parentId else None),
      cm_isDeleted = False, cm_editedAt = None,
      cm_mentionedUsernames = (if parseMentions content \<noteq> [] then Some (parseMentions content) else None),
      cm_idempotencyKey = (if truthy key then key else None)\<rparr>"

definition new_moderation :: "int \<Rightarrow> int \<Rightarrow> ms \<Rightarrow> moderation_comment" where
  "new_moderation newId commentId now =
     \<lparr>mo_id = newId, mo_commentId = commentId, mo_status = MPending, mo_moderatedAt = None, mo_moderatedById = None, mo_createdAt = now\<rparr>"

definition event_key :: "string \<Rightarrow> string option \<Rightarrow> int \<Rightarrow> string" where
  "event_key prefix key i = prefix @ '':'' @ (if truthy key then the key else int_str i)"

definition comment_event :: "ident \<Rightarrow> comment \<Rightarrow> string option \<Rightarrow> string \<Rightarrow> ms \<Rightarrow> outbox_event" where
  "comment_event newId c key email now =
     outbox_create newId now ''comment_notification''
       [(''commentId'', int_str (cm_id c)), (''confessionId'', cm_confessionId c), (''recipientEmail'', email),
        (''commenterContextId'', nullish (cm_anonymousContextId c) []), (''commentPreview'', take 100 (cm_content c))]
       (Some (event_key ''comment'' key (cm_id c)))"

definition mention_event :: "ident \<Rightarrow> comment \<Rightarrow> string option \<Rightarrow> string \<Rightarrow> ms \<Rightarrow> outbox_event" where
  "mention_event newId c key username now =
     outbox_create newId now ''mention_notification''
       [(''commentId'', int_str (cm_id c)), (''confessionId'', cm_confessionId c), (''mentionedUsername'', username),
        (''mentionedBy'', nullish (cm_anonymousContextId c) []), (''commentPreview'', take 100 (cm_content c))]
       (Some (event_key ''mention'' key (cm_id c) @ '':'' @ username))"

definition comment_events ::
  "(nat \<Rightarrow> ident) \<Rightarrow> comment \<Rightarrow> string option \<Rightarrow> string option \<Rightarrow> ms \<Rightarrow> outbox_event list" where
  "comment_events newOutbox c key email now =
     (if truthy email then [comment_event (newOutbox 0) c key (the email) now] else []) @
     map (\<lambda>(i, u). mention_event (newOutbox (Suc i)) c key u now) (enumerate 0 (parseMentions (cm_content c)))"

fun outbox_insert_all :: "outbox_event list \<Rightarrow> outbox_event list \<Rightarrow> outbox_event list option" where
  "outbox_insert_all [] t = Some t"
| "outbox_insert_all (e # es) t = Option.bind (outbox_insert e t) (outbox_insert_all es)"

record comment_fresh =
  kf_comment :: int
  kf_moderation :: int
  kf_outbox :: "nat \<Rightarrow> ident"

definition unique_violation :: exn where
  "unique_violation = PlainError ''duplicate key value violates unique constraint''"

text \<open>The transaction: comment, moderation entry and events, or nothing.\<close>

definition create_write ::
  "string \<Rightarrow> ident \<Rightarrow> comment_confession \<Rightarrow> string \<Rightarrow> int option \<Rightarrow> string option \<Rightarrow> comment_fresh \<Rightarrow> ms \<Rightarrow> comment_state \<Rightarrow>
     comment outcome \<times> comment_state" where
  "create_write content anonId confession contextId parentId key fresh now st =
     (let c = new_comment (kf_comment fresh) content anonId (ck_id confession) contextId parentId key now in
      case comment_insert c (cst_comments st) of
        None \<Rightarrow> (Inl unique_violation, st)
      | Some cs \<Rightarrow>
          (case outbox_insert_all (comment_events (kf_outbox fresh) c key (comment_recipient (ck_anonymousUserId confession) st) now)
                  (cst_outbox st) of
             None \<Rightarrow> (Inl unique_violation, st)
           | Some ob \<Rightarrow>
               (Inr c, st\<lparr>cst_comments := cs,
                          cst_moderation := cst_moderation st @ [new_moderation (kf_moderation fresh) (cm_id c) now],
                          cst_outbox := ob\<rparr>)))"

definition comment_create ::
  "string \<Rightarrow> ident \<Rightarrow> ident \<Rightarrow> string \<Rightarrow> int option \<Rightarrow> string option \<Rightarrow> comment_fresh \<Rightarrow> ms \<Rightarrow> comment_state \<Rightarrow>
     comment outcome \<times> comment_state" where
  "comment_create content anonId confessionId contextId parentId key fresh now st =
     (case create_check confessionId parentId key st of
        Inl e \<Rightarrow> (Inl e, st)
      | Inr (Inl existing) \<Rightarrow> (Inr existing, st)
      | Inr (Inr confession) \<Rightarrow> create_write content anonId confession contextId parentId key fresh now st)"

section \<open>Editing and deleting\<close>

definition live_comment :: "int \<Rightarrow> comment list \<Rightarrow> comment option" where
  "live_comment i t = find_one (\<lambda>c. cm_id c = i \<and> \<not> cm_isDeleted c) t"

definition edit_check :: "int \<Rightarrow> ident \<Rightarrow> ms \<Rightarrow> comment list \<Rightarrow> unit outcome" where
  "edit_check i anonId now t =
     (case live_comment i t of
        None \<Rightarrow> Inl (NotFoundException ''Comment not found'')
      | Some c \<Rightarrow>
          if cm_anonymousUserId c \<noteq> anonId then Inl (ForbiddenException ''You can only edit your own comments'')
          else if now - cm_createdAt c > EDIT_WINDOW_MS
          then Inl (BadRequestException ''Comments can only be edited within 5 minutes of posting'')
          else Inr ())"

text \<open>\<open>update(id, \<dots>)\<close>; a column set to \<open>undefined\<close> is left as it is.\<close>

definition edited :: "string \<Rightarrow> ms \<Rightarrow> comment \<Rightarrow> comment" where
  "edited content now c =
     c\<lparr>cm_content := content, cm_editedAt := Some now,
       cm_mentionedUsernames := (if parseMentions content \<noteq> [] then Some (parseMentions content) else cm_mentionedUsernames c)\<rparr>"

definition edit_write :: "int \<Rightarrow> string \<Rightarrow> ms \<Rightarrow> comment list \<Rightarrow> comment list" where
  "edit_write i content now t = update_where (\<lambda>c. cm_id c = i) (edited content now) t"

definition comment_edit :: "int \<Rightarrow> string \<Rightarrow> ident \<Rightarrow> ms \<Rightarrow> comment_state \<Rightarrow> comment option outcome \<times> comment_state" where
  "comment_edit i content anonId now st =
     (case edit_check i anonId now (cst_comments st) of
        Inl e \<Rightarrow> (Inl e, st)
      | Inr _ \<Rightarrow>
          (let t = edit_write i content now (cst_comments st)
           in (Inr (find_one (\<lambda>c. cm_id c = i) t), st\<lparr>cst_comments := t\<rparr>)))"

definition delete_check :: "int \<Rightarrow> ident \<Rightarrow> comment list \<Rightarrow> unit outcome" where
  "delete_check i anonId t =
     (case live_comment i t of
        None \<Rightarrow> Inl (NotFoundException ''Comment not found'')
      | Some c \<Rightarrow>
          if cm_anonymousUserId c \<noteq> anonId then Inl (BadRequestException ''You can only delete your own comments'') else Inr ())"

definition erased :: "comment \<Rightarrow> comment" where
  "erased c = c\<lparr>cm_isDeleted := True, cm_content := ''[deleted]''\<rparr>"

definition delete_write :: "int \<Rightarrow> comment list \<Rightarrow> comment list" where
  "delete_write i t = update_where (\<lambda>c. cm_id c = i) erased t"

definition comment_delete :: "int \<Rightarrow> ident \<Rightarrow> comment_state \<Rightarrow> unit outcome \<times> comment_state" where
  "comment_delete i anonId st =
     (case delete_check i anonId (cst_comments st) of
        Inl e \<Rightarrow> (Inl e, st)
      | Inr _ \<Rightarrow> (Inr (), st\<lparr>cst_comments := delete_write i (cst_comments st)\<rparr>))"

section \<open>Moderating\<close>

definition moderate_check :: "int \<Rightarrow> moderation_comment list \<Rightarrow> moderation_comment outcome" where
  "moderate_check commentId t =
     (case find_one (\<lambda>m. mo_commentId m = commentId) t of
        None \<Rightarrow> Inl (NotFoundException ''Moderation entry not found for comment'')
      | Some m \<Rightarrow> if mo_status m \<noteq> MPending then Inl (BadRequestException ''Comment has already been moderated'') else Inr m)"

definition moderate_write :: "moderation_comment \<Rightarrow> moderation_status \<Rightarrow> int \<Rightarrow> ms \<Rightarrow> moderation_comment list \<Rightarrow> moderation_comment list" where
  "moderate_write m status moderator now t =
     save_row mo_id (m\<lparr>mo_status := status, mo_moderatedAt := Some now, mo_moderatedById := Some moderator\<rparr>) t"

definition moderateComment ::
  "int \<Rightarrow> moderation_status \<Rightarrow> int \<Rightarrow> ms \<Rightarrow> comment_state \<Rightarrow> unit outcome \<times> comment_state" where
  "moderateComment commentId status moderator now st =
     (case moderate_check commentId (cst_moderation st) of
        Inl e \<Rightarrow> (Inl e, st)
      | Inr m \<Rightarrow> (Inr (), st\<lparr>cst_moderation := moderate_write m status moderator now (cst_moderation st)\<rparr>))"

section \<open>Note templates\<close>

datatype template_category = Approval | Rejection | Warning | Info

fun category_rank :: "template_category \<Rightarrow> nat" where
  "category_rank Approval = 0"
| "category_rank Rejection = 1"
| "category_rank Warning = 2"
| "category_rank Info = 3"

record note_template =
  nt_id :: int
  nt_name :: string
  nt_content :: string
  nt_category :: template_category
  nt_isActive :: bool
  nt_createdById :: "int option"

record template_patch =
  tp_name :: "string option"
  tp_content :: "string option"
  tp_category :: "template_category option"
  tp_isActive :: "bool option"

definition template_create :: "int \<Rightarrow> string \<Rightarrow> string \<Rightarrow> template_category \<Rightarrow> int \<Rightarrow> note_template list \<Rightarrow> note_template \<times> note_template list" where
  "template_create newId name content category adminId t =
     (let r = \<lparr>nt_id = newId, nt_name = name, nt_content = content, nt_category = category, nt_isActive = True, nt_createdById = Some adminId\<rparr>
      in (r, t @ [r]))"

definition template_findAll :: "bool \<Rightarrow> note_template list \<Rightarrow> note_template list" where
  "template_findAll includeInactive t =
     order_asc (\<lambda>r. (category_rank (nt_category r), nt_name r)) (filter (\<lambda>r. includeInactive \<or> nt_isActive r) t)"

definition template_findById :: "int \<Rightarrow> note_template list \<Rightarrow> note_template outcome" where
  "template_findById i t =
     (case find_one (\<lambda>r. nt_id r = i) t of None \<Rightarrow> Inl (NotFoundException ''Template not found'') | Some r \<Rightarrow> Inr r)"

definition template_findByCategory :: "template_category \<Rightarrow> note_template list \<Rightarrow> note_template list" where
  "template_findByCategory category t = order_asc nt_name (filter (\<lambda>r. nt_category r = category \<and> nt_isActive r) t)"

definition template_patched :: "template_patch \<Rightarrow> note_template \<Rightarrow> note_template" where
  "template_patched dto r =
     r\<lparr>nt_name := nullish (tp_name dto) (nt_name r), nt_content := nullish (tp_content dto) (nt_content r),
       nt_category := nullish (tp_category dto) (nt_category r), nt_isActive := nullish (tp_isActive dto) (nt_isActive r)\<rparr>"

definition template_update :: "int \<Rightarrow> template_patch \<Rightarrow> note_template list \<Rightarrow> note_template outcome \<times> note_template list" where
  "template_update i dto t =
     (case template_findById i t of
        Inl e \<Rightarrow> (Inl e, t)
      | Inr r \<Rightarrow> (Inr (template_patched dto r), save_row nt_id (template_patched dto r) t))"

definition template_delete :: "int \<Rightarrow> note_template list \<Rightarrow> unit outcome \<times> note_template list" where
  "template_delete i t =
     (case template_findById i t of
        Inl e \<Rightarrow> (Inl e, t)
      | Inr r \<Rightarrow> (Inr (), delete_where (\<lambda>x. nt_id x = nt_id r) t))"

definition getTemplateContent :: "int \<Rightarrow> note_template list \<Rightarrow> string option" where
  "getTemplateContent i t = map_option nt_content (find_one (\<lambda>r. nt_id r = i \<and> nt_isActive r) t)"

section \<open>The running service\<close>

text \<open>
  A write may come at any time after its check; what the check established and no step can undo is
  required of it: the parent is a top-level comment, the comment belongs to the requester and was young
  enough when checked, the moderation entry exists.
\<close>

inductive comment_step :: "comment_state \<Rightarrow> comment_state \<Rightarrow> bool" where
  create: "(id_given parentId \<longrightarrow> (\<exists>p \<in> set (cst_comments st). Some (cm_id p) = parentId \<and> \<not> id_given (cm_parentId p))) \<Longrightarrow>
     kf_comment fresh \<notin> cm_id ` set (cst_comments st) \<Longrightarrow> kf_moderation fresh \<notin> mo_id ` set (cst_moderation st) \<Longrightarrow>
     comment_step st (snd (create_write content anonId confession contextId parentId key fresh now st))"
| edit: "\<exists>c \<in> set (cst_comments st). cm_id c = i \<and> cm_anonymousUserId c = anonId \<and> checked - cm_createdAt c \<le> EDIT_WINDOW_MS \<Longrightarrow>
     comment_step st (st\<lparr>cst_comments := edit_write i content now (cst_comments st)\<rparr>)"
| delete: "\<exists>c \<in> set (cst_comments st). cm_id c = i \<and> cm_anonymousUserId c = anonId \<Longrightarrow>
     comment_step st (st\<lparr>cst_comments := delete_write i (cst_comments st)\<rparr>)"
| moderate: "\<exists>x \<in> set (cst_moderation st). mo_id x = mo_id m \<and> mo_commentId x = mo_commentId m \<Longrightarrow>
     comment_step st (st\<lparr>cst_moderation := moderate_write m status moderator now (cst_moderation st)\<rparr>)"
| other: "cst_comments st' = cst_comments st \<Longrightarrow> cst_moderation st' = cst_moderation st \<Longrightarrow> comment_step st st'"

inductive comment_reachable :: "comment_state \<Rightarrow> bool" where
  init: "cst_comments st = [] \<Longrightarrow> cst_moderation st = [] \<Longrightarrow> comment_reachable st"
| step: "comment_reachable st \<Longrightarrow> comment_step st st' \<Longrightarrow> comment_reachable st'"

definition nested_once :: "comment list \<Rightarrow> bool" where
  "nested_once t \<longleftrightarrow>
     (\<forall>c \<in> set t. \<forall>p. cm_parentId c = Some p \<longrightarrow> (\<exists>q \<in> set t. cm_id q = p \<and> cm_parentId q = None))"

definition comment_inv :: "comment_state \<Rightarrow> bool" where
  "comment_inv st \<longleftrightarrow>
     uniq_on cm_idempotencyKey (cst_comments st) \<and> distinct (map cm_id (cst_comments st)) \<and>
     distinct (map mo_id (cst_moderation st)) \<and> map mo_commentId (cst_moderation st) = map cm_id (cst_comments st) \<and>
     nested_once (cst_comments st) \<and> (\<forall>c \<in> set (cst_comments st). cm_parentId c \<noteq> Some 0)"

text \<open>What a comment keeps for ever; and a deleted one stays deleted.\<close>

definition stays :: "comment \<Rightarrow> comment \<Rightarrow> bool" where
  "stays c d \<longleftrightarrow>
     cm_id d = cm_id c \<and> cm_anonymousUserId d = cm_anonymousUserId c \<and> cm_confessionId d = cm_confessionId c \<and>
     cm_parentId d = cm_parentId c \<and> cm_createdAt d = cm_createdAt c \<and> cm_idempotencyKey d = cm_idempotencyKey c \<and>
     (cm_isDeleted c \<longrightarrow> cm_isDeleted d)"

section \<open>Lemmas\<close>

interpretation comment_index: sole_unique_index cm_idempotencyKey comment_insert
  by unfold_locales (auto simp: comment_insert_def split: if_splits)

lemma stays_refl [simp]: "stays c c"
  by (simp add: stays_def)

lemma stays_edited [simp]: "stays c (edited content now c)"
  by (simp add: stays_def edited_def)

lemma stays_erased [simp]: "stays c (erased c)"
  by (simp add: stays_def erased_def)

lemma nested_once_map:
  assumes "\<And>c. cm_id (f c) = cm_id c" "\<And>c. cm_parentId (f c) = cm_parentId c" "nested_once t"
  shows "nested_once (map f t)"
  using assms(3) unfolding nested_once_def by (fastforce simp: assms(1,2))

lemma comment_inv_update [inv_intros]:
  assumes "comment_inv st" "\<And>c. stays c (f c)"
  shows "comment_inv (st\<lparr>cst_comments := update_where P f (cst_comments st)\<rparr>)"
proof -
  let ?g = "\<lambda>c. if P c then f c else c"
  have f: "cm_parentId (f c) = cm_parentId c" for c using assms(2)[of c] by (simp add: stays_def)
  have g: "cm_id (?g c) = cm_id c" "cm_parentId (?g c) = cm_parentId c" "cm_idempotencyKey (?g c) = cm_idempotencyKey c" for c
    using assms(2)[of c] by (simp_all add: stays_def)
  have eq: "update_where P f (cst_comments st) = map ?g (cst_comments st)" by (simp add: update_where_def)
  have ids: "map cm_id (update_where P f (cst_comments st)) = map cm_id (cst_comments st)"
    and keys: "map cm_idempotencyKey (update_where P f (cst_comments st)) = map cm_idempotencyKey (cst_comments st)"
    using assms(2) by (auto simp: stays_def intro!: map_update_where)
  have "nested_once (update_where P f (cst_comments st))"
    unfolding eq using g assms(1) by (intro nested_once_map) (auto simp: comment_inv_def)
  moreover have "\<forall>c \<in> set (update_where P f (cst_comments st)). cm_parentId c \<noteq> Some 0"
    using assms(1) by (auto simp: comment_inv_def f set_update_where)
  ultimately show ?thesis
    using assms(1) uniq_on_cong[OF keys] ids unfolding comment_inv_def by simp
qed

lemma create_write_cases:
  assumes "create_write content anonId confession contextId parentId key fresh now st = (res, st')"
  obtains (failed) e where "res = Inl e" "st' = st"
  | (created) c ob where "c = new_comment (kf_comment fresh) content anonId (ck_id confession) contextId parentId key now"
      "res = Inr c" "comment_insert c (cst_comments st) = Some (cst_comments st @ [c])"
      "outbox_insert_all (comment_events (kf_outbox fresh) c key (comment_recipient (ck_anonymousUserId confession) st) now) (cst_outbox st) = Some ob"
      "st' = st\<lparr>cst_comments := cst_comments st @ [c],
                cst_moderation := cst_moderation st @ [new_moderation (kf_moderation fresh) (kf_comment fresh) now], cst_outbox := ob\<rparr>"
  using assms
  by (auto simp: create_write_def Let_def comment_insert_def new_comment_def split: option.splits if_splits)

lemma comment_inv_create [inv_intros]:
  assumes "comment_inv st" "id_given parentId \<longrightarrow> (\<exists>p \<in> set (cst_comments st). Some (cm_id p) = parentId \<and> \<not> id_given (cm_parentId p))"
    and "kf_comment fresh \<notin> cm_id ` set (cst_comments st)" "kf_moderation fresh \<notin> mo_id ` set (cst_moderation st)"
  shows "comment_inv (snd (create_write content anonId confession contextId parentId key fresh now st))"
proof -
  obtain res st' where w: "create_write content anonId confession contextId parentId key fresh now st = (res, st')" by force
  then show ?thesis
  proof (cases rule: create_write_cases)
    case (created c ob)
    have uniq: "uniq_on cm_idempotencyKey (cst_comments st @ [c])"
      using comment_index.ins_keeps_unique[OF _ created(3)] assms(1) by (simp add: comment_inv_def)
    have top: "\<exists>q \<in> set (cst_comments st). cm_id q = p \<and> cm_parentId q = None" if "cm_parentId c = Some p" for p
    proof -
      have p: "id_given parentId" "parentId = Some p"
        using that created(1) by (auto simp: new_comment_def split: if_splits)
      then obtain q where "q \<in> set (cst_comments st)" "cm_id q = p" "\<not> id_given (cm_parentId q)" using assms(2) by auto
      with assms(1) show ?thesis by (auto simp: comment_inv_def id_given_def split: option.splits)
    qed
    have "nested_once (cst_comments st @ [c])"
      using assms(1) top unfolding comment_inv_def nested_once_def by auto
    moreover have "cm_parentId c \<noteq> Some 0" using created(1) by (auto simp: new_comment_def id_given_def split: if_splits)
    ultimately show ?thesis
      using w created uniq assms unfolding comment_inv_def by (auto simp: new_moderation_def new_comment_def)
  qed (use assms(1) w in simp)
qed

lemma comment_inv_moderate [inv_intros]:
  assumes "comment_inv st" "\<exists>x \<in> set (cst_moderation st). mo_id x = mo_id m \<and> mo_commentId x = mo_commentId m"
  shows "comment_inv (st\<lparr>cst_moderation := moderate_write m status moderator now (cst_moderation st)\<rparr>)"
proof -
  let ?m = "m\<lparr>mo_status := status, mo_moderatedAt := Some now, mo_moderatedById := Some moderator\<rparr>"
  obtain x where x: "x \<in> set (cst_moderation st)" "mo_id x = mo_id m" "mo_commentId x = mo_commentId m" using assms(2) by blast
  have d: "distinct (map mo_id (cst_moderation st))" using assms(1) by (simp add: comment_inv_def)
  have "map mo_commentId (save_row mo_id ?m (cst_moderation st)) = map mo_commentId (cst_moderation st)"
    using x by (intro map_save_row[OF d x(1)]) simp_all
  moreover have "distinct (map mo_id (save_row mo_id ?m (cst_moderation st)))" by (rule distinct_save_row[OF d])
  ultimately show ?thesis using assms(1) by (simp add: comment_inv_def moderate_write_def)
qed

lemma comment_step_inv:
  assumes "comment_step st st'" "comment_inv st"
  shows "comment_inv st'"
  using assms
proof cases
  case (edit i anonId checked content now)
  then show ?thesis unfolding edit_write_def using assms(2) by (auto intro: comment_inv_update)
next
  case (delete i anonId)
  then show ?thesis unfolding delete_write_def using assms(2) by (auto intro: comment_inv_update)
next
  case other
  then show ?thesis using assms(2) by (simp add: comment_inv_def)
qed (use assms(2) in \<open>auto intro: comment_inv_create comment_inv_moderate\<close>)

lemma comment_reachable_inv: "comment_reachable st \<Longrightarrow> comment_inv st"
proof (induction rule: comment_reachable.induct)
  case (init st)
  then show ?case by (simp add: comment_inv_def nested_once_def)
qed (rule comment_step_inv)

lemma update_where_stays:
  assumes "\<And>c. stays c (f c)" "c \<in> set t"
  shows "\<exists>d \<in> set (update_where P f t). stays c d"
proof -
  have "stays c (if P c then f c else c)" using assms(1)[of c] by simp
  then show ?thesis using update_where_memI[OF assms(2), of P f] by blast
qed

lemma comment_step_stays:
  assumes "comment_step st st'" "c \<in> set (cst_comments st)"
  shows "\<exists>d \<in> set (cst_comments st'). stays c d"
  using assms(1)
proof cases
  case (create parentId fresh content anonId confession contextId key now)
  obtain res st2 where w: "create_write content anonId confession contextId parentId key fresh now st = (res, st2)" by force
  then have "set (cst_comments st) \<subseteq> set (cst_comments st2)" by (cases rule: create_write_cases) auto
  with create w assms(2) stays_refl show ?thesis by fastforce
next
  case (edit i anonId checked content now)
  then show ?thesis
    using update_where_stays[of "edited content now", OF stays_edited assms(2)] by (simp add: edit_write_def)
next
  case (delete i anonId)
  then show ?thesis using update_where_stays[of erased, OF stays_erased assms(2)] by (simp add: delete_write_def)
qed (use assms(2) stays_refl in \<open>simp, blast\<close>)+

lemma live_commentD:
  "live_comment i t = Some c \<Longrightarrow> c \<in> set t \<and> cm_id c = i \<and> \<not> cm_isDeleted c"
  by (auto simp: live_comment_def dest: find_one_SomeD)

lemma checks_owner:
  assumes "distinct (map cm_id t)" "c \<in> set t"
  shows "edit_check (cm_id c) a now t = Inr () \<Longrightarrow> cm_anonymousUserId c = a \<and> \<not> cm_isDeleted c \<and> now - cm_createdAt c \<le> EDIT_WINDOW_MS"
    and "delete_check (cm_id c) a t = Inr () \<Longrightarrow> cm_anonymousUserId c = a \<and> \<not> cm_isDeleted c"
proof -
  have "x = c" if "live_comment (cm_id c) t = Some x" for x
    using live_commentD[OF that] distinct_keys_eq[OF assms(1), of x c] assms(2) by simp
  then show "edit_check (cm_id c) a now t = Inr () \<Longrightarrow> cm_anonymousUserId c = a \<and> \<not> cm_isDeleted c \<and> now - cm_createdAt c \<le> EDIT_WINDOW_MS"
    and "delete_check (cm_id c) a t = Inr () \<Longrightarrow> cm_anonymousUserId c = a \<and> \<not> cm_isDeleted c"
    by (auto simp: edit_check_def delete_check_def split: option.splits if_splits dest: live_commentD)
qed

lemma changed_by_update: "c \<in> set t \<Longrightarrow> c \<notin> set (update_where P f t) \<Longrightarrow> P c"
  by (metis update_where_missI)

lemma outbox_insert_all_appends: "outbox_insert_all es t = Some u \<Longrightarrow> u = t @ es"
  by (induction es arbitrary: t) (fastforce simp: bind_eq_Some_conv outbox_insert_def split: if_splits)+

lemma mention_scan_words: "u \<in> set (mention_scan s) \<Longrightarrow> u \<noteq> [] \<and> length u \<le> 50 \<and> list_all word_char u"
proof (induction s rule: mention_scan.induct)
  case (2 c s)
  have head: "takeWhile word_char s \<noteq> []" if "s \<noteq> []" "word_char (hd s)" using that by (cases s) auto
  have all: "list_all word_char (take 50 (takeWhile word_char s))"
    by (auto simp: list_all_iff dest: in_set_takeD set_takeWhileD)
  show ?case
  proof (cases "c = CHR ''@'' \<and> s \<noteq> [] \<and> word_char (hd s)")
    case True
    with 2 head all show ?thesis by auto
  qed (use 2 in auto)
qed simp

lemma mention_fold:
  "distinct ms \<Longrightarrow> distinct (foldl (\<lambda>ms u. if u \<in> set ms then ms else ms @ [u]) ms us) \<and>
     set (foldl (\<lambda>ms u. if u \<in> set ms then ms else ms @ [u]) ms us) = set ms \<union> set us"
  by (induction us arbitrary: ms) auto

text \<open>Mentions are the distinct words of at most fifty characters that the pattern finds.\<close>

lemma parseMentions_words:
  "distinct (parseMentions s)" "set (parseMentions s) = set (mention_scan s)"
  "u \<in> set (parseMentions s) \<Longrightarrow> u \<noteq> [] \<and> length u \<le> 50 \<and> list_all word_char u"
  using mention_fold[of "[]" "mention_scan s"] mention_scan_words[of u s] by (simp_all add: parseMentions_def)

section \<open>Properties\<close>


definition empty_comments :: comment_state where
  "empty_comments = \<lparr>cst_confessions = [\<lparr>ck_id = ''c1'', ck_isDeleted = False, ck_anonymousUserId = Some ''a1''\<rparr>],
     cst_links = [new_link ''l1'' 1 ''a1'' 0], cst_users = [\<lparr>du_id = 1, du_email = ''a@x'', du_privacySettings = None\<rparr>],
     cst_comments = [], cst_moderation = [], cst_outbox = []\<rparr>"

definition sample_fresh :: comment_fresh where
  "sample_fresh = \<lparr>kf_comment = 1, kf_moderation = 1, kf_outbox = (\<lambda>i. ''o'' @ nat_str i)\<rparr>"

definition one_comment :: comment_state where
  "one_comment = snd (create_write ''hi @bob'' ''a2'' \<lparr>ck_id = ''c1'', ck_isDeleted = False, ck_anonymousUserId = Some ''a1''\<rparr>
     ''ctx'' None (Some ''k'') sample_fresh 0 empty_comments)"

lemma one_comment_reachable: "comment_reachable one_comment"
  unfolding one_comment_def
  by (rule comment_reachable.step[OF comment_reachable.init comment_step.create]) (simp_all add: empty_comments_def id_given_def)

lemma one_comment_eq:
  "cst_comments one_comment = [new_comment 1 ''hi @bob'' ''a2'' ''c1'' ''ctx'' None (Some ''k'') 0]"
  "cst_moderation one_comment = [new_moderation 1 1 0]"
  by code_simp+


text \<open>
  Comments change at the hand of their authors.  If an edit or a deletion changes a comment, the
  requester wrote it, it was not deleted, and for an edit it was at most five minutes old; a request that is
  refused changes nothing.
\<close>

theorem comment_changes_by_owner:
  assumes "distinct (map cm_id (cst_comments st))" "c \<in> set (cst_comments st)"
  shows "(c \<notin> set (cst_comments (snd (comment_edit i content a now st))) \<longrightarrow>
      cm_id c = i \<and> cm_anonymousUserId c = a \<and> \<not> cm_isDeleted c \<and> now - cm_createdAt c \<le> EDIT_WINDOW_MS) \<and>
    (c \<notin> set (cst_comments (snd (comment_delete i a st))) \<longrightarrow> cm_id c = i \<and> cm_anonymousUserId c = a \<and> \<not> cm_isDeleted c) \<and>
    (\<not> is_ok (fst (comment_edit i content a now st)) \<longrightarrow> snd (comment_edit i content a now st) = st) \<and>
    (\<not> is_ok (fst (comment_delete i a st)) \<longrightarrow> snd (comment_delete i a st) = st)"
proof (intro conjI impI)
  assume gone: "c \<notin> set (cst_comments (snd (comment_edit i content a now st)))"
  then have ok: "edit_check i a now (cst_comments st) = Inr ()"
    using assms(2) by (auto simp: comment_edit_def split: sum.splits)
  with gone have i: "cm_id c = i"
    using changed_by_update[OF assms(2), of "\<lambda>c. cm_id c = i"] by (simp add: comment_edit_def Let_def edit_write_def)
  from checks_owner(1)[OF assms] ok i show "cm_id c = i" "cm_anonymousUserId c = a" "\<not> cm_isDeleted c" "now - cm_createdAt c \<le> EDIT_WINDOW_MS"
    by blast+
next
  assume gone: "c \<notin> set (cst_comments (snd (comment_delete i a st)))"
  then have ok: "delete_check i a (cst_comments st) = Inr ()"
    using assms(2) by (auto simp: comment_delete_def split: sum.splits)
  with gone have i: "cm_id c = i"
    using changed_by_update[OF assms(2), of "\<lambda>c. cm_id c = i"] by (simp add: comment_delete_def delete_write_def)
  from checks_owner(2)[OF assms] ok i show "cm_id c = i" "cm_anonymousUserId c = a" "\<not> cm_isDeleted c" by blast+
qed (auto simp: comment_edit_def comment_delete_def Let_def split: sum.splits)

theorem comment_changes_by_owner_witness:
  "snd (comment_edit 1 ''x'' ''a3'' 10 one_comment) = one_comment \<and> snd (comment_edit 1 ''x'' ''a2'' 300001 one_comment) = one_comment \<and>
   cst_comments (snd (comment_edit 1 ''x'' ''a2'' 300000 one_comment)) \<noteq> cst_comments one_comment"
proof -
  let ?c = "new_comment 1 ''hi @bob'' ''a2'' ''c1'' ''ctx'' None (Some ''k'') 0"
  have d: "distinct (map cm_id (cst_comments one_comment))" "?c \<in> set (cst_comments one_comment)" by (simp_all add: one_comment_eq)
  have "\<not> is_ok (fst (comment_edit 1 ''x'' ''a3'' 10 one_comment))" "\<not> is_ok (fst (comment_edit 1 ''x'' ''a2'' 300001 one_comment))"
    by code_simp+
  with comment_changes_by_owner[OF d, of 1 "''x''" "''a3''" 10] comment_changes_by_owner[OF d, of 1 "''x''" "''a2''" 300001]
  have "snd (comment_edit 1 ''x'' ''a3'' 10 one_comment) = one_comment" "snd (comment_edit 1 ''x'' ''a2'' 300001 one_comment) = one_comment"
    by blast+
  moreover have "map cm_content (cst_comments (snd (comment_edit 1 ''x'' ''a2'' 300000 one_comment))) = [''x'']" by code_simp
  then have "cst_comments (snd (comment_edit 1 ''x'' ''a2'' 300000 one_comment)) \<noteq> cst_comments one_comment"
    by (auto simp: one_comment_eq new_comment_def)
  ultimately show ?thesis by blast
qed

text \<open>
  Creation is all or nothing: a request either fails and changes nothing, or replays the
  comment of its key and changes nothing, or adds the comment, one pending moderation entry, and
  exactly the notifications of the owner and of the mentioned users.
\<close>

theorem comment_create_atomic:
  assumes "comment_create content a confessionId ctx parentId key fresh now st = (res, st')"
  shows "(\<exists>e. res = Inl e \<and> st' = st) \<or>
    (\<exists>c \<in> set (cst_comments st). res = Inr c \<and> cm_idempotencyKey c = key \<and> truthy key \<and> st' = st) \<or>
    (\<exists>c conf. res = Inr c \<and> cm_content c = content \<and> cm_anonymousUserId c = a \<and>
      conf \<in> set (cst_confessions st) \<and> ck_id conf = confessionId \<and> \<not> ck_isDeleted conf \<and>
      cst_comments st' = cst_comments st @ [c] \<and>
      cst_moderation st' = cst_moderation st @ [new_moderation (kf_moderation fresh) (cm_id c) now] \<and>
      cst_outbox st' = cst_outbox st @ comment_events (kf_outbox fresh) c key (comment_recipient (ck_anonymousUserId conf) st) now)"
proof (cases "create_check confessionId parentId key st")
  case (Inl e)
  with assms show ?thesis by (auto simp: comment_create_def)
next
  case (Inr r)
  show ?thesis
  proof (cases r)
    case (Inl c)
    with Inr have "truthy key" "find_one (\<lambda>c. cm_idempotencyKey c = key) (cst_comments st) = Some c"
      by (auto simp: create_check_def Let_def split: option.splits if_splits)
    with assms Inl Inr show ?thesis by (auto simp: comment_create_def dest: find_one_SomeD)
  next
    case conf: (Inr conf)
    with Inr have "find_one (\<lambda>c. ck_id c = confessionId \<and> \<not> ck_isDeleted c) (cst_confessions st) = Some conf"
      by (auto simp: create_check_def Let_def split: option.splits if_splits)
    then have c: "conf \<in> set (cst_confessions st)" "ck_id conf = confessionId" "\<not> ck_isDeleted conf"
      by (auto dest: find_one_SomeD)
    have "create_write content a conf ctx parentId key fresh now st = (res, st')"
      using assms Inr conf by (simp add: comment_create_def)
    then show ?thesis
    proof (cases rule: create_write_cases)
      case (created d ob)
      with outbox_insert_all_appends[OF created(4)] c show ?thesis by (auto simp: new_comment_def)
    qed auto
  qed
qed

section \<open>What the code allows\<close>

text \<open>
  The dispatcher knows no \<open>mention_notification\<close>: it marks the event completed without handing it
  to the notification service, so nobody is told of a mention.
\<close>

theorem mentions_never_delivered:
  "oe_status (dispatch_outcome enq now t (mention_event i c key u created)) = OCompleted"
  "dispatch_outcome enq now t (mention_event i c key u created) = dispatch_outcome enq' now t (mention_event i c key u created)"
  by (simp_all add: dispatch_outcome_def mention_event_def outbox_create_def known_types_def)

text \<open>
  The key of a comment belongs to nobody in particular: whoever sends a key that is in use, on whatever
  confession, is answered with the comment stored under it.
\<close>

theorem comment_key_crosses_users:
  assumes "find_one (\<lambda>c. ck_id c = other \<and> \<not> ck_isDeleted c) (cst_confessions st) = Some conf"
    and "find_one (\<lambda>c. cm_idempotencyKey c = Some k) (cst_comments st) = Some c" "k \<noteq> []"
  shows "comment_create content a other ctx None (Some k) fresh now st = (Inr c, st)"
  using assms by (simp add: comment_create_def create_check_def id_given_def)

text \<open>The parent of a reply may belong to another confession, and may be deleted.\<close>

theorem parent_of_other_confession:
  assumes "find_one (\<lambda>c. ck_id c = other \<and> \<not> ck_isDeleted c) (cst_confessions st) = Some conf"
    and "find_one (\<lambda>c. cm_id c = p) (cst_comments st) = Some parent" "cm_parentId parent = None" "p \<noteq> 0"
  shows "create_check other (Some p) None st = Inr (Inr conf)"
  using assms by (simp add: create_check_def id_given_def)

text \<open>
  An edit that was checked before a deletion and written after it puts its text into the deleted
  comment; and an edit leaves the moderation entry as it is, so an approved comment stays approved whatever it says now.
\<close>

theorem late_edit_revives_text:
  assumes "c \<in> set t" "cm_id c = i"
  shows "\<exists>d \<in> set (edit_write i content now (delete_write i t)). cm_id d = i \<and> cm_isDeleted d \<and> cm_content d = content"
proof -
  have "erased c \<in> set (delete_write i t)" using assms by (auto simp: delete_write_def intro: update_where_hitI)
  then have "edited content now (erased c) \<in> set (edit_write i content now (delete_write i t))"
    using assms by (auto simp: edit_write_def erased_def intro!: update_where_hitI)
  then show ?thesis using assms by (auto simp: edited_def erased_def intro!: bexI[of _ "edited content now (erased c)"])
qed

theorem edit_keeps_moderation: "cst_moderation (snd (comment_edit i content a now st)) = cst_moderation st"
  by (simp add: comment_edit_def Let_def split: sum.split)

text \<open>
  One after the other, a comment is moderated once.  Two moderators that both read the pending entry
  both succeed, and the later decision replaces the earlier.
\<close>

theorem moderated_once:
  assumes "moderateComment i status u now st = (Inr (), st')" "status \<noteq> MPending"
    and "distinct (map mo_id (cst_moderation st))" "distinct (map mo_commentId (cst_moderation st))"
  shows "fst (moderateComment i status' u' now' st') = Inl (BadRequestException ''Comment has already been moderated'')"
proof -
  from assms(1) obtain m where m: "find_one (\<lambda>m. mo_commentId m = i) (cst_moderation st) = Some m"
    and st': "st' = st\<lparr>cst_moderation := moderate_write m status u now (cst_moderation st)\<rparr>"
    by (auto simp: moderateComment_def moderate_check_def split: option.splits if_splits)
  have mem: "m \<in> set (cst_moderation st)" "mo_commentId m = i" using find_one_SomeD[OF m] by auto
  let ?m = "m\<lparr>mo_status := status, mo_moderatedAt := Some now, mo_moderatedById := Some u\<rparr>"
  have "map mo_commentId (save_row mo_id ?m (cst_moderation st)) = map mo_commentId (cst_moderation st)"
    using mem by (intro map_save_row[OF assms(3) mem(1)]) simp_all
  then have "distinct (map mo_commentId (save_row mo_id ?m (cst_moderation st)))" using assms(4) by simp
  from find_one_by_key[OF this save_row_mem] mem
  have "find_one (\<lambda>x. mo_commentId x = i) (cst_moderation st') = Some ?m" by (simp add: st' moderate_write_def)
  with assms(2) show ?thesis by (simp add: moderateComment_def moderate_check_def)
qed

theorem moderation_race:
  assumes "moderate_check i t = Inr m" "t' = moderate_write m s u now t"
  shows "m\<lparr>mo_status := s', mo_moderatedAt := Some now', mo_moderatedById := Some u'\<rparr> \<in> set (moderate_write m s' u' now' t')"
  by (simp add: moderate_write_def)

text \<open>Templates: a deactivated one is not handed out, an update of an unknown one fails.\<close>

theorem template_content_active:
  "getTemplateContent i t = Some x \<Longrightarrow> \<exists>r \<in> set t. nt_id r = i \<and> nt_isActive r \<and> nt_content r = x"
  "distinct (map nt_id t) \<Longrightarrow> template_update i \<lparr>tp_name = None, tp_content = None, tp_category = None, tp_isActive = Some False\<rparr> t = (Inr r, t') \<Longrightarrow>
     getTemplateContent i t' = None"
proof -
  show "getTemplateContent i t = Some x \<Longrightarrow> \<exists>r \<in> set t. nt_id r = i \<and> nt_isActive r \<and> nt_content r = x"
    by (auto simp: getTemplateContent_def dest: find_one_SomeD)
  assume d: "distinct (map nt_id t)"
    and u: "template_update i \<lparr>tp_name = None, tp_content = None, tp_category = None, tp_isActive = Some False\<rparr> t = (Inr r, t')"
  then have t': "t' = save_row nt_id r t" and r: "\<not> nt_isActive r" "nt_id r = i"
    by (auto simp: template_update_def template_findById_def template_patched_def dest: find_one_SomeD split: option.splits)
  have "\<not> nt_isActive x" if "x \<in> set t'" "nt_id x = i" for x
    using that r unfolding t' by (auto elim: in_save_rowE)
  then show "getTemplateContent i t' = None" by (auto simp: getTemplateContent_def find_one_None_iff)
qed

end
