(* ===== verification/Moderation.thy ===== *)
theory Moderation
  imports Confession_Model
begin

text \<open>
  Moderation of confessions: the automatic classification (\<^verbatim>\<open>moderation/ai-moderation.service.ts\<close>), the
  state machine of manual decisions (\<^verbatim>\<open>moderation/moderation-state-machine.ts\<close>), the log
  (\<^verbatim>\<open>moderation/moderation-repository.service.ts\<close>) and the webhook by which an external provider
  delivers results (\<^verbatim>\<open>moderation/moderation-webhook.controller.ts\<close>).

  Scores are exact rationals.  The answers of the two classification services are arguments, \<open>None\<close> for
  a failed call.  In the webhook SHA-256, HMAC and the reading of a number (\<open>Number(text)\<close>, \<open>None\<close> for
  \<open>NaN\<close>) are arguments.
  Shown: a confession changes only through a delivery with a fresh and genuine signature, a delivery
  that took effect cannot take effect again for as long as its signature is fresh, statuses move along
  the edges of the state machine, and what the log counts as errors of the classifier.
\<close>

section \<open>Automatic classification\<close>

record moderation_result =
  mr_score :: rat
  mr_flags :: "string list"
  mr_status :: moderation_status
  mr_details :: "(string \<times> rat) list"
  mr_requiresReview :: bool

record ai_config =
  ai_openAiApiKey :: string
  ai_perspectiveApiKey :: string
  ai_highThreshold :: rat
  ai_mediumThreshold :: rat
  ai_enabledCategories :: "string list"
  ai_autoActionEnabled :: bool

definition default_ai_config :: ai_config where
  "default_ai_config =
     \<lparr>ai_openAiApiKey = [], ai_perspectiveApiKey = [], ai_highThreshold = 8 / 10, ai_mediumThreshold = 5 / 10,
      ai_enabledCategories = [''hate_speech'', ''harassment'', ''self_harm'', ''violence'', ''sexual'', ''spam''],
      ai_autoActionEnabled = True\<rparr>"

text \<open>A category that is switched off is neither flagged nor detailed.\<close>

definition category :: "ai_config \<Rightarrow> string \<Rightarrow> bool \<Rightarrow> rat option \<Rightarrow> (string \<times> rat option) list" where
  "category cfg name hit score = (if hit \<and> name \<in> set (ai_enabledCategories cfg) then [(name, score)] else [])"

definition classified :: "rat \<Rightarrow> (string \<times> rat option) list \<Rightarrow> moderation_result" where
  "classified score cs =
     \<lparr>mr_score = score, mr_flags = map fst cs, mr_status = MPending,
      mr_details = List.map_filter (\<lambda>(k, v). map_option (Pair k) v) cs, mr_requiresReview = False\<rparr>"

fun max_score :: "rat list \<Rightarrow> rat" where
  "max_score [] = 0"
| "max_score (x # xs) = foldl max x xs"

record openai_answer =
  oa_categories :: "string list"
  oa_scores :: "(string \<times> rat) list"

definition moderateWithOpenAI :: "ai_config \<Rightarrow> openai_answer option \<Rightarrow> moderation_result option" where
  "moderateWithOpenAI cfg response =
     (if ai_openAiApiKey cfg = [] then None
      else case response of
        None \<Rightarrow> None
      | Some r \<Rightarrow>
          (let c = (\<lambda>name key. category cfg name (key \<in> set (oa_categories r)) (map_of (oa_scores r) key))
           in Some (classified (max_score (map snd (oa_scores r)))
                (c ''hate_speech'' ''hate'' @ c ''harassment'' ''harassment'' @ c ''self_harm'' ''self-harm'' @
                 c ''violence'' ''violence'' @ c ''sexual'' ''sexual''))))"

definition moderateWithPerspective :: "ai_config \<Rightarrow> (string \<times> rat) list option \<Rightarrow> moderation_result option" where
  "moderateWithPerspective cfg response =
     (if ai_perspectiveApiKey cfg = [] then None
      else case response of
        None \<Rightarrow> None
      | Some attributes \<Rightarrow>
          (let a = (\<lambda>k. nullish (map_of attributes k) 0);
               toxicity = a ''TOXICITY''; severeToxicity = a ''SEVERE_TOXICITY'';
               identityAttack = a ''IDENTITY_ATTACK''; insult = a ''INSULT''; threat = a ''THREAT''
           in Some (classified (max_score [toxicity, severeToxicity, identityAttack, insult, threat])
                (category cfg ''hate_speech'' (identityAttack > 5 / 10) (Some identityAttack) @
                 category cfg ''harassment'' (insult > 5 / 10 \<or> toxicity > 7 / 10) (Some (max insult toxicity)) @
                 category cfg ''violence'' (threat > 5 / 10) (Some threat)))))"

subsection \<open>Rules\<close>

definition countPatterns :: "string \<Rightarrow> string list \<Rightarrow> nat" where
  "countPatterns content patterns = length (filter (js_includes content) patterns)"

definition hatePatterns :: "string list" where
  "hatePatterns = [''hate'', ''racist'', ''bigot'', ''nazi'', ''slur'']"

definition selfHarmPatterns :: "string list" where
  "selfHarmPatterns = [''kill myself'', ''suicide'', ''end my life'', ''self harm'']"

definition violencePatterns :: "string list" where
  "violencePatterns = [''kill'', ''murder'', ''assault'', ''attack'', ''bomb'']"

text \<open>\<open>/(.)\1{4,}/\<close>: five equal characters in a row, other than line ends.\<close>

fun five_equal :: "string \<Rightarrow> bool" where
  "five_equal [] = False"
| "five_equal (c # s) = (((of_char c :: nat) \<notin> {10, 13} \<and> take 4 s = replicate 4 c) \<or> five_equal s)"

definition spamIndicators :: "string \<Rightarrow> bool list" where
  "spamIndicators content =
     [js_includes content ''http://'' \<or> js_includes content ''https://'', length content > 1000, five_equal content,
      list_ex (\<lambda>word. length word > 30) (js_split (CHR '' '') content)]"

definition rule_scores :: "string \<Rightarrow> (string \<times> rat) list" where
  "rule_scores content =
     (let lowerContent = lower_case content in
      [(''hate_speech'', of_nat (countPatterns lowerContent hatePatterns) * (3 / 10)),
       (''self_harm'', of_nat (countPatterns lowerContent selfHarmPatterns) * (4 / 10)),
       (''violence'', of_nat (countPatterns lowerContent violencePatterns) * (1 / 4)),
       (''spam'', of_nat (length (filter id (spamIndicators content))) * (2 / 10))])"

definition fallbackModeration :: "ai_config \<Rightarrow> string \<Rightarrow> moderation_result" where
  "fallbackModeration cfg content =
     (let hits = filter (\<lambda>(k, s). s > 0 \<and> k \<in> set (ai_enabledCategories cfg)) (rule_scores content)
      in \<lparr>mr_score = min (foldl max 0 (map snd hits)) 1, mr_flags = map fst hits, mr_status = MPending,
          mr_details = map (map_prod id (\<lambda>s. min s 1)) hits, mr_requiresReview = False\<rparr>)"

definition determineStatus :: "ai_config \<Rightarrow> rat \<Rightarrow> moderation_status" where
  "determineStatus cfg score =
     (if \<not> ai_autoActionEnabled cfg then MPending
      else if score \<ge> ai_highThreshold cfg then MRejected
      else if score \<ge> ai_mediumThreshold cfg then MFlagged else MApproved)"

subsection \<open>The request\<close>

text \<open>
  \<open>requests\<close> are the times of the requests counted so far; each leaves the count after a minute.  The
  two services catch their own errors, so the outer \<open>catch\<close> is never reached.
\<close>

definition maxRequestsPerMinute :: nat where "maxRequestsPerMinute = 50"

definition requestCount :: "ms \<Rightarrow> ms list \<Rightarrow> nat" where
  "requestCount now requests = length (filter (\<lambda>t. now < t + 60000) requests)"

definition moderateContent ::
  "ai_config \<Rightarrow> openai_answer option \<Rightarrow> (string \<times> rat) list option \<Rightarrow> string \<Rightarrow> ms \<Rightarrow> ms list \<Rightarrow> moderation_result \<times> ms list" where
  "moderateContent cfg openai perspective content now requests =
     (if requestCount now requests \<ge> maxRequestsPerMinute then (fallbackModeration cfg content, requests)
      else (let result = (case moderateWithOpenAI cfg openai of
                            Some r \<Rightarrow> r
                          | None \<Rightarrow> (case moderateWithPerspective cfg perspective of
                                       Some r \<Rightarrow> r
                                     | None \<Rightarrow> fallbackModeration cfg content))
            in (result\<lparr>mr_status := determineStatus cfg (mr_score result),
                       mr_requiresReview := mr_score result \<ge> ai_mediumThreshold cfg\<rparr>, requests @ [now])))"

section \<open>The state machine\<close>

fun ALLOWED_TRANSITIONS :: "moderation_status \<Rightarrow> moderation_status list" where
  "ALLOWED_TRANSITIONS MPending = [MApproved, MFlagged, MRejected]"
| "ALLOWED_TRANSITIONS MApproved = [MFlagged]"
| "ALLOWED_TRANSITIONS MFlagged = [MEscalated, MResolved, MHidden, MRejected]"
| "ALLOWED_TRANSITIONS MEscalated = [MResolved, MHidden, MRejected]"
| "ALLOWED_TRANSITIONS MResolved = [MFlagged]"
| "ALLOWED_TRANSITIONS MHidden = [MResolved]"
| "ALLOWED_TRANSITIONS MRejected = [MPending]"

fun status_text :: "moderation_status \<Rightarrow> string" where
  "status_text MPending = ''pending''"
| "status_text MApproved = ''approved''"
| "status_text MRejected = ''rejected''"
| "status_text MFlagged = ''flagged''"
| "status_text MEscalated = ''escalated''"
| "status_text MResolved = ''resolved''"
| "status_text MHidden = ''hidden''"

definition all_statuses :: "moderation_status list" where
  "all_statuses = [MPending, MApproved, MRejected, MFlagged, MEscalated, MResolved, MHidden]"

definition status_of_text :: "string \<Rightarrow> moderation_status option" where
  "status_of_text s = find_one (\<lambda>m. status_text m = s) all_statuses"

definition assertValidTransition :: "moderation_status \<Rightarrow> moderation_status \<Rightarrow> unit outcome" where
  "assertValidTransition from to =
     (if from = to \<or> to \<notin> set (ALLOWED_TRANSITIONS from)
      then Inl (PlainError (''Invalid moderation transition: '' @ status_text from @ '' -> '' @ status_text to))
      else Inr ())"

definition getAllowedNextStates :: "moderation_status \<Rightarrow> moderation_status list" where
  "getAllowedNextStates from = ALLOWED_TRANSITIONS from"

section \<open>The log\<close>

record webhook_meta =
  wm_deliveryHash :: string
  wm_timestamp :: "string option"
  wm_processedAt :: ms
  wm_signatureValid :: bool
  wm_payloadMalformed :: bool
  wm_stale :: bool

record moderation_log =
  ml_id :: ident
  ml_confessionId :: "ident option"
  ml_userId :: "string option"
  ml_content :: string
  ml_moderationScore :: rat
  ml_moderationFlags :: "string list"
  ml_moderationStatus :: moderation_status
  ml_details :: "(string \<times> rat) list"
  ml_requiresReview :: bool
  ml_reviewed :: bool
  ml_reviewedBy :: "string option"
  ml_reviewedAt :: "ms option"
  ml_reviewNotes :: "string option"
  ml_autoActioned :: bool
  ml_apiProvider :: string
  ml_webhook :: "webhook_meta option"
  ml_createdAt :: ms

definition with_result :: "moderation_result \<Rightarrow> moderation_log \<Rightarrow> moderation_log" where
  "with_result r l =
     l\<lparr>ml_moderationScore := mr_score r, ml_moderationFlags := mr_flags r, ml_moderationStatus := mr_status r,
       ml_details := mr_details r, ml_requiresReview := mr_requiresReview r,
       ml_autoActioned := (mr_status r \<noteq> MPending)\<rparr>"

definition empty_log :: "ident \<Rightarrow> ident option \<Rightarrow> string option \<Rightarrow> string \<Rightarrow> ms \<Rightarrow> moderation_log" where
  "empty_log newId confessionId userId content now =
     \<lparr>ml_id = newId, ml_confessionId = confessionId, ml_userId = userId, ml_content = take 5000 content,
      ml_moderationScore = 0, ml_moderationFlags = [], ml_moderationStatus = MPending, ml_details = [],
      ml_requiresReview = False, ml_reviewed = False, ml_reviewedBy = None, ml_reviewedAt = None, ml_reviewNotes = None,
      ml_autoActioned = False, ml_apiProvider = [], ml_webhook = None, ml_createdAt = now\<rparr>"

definition createLog ::
  "ident \<Rightarrow> string \<Rightarrow> moderation_result \<Rightarrow> ident option \<Rightarrow> string option \<Rightarrow> string option \<Rightarrow> ms \<Rightarrow> moderation_log list \<Rightarrow>
     moderation_log \<times> moderation_log list" where
  "createLog newId content result confessionId userId apiProvider now t =
     (let log = (with_result result (empty_log newId confessionId userId content now))\<lparr>ml_apiProvider := js_or apiProvider ''fallback''\<rparr>
      in (log, t @ [log]))"

definition getLogsByConfession :: "ident \<Rightarrow> moderation_log list \<Rightarrow> moderation_log list" where
  "getLogsByConfession confessionId t = order_desc ml_createdAt (filter (\<lambda>l. ml_confessionId l = Some confessionId) t)"

definition getLogsByUser :: "string \<Rightarrow> nat \<Rightarrow> moderation_log list \<Rightarrow> moderation_log list" where
  "getLogsByUser userId limit t = take limit (order_desc ml_createdAt (filter (\<lambda>l. ml_userId l = Some userId) t))"

definition getPendingReviews :: "nat \<Rightarrow> nat \<Rightarrow> moderation_log list \<Rightarrow> moderation_log list" where
  "getPendingReviews limit offset t =
     skip_take offset limit (order_desc ml_createdAt
       (filter (\<lambda>l. (ml_requiresReview l \<and> \<not> ml_reviewed l) \<or> (ml_moderationStatus l = MFlagged \<and> \<not> ml_reviewed l)) t))"

definition latest_log :: "ident \<Rightarrow> moderation_log list \<Rightarrow> moderation_log option" where
  "latest_log confessionId t = (case getLogsByConfession confessionId t of [] \<Rightarrow> None | l # _ \<Rightarrow> Some l)"

definition syncWebhookResult ::
  "ident \<Rightarrow> ident \<Rightarrow> string \<Rightarrow> moderation_result \<Rightarrow> webhook_meta \<Rightarrow> ms \<Rightarrow> moderation_log list \<Rightarrow>
     (moderation_log \<times> bool) \<times> moderation_log list" where
  "syncWebhookResult newId confessionId content result meta now t =
     (let existing = latest_log confessionId t in
      case existing of
        Some l \<Rightarrow>
          if map_option wm_deliveryHash (ml_webhook l) = Some (wm_deliveryHash meta) then ((l, True), t)
          else (let log = (with_result result l)\<lparr>ml_userId := Some [], ml_content := take 5000 content,
                             ml_apiProvider := ''webhook'', ml_webhook := Some meta\<rparr>
                in ((log, False), save_row ml_id log t))
      | None \<Rightarrow>
          (let log = (with_result result (empty_log newId (Some confessionId) None content now))
                       \<lparr>ml_userId := Some [], ml_apiProvider := ''webhook'', ml_webhook := Some meta\<rparr>
           in ((log, False), t @ [log])))"

definition reviewed_by :: "string \<Rightarrow> moderation_status \<Rightarrow> string option \<Rightarrow> ms \<Rightarrow> moderation_log \<Rightarrow> moderation_log" where
  "reviewed_by reviewer status notes now l =
     l\<lparr>ml_reviewed := True, ml_reviewedBy := Some reviewer, ml_reviewedAt := Some now, ml_moderationStatus := status,
       ml_reviewNotes := (if truthy notes then notes else ml_reviewNotes l)\<rparr>"

definition updateReview ::
  "ident \<Rightarrow> moderation_status \<Rightarrow> string \<Rightarrow> string option \<Rightarrow> ms \<Rightarrow> moderation_log list \<Rightarrow>
     moderation_log outcome \<times> moderation_log list" where
  "updateReview logId status reviewedBy notes now t =
     (case find_one (\<lambda>l. ml_id l = logId) t of
        None \<Rightarrow> (Inl (PlainError ''Moderation log not found''), t)
      | Some l \<Rightarrow> (let log = reviewed_by reviewedBy status notes now l in (Inr log, save_row ml_id log t)))"

text \<open>The row is locked for the transaction; the audit entry swallows its own errors.\<close>

datatype moderation_audit =
    LogModerationStateTransition ident moderation_status moderation_status string string "ident option" "string option"

definition transitionState ::
  "ident \<Rightarrow> moderation_status \<Rightarrow> string \<Rightarrow> string \<Rightarrow> string option \<Rightarrow> ms \<Rightarrow> moderation_log list \<Rightarrow>
     moderation_log outcome \<times> moderation_audit list \<times> moderation_log list" where
  "transitionState logId nextState actorId reason notes now t =
     (case find_one (\<lambda>l. ml_id l = logId) t of
        None \<Rightarrow> (Inl (NotFoundException ''Moderation log not found''), [], t)
      | Some l \<Rightarrow>
          (case assertValidTransition (ml_moderationStatus l) nextState of
             Inl e \<Rightarrow> (Inl e, [], t)
           | Inr _ \<Rightarrow>
               (let log = reviewed_by actorId nextState notes now l
                in (Inr log,
                    [LogModerationStateTransition (ml_id log) (ml_moderationStatus l) nextState actorId reason (ml_confessionId log) notes],
                    save_row ml_id log t))))"

subsection \<open>Accuracy\<close>

record accuracy =
  acc_total :: nat
  acc_truePositives :: nat
  acc_falsePositives :: nat
  acc_trueNegatives :: nat
  acc_falseNegatives :: nat
  acc_accuracy :: rat
  acc_precision :: rat
  acc_recall :: rat
  acc_f1Score :: rat

definition aiPredictedHarmful :: "moderation_log \<Rightarrow> bool" where
  "aiPredictedHarmful l \<longleftrightarrow> ml_moderationStatus l = MRejected \<or> ml_moderationStatus l = MFlagged"

definition humanConfirmedHarmful :: "moderation_log \<Rightarrow> bool" where
  "humanConfirmedHarmful l \<longleftrightarrow> ml_moderationStatus l = MRejected"

definition ratio :: "rat \<Rightarrow> rat \<Rightarrow> rat" where
  "ratio a b = (if b > 0 then a / b else 0)"

definition getAccuracyMetrics :: "moderation_log list \<Rightarrow> accuracy" where
  "getAccuracyMetrics t =
     (let reviewed = filter ml_reviewed t;
          count = (\<lambda>P. length (filter P reviewed));
          tp = count (\<lambda>l. aiPredictedHarmful l \<and> humanConfirmedHarmful l);
          fp = count (\<lambda>l. aiPredictedHarmful l \<and> \<not> humanConfirmedHarmful l);
          tn = count (\<lambda>l. \<not> aiPredictedHarmful l \<and> \<not> humanConfirmedHarmful l);
          fn = count (\<lambda>l. \<not> aiPredictedHarmful l \<and> humanConfirmedHarmful l);
          total = length reviewed;
          precision = ratio (of_nat tp) (of_nat (tp + fp));
          recall = ratio (of_nat tp) (of_nat (tp + fn))
      in \<lparr>acc_total = total, acc_truePositives = tp, acc_falsePositives = fp, acc_trueNegatives = tn, acc_falseNegatives = fn,
          acc_accuracy = ratio (of_nat (tp + tn)) (of_nat total), acc_precision = precision, acc_recall = recall,
          acc_f1Score = ratio (2 * (precision * recall)) (precision + recall)\<rparr>)"

section \<open>The webhook\<close>

text \<open>The body is the JSON object that was received; fields are read from it.\<close>

type_synonym payload = "(string \<times> json) list"

definition body_str :: "string \<Rightarrow> payload \<Rightarrow> string option" where
  "body_str k p = (case map_of p k of Some (JStr s) \<Rightarrow> Some s | _ \<Rightarrow> None)"

definition json_number :: "(string \<Rightarrow> rat option) \<Rightarrow> json \<Rightarrow> rat option" where
  "json_number num v = (case v of JInt n \<Rightarrow> Some (of_int n) | JFloat t \<Rightarrow> num t | _ \<Rightarrow> None)"

definition body_score :: "(string \<Rightarrow> rat option) \<Rightarrow> payload \<Rightarrow> rat" where
  "body_score num p = nullish (Option.bind (map_of p ''moderationScore'') (json_number num)) 0"

definition body_flags :: "payload \<Rightarrow> string list" where
  "body_flags p =
     (case map_of p ''moderationFlags'' of
        Some (JArr vs) \<Rightarrow> List.map_filter (\<lambda>v. case v of JStr s \<Rightarrow> Some s | _ \<Rightarrow> None) vs
      | _ \<Rightarrow> [])"

definition body_details :: "(string \<Rightarrow> rat option) \<Rightarrow> payload \<Rightarrow> (string \<times> rat) list" where
  "body_details num p =
     (case map_of p ''details'' of
        Some (JObj kvs) \<Rightarrow> List.map_filter (\<lambda>(k, v). map_option (Pair k) (json_number num v)) kvs
      | _ \<Rightarrow> [])"

definition header_part :: "string \<times> string \<Rightarrow> string \<Rightarrow> string \<times> string" where
  "header_part acc part =
     (let trimmed = js_trim part in
      if starts_with trimmed ''t='' then (drop 2 trimmed, snd acc)
      else if starts_with trimmed ''v1='' then (fst acc, drop 3 trimmed) else acc)"

definition parseSignatureHeader :: "string \<Rightarrow> (string \<times> string) option" where
  "parseSignatureHeader header =
     (if header = [] then None
      else case foldl header_part ([], []) (js_split (CHR '','') header) of
        (timestamp, signature) \<Rightarrow> if timestamp = [] \<or> signature = [] then None else Some (timestamp, signature))"

definition zero_padded :: "nat \<Rightarrow> string \<Rightarrow> string" where
  "zero_padded n s = s @ replicate (n - length s) (CHR 0x00)"

definition constantTimeSignatureEquals :: "string \<Rightarrow> string \<Rightarrow> bool" where
  "constantTimeSignatureEquals provided expected =
     (let maxLength = max (max (length provided) (length expected)) 1;
          equal = (zero_padded maxLength provided = zero_padded maxLength expected)
      in equal \<and> length provided = length expected)"

definition verifyTimestampedSignature ::
  "(string \<Rightarrow> string \<Rightarrow> string) \<Rightarrow> string \<Rightarrow> string \<Rightarrow> string \<Rightarrow> string \<Rightarrow> bool" where
  "verifyTimestampedSignature hmac secret timestamp payload signature =
     (if secret = [] \<or> signature = [] then False
      else (let expectedSignature = hmac secret (timestamp @ ''.'' @ payload)
            in (length signature = 64 \<and> list_all hex_char signature) \<and>
               constantTimeSignatureEquals signature expectedSignature))"

datatype webhook_effect =
    AuditReject string
  | InvalidateEntry ident
  | EmitHighSeverity ident rat "string list"
  | EmitRequiresReview ident rat "string list"

datatype webhook_answer =
    ConfessionMissing
  | Duplicate ident string
  | Applied ident moderation_status

record webhook_config =
  wc_secret :: string
  wc_tolerance :: int

record webhook_state =
  ws_events :: "(string \<times> ms) list"
  ws_confessions :: "confession list"
  ws_logs :: "moderation_log list"

definition evictStaleEventIds :: "webhook_config \<Rightarrow> ms \<Rightarrow> (string \<times> ms) list \<Rightarrow> (string \<times> ms) list" where
  "evictStaleEventIds cfg now es = filter (\<lambda>e. \<not> snd e < now - wc_tolerance cfg * 2 * 1000) es"

definition delivery_meta :: "(string \<Rightarrow> string) \<Rightarrow> payload \<Rightarrow> bool \<Rightarrow> bool \<Rightarrow> ms \<Rightarrow> webhook_meta" where
  "delivery_meta sha p valid stale now =
     \<lparr>wm_deliveryHash = sha (json_text (JObj p)), wm_timestamp = body_str ''timestamp'' p, wm_processedAt = now,
      wm_signatureValid = valid, wm_payloadMalformed = False, wm_stale = stale\<rparr>"

definition moderated :: "(string \<Rightarrow> rat option) \<Rightarrow> payload \<Rightarrow> moderation_status \<Rightarrow> confession \<Rightarrow> confession" where
  "moderated num p status c =
     c\<lparr>co_moderationScore := body_score num p, co_moderationFlags := body_flags p, co_moderationStatus := status,
       co_moderationDetails := body_details num p, co_requiresReview := (status = MFlagged), co_isHidden := (status = MRejected)\<rparr>"

definition delivered_result :: "(string \<Rightarrow> rat option) \<Rightarrow> payload \<Rightarrow> moderation_status \<Rightarrow> bool \<Rightarrow> moderation_result" where
  "delivered_result num p status review =
     \<lparr>mr_score = body_score num p, mr_flags = body_flags p, mr_status = status, mr_details = body_details num p,
      mr_requiresReview = review\<rparr>"

text \<open>
  The stale delivery is written to the log before its signature was looked at; an error of that write,
  here a status the enum column does not know, is swallowed.
\<close>

definition log_stale ::
  "(string \<Rightarrow> string) \<Rightarrow> (string \<Rightarrow> rat option) \<Rightarrow> payload \<Rightarrow> ident \<Rightarrow> ms \<Rightarrow> moderation_log list \<Rightarrow> moderation_log list" where
  "log_stale sha num p newId now t =
     (case (case body_str ''moderationStatus'' p of None \<Rightarrow> Some MPending | Some s \<Rightarrow> status_of_text s) of
        None \<Rightarrow> t
      | Some status \<Rightarrow>
          snd (syncWebhookResult newId (nullish (body_str ''confessionId'' p) []) (json_text (JObj p))
            (delivered_result num p status False) (delivery_meta sha p False True now) now t))"

text \<open>The transaction: \<open>Inl\<close> when it fails, otherwise the answer and whether anything was written.\<close>

definition apply_delivery ::
  "(string \<Rightarrow> string) \<Rightarrow> (string \<Rightarrow> rat option) \<Rightarrow> payload \<Rightarrow> ident \<Rightarrow> string \<Rightarrow> ident \<Rightarrow> ms \<Rightarrow> webhook_state \<Rightarrow>
     webhook_answer outcome \<times> webhook_state" where
  "apply_delivery sha num p confessionId statusText newId now st =
     (case find_one (\<lambda>c. co_id c = confessionId) (ws_confessions st) of
        None \<Rightarrow> (Inr ConfessionMissing, st)
      | Some confession \<Rightarrow>
          (let meta = delivery_meta sha p True False now in
           if (case latest_log confessionId (ws_logs st) of
                 None \<Rightarrow> False
               | Some l \<Rightarrow> map_option wm_deliveryHash (ml_webhook l) = Some (wm_deliveryHash meta))
           then (Inr (Duplicate confessionId statusText), st)
           else case status_of_text statusText of
             None \<Rightarrow> (Inl (PlainError ''invalid input value for enum''), st)
           | Some status \<Rightarrow>
               (Inr (Applied confessionId status),
                st\<lparr>ws_logs := snd (syncWebhookResult newId confessionId (co_message confession)
                                 (delivered_result num p status (status = MFlagged)) meta now (ws_logs st)),
                   ws_confessions := save_row co_id (moderated num p status confession) (ws_confessions st)\<rparr>)))"

definition delivery_effects :: "(string \<Rightarrow> rat option) \<Rightarrow> payload \<Rightarrow> ident \<Rightarrow> moderation_status \<Rightarrow> webhook_effect list" where
  "delivery_effects num p confessionId status =
     InvalidateEntry confessionId #
     (if status = MRejected then [EmitHighSeverity confessionId (body_score num p) (body_flags p)] else []) @
     (if status = MFlagged then [EmitRequiresReview confessionId (body_score num p) (body_flags p)] else [])"

definition handleModerationResults ::
  "(string \<Rightarrow> string) \<Rightarrow> (string \<Rightarrow> string \<Rightarrow> string) \<Rightarrow> (string \<Rightarrow> rat option) \<Rightarrow> webhook_config \<Rightarrow> payload \<Rightarrow> string option \<Rightarrow>
     ident \<Rightarrow> ms \<Rightarrow> webhook_state \<Rightarrow> webhook_answer outcome \<times> webhook_effect list \<times> webhook_state" where
  "handleModerationResults sha hmac num cfg p signatureHeader newId now st =
     (let refuse = (\<lambda>reason e st. (Inl e, [AuditReject reason], st)) in
      if \<not> truthy signatureHeader then refuse ''missing_signature'' (UnauthorizedException ''Missing signature'') st
      else case parseSignatureHeader (the signatureHeader) of
        None \<Rightarrow> refuse ''malformed_signature_header'' (BadRequestException ''Malformed signature header'') st
      | Some (timestamp, signature) \<Rightarrow>
          (case num timestamp of
             None \<Rightarrow> refuse ''invalid_timestamp'' (BadRequestException ''Malformed payload: invalid timestamp'') st
           | Some sigTimestamp \<Rightarrow>
               if sigTimestamp \<le> 0 then refuse ''invalid_timestamp'' (BadRequestException ''Malformed payload: invalid timestamp'') st
               else if \<bar>of_int now - sigTimestamp * 1000\<bar> / 1000 > of_int (wc_tolerance cfg) then
                 refuse ''stale_timestamp'' (UnauthorizedException ''Stale webhook delivery'')
                   (st\<lparr>ws_logs := log_stale sha num p newId now (ws_logs st)\<rparr>)
               else if \<not> verifyTimestampedSignature hmac (wc_secret cfg) timestamp (json_text (JObj p)) signature then
                 refuse ''invalid_signature'' (UnauthorizedException ''Invalid signature'') st
               else if \<not> truthy (body_str ''confessionId'' p) \<or> \<not> truthy (body_str ''moderationStatus'' p) then
                 refuse ''malformed_payload'' (BadRequestException ''Malformed payload: missing required fields'') st
               else if \<not> truthy (body_str ''eventId'' p) then
                 refuse ''missing_event_id'' (BadRequestException ''Malformed payload: missing eventId'') st
               else
                 (let confessionId = the (body_str ''confessionId'' p); statusText = the (body_str ''moderationStatus'' p);
                      eventId = the (body_str ''eventId'' p);
                      st1 = st\<lparr>ws_events := evictStaleEventIds cfg now (ws_events st)\<rparr>
                  in if map_of (ws_events st1) eventId \<noteq> None
                     then (Inr (Duplicate confessionId statusText), [AuditReject ''replayed_event_id''], st1)
                     else case apply_delivery sha num p confessionId statusText newId now st1 of
                       (Inr (Applied i status), st2) \<Rightarrow>
                         (Inr (Applied i status), delivery_effects num p i status,
                          st2\<lparr>ws_events := ws_events st2 @ [(eventId, now)]\<rparr>)
                     | (answer, st2) \<Rightarrow> (answer, [], st2))))"

section \<open>Classification\<close>

lemma moderation_result_cases:
  "moderateContent cfg oa pa content now reqs = (r, reqs') \<Longrightarrow>
     r = fallbackModeration cfg content \<and> reqs' = reqs \<and> maxRequestsPerMinute \<le> requestCount now reqs \<or>
     mr_status r = determineStatus cfg (mr_score r) \<and> mr_requiresReview r = (ai_mediumThreshold cfg \<le> mr_score r)"
  by (auto simp: moderateContent_def Let_def split: if_splits)

text \<open>
  Beyond fifty requests a minute the rules score the content, but nobody acts on the score: whatever was
  written passes as pending and unreviewed.
\<close>

lemma throttled_moderation_passes:
  assumes "maxRequestsPerMinute \<le> requestCount now reqs"
  shows "mr_status (fst (moderateContent cfg oa pa content now reqs)) = MPending \<and>
    \<not> mr_requiresReview (fst (moderateContent cfg oa pa content now reqs))"
  using assms by (simp add: moderateContent_def fallbackModeration_def Let_def)

lemma foldl_max_mono: "(a :: rat) \<le> foldl max a xs"
  by (induction xs arbitrary: a) (auto intro: order_trans[OF max.cobounded1])

lemma fallback_score_bounds: "0 \<le> mr_score (fallbackModeration cfg content) \<and> mr_score (fallbackModeration cfg content) \<le> 1"
  by (simp add: fallbackModeration_def Let_def foldl_max_mono min_def)

lemma determineStatus_hides:
  "ai_mediumThreshold cfg \<le> ai_highThreshold cfg \<Longrightarrow> a \<le> b \<Longrightarrow>
     (determineStatus cfg a = MRejected \<longrightarrow> determineStatus cfg b = MRejected) \<and>
     (determineStatus cfg b = MApproved \<longrightarrow> determineStatus cfg a = MApproved)"
  by (auto simp: determineStatus_def)

section \<open>Decisions\<close>

lemma assertValidTransition_Inr: "assertValidTransition f t = Inr () \<longleftrightarrow> t \<in> set (ALLOWED_TRANSITIONS f)"
  by (cases f) (auto simp: assertValidTransition_def)

text \<open>A transition moves one entry along an edge and is audited, or nothing happens.\<close>

lemma transitionState_cases:
  assumes "transitionState i next actor reason notes now t = (res, audit, t')"
  obtains (refused) e where "res = Inl e" "audit = []" "t' = t"
  | (moved) l where "l \<in> set t" "ml_id l = i" "next \<in> set (ALLOWED_TRANSITIONS (ml_moderationStatus l))"
      "res = Inr (reviewed_by actor next notes now l)" "length audit = 1"
      "t' = save_row ml_id (reviewed_by actor next notes now l) t"
proof (cases "find_one (\<lambda>l. ml_id l = i) t")
  case None
  with assms refused show ?thesis by (auto simp: transitionState_def)
next
  case (Some l)
  then have l: "l \<in> set t" "ml_id l = i" by (auto dest: find_one_SomeD)
  show ?thesis
  proof (cases "assertValidTransition (ml_moderationStatus l) next")
    case Inl
    with Some assms refused show ?thesis by (auto simp: transitionState_def)
  next
    case (Inr u)
    then have "next \<in> set (ALLOWED_TRANSITIONS (ml_moderationStatus l))" using assertValidTransition_Inr by simp
    from moved[OF l this] Inr Some assms show ?thesis by (auto simp: transitionState_def Let_def)
  qed
qed

text \<open>
  The classifier and the reviewer are judged by the same column, so the log never counts a false
  negative, and the recall is one as soon as anything was rejected.
\<close>

lemma accuracy_blind:
  "acc_falseNegatives (getAccuracyMetrics t) = 0 \<and> acc_recall (getAccuracyMetrics t) \<in> {0, 1}"
proof -
  have "\<not> (\<not> aiPredictedHarmful l \<and> humanConfirmedHarmful l)" for l
    by (auto simp: aiPredictedHarmful_def humanConfirmedHarmful_def)
  then show ?thesis by (auto simp: getAccuracyMetrics_def Let_def ratio_def)
qed

section \<open>Deliveries\<close>

lemma constantTimeSignatureEquals_iff: "constantTimeSignatureEquals a b \<longleftrightarrow> a = b"
  by (auto simp: constantTimeSignatureEquals_def zero_padded_def Let_def)

text \<open>What makes a delivery genuine: a fresh timestamp under the signature of the provider.\<close>

definition genuine ::
  "(string \<Rightarrow> string \<Rightarrow> string) \<Rightarrow> (string \<Rightarrow> rat option) \<Rightarrow> webhook_config \<Rightarrow> payload \<Rightarrow> string option \<Rightarrow> ms \<Rightarrow> bool" where
  "genuine hmac num cfg p header now =
     (case Option.bind header parseSignatureHeader of
        None \<Rightarrow> False
      | Some (timestamp, signature) \<Rightarrow>
          (case num timestamp of
             None \<Rightarrow> False
           | Some n \<Rightarrow> wc_secret cfg \<noteq> [] \<and> signature = hmac (wc_secret cfg) (timestamp @ ''.'' @ json_text (JObj p)) \<and>
               \<bar>of_int now - n * 1000\<bar> \<le> of_int (wc_tolerance cfg * 1000)))"

lemma tolerance_scaled: "(\<bar>a\<bar> / 1000 > of_int k) = (\<bar>a\<bar> > (of_int (k * 1000) :: rat))"
  by (auto simp: field_simps)

lemma apply_delivery_cases:
  assumes "apply_delivery sha num p i s newId now st = (res, st')"
  obtains (unchanged) "st' = st" "\<forall>j m. res \<noteq> Inr (Applied j m)"
  | (applied) m c where "res = Inr (Applied i m)" "status_of_text s = Some m" "c \<in> set (ws_confessions st)" "co_id c = i"
      "ws_confessions st' = save_row co_id (moderated num p m c) (ws_confessions st)" "ws_events st' = ws_events st"
proof (cases "find_one (\<lambda>c. co_id c = i) (ws_confessions st)")
  case None
  with assms have r: "st' = st" "res = Inr ConfessionMissing" by (auto simp: apply_delivery_def)
  show ?thesis by (rule unchanged) (simp_all add: r)
next
  case (Some c)
  with assms have "st' = st \<and> (\<forall>j m. res \<noteq> Inr (Applied j m)) \<or>
      (\<exists>m. res = Inr (Applied i m) \<and> status_of_text s = Some m \<and>
         ws_confessions st' = save_row co_id (moderated num p m c) (ws_confessions st) \<and> ws_events st' = ws_events st)"
    by (auto simp: apply_delivery_def Let_def split: if_splits option.splits)
  with find_one_SomeD[OF Some] show ?thesis using unchanged applied by blast
qed

lemma handle_cases:
  assumes "handleModerationResults sha hmac num cfg p h newId now st = (res, effs, st')"
  obtains (unchanged) "\<forall>j m. res \<noteq> Inr (Applied j m)" "ws_confessions st' = ws_confessions st"
      "ws_events st' \<in> {ws_events st, evictStaleEventIds cfg now (ws_events st)}"
  | (applied) i m c e where "res = Inr (Applied i m)" "genuine hmac num cfg p h now"
      "body_str ''confessionId'' p = Some i" "body_str ''eventId'' p = Some e"
      "map_of (evictStaleEventIds cfg now (ws_events st)) e = None"
      "c \<in> set (ws_confessions st)" "co_id c = i"
      "ws_confessions st' = save_row co_id (moderated num p m c) (ws_confessions st)"
      "ws_events st' = evictStaleEventIds cfg now (ws_events st) @ [(e, now)]" "InvalidateEntry i \<in> set effs"
proof -
  show ?thesis
  proof (cases "\<exists>i m. res = Inr (Applied i m)")
    case False
    then have r: "ws_confessions st' = ws_confessions st \<and> ws_events st' \<in> {ws_events st, evictStaleEventIds cfg now (ws_events st)}"
      using assms
      by (auto simp: handleModerationResults_def Let_def split: if_splits option.splits prod.splits sum.splits webhook_answer.splits
          elim: apply_delivery_cases)
    show ?thesis by (rule unchanged) (use False r in blast)+
  next
    case True
    then obtain i m where res: "res = Inr (Applied i m)" by blast
    obtain hd ts sig n where h: "h = Some hd" "parseSignatureHeader hd = Some (ts, sig)" "num ts = Some n"
        "\<not> \<bar>of_int now - n * 1000\<bar> / 1000 > of_int (wc_tolerance cfg)"
        "verifyTimestampedSignature hmac (wc_secret cfg) ts (json_text (JObj p)) sig"
      using assms res by (auto simp: handleModerationResults_def Let_def truthy_iff split: if_splits option.splits prod.splits)
    obtain ci s e where b: "body_str ''confessionId'' p = Some ci" "body_str ''moderationStatus'' p = Some s" "body_str ''eventId'' p = Some e"
        "map_of (evictStaleEventIds cfg now (ws_events st)) e = None"
      using assms res h by (auto simp: handleModerationResults_def Let_def truthy_iff split: if_splits)
    let ?st1 = "st\<lparr>ws_events := evictStaleEventIds cfg now (ws_events st)\<rparr>"
    obtain st2 where a: "apply_delivery sha num p ci s newId now ?st1 = (Inr (Applied i m), st2)"
        "effs = delivery_effects num p i m" "st' = st2\<lparr>ws_events := ws_events st2 @ [(e, now)]\<rparr>"
      using assms res h b
      by (auto simp: handleModerationResults_def Let_def split: if_splits prod.splits sum.splits webhook_answer.splits)
    have g: "genuine hmac num cfg p h now"
      using h by (auto simp: genuine_def verifyTimestampedSignature_def Let_def constantTimeSignatureEquals_iff
          tolerance_scaled not_less split: if_splits)
    from a(1) show ?thesis
    proof (cases rule: apply_delivery_cases)
      case unchanged then show ?thesis by blast
    next
      case (applied m' c)
      then show ?thesis using that(2)[OF res g, of e c] b a(2,3) by (simp add: delivery_effects_def)
    qed
  qed
qed

lemma moderated_sel [simp]:
  "co_id (moderated num p m c) = co_id c" "co_isHidden (moderated num p m c) = (m = MRejected)"
  "co_message (moderated num p m c) = co_message c" "co_isDeleted (moderated num p m c) = co_isDeleted c"
  "co_moderationStatus (moderated num p m c) = m"
  by (simp_all add: moderated_def)


definition sample_confession :: "ident \<Rightarrow> string \<Rightarrow> confession" where
  "sample_confession i message =
     \<lparr>co_id = i, co_message = message, co_gender = None, co_created_at = 0, co_anonymousUserId = ''a1'', co_view_count = 0,
      co_isDeleted = False, co_deletedAt = None, co_deletedBy = None, co_moderationScore = 0, co_idempotencyKey = None,
      co_moderationFlags = [], co_moderationStatus = MApproved, co_requiresReview = False, co_isHidden = False,
      co_moderationDetails = [], co_stellarTxHash = None, co_stellarHash = None, co_isAnchored = False, co_anchoredAt = None,
      co_status = Published, co_publishAt = None\<rparr>"

definition sample_payload :: payload where
  "sample_payload = [(''eventId'', JStr ''e1''), (''confessionId'', JStr ''c1''), (''moderationStatus'', JStr ''rejected'')]"

definition sample_num :: "string \<Rightarrow> rat option" where
  "sample_num s = (if s = ''1000'' then Some 1000 else if s = ''1'' then Some 1 else None)"

definition sample_signature :: string where "sample_signature = replicate 64 (CHR ''a'')"

definition sample_webhook :: webhook_state where
  "sample_webhook = \<lparr>ws_events = [], ws_confessions = [sample_confession ''c1'' ''x''], ws_logs = []\<rparr>"

definition sample_config :: webhook_config where "sample_config = \<lparr>wc_secret = ''s'', wc_tolerance = 300\<rparr>"

definition deliver_sample :: "string \<Rightarrow> ms \<Rightarrow> webhook_state \<Rightarrow> webhook_answer outcome \<times> webhook_effect list \<times> webhook_state" where
  "deliver_sample header now st =
     handleModerationResults id (\<lambda>k m. sample_signature) sample_num sample_config sample_payload (Some header) ''l1'' now st"

definition genuine_header :: string where "genuine_header = ''t=1000,v1='' @ sample_signature"

lemma sample_applied: "fst (deliver_sample genuine_header 1100000 sample_webhook) = Inr (Applied ''c1'' MRejected)"
  by code_simp


text \<open>The deliveries that arrive one after the other, each with its body, header, log id and time.\<close>

fun webhook_run ::
  "(string \<Rightarrow> string) \<Rightarrow> (string \<Rightarrow> string \<Rightarrow> string) \<Rightarrow> (string \<Rightarrow> rat option) \<Rightarrow> webhook_config \<Rightarrow>
     (payload \<times> string option \<times> ident \<times> ms) list \<Rightarrow> webhook_state \<Rightarrow> webhook_state" where
  "webhook_run sha hmac num cfg [] st = st"
| "webhook_run sha hmac num cfg ((p, h, newId, now) # ds) st =
     webhook_run sha hmac num cfg ds (snd (snd (handleModerationResults sha hmac num cfg p h newId now st)))"

lemma event_remembered:
  assumes "(e, t) \<in> set (ws_events st)" "now \<le> t + wc_tolerance cfg * 2 * 1000"
  shows "(e, t) \<in> set (ws_events (snd (snd (handleModerationResults sha hmac num cfg p h newId now st))))"
proof -
  obtain res effs st' where r: "handleModerationResults sha hmac num cfg p h newId now st = (res, effs, st')"
    by (metis prod.collapse)
  have "(e, t) \<in> set (evictStaleEventIds cfg now (ws_events st))" using assms by (simp add: evictStaleEventIds_def)
  with r assms(1) have "(e, t) \<in> set (ws_events st')" by (cases rule: handle_cases) auto
  then show ?thesis by (simp add: r)
qed

lemma event_remembered_run:
  assumes "(e, t) \<in> set (ws_events st)" "\<forall>d \<in> set ds. snd (snd (snd d)) \<le> t + wc_tolerance cfg * 2 * 1000"
  shows "(e, t) \<in> set (ws_events (webhook_run sha hmac num cfg ds st))"
  using assms
proof (induction sha hmac num cfg ds st rule: webhook_run.induct)
  case (2 sha hmac num cfg p h newId now ds st)
  then show ?case using event_remembered[of e t st now cfg sha hmac num p h newId] by simp
qed simp

lemma fresh_window:
  assumes "genuine hmac num cfg p h t" "genuine hmac num cfg p h now"
  shows "now \<le> t + wc_tolerance cfg * 2 * 1000"
proof -
  obtain n :: rat where n: "\<bar>of_int t - n * 1000\<bar> \<le> of_int (wc_tolerance cfg * 1000)" "\<bar>of_int now - n * 1000\<bar> \<le> of_int (wc_tolerance cfg * 1000)"
    using assms by (auto simp: genuine_def split: option.splits prod.splits)
  then have "(of_int now :: rat) \<le> of_int (t + wc_tolerance cfg * 2 * 1000)" by simp
  then show ?thesis by (simp only: of_int_le_iff)
qed



text \<open>
  A delivery with an outdated timestamp is logged although nobody checked its signature, and the
  genuine delivery of the same body is then taken for a repetition: the rejected confession stays visible.
\<close>

lemma stale_blocks_genuine:
  "let st = snd (snd (deliver_sample ''t=1,v1=forged'' 1100000 sample_webhook))
   in map ml_moderationStatus (ws_logs st) = [MRejected] \<and>
      fst (deliver_sample genuine_header 1100000 st) = Inr (Duplicate ''c1'' ''rejected'') \<and>
      map co_isHidden (ws_confessions (snd (snd (deliver_sample genuine_header 1100000 st)))) = [False]"
  by code_simp

end
