(* ===== verification/Confessions.thy ===== *)
theory Confessions
  imports Idempotency Moderation Comments
begin

text \<open>
  The confession service (\<^verbatim>\<open>confession/confession.service.ts\<close>): creation with tags, moderation and
  encryption, the feeds, single confessions with their counted views, editing, deletion and
  restoration, decisions of moderators, and anchoring on Stellar; with the tags of
  \<^verbatim>\<open>confession/tag.service.ts\<close>.

  Every request is one function on the state; a page or a single confession found in the cache is
  answered from there.  Search, trending and tag listings are left to the database and not modelled.
\<close>

section \<open>State and surroundings\<close>

text \<open>
  \<open>Selected\<close> holds the columns the first query selects, \<open>Whole\<close> the row the second one loads; both
  carry the account behind the author, which the relations of the queries name.
\<close>

record confession_view =
  vw_id :: ident
  vw_message :: string
  vw_gender :: "string option"
  vw_created_at :: ms
  vw_view_count :: nat
  vw_moderationStatus :: moderation_status

datatype shown =
    Selected confession_view "reaction list" "dm_user option"
  | Whole confession "reaction list" "dm_user option"
  | Null

datatype cached = Single shown | Page "slim_confession cursor_page"

record confession_state =
  cs_confessions :: "confession list"
  cs_reactions :: "reaction list"
  cs_comments :: "comment list"
  cs_anon :: anon_state
  cs_users :: "dm_user list"
  cs_tags :: "string list"
  cs_confessionTags :: "(ident \<times> string) list"
  cs_logs :: "moderation_log list"
  cs_requests :: "ms list"
  cs_views :: "(string \<times> ms) list"
  cs_cache :: "cached cache"

text \<open>What lies outside: ciphers, hashes, dates, the sanitizer, the classifiers, the chain, and whether Redis answers.\<close>

record confession_env =
  ce_seal :: "string \<Rightarrow> string \<Rightarrow> string \<Rightarrow> string"
  ce_unseal :: "string \<Rightarrow> string \<Rightarrow> string \<Rightarrow> string option"
  ce_aesKey :: string
  ce_sha :: "string \<Rightarrow> string"
  ce_sanitize :: "string \<Rightarrow> string"
  ce_isoText :: "ms \<Rightarrow> string"
  ce_dateParse :: "string \<Rightarrow> ms option"
  ce_ai :: ai_config
  ce_openai :: "string \<Rightarrow> openai_answer option"
  ce_perspective :: "string \<Rightarrow> (string \<times> rat) list option"
  ce_verifyTransaction :: "string \<Rightarrow> bool"
  ce_onChain :: "string \<Rightarrow> bool"
  ce_up :: bool
  ce_viewExpiry :: int

datatype confession_event =
    ConfessionCreated ident
  | HighSeverity ident
  | RequiresReview ident

definition decrypt_row :: "confession_env \<Rightarrow> confession \<Rightarrow> string outcome" where
  "decrypt_row env c = decryptConfession (ce_unseal env) (co_message c) (ce_aesKey env)"

fun traverse :: "('a \<Rightarrow> 'b outcome) \<Rightarrow> 'a list \<Rightarrow> 'b list outcome" where
  "traverse f [] = Inr []"
| "traverse f (x # xs) =
     (case f x of Inl e \<Rightarrow> Inl e | Inr y \<Rightarrow> (case traverse f xs of Inl e \<Rightarrow> Inl e | Inr ys \<Rightarrow> Inr (y # ys)))"

definition reactions_of :: "ident \<Rightarrow> confession_state \<Rightarrow> reaction list" where
  "reactions_of i st = filter (\<lambda>r. rt_confessionId r = i) (cs_reactions st)"

definition author_user :: "confession \<Rightarrow> confession_state \<Rightarrow> dm_user option" where
  "author_user c st = linked_user (Some (co_anonymousUserId c)) (as_links (cs_anon st)) (cs_users st)"

definition setting_off :: "string \<Rightarrow> dm_user \<Rightarrow> bool" where
  "setting_off k u = (case du_privacySettings u of None \<Rightarrow> False | Some ps \<Rightarrow> map_of ps k = Some False)"

definition shouldShowReactions :: "dm_user \<Rightarrow> bool" where
  "shouldShowReactions u = (\<not> setting_off ''showReactions'' u)"

definition moderate :: "confession_env \<Rightarrow> string \<Rightarrow> ms \<Rightarrow> confession_state \<Rightarrow> moderation_result \<times> confession_state" where
  "moderate env msg now st =
     (case moderateContent (ce_ai env) (ce_openai env msg) (ce_perspective env msg) msg now (cs_requests st) of
        (r, reqs) \<Rightarrow> (r, st\<lparr>cs_requests := reqs\<rparr>))"

definition invalidate :: "confession_env \<Rightarrow> ident \<Rightarrow> confession_state \<Rightarrow> confession_state" where
  "invalidate env i st = st\<lparr>cs_cache := invalidateConfessionEntry (ce_up env) i (cs_cache st)\<rparr>"

definition drop_single :: "confession_env \<Rightarrow> ident \<Rightarrow> confession_state \<Rightarrow> confession_state" where
  "drop_single env i st = st\<lparr>cs_cache := cache_del (ce_up env) (single_key i) (cs_cache st)\<rparr>"

section \<open>Tags\<close>

definition validateTags :: "string list \<Rightarrow> string list \<Rightarrow> string list outcome" where
  "validateTags known tagNames =
     (let uniqueNames = foldl (\<lambda>us n. if n \<in> set us then us else us @ [n]) [] (map (\<lambda>n. js_trim (lower_case n)) tagNames);
          tags = filter (\<lambda>t. t \<in> set uniqueNames) known
      in if tagNames = [] then Inr []
         else if length uniqueNames > 3 then Inl (BadRequestException ''Maximum 3 tags allowed per confession'')
         else if length tags \<noteq> length uniqueNames
         then Inl (BadRequestException (''Invalid tags: '' @
                join_comma (map (\<lambda>(i, n). if i = 0 then n else '' '' @ n) (enumerate 0 (filter (\<lambda>n. n \<notin> set tags) uniqueNames))) @
                ''. Please use only predefined tags.''))
         else Inr tags)"

definition getTagByName :: "string list \<Rightarrow> string \<Rightarrow> string option" where
  "getTagByName known name = find_one (\<lambda>t. t = js_trim (lower_case name)) known"

section \<open>Anchoring data\<close>

definition hashConfession :: "(string \<Rightarrow> string) \<Rightarrow> string \<Rightarrow> ms \<Rightarrow> string" where
  "hashConfession sha content ts = sha (json_text (JObj [(''content'', JStr content), (''timestamp'', JInt ts)]))"

definition processAnchorData :: "(string \<Rightarrow> string) \<Rightarrow> string \<Rightarrow> string \<Rightarrow> ms \<Rightarrow> (string \<times> string \<times> ms) option" where
  "processAnchorData sha content txHash now =
     (if isValidTxHash txHash then Some (txHash, hashConfession sha content now, now) else None)"

section \<open>Creation\<close>

record create_dto =
  cd_message :: string
  cd_gender :: "string option"
  cd_tags :: "string list option"
  cd_stellarTxHash :: "string option"

record create_fresh =
  xf_id :: ident
  xf_anon :: ident
  xf_log :: ident
  xf_iv :: string

definition new_confession ::
  "create_fresh \<Rightarrow> string \<Rightarrow> string option \<Rightarrow> moderation_result \<Rightarrow> (string \<times> string \<times> ms) option \<Rightarrow> string option \<Rightarrow> ms \<Rightarrow> confession" where
  "new_confession fresh encryptedMsg gender result anchor key now =
     \<lparr>co_id = xf_id fresh, co_message = encryptedMsg, co_gender = gender, co_created_at = now, co_anonymousUserId = xf_anon fresh,
      co_view_count = 0, co_isDeleted = False, co_deletedAt = None, co_deletedBy = None, co_moderationScore = mr_score result,
      co_idempotencyKey = (if truthy key then key else None), co_moderationFlags = mr_flags result,
      co_moderationStatus = mr_status result, co_requiresReview = mr_requiresReview result,
      co_isHidden = (mr_status result = MRejected), co_moderationDetails = mr_details result,
      co_stellarTxHash = map_option fst anchor, co_stellarHash = map_option (fst \<circ> snd) anchor,
      co_isAnchored = (anchor \<noteq> None), co_anchoredAt = map_option (snd \<circ> snd) anchor,
      co_status = Published, co_publishAt = None\<rparr>"

text \<open>The transaction: identity, confession, tags and log entry, or nothing.\<close>

definition executeCreateInTransaction ::
  "create_fresh \<Rightarrow> confession \<Rightarrow> string \<Rightarrow> string list \<Rightarrow> moderation_result \<Rightarrow> ms \<Rightarrow> confession_state \<Rightarrow> confession outcome \<times> confession_state" where
  "executeCreateInTransaction fresh conf msg validatedTags result now st =
     (case confession_insert conf (cs_confessions st) of
        None \<Rightarrow> (Inl (PlainError ''duplicate key value violates unique constraint''), st)
      | Some t \<Rightarrow>
          (Inr conf,
           st\<lparr>cs_confessions := t,
              cs_anon := (cs_anon st)\<lparr>as_users := as_users (cs_anon st) @ [new_anon (xf_anon fresh) None now]\<rparr>,
              cs_confessionTags := cs_confessionTags st @ map (Pair (co_id conf)) validatedTags,
              cs_logs := snd (createLog (xf_log fresh) msg result (Some (co_id conf)) None (Some ''openai'') now (cs_logs st))\<rparr>))"

definition publishConfessionCreated ::
  "confession_env \<Rightarrow> confession \<Rightarrow> moderation_result \<Rightarrow> confession_state \<Rightarrow> confession_event list \<times> confession_state" where
  "publishConfessionCreated env c result st =
     ([ConfessionCreated (co_id c)] @
      (if mr_status result = MRejected then [HighSeverity (co_id c)] else []) @
      (if mr_status result = MFlagged then [RequiresReview (co_id c)] else []),
      st\<lparr>cs_cache := invalidateConfessionCache (ce_up env) (cs_cache st)\<rparr>)"

definition executeCreate ::
  "confession_env \<Rightarrow> create_dto \<Rightarrow> string \<Rightarrow> string option \<Rightarrow> create_fresh \<Rightarrow> ms \<Rightarrow> confession_state \<Rightarrow>
     confession outcome \<times> confession_event list \<times> confession_state" where
  "executeCreate env dto msg key fresh now st =
     (case (case cd_tags dto of None \<Rightarrow> Inr [] | Some ts \<Rightarrow> validateTags (cs_tags st) ts) of
        Inl e \<Rightarrow> (Inl e, [], st)
      | Inr validatedTags \<Rightarrow>
          (case moderate env msg now st of (result, st1) \<Rightarrow>
             (case encryptConfession (ce_seal env) (xf_iv fresh) msg (ce_aesKey env) of
                Inl e \<Rightarrow> (Inl e, [], st1)
              | Inr encryptedMsg \<Rightarrow>
                  (let anchor = (if truthy (cd_stellarTxHash dto)
                                 then processAnchorData (ce_sha env) msg (the (cd_stellarTxHash dto)) now else None);
                       conf = new_confession fresh encryptedMsg (cd_gender dto) result anchor key now
                   in case executeCreateInTransaction fresh conf msg validatedTags result now st1 of
                        (Inl e, st2) \<Rightarrow> (Inl e, [], st2)
                      | (Inr c, st2) \<Rightarrow> (case publishConfessionCreated env c result st2 of (evs, st3) \<Rightarrow> (Inr c, evs, st3))))))"

text \<open>
  \<open>create\<close>: validation, then the guard of the idempotency key with the answer of its check, or the
  creation alone.  The record table of the keys is passed along.
\<close>

definition as_row :: "confession \<Rightarrow> confession_row" where
  "as_row c = \<lparr>cf_id = co_id c, cf_message = co_message c\<rparr>"

definition replay_error :: "confession_env \<Rightarrow> idem_check outcome \<Rightarrow> exn option" where
  "replay_error env answer =
     (case answer of
        Inl _ \<Rightarrow> None
      | Inr a \<Rightarrow>
          if ic_isReplay a
          then Option.bind (ic_cachedResponse a) (\<lambda>r. case decryptConfession (ce_unseal env) (cf_message r) (ce_aesKey env) of Inl e \<Rightarrow> Some e | Inr _ \<Rightarrow> None)
          else None)"

definition confession_create ::
  "confession_env \<Rightarrow> create_dto \<Rightarrow> idem_check outcome option \<Rightarrow> create_fresh \<Rightarrow> ms \<Rightarrow> idem_record list \<Rightarrow> confession_state \<Rightarrow>
     confession_row option outcome \<times> idem_record list \<times> confession_state" where
  "confession_create env dto chk fresh now records st =
     (case validate_message (\<lambda>m. js_trim (ce_sanitize env m)) (cd_message dto) of
        Inl e \<Rightarrow> (Inl e, records, st)
      | Inr msg \<Rightarrow>
          (case chk of
             None \<Rightarrow>
               (case executeCreate env dto msg None fresh now st of
                  (res, _, st') \<Rightarrow> (map_sum id (\<lambda>c. Some (as_row c)) res, records, st'))
           | Some answer \<Rightarrow>
               (let run = (\<lambda>key. executeCreate env dto msg (Some key) fresh now st);
                    decrypt = (\<lambda>m. case decryptConfession (ce_unseal env) m (ce_aesKey env) of Inl _ \<Rightarrow> [] | Inr t \<Rightarrow> t)
                in if replay_error env answer \<noteq> None then (Inl (the (replay_error env answer)), records, st)
                   else case create_guarded decrypt msg answer (\<lambda>key. map_sum id as_row (fst (run key))) records of
                     (res, records') \<Rightarrow>
                       (res, records',
                        (case answer of
                           Inr a \<Rightarrow> if ic_isReplay a then st else snd (snd (run (ir_idempotencyKey (ic_record a))))
                         | Inl _ \<Rightarrow> st)))))"

section \<open>Feeds\<close>

datatype sort_order = Trending | Newest | Most_discussed

fun sort_text :: "sort_order \<Rightarrow> string" where
  "sort_text Trending = ''trending''"
| "sort_text Newest = ''newest''"
| "sort_text Most_discussed = ''most_discussed''"

record feed_query =
  fq_cursor :: "string option"
  fq_page :: "nat option"
  fq_limit :: "nat option"
  fq_sort :: "sort_order option"
  fq_gender :: "string option"

definition discoverable :: "confession_state \<Rightarrow> confession \<Rightarrow> bool" where
  "discoverable st c =
     (let links = filter (\<lambda>l. al_anonymousUserId l = co_anonymousUserId c) (as_links (cs_anon st))
      in links = [] \<or>
         list_ex (\<lambda>l. case find_one (\<lambda>u. du_id u = al_userId l) (cs_users st) of
                         None \<Rightarrow> True | Some u \<Rightarrow> \<not> setting_off ''isDiscoverable'' u) links)"

definition feed_visible :: "string option \<Rightarrow> ms \<Rightarrow> confession_state \<Rightarrow> confession \<Rightarrow> bool" where
  "feed_visible gender now st c \<longleftrightarrow>
     \<not> co_isDeleted c \<and> \<not> co_isHidden c \<and> co_moderationStatus c \<in> {MApproved, MPending} \<and>
     co_status c \<noteq> Draft \<and>
     (co_status c \<noteq> Scheduled \<or> (case co_publishAt c of None \<Rightarrow> False | Some t \<Rightarrow> t \<le> now)) \<and>
     discoverable st c \<and> (truthy gender \<longrightarrow> co_gender c = gender)"

text \<open>\<open>String(parsed.id)\<close>, and what a cursor says about its position: nothing, a timestamp, or a value no query accepts.\<close>

definition cursor_id :: "json option \<Rightarrow> string" where
  "cursor_id v = (case v of None \<Rightarrow> ''undefined'' | Some (JStr s) \<Rightarrow> s | Some j \<Rightarrow> json_text j)"

definition falsy_json :: "json option \<Rightarrow> bool" where
  "falsy_json v = (case v of None \<Rightarrow> True | Some JNull \<Rightarrow> True | Some (JStr s) \<Rightarrow> s = [] | Some (JInt n) \<Rightarrow> n = 0 | Some (JBool b) \<Rightarrow> \<not> b | _ \<Rightarrow> False)"

definition applyFeedCursor ::
  "(string \<Rightarrow> ms option) \<Rightarrow> sort_order \<Rightarrow> string option \<Rightarrow> nat option \<Rightarrow> nat \<Rightarrow> (feed_position option \<times> nat) outcome" where
  "applyFeedCursor date_parse so cursor page limit =
     (let parsed = nullish (decodeCursor cursor) [] in
      if so = Newest \<and> \<not> falsy_json (map_of parsed ''created_at'')
      then (case Option.bind (case map_of parsed ''created_at'' of Some (JStr s) \<Rightarrow> Some s | _ \<Rightarrow> None) date_parse of
              None \<Rightarrow> Inl (PlainError ''invalid input syntax for type timestamp'')
            | Some t \<Rightarrow> Inr (Some \<lparr>fp_id = cursor_id (map_of parsed ''id''), fp_created_at = t\<rparr>, 0))
      else Inr (None,
        (case map_of parsed ''offset'' of
           Some (JInt n) \<Rightarrow> if so \<noteq> Newest \<and> n \<ge> 0 then nat n else (case page of Some p \<Rightarrow> if p > 1 then (p - 1) * limit else 0 | None \<Rightarrow> 0)
         | _ \<Rightarrow> (case page of Some p \<Rightarrow> if p > 1 then (p - 1) * limit else 0 | None \<Rightarrow> 0))))"

definition buildFeedNextCursor :: "(ms \<Rightarrow> string) \<Rightarrow> confession list \<Rightarrow> nat \<Rightarrow> sort_order \<Rightarrow> nat \<Rightarrow> string option" where
  "buildFeedNextCursor isoText items limit so offset =
     (if length items \<le> limit then None
      else (let lastItem = items ! (limit - 1)
            in Some (if so = Newest then encodeFeedCursor isoText (co_id lastItem) (co_created_at lastItem)
                     else encodeCursor [(''id'', JStr (co_id lastItem)), (''offset'', JInt (int (offset + limit)))])))"

text \<open>The count a row is ordered by, and the ordered rows.\<close>

definition feed_rank :: "sort_order \<Rightarrow> confession_state \<Rightarrow> confession \<Rightarrow> nat" where
  "feed_rank so st c =
     (case so of
        Trending \<Rightarrow> length (reactions_of (co_id c) st)
      | Most_discussed \<Rightarrow> length (filter (\<lambda>k. cm_confessionId k = co_id c \<and> \<not> cm_isDeleted k) (cs_comments st))
      | Newest \<Rightarrow> 0)"

definition feed_order :: "sort_order \<Rightarrow> confession_state \<Rightarrow> confession list \<Rightarrow> confession list" where
  "feed_order so st rows =
     (if so = Newest then applyNewestFeedOrder co_created_at co_id rows
      else rev (sort_key (\<lambda>c. (feed_rank so st c, co_created_at c, co_id c)) rows))"

definition feed_items ::
  "confession_env \<Rightarrow> sort_order \<Rightarrow> string option \<Rightarrow> nat option \<Rightarrow> nat \<Rightarrow> confession_state \<Rightarrow> confession list \<Rightarrow>
     (confession list \<times> nat) outcome" where
  "feed_items env so cursor page limit st rows =
     (case applyFeedCursor (ce_dateParse env) so cursor page limit of
        Inl e \<Rightarrow> Inl e
      | Inr (position, offset) \<Rightarrow>
          (let seek = (case position of None \<Rightarrow> rows | Some p \<Rightarrow> filter (\<lambda>c. feedKeysetPredicate p (co_created_at c) (co_id c)) rows)
           in Inr (take (limit + 1) (drop offset (feed_order so st seek)), offset)))"

definition feed_page ::
  "confession_env \<Rightarrow> (confession \<Rightarrow> 'r outcome) \<Rightarrow> sort_order \<Rightarrow> string option \<Rightarrow> nat option \<Rightarrow> nat \<Rightarrow> confession_state \<Rightarrow>
     confession list \<Rightarrow> 'r cursor_page outcome" where
  "feed_page env show so cursor page limit st rows =
     (case feed_items env so cursor page limit st rows of
        Inl e \<Rightarrow> Inl e
      | Inr (items, offset) \<Rightarrow>
          (let hasMore = length items > limit; resultItems = (if hasMore then take limit items else items)
           in case traverse show resultItems of
                Inl e \<Rightarrow> Inl e
              | Inr data \<Rightarrow>
                  Inr (CursorPaginatedResponseDto data (buildFeedNextCursor (ce_isoText env) items limit so offset) hasMore limit)))"

text \<open>The feed does not select \<open>requiresReview\<close>.\<close>

definition slim_row :: "confession_env \<Rightarrow> confession_state \<Rightarrow> confession \<Rightarrow> slim_confession outcome" where
  "slim_row env st c =
     (case decrypt_row env c of
        Inl e \<Rightarrow> Inl e
      | Inr message \<Rightarrow> Inr (mapToSlimConfession c message (reactions_of (co_id c) st) None))"

definition feed_cache_key :: "feed_query \<Rightarrow> string" where
  "feed_cache_key q =
     buildKey [''confessions'', js_or (fq_cursor q) ''no-cursor'',
               nat_str (case fq_page q of None \<Rightarrow> 1 | Some p \<Rightarrow> if p = 0 then 1 else p),
               nat_str (nullish (fq_limit q) 10), js_or (fq_gender q) ''all'',
               (case fq_sort q of None \<Rightarrow> ''recent'' | Some s \<Rightarrow> sort_text s)]"

definition loadConfessionsFeed ::
  "confession_env \<Rightarrow> feed_query \<Rightarrow> ms \<Rightarrow> confession_state \<Rightarrow> slim_confession cursor_page outcome \<times> confession_state" where
  "loadConfessionsFeed env q now st =
     (case cache_get (ce_up env) (feed_cache_key q) now (cs_cache st) of
        Some (Page p) \<Rightarrow> (Inr p, st)
      | _ \<Rightarrow>
          (case feed_page env (slim_row env st) (nullish (fq_sort q) Newest) (fq_cursor q) (fq_page q) (nullish (fq_limit q) 10) st
                  (filter (feed_visible (fq_gender q) now st) (cs_confessions st)) of
             Inl e \<Rightarrow> (Inl e, st)
           | Inr response \<Rightarrow>
               (Inr response,
                st\<lparr>cs_cache := cache_set (ce_up env) (feed_cache_key q) (Page response) CONFESSION_LIST now (cs_cache st)\<rparr>)))"

definition getUserConfessions ::
  "confession_env \<Rightarrow> int \<Rightarrow> moderation_status option \<Rightarrow> feed_query \<Rightarrow> confession_state \<Rightarrow> confession cursor_page outcome" where
  "getUserConfessions env userId status q st =
     (let anonIds = getAnonIdsForUser userId (as_links (cs_anon st)) in
      if anonIds = []
      then Inr (CursorPaginatedResponseDto [] None False (case fq_limit q of None \<Rightarrow> 10 | Some n \<Rightarrow> if n = 0 then 10 else n))
      else feed_page env (\<lambda>c. case decrypt_row env c of Inl e \<Rightarrow> Inl e | Inr m \<Rightarrow> Inr (c\<lparr>co_message := m\<rparr>))
             (nullish (fq_sort q) Newest) (fq_cursor q) (fq_page q) (nullish (fq_limit q) 10) st
             (filter (\<lambda>c. co_anonymousUserId c \<in> set anonIds \<and> \<not> co_isDeleted c \<and>
                          (truthy (fq_gender q) \<longrightarrow> co_gender c = fq_gender q) \<and>
                          (case status of None \<Rightarrow> True | Some s \<Rightarrow> co_moderationStatus c = s)) (cs_confessions st)))"

record 'r offset_page =
  op_data :: "'r list"
  op_total :: nat
  op_page :: nat
  op_limit :: nat

definition getDeletedConfessions :: "confession_env \<Rightarrow> nat \<Rightarrow> nat \<Rightarrow> confession_state \<Rightarrow> confession offset_page outcome" where
  "getDeletedConfessions env page limit st =
     (let deleted = filter co_isDeleted (cs_confessions st) in
      case traverse (\<lambda>c. case decrypt_row env c of Inl e \<Rightarrow> Inl e | Inr m \<Rightarrow> Inr (c\<lparr>co_message := m\<rparr>))
             (skip_take ((page - 1) * limit) limit (applyNewestFeedOrder co_created_at co_id deleted)) of
        Inl e \<Rightarrow> Inl e
      | Inr data \<Rightarrow> Inr \<lparr>op_data = data, op_total = length deleted, op_page = page, op_limit = limit\<rparr>)"

definition getFlaggedConfessions :: "nat \<Rightarrow> nat \<Rightarrow> confession_state \<Rightarrow> confession offset_page" where
  "getFlaggedConfessions page limit st =
     (let flagged = filter (\<lambda>c. \<not> co_isDeleted c \<and> (co_requiresReview c \<or> co_moderationStatus c = MFlagged)) (cs_confessions st)
      in \<lparr>op_data = skip_take ((page - 1) * limit) limit (order_desc co_created_at flagged),
          op_total = length flagged, op_page = page, op_limit = limit\<rparr>)"

definition confessions_findAll :: "confession_env \<Rightarrow> confession_state \<Rightarrow> (ident \<times> string \<times> ms) list outcome" where
  "confessions_findAll env st =
     traverse (\<lambda>c. case decrypt_row env c of Inl e \<Rightarrow> Inl e | Inr m \<Rightarrow> Inr (co_id c, m, co_created_at c))
       (applyNewestFeedOrder co_created_at co_id (filter (\<lambda>c. \<not> co_isDeleted c) (cs_confessions st)))"

definition live_confession :: "ident \<Rightarrow> confession_state \<Rightarrow> confession option" where
  "live_confession i st = find_one (\<lambda>c. co_id c = i \<and> \<not> co_isDeleted c) (cs_confessions st)"

definition confessions_findOne :: "confession_env \<Rightarrow> ident \<Rightarrow> confession_state \<Rightarrow> (ident \<times> string \<times> ms) outcome" where
  "confessions_findOne env i st =
     (case live_confession i st of
        None \<Rightarrow> Inl (NotFoundException (''Confession with ID '' @ i @ '' not found''))
      | Some c \<Rightarrow> (case decrypt_row env c of Inl e \<Rightarrow> Inl e | Inr m \<Rightarrow> Inr (co_id c, m, co_created_at c)))"

section \<open>One confession\<close>

text \<open>
  A request for one confession reads the row, counts the view, reads the row again if it counted, and
  puts what it answers into the cache.  \<open>view_load\<close> is everything up to the cache, which is written
  at the end by \<open>view_store\<close>.
\<close>

definition shown_reactions :: "confession \<Rightarrow> confession_state \<Rightarrow> reaction list" where
  "shown_reactions c st =
     (case author_user c st of
        Some u \<Rightarrow> if shouldShowReactions u then reactions_of (co_id c) st else []
      | None \<Rightarrow> reactions_of (co_id c) st)"

definition selected_view :: "confession \<Rightarrow> string \<Rightarrow> confession_state \<Rightarrow> shown" where
  "selected_view c message st =
     Selected \<lparr>vw_id = co_id c, vw_message = message, vw_gender = co_gender c, vw_created_at = co_created_at c,
               vw_view_count = co_view_count c, vw_moderationStatus = co_moderationStatus c\<rparr>
       (shown_reactions c st) (author_user c st)"

definition incrementViewCountAtomically :: "ident \<Rightarrow> confession_state \<Rightarrow> confession_state" where
  "incrementViewCountAtomically i st =
     st\<lparr>cs_confessions := update_where (\<lambda>c. co_id c = i) (\<lambda>c. c\<lparr>co_view_count := co_view_count c + 1\<rparr>) (cs_confessions st)\<rparr>"

definition view_load ::
  "confession_env \<Rightarrow> ident \<Rightarrow> string \<Rightarrow> ms \<Rightarrow> confession_state \<Rightarrow> shown outcome \<times> confession_state" where
  "view_load env i userOrIp now st =
     (case find_one (\<lambda>c. co_id c = i \<and> \<not> co_isDeleted c \<and> \<not> co_isHidden c) (cs_confessions st) of
        None \<Rightarrow> (Inl (NotFoundException ''Confession not found''), st)
      | Some conf \<Rightarrow>
          (case checkAndMarkView (ce_up env) (ce_viewExpiry env) i userOrIp now (cs_views st) of
             (True, vs) \<Rightarrow>
               (let st1 = incrementViewCountAtomically i (st\<lparr>cs_views := vs\<rparr>) in
                case find_one (\<lambda>c. co_id c = i) (cs_confessions st1) of
                  None \<Rightarrow> (Inr Null, st1)
                | Some updated \<Rightarrow>
                    (case decrypt_row env updated of
                       Inl e \<Rightarrow> (Inl e, st1)
                     | Inr message \<Rightarrow> (Inr (Whole (updated\<lparr>co_message := message\<rparr>) (shown_reactions updated st1) (author_user updated st1)), st1)))
           | (False, vs) \<Rightarrow>
               (case decrypt_row env conf of
                  Inl e \<Rightarrow> (Inl e, st\<lparr>cs_views := vs\<rparr>)
                | Inr message \<Rightarrow> (Inr (selected_view conf message st), st\<lparr>cs_views := vs\<rparr>))))"

definition view_store :: "confession_env \<Rightarrow> ident \<Rightarrow> shown \<Rightarrow> ms \<Rightarrow> confession_state \<Rightarrow> confession_state" where
  "view_store env i v now st =
     st\<lparr>cs_cache := cache_set (ce_up env) (single_key i) (Single v) CONFESSION_SINGLE now (cs_cache st)\<rparr>"

definition getConfessionByIdWithViewCount ::
  "confession_env \<Rightarrow> ident \<Rightarrow> string \<Rightarrow> ms \<Rightarrow> confession_state \<Rightarrow> shown outcome \<times> confession_state" where
  "getConfessionByIdWithViewCount env i userOrIp now st =
     (case cache_get (ce_up env) (single_key i) now (cs_cache st) of
        Some (Single (Selected v rs u)) \<Rightarrow> (Inr (Selected v rs u), st)
      | Some (Single (Whole c rs u)) \<Rightarrow> (Inr (Whole c rs u), st)
      | _ \<Rightarrow>
          (case view_load env i userOrIp now st of
             (Inl e, st1) \<Rightarrow> (Inl e, st1)
           | (Inr v, st1) \<Rightarrow> (Inr v, view_store env i v now st1)))"

section \<open>Changes\<close>

definition set_rows :: "ident \<Rightarrow> (confession \<Rightarrow> confession) \<Rightarrow> confession_state \<Rightarrow> confession_state" where
  "set_rows i f st = st\<lparr>cs_confessions := update_where (\<lambda>c. co_id c = i) f (cs_confessions st)\<rparr>"

record update_dto =
  ud_message :: "string option"
  ud_gender :: "string option"
  ud_tags :: "string list option"
  ud_stellarTxHash :: "string option"
  ud_idempotencyKey :: "string option"

text \<open>\<open>...dto\<close>: the columns the body names.  \<open>tags\<close> is no column, and the unique columns reject a value another row has.\<close>

definition with_dto :: "update_dto \<Rightarrow> string option \<Rightarrow> confession \<Rightarrow> confession" where
  "with_dto dto message c =
     c\<lparr>co_message := nullish message (co_message c),
       co_gender := (if ud_gender dto = None then co_gender c else ud_gender dto),
       co_stellarTxHash := (if ud_stellarTxHash dto = None then co_stellarTxHash c else ud_stellarTxHash dto),
       co_idempotencyKey := (if ud_idempotencyKey dto = None then co_idempotencyKey c else ud_idempotencyKey dto)\<rparr>"

definition with_moderation :: "moderation_result \<Rightarrow> confession \<Rightarrow> confession" where
  "with_moderation r c =
     c\<lparr>co_moderationScore := mr_score r, co_moderationFlags := mr_flags r, co_moderationStatus := mr_status r,
       co_requiresReview := mr_requiresReview r, co_isHidden := (mr_status r = MRejected), co_moderationDetails := mr_details r\<rparr>"

definition dto_rejected :: "update_dto \<Rightarrow> ident \<Rightarrow> confession list \<Rightarrow> exn option" where
  "dto_rejected dto i t =
     (let others = filter (\<lambda>c. co_id c \<noteq> i) t in
      if ud_tags dto \<noteq> None then Some (PlainError ''Property tags was not found in AnonymousConfession'')
      else if (ud_stellarTxHash dto \<noteq> None \<and> ud_stellarTxHash dto \<in> co_stellarTxHash ` set others) \<or>
              (ud_idempotencyKey dto \<noteq> None \<and> ud_idempotencyKey dto \<in> co_idempotencyKey ` set others)
      then Some (PlainError ''duplicate key value violates unique constraint'') else None)"

definition read_back :: "confession_env \<Rightarrow> ident \<Rightarrow> confession_state \<Rightarrow> confession option outcome" where
  "read_back env i st =
     (case find_one (\<lambda>c. co_id c = i) (cs_confessions st) of
        None \<Rightarrow> Inr None
      | Some c \<Rightarrow> (case decrypt_row env c of Inl e \<Rightarrow> Inl e | Inr m \<Rightarrow> Inr (Some (c\<lparr>co_message := m\<rparr>))))"

definition confession_update ::
  "confession_env \<Rightarrow> ident \<Rightarrow> update_dto \<Rightarrow> string \<Rightarrow> ident \<Rightarrow> ms \<Rightarrow> confession_state \<Rightarrow> confession option outcome \<times> confession_state" where
  "confession_update env i dto iv newLog now st =
     (case live_confession i st of
        None \<Rightarrow> (Inl (NotFoundException (''Confession '' @ i @ '' not found'')), st)
      | Some _ \<Rightarrow>
          if truthy (ud_message dto) then
            (let sanitized = js_trim (ce_sanitize env (the (ud_message dto))) in
             if sanitized = [] then (Inl (BadRequestException ''Invalid content''), st)
             else case moderate env sanitized now st of (result, st1) \<Rightarrow>
               (case encryptConfession (ce_seal env) iv sanitized (ce_aesKey env) of
                  Inl e \<Rightarrow> (Inl e, st1)
                | Inr m \<Rightarrow>
                    (case dto_rejected dto i (cs_confessions st1) of
                       Some e \<Rightarrow> (Inl e, st1)
                     | None \<Rightarrow>
                         (let st2 = set_rows i (\<lambda>c. with_moderation result (with_dto dto (Some m) c)) st1;
                              st3 = st2\<lparr>cs_logs := snd (createLog newLog sanitized result (Some i) None (Some ''openai'') now (cs_logs st2))\<rparr>;
                              st4 = invalidate env i st3
                          in (read_back env i st4, st4)))))
          else
            (case dto_rejected dto i (cs_confessions st) of
               Some e \<Rightarrow> (Inl e, st)
             | None \<Rightarrow>
                 (let st1 = invalidate env i (set_rows i (with_dto dto (ud_message dto)) st) in (read_back env i st1, st1))))"

definition deleted_by :: "string option \<Rightarrow> ms \<Rightarrow> confession \<Rightarrow> confession" where
  "deleted_by who now c = c\<lparr>co_isDeleted := True, co_deletedAt := Some now, co_deletedBy := who\<rparr>"

definition undeleted :: "confession \<Rightarrow> confession" where
  "undeleted c = c\<lparr>co_isDeleted := False, co_deletedAt := None, co_deletedBy := None\<rparr>"

definition confession_remove ::
  "confession_env \<Rightarrow> ident \<Rightarrow> string option \<Rightarrow> ms \<Rightarrow> confession_state \<Rightarrow> unit outcome \<times> confession_state" where
  "confession_remove env i deletedBy now st =
     (case live_confession i st of
        None \<Rightarrow> (Inl (NotFoundException (''Confession '' @ i @ '' not found'')), st)
      | Some _ \<Rightarrow> (Inr (), invalidate env i (set_rows i (deleted_by (if truthy deletedBy then deletedBy else None) now) st)))"

definition confession_restore :: "confession_env \<Rightarrow> ident \<Rightarrow> confession_state \<Rightarrow> unit outcome \<times> confession_state" where
  "confession_restore env i st =
     (case find_one (\<lambda>c. co_id c = i \<and> co_isDeleted c) (cs_confessions st) of
        None \<Rightarrow> (Inl (NotFoundException (''Soft-deleted confession '' @ i @ '' not found'')), st)
      | Some _ \<Rightarrow> (Inr (), invalidate env i (set_rows i undeleted st)))"

definition deleteConfession :: "confession_env \<Rightarrow> ident \<Rightarrow> string \<Rightarrow> ms \<Rightarrow> confession_state \<Rightarrow> unit outcome \<times> confession_state" where
  "deleteConfession env i userId now st =
     (case find_one (\<lambda>c. co_id c = i) (cs_confessions st) of
        None \<Rightarrow> (Inl (NotFoundException ''Confession not found''), st)
      | Some _ \<Rightarrow> (Inr (), invalidate env i (set_rows i (deleted_by (Some userId) now) st)))"

definition restoreConfession :: "confession_env \<Rightarrow> ident \<Rightarrow> confession_state \<Rightarrow> unit outcome \<times> confession_state" where
  "restoreConfession env i st =
     (case find_one (\<lambda>c. co_id c = i) (cs_confessions st) of
        None \<Rightarrow> (Inl (NotFoundException ''Confession not found''), st)
      | Some _ \<Rightarrow> (Inr (), invalidate env i (set_rows i undeleted st)))"

definition decided :: "moderation_status \<Rightarrow> confession \<Rightarrow> confession" where
  "decided status c = c\<lparr>co_moderationStatus := status, co_isHidden := (status = MRejected), co_requiresReview := False\<rparr>"

definition updateModerationStatus ::
  "confession_env \<Rightarrow> ident \<Rightarrow> moderation_status \<Rightarrow> string \<Rightarrow> string option \<Rightarrow> ms \<Rightarrow> confession_state \<Rightarrow> confession outcome \<times> confession_state" where
  "updateModerationStatus env i status moderatorId notes now st =
     (case find_one (\<lambda>c. co_id c = i) (cs_confessions st) of
        None \<Rightarrow> (Inl (NotFoundException ''Confession not found''), st)
      | Some c \<Rightarrow>
          (let updated = decided status c;
               st1 = invalidate env i (st\<lparr>cs_confessions := save_row co_id updated (cs_confessions st)\<rparr>)
           in case latest_log i (cs_logs st1) of
                None \<Rightarrow> (Inr updated, st1)
              | Some l \<Rightarrow>
                  (case updateReview (ml_id l) status moderatorId notes now (cs_logs st1) of
                     (Inl e, _) \<Rightarrow> (Inl e, st1)
                   | (Inr _, logs) \<Rightarrow> (Inr updated, st1\<lparr>cs_logs := logs\<rparr>))))"

section \<open>Anchoring\<close>

datatype anchor_answer =
    AlreadyPending ident string "string option"
  | Submitted "confession option"

definition anchored_with :: "string \<Rightarrow> string \<Rightarrow> confession \<Rightarrow> confession" where
  "anchored_with tx h c = c\<lparr>co_stellarTxHash := Some tx, co_stellarHash := Some h\<rparr>"

definition anchorConfession ::
  "confession_env \<Rightarrow> ident \<Rightarrow> string \<Rightarrow> ms \<Rightarrow> confession_state \<Rightarrow> anchor_answer outcome \<times> confession_state" where
  "anchorConfession env i txHash now st =
     (case live_confession i st of
        None \<Rightarrow> (Inl (NotFoundException (''Confession '' @ i @ '' not found'')), st)
      | Some c \<Rightarrow>
          if co_isAnchored c then (Inl (BadRequestException ''Confession is already anchored on Stellar''), st)
          else if truthy (co_stellarTxHash c) \<and> co_stellarTxHash c = Some txHash
          then (Inr (AlreadyPending i txHash (co_stellarHash c)), st)
          else if \<not> isValidTxHash txHash then (Inl (BadRequestException ''Invalid Stellar transaction hash format''), st)
          else (case decrypt_row env c of
                  Inl e \<Rightarrow> (Inl e, st)
                | Inr message \<Rightarrow>
                    (case processAnchorData (ce_sha env) message txHash now of
                       None \<Rightarrow> (Inl (BadRequestException ''Failed to process anchoring data''), st)
                     | Some (tx, h, _) \<Rightarrow>
                         if Some tx \<in> co_stellarTxHash ` set (filter (\<lambda>x. co_id x \<noteq> i) (cs_confessions st))
                         then (Inl (ConflictException ''Duplicate Stellar transaction hash detected for this confession.''), st)
                         else (let st1 = drop_single env i (set_rows i (anchored_with tx h) st)
                               in (map_sum id Submitted (read_back env i st1), st1)))))"

record anchor_status =
  an_isAnchored :: bool
  an_anchorPending :: bool
  an_isVerified :: bool
  an_stellarTxHash :: "string option"
  an_anchoredAt :: "ms option"

definition verifyStellarAnchor ::
  "confession_env \<Rightarrow> ident \<Rightarrow> ms \<Rightarrow> confession_state \<Rightarrow> anchor_status outcome \<times> confession_state" where
  "verifyStellarAnchor env i now st =
     (case live_confession i st of
        None \<Rightarrow> (Inl (NotFoundException (''Confession '' @ i @ '' not found'')), st)
      | Some c \<Rightarrow>
          if \<not> truthy (co_stellarTxHash c)
          then (Inr \<lparr>an_isAnchored = False, an_anchorPending = False, an_isVerified = False, an_stellarTxHash = None, an_anchoredAt = None\<rparr>, st)
          else
            (let txSucceeded = ce_verifyTransaction env (the (co_stellarTxHash c));
                 isVerified = (txSucceeded \<and> truthy (co_stellarHash c) \<and> ce_onChain env (the (co_stellarHash c)));
                 promote = (\<not> co_isAnchored c \<and> isVerified);
                 c' = (if promote then c\<lparr>co_isAnchored := True, co_anchoredAt := Some now\<rparr> else c);
                 st1 = (if promote then drop_single env i (set_rows i (\<lambda>x. x\<lparr>co_isAnchored := True, co_anchoredAt := Some now\<rparr>) st) else st)
             in (Inr \<lparr>an_isAnchored = co_isAnchored c', an_anchorPending = (\<not> co_isAnchored c'), an_isVerified = isVerified,
                      an_stellarTxHash = co_stellarTxHash c, an_anchoredAt = co_anchoredAt c'\<rparr>, st1)))"

end
