(* ===== verification/Confession_Cache.thy ===== *)
theory Confession_Cache
  imports Confessions
begin

text \<open>
  What the confession service keeps true while requests come and go: rows are encrypted, the unique
  columns stay unique, and whatever the cache holds is what the table would answer now.  A step relation
  runs every operation of \<^verbatim>\<open>confession/confession.service.ts\<close> that touches rows or cache, and the
  moderation webhook; each request runs as a whole.
\<close>

section \<open>Requests\<close>

text \<open>The webhook on the state of the confessions: its effects evict.\<close>

definition evictions :: "confession_env \<Rightarrow> webhook_effect list \<Rightarrow> confession_state \<Rightarrow> confession_state" where
  "evictions env effs st = foldl (\<lambda>s e. case e of InvalidateEntry i \<Rightarrow> invalidate env i s | _ \<Rightarrow> s) st effs"

definition deliver ::
  "confession_env \<Rightarrow> (string \<Rightarrow> string \<Rightarrow> string) \<Rightarrow> (string \<Rightarrow> rat option) \<Rightarrow> webhook_config \<Rightarrow> (string \<times> ms) list \<Rightarrow>
     payload \<Rightarrow> string option \<Rightarrow> ident \<Rightarrow> ms \<Rightarrow> confession_state \<Rightarrow> webhook_answer outcome \<times> confession_state" where
  "deliver env hmac num cfg events p sig newId now st =
     (case handleModerationResults (ce_sha env) hmac num cfg p sig newId now
             \<lparr>ws_events = events, ws_confessions = cs_confessions st, ws_logs = cs_logs st\<rparr> of
        (answer, effs, ws) \<Rightarrow>
          (answer, evictions env effs (st\<lparr>cs_confessions := ws_confessions ws, cs_logs := ws_logs ws\<rparr>)))"

text \<open>
  \<open>surroundings\<close> stands for the other services, which write reactions, comments, identities, accounts
  and tags.  Ids of new confessions are fresh, and the validated body of an edit holds no empty message.
\<close>

inductive conf_step :: "confession_env \<Rightarrow> confession_state \<Rightarrow> confession_state \<Rightarrow> bool" for env where
  create: "xf_id fresh \<notin> co_id ` set (cs_confessions st) \<Longrightarrow>
     conf_step env st (snd (snd (confession_create env dto chk fresh now records st)))"
| edit: "ud_message dto \<noteq> Some [] \<Longrightarrow> conf_step env st (snd (confession_update env i dto iv newLog now st))"
| remove: "conf_step env st (snd (confession_remove env i deletedBy now st))"
| restore: "conf_step env st (snd (confession_restore env i st))"
| "delete": "conf_step env st (snd (deleteConfession env i userId now st))"
| undelete: "conf_step env st (snd (restoreConfession env i st))"
| decide: "conf_step env st (snd (updateModerationStatus env i status moderatorId notes now st))"
| webhook: "conf_step env st (snd (deliver env hmac num cfg events p sig newId now st))"
| anchor: "conf_step env st (snd (anchorConfession env i txHash now st))"
| verify: "conf_step env st (snd (verifyStellarAnchor env i now st))"
| view: "conf_step env st (snd (getConfessionByIdWithViewCount env i userOrIp now st))"
| feed: "conf_step env st (snd (loadConfessionsFeed env q now st))"
| surroundings: "conf_step env st
     (st\<lparr>cs_reactions := rs, cs_comments := ks, cs_anon := an, cs_users := us, cs_tags := ts, cs_requests := reqs\<rparr>)"

inductive conf_reachable :: "confession_env \<Rightarrow> confession_state \<Rightarrow> bool" for env where
  start: "cs_confessions st = [] \<Longrightarrow> cs_cache st = [] \<Longrightarrow> conf_reachable env st"
| step: "conf_reachable env st \<Longrightarrow> conf_step env st st' \<Longrightarrow> conf_reachable env st'"

section \<open>The invariant\<close>

text \<open>A text is current for an id if a stored row with that id shows it; \<open>listable\<close> rows may appear in a feed.\<close>

definition visible :: "confession \<Rightarrow> bool" where
  "visible c \<longleftrightarrow> \<not> co_isDeleted c \<and> \<not> co_isHidden c"

definition listable :: "confession \<Rightarrow> bool" where
  "listable c \<longleftrightarrow> visible c \<and> co_moderationStatus c \<in> {MApproved, MPending}"

definition current :: "(confession \<Rightarrow> bool) \<Rightarrow> confession_env \<Rightarrow> confession list \<Rightarrow> ident \<Rightarrow> string \<Rightarrow> bool" where
  "current ok env t i message = list_ex (\<lambda>c. co_id c = i \<and> ok c \<and> decrypt_row env c = Inr message) t"

fun entry_ok :: "confession_env \<Rightarrow> confession list \<Rightarrow> string \<times> cached \<times> ms \<Rightarrow> bool" where
  "entry_ok env t (k, Single (Selected v rs u), e) = (k = single_key (vw_id v) \<and> current visible env t (vw_id v) (vw_message v))"
| "entry_ok env t (k, Single (Whole c rs u), e) = (k = single_key (co_id c) \<and> current visible env t (co_id c) (co_message c))"
| "entry_ok env t (k, Single Null, e) = True"
| "entry_ok env t (k, Page p, e) =
     (starts_with k listPrefix \<and> list_all (\<lambda>s. current listable env t (sl_id s) (sl_message s)) (cp_data p))"

definition coherent :: "confession_env \<Rightarrow> confession list \<Rightarrow> cached cache \<Rightarrow> bool" where
  "coherent env t c = list_all (entry_ok env t) c"

text \<open>A stored text is one the service sealed under its key.\<close>

definition sealed :: "confession_env \<Rightarrow> string \<Rightarrow> bool" where
  "sealed env m \<longleftrightarrow> (\<exists>iv text. encryptConfession (ce_seal env) iv text (ce_aesKey env) = Inr m)"

definition rows_ok :: "confession_env \<Rightarrow> confession list \<Rightarrow> bool" where
  "rows_ok env t \<longleftrightarrow> distinct (map co_id t) \<and> list_all (\<lambda>c. sealed env (co_message c)) t \<and>
     uniq_on co_stellarTxHash t \<and> uniq_on co_idempotencyKey t"

definition conf_inv :: "confession_env \<Rightarrow> confession_state \<Rightarrow> bool" where
  "conf_inv env st \<longleftrightarrow> rows_ok env (cs_confessions st) \<and> coherent env (cs_confessions st) (cs_cache st)"

subsection \<open>Coherence\<close>

text \<open>The columns a cached answer depends on.\<close>

definition face :: "confession \<Rightarrow> ident \<times> bool \<times> bool \<times> moderation_status \<times> string" where
  "face c = (co_id c, co_isDeleted c, co_isHidden c, co_moderationStatus c, co_message c)"

lemma face_eq:
  "face c = face d \<Longrightarrow> co_id c = co_id d \<and> visible c = visible d \<and> listable c = listable d \<and> decrypt_row env c = decrypt_row env d"
  by (simp add: face_def visible_def listable_def decrypt_row_def)

lemma current_keep:
  assumes "current ok env t i m" "ok = visible \<or> ok = listable" "\<And>c. c \<in> set t \<Longrightarrow> co_id c = i \<Longrightarrow> face c \<in> face ` set u"
  shows "current ok env u i m"
proof -
  obtain c where c: "c \<in> set t" "co_id c = i" "ok c" "decrypt_row env c = Inr m"
    using assms(1) by (auto simp: current_def list_ex_iff)
  obtain d where "d \<in> set u" "face c = face d" using assms(3)[OF c(1,2)] by blast
  with c assms(2) face_eq[of c d env] show ?thesis by (auto simp: current_def list_ex_iff)
qed

text \<open>An entry stays right if the rows of the ids it shows keep their face.\<close>

lemma entry_keep:
  assumes "entry_ok env t e"
    and "\<And>x. x \<in> set t \<Longrightarrow> fst e = single_key (co_id x) \<or> starts_with (fst e) listPrefix \<Longrightarrow> face x \<in> face ` set u"
  shows "entry_ok env u e"
proof -
  note keep = current_keep[of visible env t _ _ u] current_keep[of listable env t _ _ u]
  show ?thesis
  proof (cases "(env, t, e)" rule: entry_ok.cases)
    case (1 env t k v rs us x)
    with assms keep(1)[of "vw_id v"] show ?thesis by simp
  next
    case (2 env t k c rs us x)
    with assms keep(1)[of "co_id c"] show ?thesis by simp
  next
    case (4 env t k p x)
    with assms keep(2) show ?thesis by (simp add: list_all_iff)
  qed simp
qed

lemma coherent_keep: "coherent env t c \<Longrightarrow> face ` set t \<subseteq> face ` set u \<Longrightarrow> coherent env u c"
  unfolding coherent_def list_all_iff using entry_keep[of env t _ u] by (meson imageI subsetD)

lemma coherent_subset: "coherent env t c \<Longrightarrow> set d \<subseteq> set c \<Longrightarrow> coherent env t d"
  by (auto simp: coherent_def list_all_iff)

lemma coherent_Nil [simp]: "coherent env t []"
  by (simp add: coherent_def)

lemma coherent_del: "coherent env t c \<Longrightarrow> coherent env t (cache_del up k c)"
  by (erule coherent_subset) (auto simp: cache_del_def)

lemma coherent_pattern: "coherent env t c \<Longrightarrow> coherent env t (delPattern up k c)"
  by (erule coherent_subset) (auto simp: delPattern_def)

lemma coherent_set: "coherent env t c \<Longrightarrow> entry_ok env t (k, v, now + ttl * 1000) \<Longrightarrow> coherent env t (cache_set up k v ttl now c)"
  by (auto simp: coherent_def cache_set_def list_all_iff)

lemma coherent_get:
  assumes "coherent env t c" "cache_get up k now c = Some v"
  obtains e where "entry_ok env t (k, v, e)"
  using assms by (auto simp: coherent_def cache_get_def list_all_iff split: if_splits option.splits prod.splits dest!: map_of_SomeD)

text \<open>Rows of one id change and the entries that may show them go.\<close>

lemma in_invalidated:
  "e \<in> set (invalidateConfessionEntry True i c) \<longleftrightarrow> e \<in> set c \<and> fst e \<noteq> single_key i \<and> \<not> starts_with (fst e) listPrefix"
  by (auto simp: invalidateConfessionEntry_def invalidateConfessionCache_def delPattern_def cache_del_def)

lemma coherent_invalidated:
  assumes "coherent env t c" "\<And>x. x \<in> set t \<Longrightarrow> co_id x \<noteq> i \<Longrightarrow> x \<in> set u"
  shows "coherent env u (invalidateConfessionEntry True i c)"
  unfolding coherent_def list_all_iff
proof
  fix e assume "e \<in> set (invalidateConfessionEntry True i c)"
  then have e: "entry_ok env t e" "fst e \<noteq> single_key i" "\<not> starts_with (fst e) listPrefix"
    using assms(1) by (auto simp: in_invalidated coherent_def list_all_iff)
  then show "entry_ok env u e"
    by (elim entry_keep) (auto intro!: imageI assms(2))
qed

subsection \<open>Rows\<close>

lemma sealedI: "encryptConfession (ce_seal env) iv text (ce_aesKey env) = Inr m \<Longrightarrow> sealed env m"
  by (auto simp: sealed_def)

lemma uniq_on_update_id:
  assumes "distinct (map kid t)" "uniq_on key t" "\<And>r. kid (f r) = kid r"
    and fresh: "\<And>r q k. r \<in> set t \<Longrightarrow> q \<in> set t \<Longrightarrow> kid r = i \<Longrightarrow> kid q \<noteq> i \<Longrightarrow> key (f r) = Some k \<Longrightarrow> key q \<noteq> Some k"
  shows "uniq_on key (update_where (\<lambda>r. kid r = i) f t)"
  using assms(1,2) fresh
proof (induction t)
  case (Cons r t)
  have ih: "uniq_on key (update_where (\<lambda>r. kid r = i) f t)"
    using Cons.prems(2) by (intro Cons.IH Cons.prems(3)) (use Cons.prems(1) in \<open>auto simp: uniq_on_def split: option.splits\<close>)
  have "key x \<noteq> Some k" if "x \<in> set (update_where (\<lambda>r. kid r = i) f t)" "key (if kid r = i then f r else r) = Some k" for x k
    using that(1)
  proof (cases rule: in_update_whereE)
    case (hit q)
    then have "kid r \<noteq> i" using Cons.prems(1) by auto
    with hit that(2) Cons.prems(3)[of q r] show ?thesis by auto
  next
    case miss
    with that(2) Cons.prems(2) Cons.prems(3)[of r x] show ?thesis
      by (cases "kid r = i") (auto simp: uniq_on_def set_keys_of)
  qed
  with ih show ?case by (auto simp: uniq_on_def set_keys_of split: option.splits)
qed simp

lemma rows_ok_update:
  assumes t: "rows_ok env t" and f: "\<And>c. co_id (f c) = co_id c"
    "\<And>c. sealed env (co_message c) \<Longrightarrow> sealed env (co_message (f c))"
    and tx: "\<And>r q k. r \<in> set t \<Longrightarrow> q \<in> set t \<Longrightarrow> co_id r = i \<Longrightarrow> co_id q \<noteq> i \<Longrightarrow> co_stellarTxHash (f r) = Some k \<Longrightarrow> co_stellarTxHash q \<noteq> Some k"
    and ik: "\<And>r q k. r \<in> set t \<Longrightarrow> q \<in> set t \<Longrightarrow> co_id r = i \<Longrightarrow> co_id q \<noteq> i \<Longrightarrow> co_idempotencyKey (f r) = Some k \<Longrightarrow> co_idempotencyKey q \<noteq> Some k"
  shows "rows_ok env (update_where (\<lambda>c. co_id c = i) f t)"
proof -
  let ?u = "update_where (\<lambda>c. co_id c = i) f t"
  have "map co_id ?u = map co_id t" using f(1) by (intro map_update_where) simp
  moreover have "sealed env (co_message c)" if "c \<in> set ?u" for c
    using that by (rule in_update_whereE) (use t f(2) in \<open>auto simp: rows_ok_def list_all_iff\<close>)
  moreover have "uniq_on co_stellarTxHash ?u" "uniq_on co_idempotencyKey ?u"
    using t f(1) tx ik by (auto simp: rows_ok_def intro!: uniq_on_update_id)
  ultimately show ?thesis using t by (simp add: rows_ok_def list_all_iff)
qed

lemma rows_ok_other:
  assumes "rows_ok env t" "r \<in> set t" "q \<in> set t" "co_id r = i" "co_id q \<noteq> i"
  shows "co_stellarTxHash r = Some k \<Longrightarrow> co_stellarTxHash q \<noteq> Some k" "co_idempotencyKey r = Some k \<Longrightarrow> co_idempotencyKey q \<noteq> Some k"
  using assms uniq_on_eq[of co_stellarTxHash t r q] uniq_on_eq[of co_idempotencyKey t r q] by (auto simp: rows_ok_def)

text \<open>Changes that leave id, ciphertext and unique columns alone.\<close>

definition tame :: "(confession \<Rightarrow> confession) \<Rightarrow> bool" where
  "tame f \<longleftrightarrow> (\<forall>c. co_id (f c) = co_id c \<and> co_message (f c) = co_message c \<and>
     co_stellarTxHash (f c) = co_stellarTxHash c \<and> co_idempotencyKey (f c) = co_idempotencyKey c)"

lemma rows_ok_tame: "rows_ok env t \<Longrightarrow> tame f \<Longrightarrow> rows_ok env (update_where (\<lambda>c. co_id c = i) f t)"
  by (rule rows_ok_update) (auto simp: tame_def dest: rows_ok_other)

lemma tame_changes:
  "tame (deleted_by who now)" "tame undeleted" "tame (decided status)" "tame (moderated num p m)"
  "tame (\<lambda>c. c\<lparr>co_view_count := co_view_count c + 1\<rparr>)"
  "tame (\<lambda>c. c\<lparr>co_isAnchored := True, co_anchoredAt := Some now\<rparr>)"
  by (simp_all add: tame_def deleted_by_def undeleted_def decided_def moderated_def)

text \<open>A change of rows is safe with the eviction, and without it if no face changes.\<close>

lemma inv_evicting:
  assumes "conf_inv env st" "ce_up env" "rows_ok env (update_where (\<lambda>c. co_id c = i) f (cs_confessions st))"
  shows "conf_inv env (invalidate env i (set_rows i f st))"
  using assms by (auto simp: conf_inv_def invalidate_def set_rows_def intro!: coherent_invalidated update_where_missI)

lemma inv_faces:
  assumes "conf_inv env st" "rows_ok env (update_where (\<lambda>c. co_id c = i) f (cs_confessions st))" "\<And>c. face (f c) = face c"
  shows "conf_inv env (set_rows i f st)"
proof -
  have "face ` set (cs_confessions st) \<subseteq> face ` set (update_where (\<lambda>c. co_id c = i) f (cs_confessions st))"
    using arg_cong[OF map_update_where[of "\<lambda>c. co_id c = i" face f "cs_confessions st"], of set] assms(3) by simp
  with assms(1,2) show ?thesis by (auto simp: conf_inv_def set_rows_def intro: coherent_keep)
qed

lemma inv_drop: "conf_inv env st \<Longrightarrow> conf_inv env (drop_single env i st)"
  by (simp add: conf_inv_def drop_single_def coherent_del)

lemma conf_inv_irrelevant [simp]:
  "conf_inv env (st\<lparr>cs_logs := ls\<rparr>) = conf_inv env st" "conf_inv env (st\<lparr>cs_views := vs\<rparr>) = conf_inv env st"
  "conf_inv env (st\<lparr>cs_requests := rq\<rparr>) = conf_inv env st"
  by (simp_all add: conf_inv_def)

lemmas inv_tame = inv_evicting[OF _ _ rows_ok_tame]

lemma conf_inv_rows: "conf_inv env st \<Longrightarrow> rows_ok env (cs_confessions st)"
  by (simp add: conf_inv_def)

subsection \<open>Every request keeps it\<close>

lemma moderate_state: "moderate env m now st = (r, st') \<Longrightarrow> \<exists>rq. st' = st\<lparr>cs_requests := rq\<rparr>"
  by (auto simp: moderate_def split: prod.splits)

lemma remove_inv [inv_intros]: "conf_inv env st \<Longrightarrow> ce_up env \<Longrightarrow> conf_inv env (snd (confession_remove env i who now st))"
  by (auto simp: confession_remove_def tame_changes conf_inv_rows intro: inv_tame split: option.split)

lemma restore_inv [inv_intros]: "conf_inv env st \<Longrightarrow> ce_up env \<Longrightarrow> conf_inv env (snd (confession_restore env i st))"
  by (auto simp: confession_restore_def tame_changes conf_inv_rows intro: inv_tame split: option.split)

lemma delete_inv [inv_intros]: "conf_inv env st \<Longrightarrow> ce_up env \<Longrightarrow> conf_inv env (snd (deleteConfession env i who now st))"
  by (auto simp: deleteConfession_def tame_changes conf_inv_rows intro: inv_tame split: option.split)

lemma undelete_inv [inv_intros]: "conf_inv env st \<Longrightarrow> ce_up env \<Longrightarrow> conf_inv env (snd (restoreConfession env i st))"
  by (auto simp: restoreConfession_def tame_changes conf_inv_rows intro: inv_tame split: option.split)

lemma saved_is_set:
  assumes "conf_inv env st" "c \<in> set (cs_confessions st)" "co_id c = i" "tame f"
  shows "st\<lparr>cs_confessions := save_row co_id (f c) (cs_confessions st)\<rparr> = set_rows i f st"
  using assms save_row_update[of co_id "cs_confessions st" c f] by (simp add: conf_inv_def rows_ok_def set_rows_def tame_def)

lemma decide_inv [inv_intros]:
  assumes "conf_inv env st" "ce_up env"
  shows "conf_inv env (snd (updateModerationStatus env i status who notes now st))"
proof (cases "find_one (\<lambda>c. co_id c = i) (cs_confessions st)")
  case None
  with assms show ?thesis by (simp add: updateModerationStatus_def)
next
  case (Some c)
  note c = saved_is_set[OF assms(1) conjunct1[OF find_one_SomeD[OF Some]] conjunct2[OF find_one_SomeD[OF Some]] tame_changes(3)]
  have "conf_inv env (invalidate env i (set_rows i (decided status) st))"
    using assms by (intro inv_tame tame_changes conf_inv_rows)
  with Some c show ?thesis
    by (auto simp: updateModerationStatus_def Let_def split: option.split prod.split sum.split)
qed

lemma verify_inv [inv_intros]: "conf_inv env st \<Longrightarrow> conf_inv env (snd (verifyStellarAnchor env i now st))"
  by (auto simp: verifyStellarAnchor_def Let_def face_def tame_changes conf_inv_rows split: option.split
      intro!: inv_drop inv_faces rows_ok_tame)

lemma anchor_inv [inv_intros]:
  assumes "conf_inv env st"
  shows "conf_inv env (snd (anchorConfession env i txHash now st))"
proof -
  have "conf_inv env (drop_single env i (set_rows i (anchored_with tx h) st))"
    if "Some tx \<notin> co_stellarTxHash ` set (filter (\<lambda>x. co_id x \<noteq> i) (cs_confessions st))" for tx h
  proof (intro inv_drop inv_faces assms rows_ok_update conf_inv_rows[OF assms])
    show "co_stellarTxHash q \<noteq> Some k"
      if "q \<in> set (cs_confessions st)" "co_id q \<noteq> i" "co_stellarTxHash (anchored_with tx h r) = Some k" for r q k
      using that \<open>Some tx \<notin> _\<close> by (force simp: anchored_with_def)
    show "co_idempotencyKey q \<noteq> Some k" if "r \<in> set (cs_confessions st)" "q \<in> set (cs_confessions st)" "co_id r = i" "co_id q \<noteq> i"
      "co_idempotencyKey (anchored_with tx h r) = Some k" for r q k
      using rows_ok_other(2)[OF conf_inv_rows[OF assms] that(1-4)] that(5) by (simp add: anchored_with_def)
  qed (simp_all add: anchored_with_def face_def)
  with assms show ?thesis
    by (auto simp: anchorConfession_def Let_def split: option.split sum.split prod.split)
qed

text \<open>Reading: what goes into the cache is what the table shows.\<close>

lemma current_row: "c \<in> set t \<Longrightarrow> ok c \<Longrightarrow> decrypt_row env c = Inr m \<Longrightarrow> current ok env t (co_id c) m"
  by (auto simp: current_def list_ex_iff)

definition shown_ok :: "confession_env \<Rightarrow> confession list \<Rightarrow> ident \<Rightarrow> shown \<Rightarrow> bool" where
  "shown_ok env t i v =
     (case v of
        Selected s _ _ \<Rightarrow> vw_id s = i \<and> current visible env t i (vw_message s)
      | Whole c _ _ \<Rightarrow> co_id c = i \<and> current visible env t i (co_message c)
      | Null \<Rightarrow> True)"

lemma shown_entry: "shown_ok env t i v \<Longrightarrow> entry_ok env t (single_key i, Single v, e)"
  by (cases v) (auto simp: shown_ok_def)

lemma entry_shown: "entry_ok env t (single_key i, Single v, e) \<Longrightarrow> shown_ok env t i v"
  by (cases v) (auto simp: shown_ok_def)

lemma view_count_inv: "conf_inv env st \<Longrightarrow> conf_inv env (incrementViewCountAtomically i st)"
  unfolding incrementViewCountAtomically_def set_rows_def[symmetric]
  by (rule inv_faces) (auto simp: face_def tame_def intro!: rows_ok_tame conf_inv_rows)

lemma view_load_ok:
  assumes "conf_inv env st" "view_load env i u now st = (res, st')"
  shows "conf_inv env st'" "res = Inr v \<Longrightarrow> shown_ok env (cs_confessions st') i v"
proof -
  let ?hit = "find_one (\<lambda>c. co_id c = i \<and> \<not> co_isDeleted c \<and> \<not> co_isHidden c) (cs_confessions st)"
  obtain counted vs where ck: "checkAndMarkView (ce_up env) (ce_viewExpiry env) i u now (cs_views st) = (counted, vs)" by force
  let ?st1 = "incrementViewCountAtomically i (st\<lparr>cs_views := vs\<rparr>)"
  have st1: "conf_inv env ?st1" using assms(1) by (intro view_count_inv) simp
  show "conf_inv env st'"
    using assms ck st1 by (auto simp: view_load_def Let_def split: option.splits sum.splits bool.splits)
  show "shown_ok env (cs_confessions st') i v" if v: "res = Inr v"
  proof (cases ?hit)
    case None
    with assms v show ?thesis by (simp add: view_load_def)
  next
    case (Some c)
    then have c: "c \<in> set (cs_confessions st)" "co_id c = i" "visible c"
      using find_one_SomeD[OF Some] by (auto simp: visible_def)
    show ?thesis
    proof (cases counted)
      case False
      with assms(2) ck Some v c show ?thesis
        by (auto simp: view_load_def selected_view_def shown_ok_def intro: current_row split: sum.splits)
    next
      case True
      let ?c = "c\<lparr>co_view_count := co_view_count c + 1\<rparr>"
      have in1: "?c \<in> set (cs_confessions ?st1)" "visible ?c" "co_id ?c = i" "decrypt_row env ?c = decrypt_row env c"
        using c by (auto simp: incrementViewCountAtomically_def visible_def decrypt_row_def intro!: update_where_hitI)
      have "find_one (\<lambda>x. co_id x = i) (cs_confessions ?st1) = Some ?c"
        using find_one_by_key[of co_id "cs_confessions ?st1" ?c] in1 st1 by (simp add: conf_inv_def rows_ok_def)
      with assms(2) ck Some v True in1 c(2) current_row[where ok = visible, OF in1(1,2)] show ?thesis
        by (auto simp: view_load_def shown_ok_def Let_def split: sum.splits)
    qed
  qed
qed

lemma view_ok:
  assumes "conf_inv env st" "getConfessionByIdWithViewCount env i u now st = (res, st')"
  shows "conf_inv env st' \<and> (\<forall>v. res = Inr v \<longrightarrow> shown_ok env (cs_confessions st') i v)"
proof (cases "\<exists>v. cache_get (ce_up env) (single_key i) now (cs_cache st) = Some (Single v) \<and> v \<noteq> Null")
  case True
  then obtain v where v: "cache_get (ce_up env) (single_key i) now (cs_cache st) = Some (Single v)" "v \<noteq> Null" by blast
  with assms(2) have "res = Inr v" "st' = st" by (auto simp: getConfessionByIdWithViewCount_def split: shown.splits)
  moreover have "shown_ok env (cs_confessions st) i v"
    using assms(1) v(1) by (auto simp: conf_inv_def elim!: coherent_get dest!: entry_shown)
  ultimately show ?thesis using assms(1) by simp
next
  case False
  then have miss: "getConfessionByIdWithViewCount env i u now st =
     (case view_load env i u now st of (Inl e, st1) \<Rightarrow> (Inl e, st1) | (Inr v, st1) \<Rightarrow> (Inr v, view_store env i v now st1))"
    by (auto simp: getConfessionByIdWithViewCount_def split: option.split cached.split shown.split)
  obtain r st1 where l: "view_load env i u now st = (r, st1)" by force
  note ok = view_load_ok[OF assms(1) l]
  show ?thesis
  proof (cases r)
    case (Inl e) with miss l assms(2) ok show ?thesis by auto
  next
    case (Inr v)
    with ok(2) have "shown_ok env (cs_confessions st1) i v" by simp
    with miss l assms(2) ok(1) Inr show ?thesis
      by (auto simp: view_store_def conf_inv_def intro!: coherent_set shown_entry)
  qed
qed

lemma traverse_mem: "traverse f xs = Inr ys \<Longrightarrow> y \<in> set ys \<Longrightarrow> \<exists>x \<in> set xs. f x = Inr y"
  by (induction xs arbitrary: ys) (auto split: sum.splits)

lemma set_feed_order [simp]: "set (feed_order so st rows) = set rows"
  by (simp add: feed_order_def applyNewestFeedOrder_def)

lemma feed_items_rows: "feed_items env so cursor page limit st rows = Inr (items, offset) \<Longrightarrow> set items \<subseteq> set rows"
  by (auto simp: feed_items_def Let_def split: sum.splits option.splits dest!: in_set_takeD in_set_dropD)

lemma feed_page_rows:
  assumes "feed_page env show so cursor page limit st rows = Inr p"
  shows "\<forall>x \<in> set (cp_data p). \<exists>c \<in> set rows. show c = Inr x"
proof
  fix x assume x: "x \<in> set (cp_data p)"
  obtain items offset data where f: "feed_items env so cursor page limit st rows = Inr (items, offset)"
      "traverse show (if length items > limit then take limit items else items) = Inr data" "cp_data p = data"
    using assms by (auto simp: feed_page_def CursorPaginatedResponseDto_def Let_def split: sum.splits prod.splits)
  have "\<exists>c \<in> set (if length items > limit then take limit items else items). show c = Inr x"
    using traverse_mem[OF f(2)] x f(3) by blast
  with feed_items_rows[OF f(1)] show "\<exists>c \<in> set rows. show c = Inr x"
    by (auto split: if_splits dest!: in_set_takeD)
qed

lemma feed_key_listed: "starts_with (feed_cache_key q) listPrefix"
  by (simp add: feed_cache_key_def listPrefix_def)

definition page_ok :: "confession_env \<Rightarrow> confession list \<Rightarrow> slim_confession cursor_page \<Rightarrow> bool" where
  "page_ok env t p = list_all (\<lambda>s. current listable env t (sl_id s) (sl_message s)) (cp_data p)"

lemma feed_visible_listable: "feed_visible g now st c \<Longrightarrow> listable c"
  by (simp add: feed_visible_def listable_def visible_def)

lemma slim_row_current:
  "c \<in> set t \<Longrightarrow> listable c \<Longrightarrow> slim_row env st c = Inr s \<Longrightarrow> current listable env t (sl_id s) (sl_message s)"
  by (auto simp: slim_row_def mapToSlimConfession_def intro: current_row split: sum.splits)

lemma feed_ok:
  assumes "conf_inv env st" "loadConfessionsFeed env q now st = (res, st')"
  shows "conf_inv env st' \<and> (\<forall>p. res = Inr p \<longrightarrow> page_ok env (cs_confessions st') p)"
proof (cases "\<exists>p. cache_get (ce_up env) (feed_cache_key q) now (cs_cache st) = Some (Page p)")
  case True
  then obtain p where p: "cache_get (ce_up env) (feed_cache_key q) now (cs_cache st) = Some (Page p)" by blast
  with assms(2) have "res = Inr p" "st' = st" by (auto simp: loadConfessionsFeed_def)
  moreover have "page_ok env (cs_confessions st) p"
    using assms(1) p by (auto simp: conf_inv_def page_ok_def elim!: coherent_get)
  ultimately show ?thesis using assms(1) by simp
next
  case False
  let ?rows = "filter (feed_visible (fq_gender q) now st) (cs_confessions st)"
  let ?page = "feed_page env (slim_row env st) (nullish (fq_sort q) Newest) (fq_cursor q) (fq_page q) (nullish (fq_limit q) 10) st ?rows"
  from False have miss: "loadConfessionsFeed env q now st =
     (case ?page of Inl e \<Rightarrow> (Inl e, st)
      | Inr r \<Rightarrow> (Inr r, st\<lparr>cs_cache := cache_set (ce_up env) (feed_cache_key q) (Page r) CONFESSION_LIST now (cs_cache st)\<rparr>))"
    by (auto simp: loadConfessionsFeed_def split: option.split cached.split)
  show ?thesis
  proof (cases ?page)
    case (Inl e) with miss assms show ?thesis by auto
  next
    case (Inr p)
    have "page_ok env (cs_confessions st) p"
      unfolding page_ok_def list_all_iff
    proof
      fix s assume "s \<in> set (cp_data p)"
      then obtain c where "c \<in> set ?rows" "slim_row env st c = Inr s" using feed_page_rows[OF Inr] by blast
      then show "current listable env (cs_confessions st) (sl_id s) (sl_message s)"
        by (auto intro: slim_row_current feed_visible_listable)
    qed
    with Inr miss assms show ?thesis
      by (auto simp: conf_inv_def page_ok_def feed_key_listed intro!: coherent_set)
  qed
qed

text \<open>Writing: new and edited rows are encrypted and respect the unique columns.\<close>

lemma with_dto_sel:
  "co_id (with_moderation r (with_dto dto m c)) = co_id c" "co_id (with_dto dto m c) = co_id c"
  "co_message (with_moderation r (with_dto dto m c)) = nullish m (co_message c)" "co_message (with_dto dto m c) = nullish m (co_message c)"
  "co_stellarTxHash (with_moderation r (with_dto dto m c)) = co_stellarTxHash (with_dto dto m c)"
  "co_idempotencyKey (with_moderation r (with_dto dto m c)) = co_idempotencyKey (with_dto dto m c)"
  by (simp_all add: with_dto_def with_moderation_def)

lemma dto_keys:
  assumes "dto_rejected dto i t = None" "rows_ok env t" "r \<in> set t" "q \<in> set t" "co_id r = i" "co_id q \<noteq> i"
  shows "co_stellarTxHash (with_dto dto m r) = Some k \<Longrightarrow> co_stellarTxHash q \<noteq> Some k"
    "co_idempotencyKey (with_dto dto m r) = Some k \<Longrightarrow> co_idempotencyKey q \<noteq> Some k"
  using rows_ok_other[OF assms(2-6), of k] assms(1,4,6)
  by (force simp: with_dto_def dto_rejected_def Let_def split: if_splits)+

lemma edit_rows_ok:
  assumes "rows_ok env t" "dto_rejected dto i t = None" "case m of None \<Rightarrow> True | Some x \<Rightarrow> sealed env x"
  shows "rows_ok env (update_where (\<lambda>c. co_id c = i) (with_dto dto m) t)"
    "rows_ok env (update_where (\<lambda>c. co_id c = i) (\<lambda>c. with_moderation r (with_dto dto m c)) t)"
  by (rule rows_ok_update; use assms in \<open>auto simp: with_dto_sel dest: dto_keys split: option.splits\<close>)+

lemma edit_inv [inv_intros]:
  assumes "conf_inv env st" "ce_up env" "ud_message dto \<noteq> Some []"
  shows "conf_inv env (snd (confession_update env i dto iv newLog now st))"
proof (cases "truthy (ud_message dto)")
  case False
  with assms(3) have "ud_message dto = None" by (cases "ud_message dto") auto
  with assms False edit_rows_ok(1)[OF conf_inv_rows[OF assms(1)], of dto i None] show ?thesis
    by (auto simp: confession_update_def Let_def intro: inv_evicting split: option.split)
next
  case True
  let ?msg = "js_trim (ce_sanitize env (the (ud_message dto)))"
  obtain r rq where m: "moderate env ?msg now st = (r, st\<lparr>cs_requests := rq\<rparr>)"
    using moderate_state by (metis surj_pair)
  let ?st1 = "st\<lparr>cs_requests := rq\<rparr>"
  have "conf_inv env (invalidate env i (set_rows i (\<lambda>c. with_moderation r (with_dto dto (Some x) c)) ?st1\<lparr>cs_logs := ls\<rparr>))"
    if "encryptConfession (ce_seal env) iv ?msg (ce_aesKey env) = Inr x" "dto_rejected dto i (cs_confessions st) = None" for x ls
  proof -
    have "conf_inv env (invalidate env i (set_rows i (\<lambda>c. with_moderation r (with_dto dto (Some x) c)) ?st1))"
      using assms sealedI[OF that(1)] edit_rows_ok(2)[OF conf_inv_rows[OF assms(1)] that(2), of "Some x"]
      by (intro inv_evicting) auto
    then show ?thesis by (simp add: conf_inv_def invalidate_def)
  qed
  with assms m True show ?thesis
    by (auto simp: confession_update_def Let_def split: option.split sum.split)
qed

lemma clashes_uniq: "uniq_on key t \<Longrightarrow> \<not> clashes key r t \<Longrightarrow> uniq_on key (t @ [r])"
  by (auto simp: uniq_on_def clashes_def split: option.splits)

lemma executeCreate_cases:
  assumes "executeCreate env dto msg key fresh now st = (res, evs, st')"
  obtains (failed) e where "res = Inl e" "cs_confessions st' = cs_confessions st" "cs_cache st' = cs_cache st"
  | (created) r m where "encryptConfession (ce_seal env) (xf_iv fresh) msg (ce_aesKey env) = Inr m"
      "res = Inr (new_confession fresh m (cd_gender dto) r
         (if truthy (cd_stellarTxHash dto) then processAnchorData (ce_sha env) msg (the (cd_stellarTxHash dto)) now else None) key now)"
      "\<forall>c. res = Inr c \<longrightarrow> confession_insert c (cs_confessions st) = Some (cs_confessions st')"
      "cs_cache st' = invalidateConfessionCache (ce_up env) (cs_cache st)"
proof -
  obtain r rq where m: "moderate env msg now st = (r, st\<lparr>cs_requests := rq\<rparr>)" using moderate_state by (metis surj_pair)
  show thesis
    using assms that m unfolding executeCreate_def
    by (auto simp: executeCreateInTransaction_def publishConfessionCreated_def Let_def
        split: sum.splits option.splits prod.splits if_splits)
qed

lemma new_confession_sel:
  "co_id (new_confession fresh m g r a key now) = xf_id fresh" "co_message (new_confession fresh m g r a key now) = m"
  by (simp_all add: new_confession_def)

lemma execute_inv:
  assumes "conf_inv env st" "xf_id fresh \<notin> co_id ` set (cs_confessions st)"
    "executeCreate env dto msg key fresh now st = (res, evs, st')"
  shows "conf_inv env st'"
  using assms(3)
proof (cases rule: executeCreate_cases)
  case (failed e)
  with assms(1) show ?thesis by (simp add: conf_inv_def)
next
  case (created r m)
  from created(2) obtain c where c: "res = Inr c" "co_id c = xf_id fresh" "co_message c = m" by (auto simp: new_confession_sel)
  then have ins: "cs_confessions st' = cs_confessions st @ [c]" "\<not> clashes co_stellarTxHash c (cs_confessions st)"
      "\<not> clashes co_idempotencyKey c (cs_confessions st)"
    using created(3) by (auto simp: confession_insert_def split: if_splits)
  have "rows_ok env (cs_confessions st')"
    using assms(1,2) c ins sealedI[OF created(1)]
    by (auto simp: conf_inv_def rows_ok_def clashes_uniq)
  moreover have "coherent env (cs_confessions st') (cs_cache st')"
    using assms(1) created(4) ins(1) coherent_keep[of env "cs_confessions st" "cs_cache st" "cs_confessions st'"]
    by (auto simp: conf_inv_def invalidateConfessionCache_def intro!: coherent_pattern)
  ultimately show ?thesis by (simp add: conf_inv_def)
qed

lemma create_inv [inv_intros]:
  assumes "conf_inv env st" "xf_id fresh \<notin> co_id ` set (cs_confessions st)"
  shows "conf_inv env (snd (snd (confession_create env dto chk fresh now records st)))"
proof -
  have run: "conf_inv env (snd (snd (executeCreate env dto msg key fresh now st)))" for msg key
    using execute_inv[OF assms, of dto msg key now] by (metis prod.collapse)
  show ?thesis
    using assms(1) run by (auto simp: confession_create_def Let_def split: sum.split option.split prod.split) (metis snd_conv)+
qed

text \<open>The webhook evicts what it changed.\<close>

lemma invalidate_sel:
  "cs_confessions (invalidate env i st) = cs_confessions st" "cs_cache (invalidate env i st) = invalidateConfessionEntry (ce_up env) i (cs_cache st)"
  by (simp_all add: invalidate_def)

lemma set_invalidated: "set (invalidateConfessionEntry up i c) \<subseteq> set c"
  by (auto simp: invalidateConfessionEntry_def invalidateConfessionCache_def delPattern_def cache_del_def)

lemma evictions_simps:
  "evictions env [] st = st"
  "evictions env (e # es) st = evictions env es (case e of InvalidateEntry i \<Rightarrow> invalidate env i st | _ \<Rightarrow> st)"
  by (simp_all add: evictions_def)

lemma evictions_sel:
  "cs_confessions (evictions env effs st) = cs_confessions st \<and> set (cs_cache (evictions env effs st)) \<subseteq> set (cs_cache st)"
proof (induction effs arbitrary: st)
  case (Cons e es)
  show ?case
  proof (cases e)
    case (InvalidateEntry i)
    with Cons[of "invalidate env i st"] set_invalidated[of "ce_up env" i "cs_cache st"] show ?thesis
      by (simp add: evictions_simps invalidate_sel) blast
  qed (use Cons[of st] in \<open>simp_all add: evictions_simps\<close>)
qed (simp add: evictions_simps)

lemma evictions_evict:
  assumes "InvalidateEntry i \<in> set effs" "ce_up env"
  shows "set (cs_cache (evictions env effs st)) \<subseteq> set (invalidateConfessionEntry True i (cs_cache st))"
  using assms(1)
proof (induction effs arbitrary: st)
  case (Cons e es)
  show ?case
  proof (cases "e = InvalidateEntry i")
    case True
    then show ?thesis
      using evictions_sel[of env es "invalidate env i st"] assms(2) by (simp add: evictions_simps invalidate_sel)
  next
    case False
    with Cons.prems have "InvalidateEntry i \<in> set es" by auto
    from Cons.IH[OF this] show ?thesis
      using set_invalidated[of True _ "cs_cache st"]
      by (cases e) (fastforce simp: evictions_simps invalidate_sel in_invalidated assms(2))+
  qed
qed simp

lemma webhook_inv [inv_intros]:
  assumes inv: "conf_inv env st" and up: "ce_up env"
  shows "conf_inv env (snd (deliver env hmac num cfg events p sig newId now st))"
proof -
  let ?ws = "\<lparr>ws_events = events, ws_confessions = cs_confessions st, ws_logs = cs_logs st\<rparr>"
  obtain answer effs ws where h: "handleModerationResults (ce_sha env) hmac num cfg p sig newId now ?ws = (answer, effs, ws)"
    by (metis prod.collapse)
  let ?st1 = "st\<lparr>cs_confessions := ws_confessions ws, cs_logs := ws_logs ws\<rparr>"
  have del: "snd (deliver env hmac num cfg events p sig newId now st) = evictions env effs ?st1"
    using h by (simp add: deliver_def)
  from h show ?thesis
  proof (cases rule: handle_cases)
    case unchanged
    then have "conf_inv env ?st1" using inv by (simp add: conf_inv_def)
    then show ?thesis
      unfolding del using evictions_sel[of env effs ?st1] by (auto simp: conf_inv_def intro: coherent_subset)
  next
    case (applied i m c e)
    have rows: "ws_confessions ws = update_where (\<lambda>x. co_id x = i) (moderated num p m) (cs_confessions st)"
      using applied(6-8) save_row_update[of co_id "cs_confessions st" c "moderated num p m"] inv
      by (simp add: conf_inv_def rows_ok_def)
    have "conf_inv env (invalidate env i (set_rows i (moderated num p m) st))"
      using inv up by (intro inv_tame tame_changes conf_inv_rows)
    then have "rows_ok env (ws_confessions ws)" "coherent env (ws_confessions ws) (invalidateConfessionEntry True i (cs_cache st))"
      using up by (simp_all add: conf_inv_def invalidate_sel set_rows_def rows)
    then show ?thesis
      unfolding del using evictions_sel[of env effs ?st1] evictions_evict[OF applied(10) up, of ?st1]
      by (auto simp: conf_inv_def intro: coherent_subset)
  qed
qed

lemma view_inv [inv_intros]: "conf_inv env st \<Longrightarrow> conf_inv env (snd (getConfessionByIdWithViewCount env i u now st))"
  using view_ok by (metis prod.collapse)

lemma feed_inv [inv_intros]: "conf_inv env st \<Longrightarrow> conf_inv env (snd (loadConfessionsFeed env q now st))"
  using feed_ok by (metis prod.collapse)

lemma surroundings_inv [simp]:
  "conf_inv env (st\<lparr>cs_reactions := rs, cs_comments := ks, cs_anon := an, cs_users := us, cs_tags := ts\<rparr>) = conf_inv env st"
  by (simp add: conf_inv_def)

lemma conf_step_inv: "conf_step env st st' \<Longrightarrow> conf_inv env st \<Longrightarrow> ce_up env \<Longrightarrow> conf_inv env st'"
  by (induction rule: conf_step.induct) (auto intro: inv_intros)

lemma conf_reachable_inv: "conf_reachable env st \<Longrightarrow> ce_up env \<Longrightarrow> conf_inv env st"
proof (induction rule: conf_reachable.induct)
  case (start st)
  then show ?case by (simp add: conf_inv_def rows_ok_def)
qed (rule conf_step_inv)

section \<open>What readers see\<close>


definition demo_env :: confession_env where
  "demo_env = \<lparr>ce_seal = (\<lambda>k iv t. CHR ''#'' # t), ce_unseal = (\<lambda>k iv c. if c = [] then None else Some (tl c)),
     ce_aesKey = replicate 32 (CHR ''k''), ce_sha = id, ce_sanitize = id, ce_isoText = int_str, ce_dateParse = (\<lambda>s. None),
     ce_ai = default_ai_config, ce_openai = (\<lambda>s. None), ce_perspective = (\<lambda>s. None), ce_verifyTransaction = (\<lambda>tx. True),
     ce_onChain = (\<lambda>h. True), ce_up = True, ce_viewExpiry = 3600\<rparr>"

definition empty_state :: confession_state where
  "empty_state = \<lparr>cs_confessions = [], cs_reactions = [], cs_comments = [], cs_anon = \<lparr>as_users = [], as_links = []\<rparr>, cs_users = [],
     cs_tags = [], cs_confessionTags = [], cs_logs = [], cs_requests = [], cs_views = [], cs_cache = []\<rparr>"

definition demo_dto :: create_dto where
  "demo_dto = \<lparr>cd_message = ''hi'', cd_gender = None, cd_tags = None, cd_stellarTxHash = None\<rparr>"

definition demo_fresh :: create_fresh where
  "demo_fresh = \<lparr>xf_id = ''c1'', xf_anon = ''a1'', xf_log = ''l1'', xf_iv = replicate 16 (CHR ''i'')\<rparr>"

definition posted_state :: confession_state where
  "posted_state = snd (snd (confession_create demo_env demo_dto None demo_fresh 0 [] empty_state))"

definition viewed_state :: confession_state where
  "viewed_state = snd (getConfessionByIdWithViewCount demo_env ''c1'' ''ip'' 5 posted_state)"

lemma posted_ok: "conf_reachable demo_env posted_state"
  unfolding posted_state_def
  by (rule conf_reachable.step[OF conf_reachable.start conf_step.create]) (simp_all add: empty_state_def)

lemma posted_rows: "map co_message (cs_confessions posted_state) = [to_hex (replicate 16 (CHR ''i'')) @ '':'' @ to_hex ''#hi'']"
  by code_simp

lemma viewed_ok: "conf_reachable demo_env viewed_state"
  unfolding viewed_state_def by (rule conf_reachable.step[OF posted_ok conf_step.view])

definition shown_text :: "shown outcome \<Rightarrow> string option" where
  "shown_text r = (case r of Inr (Selected v _ _) \<Rightarrow> Some (vw_message v) | Inr (Whole c _ _) \<Rightarrow> Some (co_message c) | _ \<Rightarrow> None)"


lemma sealed_encrypted: "sealed env m \<Longrightarrow> isEncryptedConfession m"
  by (auto simp: sealed_def dest: encryptConfession_Inr)

lemma sealed_readable:
  "sealed env (co_message c) \<Longrightarrow> \<forall>k iv t. ce_unseal env k iv (ce_seal env k iv t) = Some t \<Longrightarrow> is_ok (decrypt_row env c)"
  using decrypt_encrypted[of "ce_unseal env" "ce_seal env"] by (auto simp: sealed_def decrypt_row_def)

lemma is_ok_iff: "is_ok x \<longleftrightarrow> (\<exists>y. x = Inr y)"
  by (cases x) auto

lemma traverse_is_ok: "\<forall>x \<in> set xs. is_ok (f x) \<Longrightarrow> is_ok (traverse f xs)"
  by (induction xs) (auto simp: is_ok_iff)

text \<open>
  C27: Confessions are stored encrypted and stay readable.  In every state the service can reach, each row
  holds a ciphertext of the form \<open>iv:ciphertext\<close> in hexadecimal, never plain text, that the service's own
  key opens, so no listing fails on a stored row; ids, Stellar transactions and idempotency keys are unique.
\<close>

theorem confessions_sealed:
  assumes "conf_reachable env st" "ce_up env" "\<forall>k iv t. ce_unseal env k iv (ce_seal env k iv t) = Some t"
  shows "list_all (\<lambda>c. isEncryptedConfession (co_message c) \<and> is_ok (decrypt_row env c)) (cs_confessions st) \<and>
    distinct (map co_id (cs_confessions st)) \<and> uniq_on co_stellarTxHash (cs_confessions st) \<and> uniq_on co_idempotencyKey (cs_confessions st) \<and>
    is_ok (confessions_findAll env st) \<and> is_ok (getDeletedConfessions env page limit st)"
proof -
  have rows: "rows_ok env (cs_confessions st)" using conf_reachable_inv[OF assms(1,2)] by (rule conf_inv_rows)
  then have ok: "is_ok (decrypt_row env c)" "isEncryptedConfession (co_message c)" if "c \<in> set (cs_confessions st)" for c
    using that assms(3) sealed_readable[of env c] sealed_encrypted[of env "co_message c"] by (auto simp: rows_ok_def list_all_iff)
  have "is_ok (confessions_findAll env st)"
    unfolding confessions_findAll_def
    using ok(1) by (intro traverse_is_ok) (fastforce simp: is_ok_iff applyNewestFeedOrder_def)
  moreover have "is_ok (traverse (\<lambda>c. case decrypt_row env c of Inl e \<Rightarrow> Inl e | Inr m \<Rightarrow> Inr (c\<lparr>co_message := m\<rparr>))
      (skip_take ((page - 1) * limit) limit (applyNewestFeedOrder co_created_at co_id (filter co_isDeleted (cs_confessions st)))))"
    using ok(1) by (intro traverse_is_ok) (fastforce simp: is_ok_iff skip_take_def applyNewestFeedOrder_def dest!: in_set_takeD in_set_dropD)
  then have "is_ok (getDeletedConfessions env page limit st)"
    by (auto simp: getDeletedConfessions_def is_ok_iff Let_def)
  ultimately show ?thesis using rows ok by (simp add: rows_ok_def list_all_iff)
qed

theorem confessions_sealed_witness:
  "length (cs_confessions posted_state) = 1 \<and>
   list_all (\<lambda>c. isEncryptedConfession (co_message c) \<and> is_ok (decrypt_row demo_env c)) (cs_confessions posted_state)"
proof
  show "length (cs_confessions posted_state) = 1" by code_simp
  have "ce_up demo_env" "\<forall>k iv t. ce_unseal demo_env k iv (ce_seal demo_env k iv t) = Some t" by (simp_all add: demo_env_def)
  then show "list_all (\<lambda>c. isEncryptedConfession (co_message c) \<and> is_ok (decrypt_row demo_env c)) (cs_confessions posted_state)"
    using confessions_sealed[OF posted_ok] by simp
qed

end
