(* ===== verification/Confession_Anchor.thy ===== *)
theory Confession_Anchor
  imports Confession_Cache
begin

text \<open>
  Anchoring on Stellar across all requests of \<^verbatim>\<open>confession/confession.service.ts\<close>: which of them may declare a
  stored confession anchored; and readings of the code that its comments do not intend: creation trusts
  the client's transaction hash, edits replace it afterwards, and a decision in the middle of a read leaves
  a cached copy behind.
\<close>

section \<open>When a confession counts as anchored\<close>

definition anchors_kept :: "confession list \<Rightarrow> confession list \<Rightarrow> bool" where
  "anchors_kept t t' \<longleftrightarrow> (\<forall>c' \<in> set t'. co_isAnchored c' \<longrightarrow> co_id c' \<in> co_id ` set t \<longrightarrow> (\<exists>c \<in> set t. co_id c = co_id c' \<and> co_isAnchored c))"

lemma kept_refl [simp]: "anchors_kept t t"
  by (auto simp: anchors_kept_def)

lemma kept_update:
  "(\<And>c. co_id (f c) = co_id c \<and> co_isAnchored (f c) = co_isAnchored c) \<Longrightarrow> anchors_kept t (update_where P f t)"
  by (auto simp: anchors_kept_def set_update_where)

lemma kept_changes:
  "anchors_kept t (update_where P (deleted_by who now) t)" "anchors_kept t (update_where P undeleted t)"
  "anchors_kept t (update_where P (decided status) t)" "anchors_kept t (update_where P (moderated num p m) t)"
  "anchors_kept t (update_where P (anchored_with tx h) t)" "anchors_kept t (update_where P (with_dto dto x) t)"
  "anchors_kept t (update_where P (\<lambda>c. with_moderation r (with_dto dto x c)) t)"
  "anchors_kept t (update_where P (\<lambda>c. c\<lparr>co_view_count := Suc (co_view_count c)\<rparr>) t)"
  by (rule kept_update; simp add: deleted_by_def undeleted_def decided_def moderated_def anchored_with_def with_dto_def with_moderation_def)+

lemma changed_rows [simp]:
  "cs_confessions (invalidate env i st) = cs_confessions st" "cs_confessions (drop_single env i st) = cs_confessions st"
  "cs_confessions (set_rows i f st) = update_where (\<lambda>c. co_id c = i) f (cs_confessions st)"
  "cs_confessions (view_store env i v now st) = cs_confessions st"
  by (simp_all add: invalidate_def drop_single_def set_rows_def view_store_def)

lemma kept_append: "co_id c \<notin> co_id ` set t \<Longrightarrow> anchors_kept t (t @ [c])"
  by (auto simp: anchors_kept_def)

lemma kept_execute:
  assumes "xf_id fresh \<notin> co_id ` set (cs_confessions st)"
  shows "anchors_kept (cs_confessions st) (cs_confessions (snd (snd (executeCreate env dto msg key fresh now st))))"
proof -
  obtain res evs st' where x: "executeCreate env dto msg key fresh now st = (res, evs, st')" by (metis prod.collapse)
  then show ?thesis
  proof (cases rule: executeCreate_cases)
    case (created r m)
    then obtain c where "res = Inr c" "co_id c = xf_id fresh" by (auto simp: new_confession_sel)
    with created(3) have "cs_confessions st' = cs_confessions st @ [c]" by (auto simp: confession_insert_def split: if_splits)
    with \<open>co_id c = _\<close> assms x show ?thesis by (simp add: kept_append)
  qed (use x in simp)
qed

lemma kept_create:
  assumes "xf_id fresh \<notin> co_id ` set (cs_confessions st)"
  shows "anchors_kept (cs_confessions st) (cs_confessions (snd (snd (confession_create env dto chk fresh now records st))))"
  using kept_execute[OF assms]
  by (auto simp: confession_create_def Let_def split: sum.split option.split prod.split) (metis snd_conv)+

lemma kept_edit: "anchors_kept (cs_confessions st) (cs_confessions (snd (confession_update env i dto iv newLog now st)))"
proof -
  obtain r rq where m: "moderate env (js_trim (ce_sanitize env (the (ud_message dto)))) now st = (r, st\<lparr>cs_requests := rq\<rparr>)"
    using moderate_state by (metis surj_pair)
  then show ?thesis by (auto simp: confession_update_def Let_def kept_changes split: option.split sum.split)
qed

lemma kept_view: "anchors_kept (cs_confessions st) (cs_confessions (snd (getConfessionByIdWithViewCount env i u now st)))"
proof -
  have "anchors_kept (cs_confessions st) (cs_confessions (snd (view_load env i u now st)))"
    by (auto simp: view_load_def Let_def incrementViewCountAtomically_def kept_changes split: option.split sum.split prod.split bool.split)
  then show ?thesis
    by (auto simp: getConfessionByIdWithViewCount_def split: option.split cached.split shown.split prod.split sum.split)
qed

lemma kept_webhook:
  assumes "conf_inv env st"
  shows "anchors_kept (cs_confessions st) (cs_confessions (snd (deliver env hmac num cfg events p sig newId now st)))"
proof -
  let ?ws = "\<lparr>ws_events = events, ws_confessions = cs_confessions st, ws_logs = cs_logs st\<rparr>"
  obtain answer effs ws where h: "handleModerationResults (ce_sha env) hmac num cfg p sig newId now ?ws = (answer, effs, ws)"
    by (metis prod.collapse)
  from h have "anchors_kept (cs_confessions st) (ws_confessions ws)"
  proof (cases rule: handle_cases)
    case (applied i m c e)
    then have "ws_confessions ws = update_where (\<lambda>x. co_id x = i) (moderated num p m) (cs_confessions st)"
      using save_row_update[of co_id "cs_confessions st" c "moderated num p m"] assms by (simp add: conf_inv_def rows_ok_def)
    then show ?thesis by (simp add: kept_changes)
  qed simp
  then show ?thesis using h evictions_sel by (simp add: deliver_def)
qed

lemma kept_decide:
  assumes "conf_inv env st"
  shows "anchors_kept (cs_confessions st) (cs_confessions (snd (updateModerationStatus env i status who notes now st)))"
proof (cases "find_one (\<lambda>c. co_id c = i) (cs_confessions st)")
  case (Some c)
  note c = saved_is_set[OF assms conjunct1[OF find_one_SomeD[OF Some]] conjunct2[OF find_one_SomeD[OF Some]] tame_changes(3)]
  with Some show ?thesis
    by (auto simp: updateModerationStatus_def Let_def kept_changes split: option.split prod.split sum.split)
qed (simp add: updateModerationStatus_def)

lemma kept_feed: "cs_confessions (snd (loadConfessionsFeed env q now st)) = cs_confessions st"
  by (auto simp: loadConfessionsFeed_def split: option.split cached.split sum.split)

lemma kept_rest:
  "anchors_kept (cs_confessions st) (cs_confessions (snd (confession_remove env i who now st)))"
  "anchors_kept (cs_confessions st) (cs_confessions (snd (confession_restore env i st)))"
  "anchors_kept (cs_confessions st) (cs_confessions (snd (deleteConfession env i userId now st)))"
  "anchors_kept (cs_confessions st) (cs_confessions (snd (restoreConfession env i st)))"
  "anchors_kept (cs_confessions st) (cs_confessions (snd (anchorConfession env i txHash now st)))"
  by (auto simp: confession_remove_def confession_restore_def deleteConfession_def restoreConfession_def anchorConfession_def
      Let_def kept_changes split: option.split sum.split prod.split)

lemma verify_anchors:
  assumes "conf_inv env st" "c' \<in> set (cs_confessions (snd (verifyStellarAnchor env i now st)))" "co_isAnchored c'"
  shows "(\<exists>c \<in> set (cs_confessions st). co_id c = co_id c' \<and> co_isAnchored c) \<or>
    (\<exists>tx h. co_stellarTxHash c' = Some tx \<and> co_stellarHash c' = Some h \<and> ce_verifyTransaction env tx \<and> ce_onChain env h)"
proof (cases "c' \<in> set (cs_confessions st)")
  case True
  with assms(3) show ?thesis by blast
next
  case False
  then obtain c where c: "live_confession i st = Some c" using assms(2) by (auto simp: verifyStellarAnchor_def split: option.splits)
  then have mem: "c \<in> set (cs_confessions st)" "co_id c = i" by (auto simp: live_confession_def dest: find_one_SomeD)
  have chain: "truthy (co_stellarTxHash c)" "ce_verifyTransaction env (the (co_stellarTxHash c))"
      "truthy (co_stellarHash c)" "ce_onChain env (the (co_stellarHash c))"
      "c' \<in> set (update_where (\<lambda>x. co_id x = i) (\<lambda>x. x\<lparr>co_isAnchored := True, co_anchoredAt := Some now\<rparr>) (cs_confessions st))"
    using assms(2) c False by (auto simp: verifyStellarAnchor_def Let_def split: if_splits)
  from chain(5) False obtain r where "r \<in> set (cs_confessions st)" "co_id r = i" "c' = r\<lparr>co_isAnchored := True, co_anchoredAt := Some now\<rparr>"
    by (auto elim!: in_update_whereE)
  moreover from this have "r = c"
    using distinct_keys_eq[of co_id "cs_confessions st" r c] assms(1) mem by (auto simp: conf_inv_def rows_ok_def)
  ultimately show ?thesis using chain by (auto simp: truthy_iff)
qed


definition demo_tx :: string where "demo_tx = replicate 64 (CHR ''a'')"

definition anchoring_state :: confession_state where
  "anchoring_state = snd (anchorConfession demo_env ''c1'' demo_tx 7 posted_state)"

definition anchored_state :: confession_state where
  "anchored_state = snd (verifyStellarAnchor demo_env ''c1'' 9 anchoring_state)"


section \<open>What the comments do not intend\<close>

text \<open>A creation that names a well-formed transaction is anchored at once, whatever the chain says.\<close>

lemma create_trusts_client:
  assumes "executeCreate env dto msg key fresh now st = (Inr c, evs, st')" "cd_stellarTxHash dto = Some tx" "isValidTxHash tx" "tx \<noteq> []"
  shows "co_isAnchored c \<and> co_stellarTxHash c = Some tx"
  using assms(1) by (cases rule: executeCreate_cases) (use assms(2-) in \<open>auto simp: new_confession_def processAnchorData_def\<close>)

text \<open>The recorded hash covers the server's clock, so it is not the hash a client computed from the text before.\<close>

lemma anchor_hash_fixes_time:
  assumes "inj sha"
  shows "hashConfession sha m t = hashConfession sha m' t' \<longleftrightarrow> m = m' \<and> t = t'"
proof
  assume "hashConfession sha m t = hashConfession sha m' t'"
  then have "json_text (JObj [(''content'', JStr m), (''timestamp'', JInt t)]) = json_text (JObj [(''content'', JStr m'), (''timestamp'', JInt t')])"
    unfolding hashConfession_def inj_eq[OF assms] .
  from json_text_inj[OF _ _ this] show "m = m' \<and> t = t'" by simp
qed simp

text \<open>An edit replaces the transaction of an anchored confession, which stays anchored.\<close>

lemma edit_replaces_anchor:
  "map (\<lambda>c. (co_isAnchored c, co_stellarTxHash c)) (cs_confessions (snd (confession_update demo_env ''c1''
      \<lparr>ud_message = None, ud_gender = None, ud_tags = None, ud_stellarTxHash = Some ''forged'', ud_idempotencyKey = None\<rparr> [] ''l2'' 10
      anchored_state))) = [(True, Some ''forged'')]"
  by code_simp

text \<open>A read that began before a rejection caches the rejected text after it.\<close>

definition raced_state :: confession_state where
  "raced_state =
     (case view_load demo_env ''c1'' ''ip'' 5 posted_state of
        (Inr v, st) \<Rightarrow> view_store demo_env ''c1'' v 7 (snd (updateModerationStatus demo_env ''c1'' MRejected ''m1'' None 6 st))
      | (Inl _, st) \<Rightarrow> st)"

lemma view_race_shows_rejected:
  "map co_isHidden (cs_confessions raced_state) = [True]"
  "shown_text (fst (getConfessionByIdWithViewCount demo_env ''c1'' ''ip'' 10 raced_state)) = Some ''hi''"
  by code_simp+

text \<open>An edit that names tags, which the validation allows, always fails.\<close>

lemma edit_with_tags_fails: "ud_tags dto = Some ts \<Longrightarrow> \<not> is_ok (fst (confession_update env i dto iv newLog now st))"
  by (auto simp: confession_update_def dto_rejected_def Let_def split: option.split sum.split prod.split)

end
