(* ===== verification/Confession_Feed.thy ===== *)
theory Confession_Feed
  imports Confessions
begin

text \<open>
  The feeds of confessions (\<^verbatim>\<open>loadConfessionsFeed\<close>, \<^verbatim>\<open>applyFeedCursor\<close>, \<^verbatim>\<open>buildFeedNextCursor\<close> of
  \<^verbatim>\<open>confession/confession.service.ts\<close>) against the contract of \<open>keyset_feed\<close>: the newest-first feed is
  an instance of it, so its pages are the slices of one list ordered by \<open>(created_at, id)\<close> descending.
\<close>

section \<open>The newest feed as a keyset feed\<close>

definition feed_key :: "confession \<Rightarrow> ms \<times> ident" where
  "feed_key c = (co_created_at c, co_id c)"

definition feed_cursor :: "(ms \<Rightarrow> string) \<Rightarrow> confession \<Rightarrow> string" where
  "feed_cursor isoText c = encodeFeedCursor isoText (co_id c) (co_created_at c)"

definition newest :: "confession list \<Rightarrow> confession list" where
  "newest rows = applyNewestFeedOrder co_created_at co_id rows"

definition before_key :: "(ms \<times> ident) option \<Rightarrow> confession \<Rightarrow> bool" where
  "before_key k c = (case k of None \<Rightarrow> True | Some p \<Rightarrow> feed_key c < p)"

definition feed_fetch :: "nat \<Rightarrow> (ms \<times> ident) option \<Rightarrow> confession list \<Rightarrow> confession list \<times> (ms \<times> ident) option" where
  "feed_fetch limit k rows =
     (let xs = newest (filter (before_key k) rows)
      in (take limit xs, if limit < length xs then Some (feed_key (xs ! (limit - 1))) else None))"

lemma sorted_newest:
  assumes "distinct (map feed_key rows)"
  shows "sorted_wrt (\<lambda>a b. feed_key b < feed_key a) (newest rows)"
proof -
  let ?s = "sort_key feed_key rows"
  have "distinct (map feed_key ?s)"
    using assms by (metis (no_types, lifting) distinct_map mset_eq_imp_distinct_iff mset_sort set_sort)
  then have "sorted_wrt (<) (map feed_key ?s)" by (simp add: strict_sorted_iff)
  then show ?thesis
    by (simp add: newest_def applyNewestFeedOrder_def feed_key_def[abs_def] sorted_wrt_rev sorted_wrt_map)
qed

lemma mset_newest [simp]: "mset (newest rows) = mset rows"
  by (simp add: newest_def applyNewestFeedOrder_def)

lemma length_newest [simp]: "length (newest rows) = length rows"
  by (simp add: newest_def applyNewestFeedOrder_def)

interpretation feed: keyset_feed feed_key "\<lambda>a b. b < a" "\<lambda>rows. rows" "Suc n" "\<lambda>k. k" "feed_fetch (Suc n)" for n
proof unfold_locales
  fix t :: "confession list" and k
  assume d: "distinct (map feed_key t)"
  let ?after = "\<lambda>r. case k of None \<Rightarrow> True | Some p \<Rightarrow> feed_key r < p"
  have eq: "before_key k = ?after" by (simp add: before_key_def fun_eq_iff)
  show "\<exists>xs. mset xs = mset (filter ?after t) \<and> sorted_wrt (\<lambda>r q. feed_key q < feed_key r) xs \<and>
     feed_fetch (Suc n) (map_option (\<lambda>k. k) k) t =
       (take (Suc n) xs, if Suc n < length xs then Some (feed_key (xs ! (Suc n - 1))) else None)"
    unfolding feed_fetch_def Let_def option.map_ident eq
    by (intro exI[of _ "newest (filter ?after t)"] conjI sorted_newest distinct_map_filter[OF d]) simp_all
qed auto

section \<open>Requests\<close>

text \<open>The cursor of a row is read back as the position of that row.\<close>

lemma feed_cursor_position:
  assumes "date_parse (isoText (co_created_at c)) = Some (co_created_at c)" "isoText (co_created_at c) \<noteq> []"
  shows "applyFeedCursor date_parse Newest (Some (feed_cursor isoText c)) page limit =
    Inr (Some \<lparr>fp_id = co_id c, fp_created_at = co_created_at c\<rparr>, 0)"
proof -
  let ?obj = "[(''id'', JStr (co_id c)), (''created_at'', JStr (isoText (co_created_at c)))]"
  have "decodeCursor (Some (feed_cursor isoText c)) = Some ?obj"
    unfolding feed_cursor_def encodeFeedCursor_def toFeedCursorPosition_def by (rule cursor_roundtrip) simp
  with assms show ?thesis by (simp add: applyFeedCursor_def falsy_json_def cursor_id_def)
qed

lemma feed_first_position: "page \<in> {None, Some 1} \<Longrightarrow> applyFeedCursor date_parse Newest None page limit = Inr (None, 0)"
  by (auto simp: applyFeedCursor_def decodeCursor_def falsy_json_def)

definition iso_dates :: "confession_env \<Rightarrow> bool" where
  "iso_dates env \<longleftrightarrow> (\<forall>d. ce_dateParse env (ce_isoText env d) = Some d \<and> ce_isoText env d \<noteq> [])"

lemma feed_items_newest:
  assumes "iso_dates env" "page \<in> {None, Some 1}"
  shows "feed_items env Newest (map_option (feed_cursor (ce_isoText env)) p) page limit st rows =
    Inr (take (limit + 1) (newest (filter (before_key (map_option feed_key p)) rows)), 0)"
proof (cases p)
  case None
  then show ?thesis using assms(2) by (simp add: feed_items_def feed_first_position feed_order_def newest_def before_key_def)
next
  case (Some c)
  have "before_key (Some (feed_key c)) =
      (\<lambda>x. feedKeysetPredicate \<lparr>fp_id = co_id c, fp_created_at = co_created_at c\<rparr> (co_created_at x) (co_id x))"
    by (simp add: before_key_def feedKeysetPredicate_def feed_key_def fun_eq_iff)
  then show ?thesis
    using assms Some by (simp add: feed_items_def feed_cursor_position iso_dates_def feed_order_def newest_def)
qed

lemma feed_page_newest:
  fixes p rows
  assumes "iso_dates env" "page \<in> {None, Some 1}" "0 < limit"
  defines "xs \<equiv> newest (filter (before_key (map_option feed_key p)) rows)"
  shows "feed_page env f Newest (map_option (feed_cursor (ce_isoText env)) p) page limit st rows =
    (case traverse f (take limit xs) of
       Inl e \<Rightarrow> Inl e
     | Inr data \<Rightarrow> Inr (CursorPaginatedResponseDto data
         (if limit < length xs then Some (feed_cursor (ce_isoText env) (xs ! (limit - 1))) else None) (limit < length xs) limit))"
proof -
  have items: "(if limit < length xs then take limit (take (limit + 1) xs) else take (limit + 1) xs) = take limit xs"
    by (auto simp: min_def)
  have more: "limit < length (take (limit + 1) xs) \<longleftrightarrow> limit < length xs" by auto
  have cursor: "buildFeedNextCursor (ce_isoText env) (take (limit + 1) xs) limit Newest 0 =
      (if limit < length xs then Some (feed_cursor (ce_isoText env) (xs ! (limit - 1))) else None)"
    using assms(3) by (auto simp: buildFeedNextCursor_def feed_cursor_def Let_def)
  show ?thesis
    unfolding feed_page_def feed_items_newest[OF assms(1,2)] xs_def[symmetric] Let_def sum.case prod.case more items cursor ..
qed

text \<open>The contract gives the slices: what the keyset query finds from the cursor of position \<open>i\<close> starts at \<open>i\<close>.\<close>

lemma newest_slice:
  assumes "distinct (map co_id rows)" "i \<le> length rows"
  shows "newest (filter (before_key (map_option feed_key (cursor_at (\<lambda>c. c) (newest rows) i))) rows) = drop i (newest rows)"
proof -
  let ?L = "newest rows" and ?k = "cursor_at feed_key (newest rows) i"
  have d: "distinct (map feed_key rows)" using assms(1) by (auto simp: distinct_map inj_on_def feed_key_def)
  have k: "map_option feed_key (cursor_at (\<lambda>c. c) ?L i) = ?k" by (simp add: cursor_at_def)
  have "fst (feed_fetch (Suc (length rows)) ?k rows) = take (Suc (length rows)) (drop i ?L)"
    using feed.page_refines[OF d, where L = ?L and i = i and n = "length rows"] assms(2) sorted_newest[OF d] by simp
  moreover have "length (newest (filter (before_key ?k) rows)) \<le> Suc (length rows)"
    by (simp add: le_SucI)
  ultimately show ?thesis by (simp add: k feed_fetch_def Let_def)
qed

lemma feed_page_slice:
  assumes "iso_dates env" "page \<in> {None, Some 1}" "0 < limit" "distinct (map co_id rows)" "i \<le> length rows"
  defines "cursor \<equiv> cursor_at (feed_cursor (ce_isoText env)) (newest rows)"
  shows "feed_page env f Newest (cursor i) page limit st rows =
    (case traverse f (take limit (drop i (newest rows))) of
       Inl e \<Rightarrow> Inl e
     | Inr data \<Rightarrow> Inr (CursorPaginatedResponseDto data (if i + limit < length rows then cursor (i + limit) else None) (i + limit < length rows) limit))"
proof -
  have c: "cursor i = map_option (feed_cursor (ce_isoText env)) (cursor_at (\<lambda>c. c) (newest rows) i)"
    by (simp add: cursor_def cursor_at_def)
  have "(limit < length (drop i (newest rows))) = (i + limit < length rows)" using assms(5) by auto
  moreover have "Some (feed_cursor (ce_isoText env) (drop i (newest rows) ! (limit - 1))) = cursor (i + limit)"
    if "i + limit < length rows" using that assms(3) by (simp add: cursor_def cursor_at_def)
  ultimately show ?thesis
    unfolding c feed_page_newest[OF assms(1-3)] newest_slice[OF assms(4,5)] by (auto split: sum.split)
qed


definition feed_env :: confession_env where
  "feed_env = \<lparr>ce_seal = (\<lambda>k iv t. CHR ''#'' # t), ce_unseal = (\<lambda>k iv c. if c = [] then None else Some (tl c)),
     ce_aesKey = replicate 32 (CHR ''k''), ce_sha = id, ce_sanitize = id, ce_isoText = ms_text, ce_dateParse = ms_parse,
     ce_ai = default_ai_config, ce_openai = (\<lambda>s. None), ce_perspective = (\<lambda>s. None), ce_verifyTransaction = (\<lambda>tx. True),
     ce_onChain = (\<lambda>h. True), ce_up = True, ce_viewExpiry = 3600\<rparr>"

definition sealed_text :: "string \<Rightarrow> string" where
  "sealed_text t = to_hex (replicate 16 (CHR ''i'')) @ '':'' @ to_hex (CHR ''#'' # t)"

definition feed_state :: confession_state where
  "feed_state = \<lparr>cs_confessions = [sample_confession ''c1'' (sealed_text ''one''), sample_confession ''c3'' (sealed_text ''three''),
       sample_confession ''c2'' (sealed_text ''two'')], cs_reactions = [], cs_comments = [], cs_anon = \<lparr>as_users = [], as_links = []\<rparr>,
     cs_users = [], cs_tags = [], cs_confessionTags = [], cs_logs = [], cs_requests = [], cs_views = [], cs_cache = []\<rparr>"

lemma sample_confession_sel:
  "co_id (sample_confession i m) = i" "co_created_at (sample_confession i m) = 0" "co_isDeleted (sample_confession i m) = False"
  "co_isHidden (sample_confession i m) = False" "co_moderationStatus (sample_confession i m) = MApproved"
  "co_status (sample_confession i m) = Published"
  by (simp_all add: sample_confession_def)

lemma feed_state_sel:
  "cs_confessions feed_state = [sample_confession ''c1'' (sealed_text ''one''), sample_confession ''c3'' (sealed_text ''three''),
     sample_confession ''c2'' (sealed_text ''two'')]"
  "cs_cache feed_state = []" "as_links (cs_anon feed_state) = []"
  by (simp_all add: feed_state_def)

lemma feed_state_newest:
  "newest (filter (feed_visible None 9 feed_state) (cs_confessions feed_state)) =
     [sample_confession ''c3'' (sealed_text ''three''), sample_confession ''c2'' (sealed_text ''two''), sample_confession ''c1'' (sealed_text ''one'')]"
  by (simp add: feed_state_sel newest_def applyNewestFeedOrder_def feed_visible_def discoverable_def sample_confession_sel)


text \<open>The warning of a slim row never shows: flagged rows are filtered out and \<open>requiresReview\<close> is not selected.\<close>

lemma feed_never_warns: "feed_visible gender now st c \<Longrightarrow> slim_row env st c = Inr s \<Longrightarrow> \<not> sl_contentWarning s"
  by (auto simp: slim_row_def mapToSlimConfession_def feed_visible_def split: sum.splits)

end
