(* ===== verification/Audit_Redaction.thy ===== *)
theory Audit_Redaction
  imports Codec
begin

text \<open>
  The redaction of audit metadata (\<^verbatim>\<open>audit-log/audit-log-redaction.service.ts\<close>): names that mark a
  secret, values that look like one, and the recursion over the JSON of an entry.  \<open>sha\<close> is SHA-256 in
  hexadecimal.

  Shown: what is stored holds no string under a sensitive name, no JSON web token and no long
  hexadecimal string, and redacting twice is redacting once.  The recursion hands the name of a field
  only to the strings directly in it, so a secret inside an object or a deep array of a sensitive field
  survives; this is stated as it is.
\<close>

section \<open>Sensitive names\<close>

definition SENSITIVE_EXACT_FIELDS :: "string list" where
  "SENSITIVE_EXACT_FIELDS =
     [''token'', ''accessToken'', ''refreshToken'', ''resetToken'', ''passwordResetToken'', ''bearerToken'', ''authToken'',
      ''jwtToken'', ''inviteToken'', ''sessionToken'', ''password'', ''passwordHash'', ''newPassword'', ''currentPassword'',
      ''passphrase'', ''credential'', ''secret'', ''apiSecret'', ''clientSecret'', ''signingSecret'', ''encryptionKey'',
      ''privateKey'', ''apiKey'', ''webhookSecret'', ''stellarSecret'', ''encryptedPayload'', ''encryptedData'',
      ''encryptedContent'', ''rawEncrypted'', ''ciphertext'', ''encryptedBody'', ''signature'', ''signedMessage'',
      ''digitalSignature'', ''authorization'']"

text \<open>The patterns ignore case; two of them are anchored at the end of the name.\<close>

definition PATTERN_INFIXES :: "string list" where
  "PATTERN_INFIXES = [''secret'', ''password'', ''passphrase'', ''credential'', ''encrypt'', ''cipher'', ''signature'',
     ''privatekey'', ''apikey'', ''bearer'', ''authorization'']"

definition PATTERN_SUFFIXES :: "string list" where
  "PATTERN_SUFFIXES = [''token'', ''_token'']"

definition ends_with :: "string \<Rightarrow> string \<Rightarrow> bool" where
  "ends_with s p = starts_with (rev s) (rev p)"

definition isSensitiveField :: "string \<Rightarrow> bool" where
  "isSensitiveField fieldName \<longleftrightarrow>
     fieldName \<in> set SENSITIVE_EXACT_FIELDS \<or>
     list_ex (js_includes (lower_case fieldName)) PATTERN_INFIXES \<or>
     list_ex (ends_with (lower_case fieldName)) PATTERN_SUFFIXES"

section \<open>Suspicious values\<close>

definition jwt_char :: "char \<Rightarrow> bool" where
  "jwt_char c = (let n = (of_char c :: nat) in
     (48 \<le> n \<and> n \<le> 57) \<or> (65 \<le> n \<and> n \<le> 90) \<or> (97 \<le> n \<and> n \<le> 122) \<or> c = CHR ''-'' \<or> c = CHR ''_'')"

definition is_jwt :: "string \<Rightarrow> bool" where
  "is_jwt s = (let parts = js_split (CHR ''.'') s in length parts = 3 \<and> list_all (\<lambda>p. p \<noteq> [] \<and> list_all jwt_char p) parts)"

definition is_long_hex :: "string \<Rightarrow> bool" where
  "is_long_hex s \<longleftrightarrow> 40 \<le> length s \<and> list_all hex_char s"

definition is_email :: "string \<Rightarrow> bool" where
  "is_email s \<longleftrightarrow>
     list_all (\<lambda>c. \<not> js_ws c) s \<and>
     (case js_split (CHR ''@'') s of
        [l, d] \<Rightarrow> l \<noteq> [] \<and> list_ex (\<lambda>i. 0 < i \<and> i + 1 < length d \<and> d ! i = CHR ''.'') [0..<length d]
      | _ \<Rightarrow> False)"

definition email_key :: "string \<Rightarrow> bool" where
  "email_key key = (let k = lower_case key in js_includes k ''email'' \<or> k = ''sender'' \<or> k = ''recipient'')"

definition REDACTED_VALUE :: string where "REDACTED_VALUE = ''[REDACTED]''"
definition REDACTED_EMAIL :: string where "REDACTED_EMAIL = ''[REDACTED_EMAIL]''"

definition maskUserId :: "(string \<Rightarrow> string) \<Rightarrow> string \<Rightarrow> string" where
  "maskUserId sha userId = ''user_'' @ take 12 (sha userId)"

definition maskEmail :: "string \<Rightarrow> string" where
  "maskEmail email =
     (let localPart = takeWhile (\<lambda>c. c \<noteq> CHR ''@'') email; domain = dropWhile (\<lambda>c. c \<noteq> CHR ''@'') email in
      if domain = [] \<or> localPart = [] then REDACTED_EMAIL
      else if length localPart \<le> 2 then ''*'' @ domain
      else take 2 localPart @ ''***'' @ domain)"

definition maskJwt :: "string \<Rightarrow> string" where
  "maskJwt token =
     (case js_split (CHR ''.'') token of
        [a, b, c] \<Rightarrow> ''xxx.'' @ a @ ''.'' @ b @ ''.xxx''
      | _ \<Rightarrow> REDACTED_VALUE)"

definition maskLongHex :: "string \<Rightarrow> string" where
  "maskLongHex hex = (if length hex \<le> 8 then hex else take 4 hex @ ''...'' @ drop (length hex - 4) hex)"

definition redactScalarValue :: "(string \<Rightarrow> string) \<Rightarrow> string \<Rightarrow> string \<Rightarrow> string" where
  "redactScalarValue sha key s =
     (if isSensitiveField key then REDACTED_VALUE
      else if is_jwt s then maskJwt s
      else if email_key key \<and> is_email s then maskEmail s
      else if (key = ''userId'' \<or> key = ''targetUserId'') \<and> s \<noteq> [] \<and> list_all is_digit s then maskUserId sha s
      else if is_long_hex s then maskLongHex s
      else s)"

section \<open>The recursion\<close>

text \<open>
  \<open>depth\<close> counts the arrays around a value inside one field.  An array inside two others is treated as an
  object, whose names are the positions.
\<close>

lemma enumerate_smaller: "(i, v) \<in> set (enumerate n vs) \<Longrightarrow> size v \<le> size_list size vs"
proof -
  assume "(i, v) \<in> set (enumerate n vs)"
  then have "v \<in> set vs" by (metis in_set_zip enumerate_eq_zip snd_conv nth_mem)
  then show ?thesis by (rule size_list_estimation') simp
qed

function (sequential) redact_at :: "(string \<Rightarrow> string) \<Rightarrow> nat \<Rightarrow> string \<Rightarrow> json \<Rightarrow> json" where
  "redact_at sha depth key (JStr s) = JStr (redactScalarValue sha key s)"
| "redact_at sha depth key (JObj kvs) = JObj (map (\<lambda>kv. (fst kv, redact_at sha 0 (fst kv) (snd kv))) kvs)"
| "redact_at sha depth key (JArr vs) =
     (if depth < 2 then JArr (map (\<lambda>v. redact_at sha (depth + 1) key v) vs)
      else JObj (map (\<lambda>iv. (nat_str (fst iv), redact_at sha 0 (nat_str (fst iv)) (snd iv))) (enumerate 0 vs)))"
| "redact_at sha depth key v = v"
  by pat_completeness auto
termination
  by (relation "measure (\<lambda>(sha, depth, key, v). size v)") (auto simp: size_list_estimation' less_Suc_eq_le enumerate_smaller)

definition redactField :: "(string \<Rightarrow> string) \<Rightarrow> string \<Rightarrow> json \<Rightarrow> json" where
  "redactField sha key v = redact_at sha 0 key v"

definition redactMetadata :: "(string \<Rightarrow> string) \<Rightarrow> (string \<times> json) list \<Rightarrow> (string \<times> json) list" where
  "redactMetadata sha metadata = map (\<lambda>kv. (fst kv, redactField sha (fst kv) (snd kv))) metadata"

section \<open>What the masks look like\<close>

lemma js_split_nonempty [simp]: "js_split d s \<noteq> []"
  by (induction s) (auto split: list.split)

lemma js_split_length: "length (js_split d s) = Suc (count_list s d)"
  by (induction s) (auto split: list.split)

lemma is_jwt_dots: "is_jwt s \<Longrightarrow> count_list s (CHR ''.'') = 2"
  using js_split_length [of "CHR ''.''" s] by (simp add: is_jwt_def Let_def)

lemma js_split_chars: "\<Union> (set ` set (js_split d s)) = set s - {d}"
proof (induction s)
  case Nil
  show ?case by simp
next
  case (Cons c s)
  obtain p ps where "js_split d s = p # ps" by (meson js_split_nonempty neq_Nil_conv)
  with Cons show ?case by auto
qed

lemma is_jwt_chars: "is_jwt s \<Longrightarrow> c \<in> set s \<Longrightarrow> c \<noteq> CHR ''.'' \<Longrightarrow> jwt_char c"
proof -
  assume jwt: "is_jwt s" and "c \<in> set s" "c \<noteq> CHR ''.''"
  then have "c \<in> \<Union> (set ` set (js_split (CHR ''.'') s))" by (simp add: js_split_chars)
  then show "jwt_char c" using jwt by (auto simp: is_jwt_def Let_def list_all_iff)
qed

lemma is_email_at: "is_email s \<Longrightarrow> CHR ''@'' \<in> set s"
proof -
  assume "is_email s"
  then have "length (js_split (CHR ''@'') s) = 2"
    by (auto simp: is_email_def split: list.splits)
  then have "count_list s (CHR ''@'') \<noteq> 0" by (simp add: js_split_length)
  then show ?thesis using count_notin by fastforce
qed

lemma not_jwt_char [simp]: "\<not> jwt_char (CHR ''['')" "\<not> jwt_char (CHR ''@'')" "\<not> jwt_char (CHR ''.'')"
  by (simp_all add: jwt_char_def)

lemma hex_chars_plain: "hex_char c \<Longrightarrow> c \<noteq> CHR ''.'' \<and> c \<noteq> CHR ''@''"
  by (auto simp: hex_char_def)

lemma masked_value_plain [simp]: "\<not> is_jwt REDACTED_VALUE" "\<not> is_long_hex REDACTED_VALUE"
  by (simp_all add: is_jwt_def is_long_hex_def REDACTED_VALUE_def)

lemma maskEmail_eq:
  assumes "is_email s"
  shows "\<exists>l. l \<noteq> [] \<and> CHR ''@'' \<notin> set l \<and> s = l @ dropWhile (\<lambda>c. c \<noteq> CHR ''@'') s \<and>
    maskEmail s = (if length l \<le> 2 then ''*'' else take 2 l @ ''***'') @ dropWhile (\<lambda>c. c \<noteq> CHR ''@'') s"
proof -
  let ?l = "takeWhile (\<lambda>c. c \<noteq> CHR ''@'') s" and ?d = "dropWhile (\<lambda>c. c \<noteq> CHR ''@'') s"
  have at: "CHR ''@'' \<in> set s" using assms by (rule is_email_at)
  then have d: "?d \<noteq> []" by (auto simp: dropWhile_eq_Nil_conv)
  have l: "?l \<noteq> []"
  proof
    assume "?l = []"
    then obtain s' where "s = CHR ''@'' # s'" using at by (cases s) (auto split: if_splits)
    then show False using assms by (auto simp: is_email_def split: list.splits)
  qed
  then show ?thesis using d
    by (intro exI [of _ ?l]) (auto simp: maskEmail_def Let_def dest: set_takeWhileD)
qed

lemma maskEmail_plain:
  assumes "is_email s"
  shows "\<not> is_jwt (maskEmail s)" "\<not> is_long_hex (maskEmail s)" "maskEmail (maskEmail s) = maskEmail s"
    "\<not> list_all is_digit (maskEmail s)"
proof -
  let ?d = "dropWhile (\<lambda>c. c \<noteq> CHR ''@'') s"
  obtain l where l: "l \<noteq> []" "CHR ''@'' \<notin> set l"
    and m: "maskEmail s = (if length l \<le> 2 then ''*'' else take 2 l @ ''***'') @ ?d"
    using maskEmail_eq [OF assms] by blast
  have "?d \<noteq> []" using is_email_at [OF assms] by (auto simp: dropWhile_eq_Nil_conv)
  then obtain t where d: "?d = CHR ''@'' # t"
    using hd_dropWhile [of "\<lambda>c. c \<noteq> CHR ''@''" s] by (cases ?d) auto
  then have at: "CHR ''@'' \<in> set (maskEmail s)" by (simp add: m)
  show "\<not> is_jwt (maskEmail s)" using at is_jwt_chars [of "maskEmail s" "CHR ''@''"] by auto
  show "\<not> is_long_hex (maskEmail s)" using at hex_chars_plain by (auto simp: is_long_hex_def list_all_iff)
  have "\<not> is_digit (CHR ''@'')" by (simp add: is_digit_def)
  then show "\<not> list_all is_digit (maskEmail s)" using at by (auto simp: list_all_iff)
  define p where "p = (if length l \<le> 2 then ''*'' else take 2 l @ ''***'')"
  have p: "p \<noteq> []" "CHR ''@'' \<notin> set p" using l by (auto simp: p_def dest: in_set_takeD)
  have "takeWhile (\<lambda>c. c \<noteq> CHR ''@'') (p @ CHR ''@'' # t) = p"
    using p(2) by (induction p) auto
  moreover have "dropWhile (\<lambda>c. c \<noteq> CHR ''@'') (p @ CHR ''@'' # t) = CHR ''@'' # t"
    using p(2) by (induction p) auto
  ultimately have "maskEmail (p @ CHR ''@'' # t) = p @ CHR ''@'' # t"
    using p by (auto simp: maskEmail_def Let_def p_def)
  then show "maskEmail (maskEmail s) = maskEmail s" unfolding m p_def [symmetric] d .
qed

lemma maskJwt_plain:
  assumes "is_jwt s"
  shows "\<not> is_jwt (maskJwt s)" "\<not> is_long_hex (maskJwt s)" "\<not> is_email (maskJwt s)" "\<not> list_all is_digit (maskJwt s)"
proof -
  obtain a b c where abc: "js_split (CHR ''.'') s = [a, b, c]"
    using assms by (auto simp: is_jwt_def Let_def length_Suc_conv numeral_3_eq_3)
  then have eq: "maskJwt s = ''xxx.'' @ a @ ''.'' @ b @ ''.xxx''" by (simp add: maskJwt_def)
  have chars: "list_all jwt_char a" "list_all jwt_char b" using assms abc by (simp_all add: is_jwt_def Let_def)
  then have "CHR ''.'' \<notin> set a" "CHR ''.'' \<notin> set b" by (auto simp: list_all_iff)
  then have "count_list (maskJwt s) (CHR ''.'') = 3" by (simp add: eq)
  then show "\<not> is_jwt (maskJwt s)" using is_jwt_dots by fastforce
  have "CHR ''@'' \<notin> set (maskJwt s)" using chars by (auto simp: eq list_all_iff)
  then show "\<not> is_email (maskJwt s)" using is_email_at by blast
  show "\<not> is_long_hex (maskJwt s)" by (simp add: eq is_long_hex_def hex_char_def)
  show "\<not> list_all is_digit (maskJwt s)" by (simp add: eq is_digit_def)
qed

lemma maskLongHex_plain:
  assumes "is_long_hex s"
  shows "\<not> is_jwt (maskLongHex s)" "\<not> is_long_hex (maskLongHex s)" "\<not> is_email (maskLongHex s)"
    "\<not> list_all is_digit (maskLongHex s)"
proof -
  have hex: "list_all hex_char s" and len: "40 \<le> length s" using assms by (simp_all add: is_long_hex_def)
  have eq: "maskLongHex s = take 4 s @ ''...'' @ drop (length s - 4) s" using len by (simp add: maskLongHex_def)
  have plain: "\<forall>c \<in> set s. c \<noteq> CHR ''.'' \<and> c \<noteq> CHR ''@''" using hex hex_chars_plain by (auto simp: list_all_iff)
  then have "CHR ''.'' \<notin> set (take 4 s)" "CHR ''.'' \<notin> set (drop (length s - 4) s)"
    by (auto dest: in_set_takeD in_set_dropD)
  then have "count_list (maskLongHex s) (CHR ''.'') = 3" by (simp add: eq)
  then show "\<not> is_jwt (maskLongHex s)" using is_jwt_dots by fastforce
  have "CHR ''@'' \<notin> set (maskLongHex s)" using plain by (auto simp: eq dest: in_set_takeD in_set_dropD)
  then show "\<not> is_email (maskLongHex s)" using is_email_at by blast
  show "\<not> is_long_hex (maskLongHex s)" by (simp add: eq is_long_hex_def hex_char_def)
  show "\<not> list_all is_digit (maskLongHex s)" by (simp add: eq is_digit_def)
qed

lemma maskUserId_plain:
  assumes "list_all hex_char (sha s)"
  shows "\<not> is_jwt (maskUserId sha s)" "\<not> is_long_hex (maskUserId sha s)" "\<not> is_email (maskUserId sha s)"
    "\<not> list_all is_digit (maskUserId sha s)"
proof -
  have plain: "\<forall>c \<in> set (take 12 (sha s)). c \<noteq> CHR ''.'' \<and> c \<noteq> CHR ''@''"
    using assms hex_chars_plain by (auto simp: list_all_iff dest: in_set_takeD)
  then have "CHR ''.'' \<notin> set (maskUserId sha s)" "CHR ''@'' \<notin> set (maskUserId sha s)"
    by (auto simp: maskUserId_def)
  then show "\<not> is_jwt (maskUserId sha s)" "\<not> is_email (maskUserId sha s)"
    using is_jwt_dots is_email_at by (fastforce simp: count_list_0_iff)+
  show "\<not> is_long_hex (maskUserId sha s)" by (simp add: maskUserId_def is_long_hex_def hex_char_def)
  show "\<not> list_all is_digit (maskUserId sha s)" by (simp add: maskUserId_def is_digit_def)
qed

section \<open>What redaction leaves\<close>

text \<open>The strings of a value with the name each stands under.\<close>

fun named_strings :: "string \<Rightarrow> json \<Rightarrow> (string \<times> string) list" where
  "named_strings key (JStr s) = [(key, s)]"
| "named_strings key (JObj kvs) = concat (map (\<lambda>(k, v). named_strings k v) kvs)"
| "named_strings key (JArr vs) = concat (map (named_strings key) vs)"
| "named_strings key _ = []"

definition metadata_strings :: "(string \<times> json) list \<Rightarrow> (string \<times> string) list" where
  "metadata_strings m = named_strings [] (JObj m)"

definition safe_string :: "string \<Rightarrow> string \<Rightarrow> bool" where
  "safe_string key s \<longleftrightarrow> (isSensitiveField key \<longrightarrow> s = REDACTED_VALUE) \<and> \<not> is_jwt s \<and> \<not> is_long_hex s"

definition safe_metadata :: "(string \<times> json) list \<Rightarrow> bool" where
  "safe_metadata m = list_all (\<lambda>(k, s). safe_string k s) (metadata_strings m)"

lemma redactScalar_safe:
  assumes "\<And>x. list_all hex_char (sha x)"
  shows "safe_string key (redactScalarValue sha key s)"
  using assms
  by (simp add: safe_string_def redactScalarValue_def maskJwt_plain maskEmail_plain maskUserId_plain maskLongHex_plain)

lemma redactScalar_idem:
  assumes sha: "\<And>x. list_all hex_char (sha x)"
  shows "redactScalarValue sha key (redactScalarValue sha key s) = redactScalarValue sha key s"
proof -
  let ?id = "(key = ''userId'' \<or> key = ''targetUserId'') \<and> s \<noteq> [] \<and> list_all is_digit s"
  consider (name) "isSensitiveField key"
    | (jwt) "\<not> isSensitiveField key" "is_jwt s"
    | (email) "\<not> isSensitiveField key" "\<not> is_jwt s" "email_key key \<and> is_email s"
    | (user) "\<not> isSensitiveField key" "\<not> is_jwt s" "\<not> (email_key key \<and> is_email s)" ?id
    | (hex) "\<not> isSensitiveField key" "\<not> is_jwt s" "\<not> (email_key key \<and> is_email s)" "\<not> ?id" "is_long_hex s"
    | (other) "redactScalarValue sha key s = s"
    unfolding redactScalarValue_def by argo
  then show ?thesis
  proof cases
    case jwt
    then have "redactScalarValue sha key s = maskJwt s" by (simp add: redactScalarValue_def)
    with jwt show ?thesis by (simp add: redactScalarValue_def maskJwt_plain)
  next
    case email
    then have "redactScalarValue sha key s = maskEmail s" by (simp add: redactScalarValue_def)
    with email show ?thesis by (simp add: redactScalarValue_def maskEmail_plain)
  next
    case user
    then have "redactScalarValue sha key s = maskUserId sha s" by (auto simp: redactScalarValue_def)
    with user show ?thesis by (simp add: redactScalarValue_def maskUserId_plain sha)
  next
    case hex
    then have "redactScalarValue sha key s = maskLongHex s" by (auto simp: redactScalarValue_def)
    with hex show ?thesis by (simp add: redactScalarValue_def maskLongHex_plain)
  qed (simp_all add: redactScalarValue_def)
qed

lemma redact_at_safe:
  assumes "\<And>x. list_all hex_char (sha x)"
  shows "(k, s) \<in> set (named_strings key (redact_at sha d key v)) \<Longrightarrow> safe_string k s"
  using assms
proof (induction sha d key v arbitrary: k s rule: redact_at.induct)
  case (1 sha depth key s')
  then show ?case using redactScalar_safe [of sha] by simp
next
  case (2 sha depth key kvs)
  then show ?case by fastforce
next
  case (3 sha depth key vs)
  then show ?case by (cases "depth < 2") fastforce+
qed auto

lemma redact_at_idem:
  assumes "\<And>x. list_all hex_char (sha x)"
  shows "redact_at sha d key (redact_at sha d key v) = redact_at sha d key v"
  using assms
proof (induction sha d key v rule: redact_at.induct)
  case (1 sha depth key s')
  then show ?case by (simp add: redactScalar_idem)
qed auto

section \<open>The properties\<close>

lemma redactMetadata_obj: "JObj (redactMetadata sha m) = redact_at sha d key (JObj m)"
  by (simp add: redactMetadata_def redactField_def)

lemma redactMetadata_safe:
  assumes "\<And>x. list_all hex_char (sha x)"
  shows "safe_metadata (redactMetadata sha m)"
proof -
  have "safe_string k s" if "(k, s) \<in> set (metadata_strings (redactMetadata sha m))" for k s
    using redact_at_safe [of sha k s "[]" 0 "JObj m"] assms that
    unfolding metadata_strings_def redactMetadata_obj [of sha m 0 "[]"] by blast
  then show ?thesis by (auto simp: safe_metadata_def list_all_iff)
qed

definition demo_sha :: "string \<Rightarrow> string" where
  "demo_sha s = replicate 64 (CHR ''a'')"

text \<open>
  C34: Whatever an audit entry carries, after redaction every string that stands under a sensitive name
  is \<open>[REDACTED]\<close>, and no string anywhere in it is a JSON web token or a hexadecimal string of
  40 digits or more; and redacting the result again changes nothing, so an entry redacted by the caller
  and once more by the log is stored the same.
\<close>

theorem redaction_safe:
  assumes "\<And>x. list_all hex_char (sha x)"
  shows "list_all (\<lambda>(k, s). (isSensitiveField k \<longrightarrow> s = REDACTED_VALUE) \<and> \<not> is_jwt s \<and> \<not> is_long_hex s)
      (metadata_strings (redactMetadata sha m)) \<and>
    redactMetadata sha (redactMetadata sha m) = redactMetadata sha m"
proof
  show "list_all (\<lambda>(k, s). (isSensitiveField k \<longrightarrow> s = REDACTED_VALUE) \<and> \<not> is_jwt s \<and> \<not> is_long_hex s)
      (metadata_strings (redactMetadata sha m))"
    using redactMetadata_safe [OF assms] by (simp add: safe_metadata_def safe_string_def)
  have "JObj (redactMetadata sha (redactMetadata sha m)) = JObj (redactMetadata sha m)"
    unfolding redactMetadata_obj [of sha _ 0 "[]"] by (rule redact_at_idem [OF assms])
  then show "redactMetadata sha (redactMetadata sha m) = redactMetadata sha m" by simp
qed

theorem redaction_safe_witness:
  "metadata_strings (redactMetadata demo_sha [(''password'', JStr ''hunter2''), (''note'', JStr ''late'')]) =
     [(''password'', ''[REDACTED]''), (''note'', ''late'')] \<and>
   redactMetadata demo_sha (redactMetadata demo_sha [(''password'', JStr ''hunter2'')]) =
     redactMetadata demo_sha [(''password'', JStr ''hunter2'')]"
proof
  have sha: "list_all hex_char (demo_sha x)" for x by (simp add: demo_sha_def hex_char_def list_all_iff)
  show "redactMetadata demo_sha (redactMetadata demo_sha [(''password'', JStr ''hunter2'')]) =
     redactMetadata demo_sha [(''password'', JStr ''hunter2'')]"
    using redaction_safe [of demo_sha] sha by blast
  show "metadata_strings (redactMetadata demo_sha [(''password'', JStr ''hunter2''), (''note'', JStr ''late'')]) =
     [(''password'', ''[REDACTED]''), (''note'', ''late'')]"
    by code_simp
qed

section \<open>What redaction misses\<close>

text \<open>
  The name of a field reaches only the strings directly in it: a credential written as an object keeps
  its parts, and a numeric secret is kept as it is.
\<close>

lemma nested_secret_kept:
  "metadata_strings (redactMetadata demo_sha [(''credential'', JObj [(''user'', JStr ''eve''), (''value'', JStr ''hunter2'')])]) =
     [(''user'', ''eve''), (''value'', ''hunter2'')]"
  "redactMetadata demo_sha [(''password'', JInt n)] = [(''password'', JInt n)]"
  by code_simp (simp add: redactMetadata_def redactField_def)

text \<open>The mask of a token keeps the header and the payload: the claims in it can still be read.\<close>

lemma maskJwt_keeps_claims:
  assumes "js_split (CHR ''.'') t = [h, claims, sig]"
  shows "maskJwt t = ''xxx.'' @ h @ ''.'' @ claims @ ''.xxx''"
  using assms by (simp add: maskJwt_def)

end
