(* ===== verification/Audit_Log.thy ===== *)
theory Audit_Log
  imports Audit_Redaction
begin

text \<open>
  The audit log (\<^verbatim>\<open>audit-log/audit-log.service.ts\<close>, the entity beside it, and the second writer of the
  table, \<^verbatim>\<open>admin/services/moderation.service.ts\<close>): who acted, what is stored, and one operation per
  method that writes.

  An object is the list of its members; a member whose value is \<open>undefined\<close> is left out, as \<open>jsonb\<close>
  leaves it out.  A missing \<open>context\<close> is \<open>no_context\<close>, which every expression of the service reads the
  same way.  A call of the database carries the id and the time it would give a row and whether the
  database answers; the row must also fit its columns.
\<close>

section \<open>Entries\<close>

datatype AuditActionType =
    CONFESSION_DELETE | COMMENT_DELETE | CONFESSION_DELETED | COMMENT_DELETED | CONFESSION_HIDDEN | CONFESSION_UNHIDDEN
  | COMMENT_APPROVED | COMMENT_REJECTED | WEBHOOK_REJECTED | REPORT_CREATED | REPORT_RESOLVED | REPORT_DISMISSED
  | FAILED_LOGIN | NOTIFICATION_SUPPRESSED | NOTIFICATION_DLQ_REPLAY | NOTIFICATION_DLQ_CLEANUP | EXPORT_RETENTION_CLEANUP
  | MODERATION_ESCALATION | MODERATION_OVERRIDE | BULK_ACTION | USER_BANNED | USER_UNBANNED | USER_ADMIN_GRANTED
  | USER_ADMIN_REVOKED | EMAIL_TEMPLATE_DELIVERED | EMAIL_TEMPLATE_FAILED | EMAIL_TEMPLATE_PROMOTED
  | EMAIL_TEMPLATE_ROLLED_BACK | TEMPLATE_STATE_TRANSITION | TEMPLATE_ROLLOUT_KILLSWITCH | TEMPLATE_FALLBACK_ACTIVATED
  | TEMPLATE_ROLLOUT_DIFF_RECORDED | MODERATION_STATE_TRANSITION | EXPORT_REQUEST_CREATED | EXPORT_GENERATION_COMPLETED
  | EXPORT_LINK_REFRESHED | EXPORT_DOWNLOADED | EXPORT_DOWNLOAD_FAILED | EXPORT_TOKEN_EXPIRED | EXPORT_EXPIRED
  | ADMIN_CSV_EXPORT | STELLAR_CONTRACT_INVOCATION | STELLAR_ANCHOR_RETRY | STELLAR_ANCHOR_FAILED
  | TIP_RECONCILIATION_DEAD_LETTER | TIP_SETTLEMENT_VERIFIED | FEATURE_FLAG_CREATED | FEATURE_FLAG_UPDATED
  | FEATURE_FLAG_DELETED | FEATURE_FLAG_ROLLED_BACK

type_synonym obj = "(string \<times> json) list"

record audit_row =
  lg_id :: ident
  lg_adminId :: "int option"
  lg_action :: AuditActionType
  lg_entityType :: "string option"
  lg_entityId :: "string option"
  lg_metadata :: obj
  lg_notes :: "string option"
  lg_ipAddress :: "string option"
  lg_userAgent :: "string option"
  lg_requestId :: "string option"
  lg_createdAt :: ms

text \<open>A user id comes as a number or as text.\<close>

datatype user_ref = UStr string | UNum int

record audit_actor =
  ac_type :: json
  ac_id :: string
  ac_userId :: "string option"
  ac_label :: json
  ac_source :: json

record audit_context =
  cx_userId :: "user_ref option"
  cx_ipAddress :: "string option"
  cx_userAgent :: "string option"
  cx_requestId :: "string option"
  cx_actor :: "audit_actor option"

definition no_context :: audit_context where
  "no_context = \<lparr>cx_userId = None, cx_ipAddress = None, cx_userAgent = None, cx_requestId = None, cx_actor = None\<rparr>"

record audit_env =
  ae_sha :: "string \<Rightarrow> string"
  ae_iso :: "ms \<Rightarrow> string"
  ae_users :: "int \<Rightarrow> bool"

record db_call =
  dc_id :: ident
  dc_now :: ms
  dc_up :: bool

section \<open>JavaScript values\<close>

definition js_truthy :: "json \<Rightarrow> bool" where
  "js_truthy v = (case v of JNull \<Rightarrow> False | JBool b \<Rightarrow> b | JInt i \<Rightarrow> i \<noteq> 0 | JStr s \<Rightarrow> s \<noteq> [] | _ \<Rightarrow> True)"

text \<open>\<open>String(v)\<close>: an array joins its elements by commas, \<open>null\<close> among them prints as nothing.\<close>

fun js_text :: "json \<Rightarrow> string" where
  "js_text JNull = ''null''"
| "js_text (JBool b) = (if b then ''true'' else ''false'')"
| "js_text (JInt i) = int_str i"
| "js_text (JFloat t) = t"
| "js_text (JStr s) = s"
| "js_text (JArr vs) = join_comma (map (\<lambda>v. if v = JNull then [] else js_text v) vs)"
| "js_text (JObj kvs) = ''[object Object]''"

definition uid_truthy :: "user_ref \<Rightarrow> bool" where
  "uid_truthy u \<longleftrightarrow> u \<noteq> UStr [] \<and> u \<noteq> UNum 0"

definition uid_text :: "user_ref \<Rightarrow> string" where
  "uid_text u = (case u of UStr s \<Rightarrow> s | UNum i \<Rightarrow> int_str i)"

text \<open>\<open>x || null\<close> for a nullable string, \<open>x || null\<close> for a nullable id.\<close>

definition or_null :: "string option \<Rightarrow> string option" where
  "or_null s = (if truthy s then s else None)"

definition uid_or_null :: "user_ref option \<Rightarrow> user_ref option" where
  "uid_or_null u = (case u of None \<Rightarrow> None | Some r \<Rightarrow> if uid_truthy r then Some r else None)"

text \<open>\<open>{...a, ...b}\<close>; a member that is present when its value is, one that is \<open>null\<close> otherwise, and
  \<open>obj.k || d\<close>.\<close>

definition obj_spread :: "obj \<Rightarrow> obj \<Rightarrow> obj" where
  "obj_spread a b = foldl obj_put a b"

definition opt_member :: "string \<Rightarrow> string option \<Rightarrow> obj" where
  "opt_member k s = (case s of None \<Rightarrow> [] | Some x \<Rightarrow> [(k, JStr x)])"

definition json_opt :: "string option \<Rightarrow> json" where
  "json_opt s = json_nullable JStr s"

definition member_or :: "obj \<Rightarrow> string \<Rightarrow> string \<Rightarrow> json" where
  "member_or m k d = (case map_of m k of None \<Rightarrow> JStr d | Some v \<Rightarrow> if js_truthy v then v else JStr d)"

section \<open>The actor and the columns\<close>

definition toNullableUserId :: "user_ref option \<Rightarrow> int option" where
  "toNullableUserId u =
     (case u of None \<Rightarrow> None | Some (UNum i) \<Rightarrow> Some i | Some (UStr s) \<Rightarrow> if s = [] then None else parseInt s)"

definition extractMetadataString :: "obj \<Rightarrow> string \<Rightarrow> string option" where
  "extractMetadataString m k = (case map_of m k of Some (JStr s) \<Rightarrow> if s \<noteq> [] then Some s else None | _ \<Rightarrow> None)"

definition extractEntityId :: "obj \<Rightarrow> string option" where
  "extractEntityId m =
     (case List.map_filter (extractMetadataString m)
         [''entityId'', ''reportId'', ''commentId'', ''confessionId'', ''exportId'', ''requestId''] of
        [] \<Rightarrow> None | s # _ \<Rightarrow> Some s)"

definition personal :: "json \<Rightarrow> bool" where
  "personal ty \<longleftrightarrow> ty = JStr ''user'' \<or> ty = JStr ''admin''"

text \<open>The overriding user id is \<open>None\<close> when it is \<open>undefined\<close> and \<open>Some None\<close> when it is \<open>null\<close>.\<close>

definition createActor :: "json \<Rightarrow> string \<Rightarrow> user_ref option option \<Rightarrow> json \<Rightarrow> json \<Rightarrow> audit_actor" where
  "createActor ty actorId ov label source =
     \<lparr>ac_type = ty, ac_id = actorId,
      ac_userId = (case ov of
          Some u \<Rightarrow> (case u of None \<Rightarrow> None | Some r \<Rightarrow> if r = UStr [] then None else Some (uid_text r))
        | None \<Rightarrow> if personal ty then Some actorId else None),
      ac_label = label, ac_source = source\<rparr>"

definition plain_actor :: "string \<Rightarrow> string \<Rightarrow> audit_actor" where
  "plain_actor ty actorId = createActor (JStr ty) actorId None JNull JNull"

definition metadata_actor :: "obj \<Rightarrow> audit_actor option" where
  "metadata_actor m =
     (let ty = nullish (map_of m ''actorType'') JNull; aid = nullish (map_of m ''actorId'') JNull in
      if js_truthy ty \<and> js_truthy aid \<and> js_text aid \<noteq> [] then
        Some (createActor ty (js_text aid) (Some (if personal ty then Some (UStr (js_text aid)) else None))
          (nullish (map_of m ''actorLabel'') JNull) (nullish (map_of m ''actorSource'') JNull))
      else None)"

definition implied_actor :: "obj \<Rightarrow> audit_context \<Rightarrow> audit_actor option" where
  "implied_actor m cx =
     (case metadata_actor m of
        Some a \<Rightarrow> Some a
      | None \<Rightarrow> map_option (\<lambda>u. createActor (JStr ''user'') (uid_text u) (Some (Some u)) JNull JNull) (uid_or_null (cx_userId cx)))"

definition resolveActor :: "obj \<Rightarrow> audit_context \<Rightarrow> audit_actor option" where
  "resolveActor m cx =
     (case cx_actor cx of
        Some a \<Rightarrow> if ac_id a \<noteq> [] then Some a else implied_actor m cx
      | None \<Rightarrow> implied_actor m cx)"

definition actor_members :: "audit_actor option \<Rightarrow> obj" where
  "actor_members actor =
     (case actor of None \<Rightarrow> []
      | Some a \<Rightarrow> [(''actorType'', ac_type a), (''actorId'', JStr (ac_id a)), (''actorUserId'', json_opt (or_null (ac_userId a)))]
          @ (if js_truthy (ac_label a) then [(''actorLabel'', ac_label a)] else [])
          @ (if js_truthy (ac_source a) then [(''actorSource'', ac_source a)] else []))"

definition rawMetadata :: "obj \<Rightarrow> audit_context \<Rightarrow> obj" where
  "rawMetadata m cx =
     (let templateKey = extractMetadataString m ''templateKey''; templateVersion = extractMetadataString m ''templateVersion'' in
      obj_spread (obj_spread (obj_spread (obj_spread [] m) (actor_members (resolveActor m cx)))
          (if truthy (cx_requestId cx) then opt_member ''requestId'' (cx_requestId cx) else []))
        (if truthy templateKey \<and> truthy templateVersion
         then opt_member ''templateKey'' templateKey @ opt_member ''templateVersion'' templateVersion else []))"

section \<open>Storing an entry\<close>

text \<open>What the columns of \<open>audit_logs\<close> take: a 32-bit id of an existing user, 45 characters of address, 64 of
  request id.\<close>

definition row_fits :: "(int \<Rightarrow> bool) \<Rightarrow> audit_row \<Rightarrow> bool" where
  "row_fits users r \<longleftrightarrow>
     (case lg_adminId r of None \<Rightarrow> True | Some i \<Rightarrow> - (2 ^ 31) \<le> i \<and> i < 2 ^ 31 \<and> users i) \<and>
     (case lg_ipAddress r of None \<Rightarrow> True | Some s \<Rightarrow> length s \<le> 45) \<and>
     (case lg_requestId r of None \<Rightarrow> True | Some s \<Rightarrow> length s \<le> 64)"

definition audit_save :: "audit_env \<Rightarrow> db_call \<Rightarrow> audit_row \<Rightarrow> audit_row list \<Rightarrow> audit_row list option" where
  "audit_save env c r t = (if dc_up c \<and> row_fits (ae_users env) r then Some (t @ [r]) else None)"

definition entry_of :: "audit_env \<Rightarrow> db_call \<Rightarrow> AuditActionType \<Rightarrow> obj \<Rightarrow> audit_context \<Rightarrow> audit_row" where
  "entry_of env c actionType metadata cx =
     \<lparr>lg_id = dc_id c,
      lg_adminId = toNullableUserId (uid_or_null (cx_userId cx)),
      lg_action = actionType,
      lg_entityType = (case map_of metadata ''entityType'' of Some (JStr s) \<Rightarrow> Some s | _ \<Rightarrow> None),
      lg_entityId = extractEntityId metadata,
      lg_metadata = redactMetadata (ae_sha env) (rawMetadata metadata cx),
      lg_notes = None,
      lg_ipAddress = or_null (cx_ipAddress cx),
      lg_userAgent = or_null (cx_userAgent cx),
      lg_requestId = or_null (cx_requestId cx),
      lg_createdAt = dc_now c\<rparr>"

text \<open>A failed save is reported to the logger only: the caller goes on.\<close>

definition audit_log :: "audit_env \<Rightarrow> db_call \<Rightarrow> AuditActionType \<Rightarrow> obj \<Rightarrow> audit_context \<Rightarrow> audit_row list \<Rightarrow> audit_row list" where
  "audit_log env c actionType metadata cx t =
     (case audit_save env c (entry_of env c actionType metadata cx) t of None \<Rightarrow> t | Some t' \<Rightarrow> t')"

section \<open>The entries the services ask for\<close>

definition as_user :: "audit_context \<Rightarrow> string \<Rightarrow> audit_context" where
  "as_user cx userId = cx\<lparr>cx_userId := Some (UStr userId)\<rparr>"

definition as_admin :: "audit_context \<Rightarrow> string \<Rightarrow> audit_context" where
  "as_admin cx adminId = cx\<lparr>cx_userId := Some (UStr adminId), cx_actor := Some (plain_actor ''admin'' adminId)\<rparr>"

definition logConfessionDelete ::
  "audit_env \<Rightarrow> db_call \<Rightarrow> string \<Rightarrow> string \<Rightarrow> audit_context \<Rightarrow> audit_row list \<Rightarrow> audit_row list" where
  "logConfessionDelete env c confessionId userId cx =
     audit_log env c CONFESSION_DELETED
       [(''confessionId'', JStr confessionId), (''entityType'', JStr ''confession''), (''entityId'', JStr confessionId),
        (''deletedAt'', JStr (ae_iso env (dc_now c)))]
       (as_user cx userId)"

definition logModerationStateTransition ::
  "audit_env \<Rightarrow> db_call \<Rightarrow> string \<Rightarrow> string \<Rightarrow> string \<Rightarrow> string \<Rightarrow> string \<Rightarrow> string option \<Rightarrow> string option \<Rightarrow> audit_context \<Rightarrow> audit_row list \<Rightarrow> audit_row list" where
  "logModerationStateTransition env c moderationLogId frm to actorId reason confessionId notes cx =
     audit_log env c MODERATION_STATE_TRANSITION
       ([(''entityType'', JStr ''moderation_log''), (''entityId'', JStr moderationLogId)] @ opt_member ''confessionId'' confessionId @
        [(''previousState'', JStr frm), (''nextState'', JStr to), (''reason'', JStr reason)] @ opt_member ''notes'' notes @
        [(''transitionedAt'', JStr (ae_iso env (dc_now c)))])
       (as_admin cx actorId)"

definition logCommentDelete ::
  "audit_env \<Rightarrow> db_call \<Rightarrow> string \<Rightarrow> string \<Rightarrow> string \<Rightarrow> audit_context \<Rightarrow> audit_row list \<Rightarrow> audit_row list" where
  "logCommentDelete env c commentId confessionId userId cx =
     audit_log env c COMMENT_DELETED
       [(''commentId'', JStr commentId), (''confessionId'', JStr confessionId), (''entityType'', JStr ''comment''),
        (''entityId'', JStr commentId), (''deletedAt'', JStr (ae_iso env (dc_now c)))]
       (as_user cx userId)"

definition logFailedLogin ::
  "audit_env \<Rightarrow> db_call \<Rightarrow> string \<Rightarrow> string \<Rightarrow> audit_context \<Rightarrow> audit_row list \<Rightarrow> audit_row list" where
  "logFailedLogin env c identifier reason cx =
     audit_log env c FAILED_LOGIN
       [(''identifier'', JStr identifier), (''reason'', JStr reason), (''attemptedAt'', JStr (ae_iso env (dc_now c)))] cx"

definition logReport ::
  "audit_env \<Rightarrow> db_call \<Rightarrow> string \<Rightarrow> string \<Rightarrow> string \<Rightarrow> string \<Rightarrow> string \<Rightarrow> audit_context \<Rightarrow> audit_row list \<Rightarrow> audit_row list" where
  "logReport env c reportId targetType targetId reporterId reason cx =
     audit_log env c REPORT_CREATED
       [(''reportId'', JStr reportId), (''targetType'', JStr targetType), (''targetId'', JStr targetId),
        (''entityType'', JStr targetType), (''entityId'', JStr targetId), (''reason'', JStr reason),
        (''reportedAt'', JStr (ae_iso env (dc_now c)))]
       (as_user cx reporterId)"

definition logReportResolved ::
  "audit_env \<Rightarrow> db_call \<Rightarrow> string \<Rightarrow> string \<Rightarrow> obj \<Rightarrow> audit_context \<Rightarrow> audit_row list \<Rightarrow> audit_row list" where
  "logReportResolved env c reportId adminId metadata cx =
     audit_log env c REPORT_RESOLVED
       (obj_spread (obj_spread [(''reportId'', JStr reportId), (''entityType'', JStr ''report''), (''entityId'', JStr reportId)] metadata)
          [(''resolvedAt'', JStr (ae_iso env (dc_now c)))])
       (as_admin cx adminId)"

definition logReportDismissed ::
  "audit_env \<Rightarrow> db_call \<Rightarrow> string \<Rightarrow> string \<Rightarrow> obj \<Rightarrow> audit_context \<Rightarrow> audit_row list \<Rightarrow> audit_row list" where
  "logReportDismissed env c reportId adminId metadata cx =
     audit_log env c REPORT_DISMISSED
       (obj_spread (obj_spread [(''reportId'', JStr reportId), (''entityType'', JStr ''report''), (''entityId'', JStr reportId)] metadata)
          [(''dismissedAt'', JStr (ae_iso env (dc_now c)))])
       (as_admin cx adminId)"

definition logNotificationDlqReplay ::
  "audit_env \<Rightarrow> db_call \<Rightarrow> string \<Rightarrow> obj \<Rightarrow> audit_context \<Rightarrow> audit_row list \<Rightarrow> audit_row list" where
  "logNotificationDlqReplay env c adminId metadata cx =
     audit_log env c NOTIFICATION_DLQ_REPLAY
       (obj_spread (obj_spread [(''entityType'', JStr ''notification_dlq'')] metadata)
          [(''replayedAt'', member_or metadata ''replayedAt'' (ae_iso env (dc_now c)))])
       (as_admin cx adminId)"

definition logNotificationDlqCleanup ::
  "audit_env \<Rightarrow> db_call \<Rightarrow> string \<Rightarrow> obj \<Rightarrow> audit_context \<Rightarrow> audit_row list \<Rightarrow> audit_row list" where
  "logNotificationDlqCleanup env c adminId metadata cx =
     audit_log env c NOTIFICATION_DLQ_CLEANUP
       (obj_spread (obj_spread [(''entityType'', JStr ''notification_dlq'')] metadata)
          [(''cleanedAt'', member_or metadata ''cleanedAt'' (ae_iso env (dc_now c)))])
       (as_admin cx adminId)"

definition logExportRetentionCleanup ::
  "audit_env \<Rightarrow> db_call \<Rightarrow> obj \<Rightarrow> audit_context \<Rightarrow> audit_row list \<Rightarrow> audit_row list" where
  "logExportRetentionCleanup env c metadata cx =
     audit_log env c EXPORT_RETENTION_CLEANUP
       (obj_spread (obj_spread [(''entityType'', JStr ''data_export_retention'')] metadata)
          [(''cleanedAt'', member_or metadata ''cleanedAt'' (ae_iso env (dc_now c)))])
       (cx\<lparr>cx_actor := Some (plain_actor ''system'' ''retention-cleanup-scheduler'')\<rparr>)"

definition logAdminCsvExport ::
  "audit_env \<Rightarrow> db_call \<Rightarrow> user_ref \<Rightarrow> string \<Rightarrow> string option \<Rightarrow> int option \<Rightarrow> obj option \<Rightarrow> audit_context \<Rightarrow> audit_row list \<Rightarrow> audit_row list" where
  "logAdminCsvExport env c adminId label requestId rowCount filters cx =
     audit_log env c ADMIN_CSV_EXPORT
       [(''entityType'', JStr ''admin_csv_export''), (''label'', JStr label), (''requestId'', json_opt (or_null requestId)),
        (''rowCount'', json_nullable JInt rowCount), (''filters'', json_nullable JObj filters),
        (''exportedAt'', JStr (ae_iso env (dc_now c)))]
       (cx\<lparr>cx_userId := map_option UNum (toNullableUserId (Some (UStr (uid_text adminId))))\<rparr>)"

subsection \<open>Exports\<close>

definition mapExportActionType :: "string \<Rightarrow> AuditActionType" where
  "mapExportActionType action =
     (if action = ''request_created'' then EXPORT_REQUEST_CREATED
      else if action = ''generation_completed'' then EXPORT_GENERATION_COMPLETED
      else if action = ''link_refreshed'' then EXPORT_LINK_REFRESHED
      else if action = ''downloaded'' then EXPORT_DOWNLOADED
      else if action = ''download_failed'' then EXPORT_DOWNLOAD_FAILED
      else if action = ''token_expired'' then EXPORT_TOKEN_EXPIRED
      else if action = ''export_expired'' then EXPORT_EXPIRED
      else EXPORT_REQUEST_CREATED)"

record export_event =
  xe_action :: string
  xe_requestId :: string
  xe_exportId :: "string option"
  xe_actorType :: string
  xe_actorId :: "string option"
  xe_occurredAt :: "string option"
  xe_metadata :: obj
  xe_context :: audit_context

definition event_user :: "export_event \<Rightarrow> user_ref option" where
  "event_user e =
     (if personal (JStr (xe_actorType e))
      then (if truthy (xe_actorId e) then map_option UStr (xe_actorId e) else uid_or_null (cx_userId (xe_context e)))
      else None)"

definition logExportLifecycleEvent ::
  "audit_env \<Rightarrow> db_call \<Rightarrow> export_event \<Rightarrow> audit_row list \<Rightarrow> audit_row list" where
  "logExportLifecycleEvent env c e =
     (let exportId = js_or (xe_exportId e) (xe_requestId e); actorUserId = event_user e; cx = xe_context e in
      audit_log env c (mapExportActionType (xe_action e))
       (obj_spread (xe_metadata e)
         [(''entityType'', JStr ''data_export''), (''entityId'', JStr exportId), (''exportId'', JStr exportId),
          (''requestId'', JStr (xe_requestId e)), (''actorType'', JStr (xe_actorType e)), (''actorId'', json_opt (or_null (xe_actorId e))),
          (''lifecycleAction'', JStr (xe_action e)), (''occurredAt'', JStr (js_or (xe_occurredAt e) (ae_iso env (dc_now c))))])
       (cx\<lparr>cx_userId := map_option UNum (toNullableUserId (case cx_userId cx of None \<Rightarrow> actorUserId | Some u \<Rightarrow> Some u)),
           cx_actor := Some (createActor (JStr (xe_actorType e)) (js_or (xe_actorId e) (xe_action e)) (Some actorUserId) JNull JNull)\<rparr>))"

subsection \<open>Template rollouts\<close>

text \<open>\<open>JSON.stringify(undefined)\<close> is \<open>undefined\<close>, which differs from every text.\<close>

definition buildRolloutDiff :: "obj \<Rightarrow> obj \<Rightarrow> obj" where
  "buildRolloutDiff before after =
     List.map_filter (\<lambda>k.
         let b = map_of before k; a = map_of after k in
         if map_option json_text b \<noteq> map_option json_text a
         then Some (k, JObj ((case b of None \<Rightarrow> [] | Some v \<Rightarrow> [(''before'', v)]) @ (case a of None \<Rightarrow> [] | Some v \<Rightarrow> [(''after'', v)])))
         else None)
       (rev (remdups (rev (map fst before @ map fst after))))"

record rollout_source =
  rs_reason :: "string option"
  rs_correlationId :: "string option"
  rs_sourceEndpoint :: "string option"
  rs_sourceMethod :: "string option"

definition no_source :: rollout_source where
  "no_source = \<lparr>rs_reason = None, rs_correlationId = None, rs_sourceEndpoint = None, rs_sourceMethod = None\<rparr>"

record rollout_change =
  rc_templateKey :: string
  rc_templateVersion :: "string option"
  rc_changeType :: string
  rc_actorId :: string
  rc_actorType :: json
  rc_before :: obj
  rc_after :: obj
  rc_source :: rollout_source

definition logTemplateRolloutDiff ::
  "audit_env \<Rightarrow> db_call \<Rightarrow> rollout_change \<Rightarrow> audit_context \<Rightarrow> audit_row list \<Rightarrow> audit_row list" where
  "logTemplateRolloutDiff env c r cx =
     (let src = rc_source r;
          correlationId = (if truthy (rs_correlationId src) then rs_correlationId src else cx_requestId cx);
          actorUserId = nullish (cx_userId cx) (UStr (rc_actorId r)) in
      audit_log env c TEMPLATE_ROLLOUT_DIFF_RECORDED
       [(''entityType'', JStr ''template_rollout''),
        (''entityId'', JStr (if truthy (rc_templateVersion r) then rc_templateKey r @ '':'' @ js_or (rc_templateVersion r) [] else rc_templateKey r)),
        (''templateKey'', JStr (rc_templateKey r)),
        (''templateVersion'', json_opt (or_null (rc_templateVersion r))),
        (''changeType'', JStr (rc_changeType r)),
        (''actorId'', JStr (rc_actorId r)),
        (''reason'', json_opt (or_null (rs_reason src))),
        (''correlationId'', json_opt (or_null correlationId)),
        (''sourceEndpoint'', json_opt (or_null (rs_sourceEndpoint src))),
        (''sourceMethod'', json_opt (or_null (rs_sourceMethod src))),
        (''before'', JObj (rc_before r)),
        (''after'', JObj (rc_after r)),
        (''diff'', JObj (buildRolloutDiff (rc_before r) (rc_after r))),
        (''changedAt'', JStr (ae_iso env (dc_now c)))]
       (cx\<lparr>cx_userId := map_option UNum (toNullableUserId (Some actorUserId)),
           cx_actor := Some (createActor (if js_truthy (rc_actorType r) then rc_actorType r else JStr ''admin'') (rc_actorId r)
             (Some (Some actorUserId)) JNull (json_opt (or_null (rs_sourceEndpoint src))))\<rparr>))"

definition logTemplateStateTransition ::
  "audit_env \<Rightarrow> db_call \<Rightarrow> db_call \<Rightarrow> string \<Rightarrow> string \<Rightarrow> string \<Rightarrow> string \<Rightarrow> string \<Rightarrow> string option \<Rightarrow> rollout_source \<Rightarrow> audit_context \<Rightarrow> audit_row list \<Rightarrow> audit_row list" where
  "logTemplateStateTransition env c c' templateKey version frm to adminId reason src cx t =
     logTemplateRolloutDiff env c'
       \<lparr>rc_templateKey = templateKey, rc_templateVersion = Some version, rc_changeType = ''state_transition'',
        rc_actorId = adminId, rc_actorType = JStr ''admin'', rc_before = [(''lifecycleState'', JStr frm)],
        rc_after = [(''lifecycleState'', JStr to)], rc_source = src\<lparr>rs_reason := reason\<rparr>\<rparr> cx
       (audit_log env c TEMPLATE_STATE_TRANSITION
         ([(''templateKey'', JStr templateKey), (''templateVersion'', JStr version), (''from'', JStr frm), (''to'', JStr to)] @
          opt_member ''reason'' reason @
          [(''entityType'', JStr ''template_version''), (''entityId'', JStr (templateKey @ '':'' @ version)),
           (''transitionedAt'', JStr (ae_iso env (dc_now c)))])
         (as_admin cx adminId) t)"

definition logTemplateKillswitchToggle ::
  "audit_env \<Rightarrow> db_call \<Rightarrow> db_call \<Rightarrow> string \<Rightarrow> bool \<Rightarrow> string option \<Rightarrow> string option \<Rightarrow> rollout_source \<Rightarrow> audit_context \<Rightarrow> audit_row list \<Rightarrow> audit_row list" where
  "logTemplateKillswitchToggle env c c' adminId enabled templateKey reason src cx t =
     logTemplateRolloutDiff env c'
       \<lparr>rc_templateKey = js_or templateKey ''global'', rc_templateVersion = None, rc_changeType = ''kill_switch_toggle'',
        rc_actorId = adminId, rc_actorType = JStr ''admin'', rc_before = [(''killSwitchEnabled'', JBool (\<not> enabled))],
        rc_after = [(''killSwitchEnabled'', JBool enabled)], rc_source = src\<lparr>rs_reason := reason\<rparr>\<rparr> cx
       (audit_log env c TEMPLATE_ROLLOUT_KILLSWITCH
         ([(''enabled'', JBool enabled), (''templateKey'', JStr (js_or templateKey ''global''))] @ opt_member ''reason'' reason @
          [(''entityType'', JStr ''template_config''), (''entityId'', JStr (js_or templateKey ''global'')),
           (''toggledAt'', JStr (ae_iso env (dc_now c)))])
         (as_admin cx adminId) t)"

definition fallback_actorId :: "audit_context \<Rightarrow> string" where
  "fallback_actorId cx =
     (case cx_actor cx of
        Some a \<Rightarrow> if ac_id a \<noteq> [] then ac_id a
          else (case uid_or_null (cx_userId cx) of Some u \<Rightarrow> uid_text u | None \<Rightarrow> ''template-fallback'')
      | None \<Rightarrow> (case uid_or_null (cx_userId cx) of Some u \<Rightarrow> uid_text u | None \<Rightarrow> ''template-fallback''))"

definition fallback_actorType :: "audit_context \<Rightarrow> json" where
  "fallback_actorType cx =
     (let other = JStr (if uid_or_null (cx_userId cx) \<noteq> None then ''admin'' else ''system'') in
      case cx_actor cx of Some a \<Rightarrow> if js_truthy (ac_type a) then ac_type a else other | None \<Rightarrow> other)"

definition logTemplateFallbackActivated ::
  "audit_env \<Rightarrow> db_call \<Rightarrow> db_call \<Rightarrow> string \<Rightarrow> string \<Rightarrow> string \<Rightarrow> string \<Rightarrow> rollout_source \<Rightarrow> audit_context \<Rightarrow> audit_row list \<Rightarrow> audit_row list" where
  "logTemplateFallbackActivated env c c' templateKey failedVersion fallbackVersion reason src cx t =
     logTemplateRolloutDiff env c'
       \<lparr>rc_templateKey = templateKey, rc_templateVersion = Some failedVersion, rc_changeType = ''fallback_activation'',
        rc_actorId = fallback_actorId cx, rc_actorType = fallback_actorType cx,
        rc_before = [(''activeVersion'', JStr failedVersion)], rc_after = [(''activeVersion'', JStr fallbackVersion)],
        rc_source = src\<lparr>rs_reason := Some reason\<rparr>\<rparr> cx
       (audit_log env c TEMPLATE_FALLBACK_ACTIVATED
         [(''templateKey'', JStr templateKey), (''failedVersion'', JStr failedVersion), (''fallbackVersion'', JStr fallbackVersion),
          (''reason'', JStr reason), (''entityType'', JStr ''template_version''), (''entityId'', JStr (templateKey @ '':'' @ failedVersion)),
          (''activatedAt'', JStr (ae_iso env (dc_now c)))]
         cx t)"

subsection \<open>Administrators\<close>

text \<open>
  The request of an administrator, and \<open>ModerationService.logAction\<close>: it runs inside the caller's transaction, and
  its failure is the caller's failure.
\<close>

record web_request =
  wr_requestId :: "string option"
  wr_ip :: "string option"
  wr_remoteAddress :: "string option"
  wr_userAgent :: "string option"

definition action_metadata :: "string option \<Rightarrow> string option \<Rightarrow> string option \<Rightarrow> obj \<Rightarrow> obj" where
  "action_metadata entityType entityId requestId metadata =
     obj_spread (obj_spread (obj_spread (obj_spread [] metadata) (opt_member ''entityType'' (or_null entityType)))
       (opt_member ''entityId'' (or_null entityId))) (opt_member ''requestId'' requestId)"

definition action_entry ::
  "audit_env \<Rightarrow> db_call \<Rightarrow> int \<Rightarrow> AuditActionType \<Rightarrow> string option \<Rightarrow> string option \<Rightarrow> obj \<Rightarrow> string option \<Rightarrow> web_request option \<Rightarrow> audit_row" where
  "action_entry env c adminId action entityType entityId metadata notes req =
     (let requestId = or_null (Option.bind req wr_requestId) in
      \<lparr>lg_id = dc_id c, lg_adminId = Some adminId, lg_action = action, lg_entityType = entityType, lg_entityId = entityId,
       lg_metadata = redactMetadata (ae_sha env) (action_metadata entityType entityId requestId metadata),
       lg_notes = notes,
       lg_ipAddress = (case or_null (Option.bind req wr_ip) of Some a \<Rightarrow> Some a | None \<Rightarrow> or_null (Option.bind req wr_remoteAddress)),
       lg_userAgent = or_null (Option.bind req wr_userAgent),
       lg_requestId = requestId, lg_createdAt = dc_now c\<rparr>)"

definition logAction ::
  "audit_env \<Rightarrow> db_call \<Rightarrow> int \<Rightarrow> AuditActionType \<Rightarrow> string option \<Rightarrow> string option \<Rightarrow> obj \<Rightarrow> string option \<Rightarrow> web_request option \<Rightarrow> audit_row list \<Rightarrow> audit_row list option" where
  "logAction env c adminId action entityType entityId metadata notes req t =
     audit_save env c (action_entry env c adminId action entityType entityId metadata notes req) t"

section \<open>The table over time\<close>

text \<open>Every way into the table, and the tables that any run of them gives.\<close>

inductive audit_step :: "audit_env \<Rightarrow> audit_row list \<Rightarrow> audit_row list \<Rightarrow> bool" for env where
  log: "audit_step env t (audit_log env c action m cx t)"
| confession_delete: "audit_step env t (logConfessionDelete env c confessionId userId cx t)"
| moderation: "audit_step env t (logModerationStateTransition env c i frm to actorId reason confessionId notes cx t)"
| comment_delete: "audit_step env t (logCommentDelete env c commentId confessionId userId cx t)"
| failed_login: "audit_step env t (logFailedLogin env c identifier reason cx t)"
| report: "audit_step env t (logReport env c reportId targetType targetId reporterId reason cx t)"
| report_resolved: "audit_step env t (logReportResolved env c reportId adminId m cx t)"
| report_dismissed: "audit_step env t (logReportDismissed env c reportId adminId m cx t)"
| dlq_replay: "audit_step env t (logNotificationDlqReplay env c adminId m cx t)"
| dlq_cleanup: "audit_step env t (logNotificationDlqCleanup env c adminId m cx t)"
| retention: "audit_step env t (logExportRetentionCleanup env c m cx t)"
| csv_export: "audit_step env t (logAdminCsvExport env c uid label requestId rowCount filters cx t)"
| export_event: "audit_step env t (logExportLifecycleEvent env c e t)"
| rollout_diff: "audit_step env t (logTemplateRolloutDiff env c r cx t)"
| template_state: "audit_step env t (logTemplateStateTransition env c c' templateKey version frm to adminId reason src cx t)"
| killswitch: "audit_step env t (logTemplateKillswitchToggle env c c' adminId enabled key reason src cx t)"
| fallback: "audit_step env t (logTemplateFallbackActivated env c c' templateKey failed fb rsn src cx t)"
| action: "logAction env c admin action entityType entityId m notes req t = Some t' \<Longrightarrow> audit_step env t t'"

abbreviation audit_run :: "audit_env \<Rightarrow> audit_row list \<Rightarrow> audit_row list \<Rightarrow> bool" where
  "audit_run env \<equiv> (audit_step env)\<^sup>*\<^sup>*"

text \<open>What a table may gain: rows that fit their columns and hold redacted metadata.\<close>

definition sound_entry :: "audit_env \<Rightarrow> audit_row \<Rightarrow> bool" where
  "sound_entry env r \<longleftrightarrow> safe_metadata (lg_metadata r) \<and> row_fits (ae_users env) r"

definition grows :: "audit_env \<Rightarrow> audit_row list \<Rightarrow> audit_row list \<Rightarrow> bool" where
  "grows env t t' \<longleftrightarrow> (\<exists>new. t' = t @ new \<and> list_all (sound_entry env) new)"

lemma grows_refl [simp]: "grows env t t"
  by (simp add: grows_def)

lemma grows_trans: "grows env t t' \<Longrightarrow> grows env t' t'' \<Longrightarrow> grows env t t''"
  by (auto simp: grows_def)

lemma audit_save_grows:
  assumes "audit_save env c r t = Some t'" "safe_metadata (lg_metadata r)"
  shows "grows env t t'"
  using assms by (auto simp: audit_save_def grows_def sound_entry_def split: if_splits)

lemma audit_log_grows [simp]:
  assumes "\<And>x. list_all hex_char (ae_sha env x)"
  shows "grows env t (audit_log env c action m cx t)"
proof (cases "audit_save env c (entry_of env c action m cx) t")
  case (Some t')
  then show ?thesis
    using redactMetadata_safe [of "ae_sha env", OF assms]
    by (simp add: audit_log_def audit_save_grows entry_of_def)
qed (simp add: audit_log_def)

lemmas audit_wrappers =
  logConfessionDelete_def logModerationStateTransition_def logCommentDelete_def logFailedLogin_def logReport_def
  logReportResolved_def logReportDismissed_def logNotificationDlqReplay_def logNotificationDlqCleanup_def
  logExportRetentionCleanup_def logAdminCsvExport_def logExportLifecycleEvent_def Let_def

lemma rollout_diff_grows:
  assumes "\<And>x. list_all hex_char (ae_sha env x)" "grows env t t'"
  shows "grows env t (logTemplateRolloutDiff env c r cx t')"
  using assms by (auto simp: logTemplateRolloutDiff_def Let_def intro: grows_trans)

lemma audit_step_grows:
  assumes "audit_step env t t'" and sha: "\<And>x. list_all hex_char (ae_sha env x)"
  shows "grows env t t'"
proof -
  note logged = audit_log_grows [of env, OF sha] and diffed = rollout_diff_grows [of env, OF sha]
  note stored = redactMetadata_safe [of "ae_sha env", OF sha]
  from assms(1) show ?thesis
  proof (induction rule: audit_step.induct)
    case action
    then show ?case
      using stored by (intro audit_save_grows) (auto simp: logAction_def action_entry_def Let_def)
  qed (unfold audit_wrappers logTemplateStateTransition_def logTemplateKillswitchToggle_def logTemplateFallbackActivated_def,
       (rule logged diffed grows_refl)+)
qed

lemma audit_run_grows:
  assumes "audit_run env t t'" "\<And>x. list_all hex_char (ae_sha env x)"
  shows "grows env t t'"
  using assms(1)
proof (induction rule: rtranclp_induct)
  case (step t' t'')
  then show ?case using audit_step_grows [of env t' t''] assms(2) grows_trans by blast
qed simp

section \<open>The properties\<close>

definition audit_demo :: audit_env where
  "audit_demo = \<lparr>ae_sha = demo_sha, ae_iso = int_str, ae_users = (\<lambda>i. i = 7)\<rparr>"

definition first_call :: db_call where
  "first_call = \<lparr>dc_id = ''a1'', dc_now = 5, dc_up = True\<rparr>"

lemma audit_demo_sha: "list_all hex_char (ae_sha audit_demo x)"
  by (simp add: audit_demo_def demo_sha_def hex_char_def list_all_iff)



subsection \<open>What a change of a template records\<close>

lemma map_of_map_filter:
  assumes "distinct ks"
  shows "map_of (List.map_filter (\<lambda>k. map_option (Pair k) (f k)) ks) k = (if k \<in> set ks then f k else None)"
  using assms by (induction ks) (auto simp: map_filter_simps split: option.split)

lemma rollout_diff_exact:
  assumes "json_ok (JObj before)" "json_ok (JObj after)"
  shows "map_of (buildRolloutDiff before after) k = None \<longleftrightarrow> map_of before k = map_of after k"
proof -
  have ok: "json_ok v" if "map_of before k = Some v \<or> map_of after k = Some v" for v
    using that assms by (auto simp: list_all_iff dest!: map_of_SomeD)
  have texts: "map_option json_text (map_of before k) = map_option json_text (map_of after k) \<longleftrightarrow> map_of before k = map_of after k"
  proof (cases "map_of before k")
    case (Some v)
    then show ?thesis using ok json_text_inj [of v] by (cases "map_of after k") auto
  qed auto
  have out: "k \<notin> set (map fst before @ map fst after) \<Longrightarrow> map_of before k = map_of after k"
    by (simp add: map_of_eq_None_iff [THEN iffD2])
  define pick where "pick k = (let b = map_of before k; a = map_of after k in
         if map_option json_text b \<noteq> map_option json_text a
         then Some (JObj ((case b of None \<Rightarrow> [] | Some v \<Rightarrow> [(''before'', v)]) @ (case a of None \<Rightarrow> [] | Some v \<Rightarrow> [(''after'', v)])))
         else None)" for k
  have "buildRolloutDiff before after =
      List.map_filter (\<lambda>k. map_option (Pair k) (pick k)) (rev (remdups (rev (map fst before @ map fst after))))"
    unfolding buildRolloutDiff_def pick_def Let_def by (rule arg_cong2 [where f = List.map_filter]) auto
  then have "map_of (buildRolloutDiff before after) k = (if k \<in> set (map fst before @ map fst after) then pick k else None)"
    by (simp add: map_of_map_filter del: map_append)
  then show ?thesis using texts out by (auto simp: pick_def Let_def)
qed

subsection \<open>Surprises\<close>

text \<open>
  A version such as \<open>1.2.3\<close> has the shape of a JSON web token, so the name \<open>templateVersion\<close>, listed among the names
  that are never redacted, is stored masked.
\<close>

lemma version_masked:
  "map_of (lg_metadata (entry_of audit_demo first_call TEMPLATE_STATE_TRANSITION
     [(''templateKey'', JStr ''welcome''), (''templateVersion'', JStr ''1.2.3'')] no_context)) ''templateVersion'' =
   Some (JStr ''xxx.1.2.xxx'')"
  by code_simp

text \<open>The address a failed sign-in names is stored in clear: \<open>identifier\<close> is no name the masks know.\<close>

lemma failed_login_in_clear:
  "map_of (lg_metadata (hd (logFailedLogin audit_demo first_call ''ada@example.org'' ''bad'' no_context []))) ''identifier'' =
   Some (JStr ''ada@example.org'')"
  by code_simp

text \<open>An id that starts with a digit is read as a number: the entry of \<open>7d1f\<close> is put down to user 7.\<close>

lemma uuid_read_as_number:
  "lg_adminId (entry_of audit_demo first_call FAILED_LOGIN [] (as_user no_context ''7d1f-4b'')) = Some 7"
  by code_simp

end
