(* ===== verification/Audit_Query.thy ===== *)
theory Audit_Query
  imports Audit_Log
begin

text \<open>
  Reading the audit log (\<^verbatim>\<open>audit-log/audit-log.service.ts\<close> from \<open>findByEntity\<close> on, and \<open>getAuditLogs\<close> of
  \<^verbatim>\<open>admin/services/moderation.service.ts\<close>): the conditions each query adds, the order, the page and the count.

  Parameters: how PostgreSQL prints a \<open>jsonb\<close> value, the names of the users that the join brings in, the collation
  as a rank of texts, and whether the database answers.  A query that fails gives the empty page.  Ties of the order
  keep the order of the table.

  Shown: the pages of a query laid end to end are the matching rows, each once, in the order asked for, and the
  statistics count every row once.  The entries that the trails miss are stated after that.
\<close>

section \<open>Text search\<close>

text \<open>\<open>text LIKE pattern\<close>: \<open>%\<close> is any text, \<open>_\<close> any character, a backslash takes the next one literally.\<close>

fun like :: "string \<Rightarrow> string \<Rightarrow> bool" where
  "like [] t = (t = [])"
| "like (c # p) t =
     (if c = CHR ''%'' then like p t \<or> (case t of [] \<Rightarrow> False | _ # t' \<Rightarrow> like (c # p) t')
      else case t of [] \<Rightarrow> False
           | d # t' \<Rightarrow>
               if c = CHR ''_'' then like p t'
               else if c = BSL then (case p of [] \<Rightarrow> False | e # p' \<Rightarrow> e = d \<and> like p' t')
               else c = d \<and> like p t')"

declare like.simps(2) [simp del]

text \<open>\<open>column ILIKE '%' || s || '%'\<close>; a \<open>NULL\<close> column never matches.\<close>

definition ilike_contains :: "string option \<Rightarrow> string \<Rightarrow> bool" where
  "ilike_contains column s =
     (case column of None \<Rightarrow> False | Some t \<Rightarrow> like (lower_case (''%'' @ s @ ''%'')) (lower_case t))"

section \<open>Queries\<close>

record query_env =
  qe_jsonb :: "json \<Rightarrow> string"
  qe_username :: "int \<Rightarrow> string option"
  qe_collate :: "string \<Rightarrow> int"
  qe_up :: bool

text \<open>\<open>metadata ->> 'k'\<close>.\<close>

definition json_member_text :: "query_env \<Rightarrow> obj \<Rightarrow> string \<Rightarrow> string option" where
  "json_member_text q m k =
     (case map_of m k of None \<Rightarrow> None | Some JNull \<Rightarrow> None | Some (JStr s) \<Rightarrow> Some s | Some v \<Rightarrow> Some (qe_jsonb q v))"

definition action_names :: "(AuditActionType \<times> string) list" where
  "action_names =
     [(CONFESSION_DELETE, ''confession_delete''), (COMMENT_DELETE, ''comment_delete''), (CONFESSION_DELETED, ''confession_deleted''),
      (COMMENT_DELETED, ''comment_deleted''), (CONFESSION_HIDDEN, ''confession_hidden''), (CONFESSION_UNHIDDEN, ''confession_unhidden''),
      (COMMENT_APPROVED, ''comment_approved''), (COMMENT_REJECTED, ''comment_rejected''), (WEBHOOK_REJECTED, ''webhook_rejected''),
      (REPORT_CREATED, ''report_created''), (REPORT_RESOLVED, ''report_resolved''), (REPORT_DISMISSED, ''report_dismissed''),
      (FAILED_LOGIN, ''failed_login''), (NOTIFICATION_SUPPRESSED, ''notification_suppressed''),
      (NOTIFICATION_DLQ_REPLAY, ''notification_dlq_replay''), (NOTIFICATION_DLQ_CLEANUP, ''notification_dlq_cleanup''),
      (EXPORT_RETENTION_CLEANUP, ''export_retention_cleanup''), (MODERATION_ESCALATION, ''moderation_escalation''),
      (MODERATION_OVERRIDE, ''moderation_override''), (BULK_ACTION, ''bulk_action''), (USER_BANNED, ''user_banned''),
      (USER_UNBANNED, ''user_unbanned''), (USER_ADMIN_GRANTED, ''user_admin_granted''), (USER_ADMIN_REVOKED, ''user_admin_revoked''),
      (EMAIL_TEMPLATE_DELIVERED, ''email_template_delivered''), (EMAIL_TEMPLATE_FAILED, ''email_template_failed''),
      (EMAIL_TEMPLATE_PROMOTED, ''email_template_promoted''), (EMAIL_TEMPLATE_ROLLED_BACK, ''email_template_rolled_back''),
      (TEMPLATE_STATE_TRANSITION, ''template_state_transition''), (TEMPLATE_ROLLOUT_KILLSWITCH, ''template_rollout_killswitch''),
      (TEMPLATE_FALLBACK_ACTIVATED, ''template_fallback_activated''), (TEMPLATE_ROLLOUT_DIFF_RECORDED, ''template_rollout_diff_recorded''),
      (MODERATION_STATE_TRANSITION, ''moderation_state_transition''), (EXPORT_REQUEST_CREATED, ''export_request_created''),
      (EXPORT_GENERATION_COMPLETED, ''export_generation_completed''), (EXPORT_LINK_REFRESHED, ''export_link_refreshed''),
      (EXPORT_DOWNLOADED, ''export_downloaded''), (EXPORT_DOWNLOAD_FAILED, ''export_download_failed''),
      (EXPORT_TOKEN_EXPIRED, ''export_token_expired''), (EXPORT_EXPIRED, ''export_expired''), (ADMIN_CSV_EXPORT, ''admin_csv_export''),
      (STELLAR_CONTRACT_INVOCATION, ''stellar_contract_invocation''), (STELLAR_ANCHOR_RETRY, ''stellar_anchor_retry''),
      (STELLAR_ANCHOR_FAILED, ''stellar_anchor_failed''), (TIP_RECONCILIATION_DEAD_LETTER, ''tip_reconciliation_dead_letter''),
      (TIP_SETTLEMENT_VERIFIED, ''tip_settlement_verified''), (FEATURE_FLAG_CREATED, ''feature_flag_created''),
      (FEATURE_FLAG_UPDATED, ''feature_flag_updated''), (FEATURE_FLAG_DELETED, ''feature_flag_deleted''),
      (FEATURE_FLAG_ROLLED_BACK, ''feature_flag_rolled_back'')]"

definition action_text :: "AuditActionType \<Rightarrow> string option" where
  "action_text a = map_of action_names a"

text \<open>A PostgreSQL enum is ordered as its values are declared.\<close>

definition action_rank :: "AuditActionType \<Rightarrow> int" where
  "action_rank a = int (length (takeWhile (\<lambda>p. fst p \<noteq> a) action_names))"

definition row_username :: "query_env \<Rightarrow> audit_row \<Rightarrow> string option" where
  "row_username q r = Option.bind (lg_adminId r) (qe_username q)"

record audit_page =
  ap_logs :: "audit_row list"
  ap_total :: nat
  ap_limit :: int
  ap_offset :: int

text \<open>\<open>options.limit || 100\<close> and \<open>options.offset || 0\<close>; a negative one fails in the database.\<close>

definition num_or :: "int option \<Rightarrow> int \<Rightarrow> int" where
  "num_or n d = (case n of None \<Rightarrow> d | Some i \<Rightarrow> if i = 0 then d else i)"

definition empty_page :: "int option \<Rightarrow> int option \<Rightarrow> audit_page" where
  "empty_page limit offset = \<lparr>ap_logs = [], ap_total = 0, ap_limit = num_or limit 100, ap_offset = num_or offset 0\<rparr>"

definition int4 :: "int \<Rightarrow> bool" where
  "int4 i \<longleftrightarrow> - (2 ^ 31) \<le> i \<and> i < 2 ^ 31"

text \<open>
  \<open>getManyAndCount\<close> of the rows that meet all conditions: \<open>ids\<close> are the numbers bound to integer columns, which must
  fit.
\<close>

definition run_query ::
  "query_env \<Rightarrow> int list \<Rightarrow> (audit_row \<Rightarrow> bool) list \<Rightarrow> (audit_row list \<Rightarrow> audit_row list) \<Rightarrow> int option \<Rightarrow> int option \<Rightarrow>
   audit_row list \<Rightarrow> audit_page" where
  "run_query q ids conds order limit offset t =
     (let l = num_or limit 100; o' = num_or offset 0; rows = filter (\<lambda>r. list_all (\<lambda>p. p r) conds) t in
      if qe_up q \<and> list_all int4 ids \<and> 0 \<le> l \<and> 0 \<le> o'
      then \<lparr>ap_logs = skip_take (nat o') (nat l) (order rows), ap_total = length rows, ap_limit = l, ap_offset = o'\<rparr>
      else empty_page limit offset)"

definition when_text :: "string option \<Rightarrow> (string \<Rightarrow> 'c list) \<Rightarrow> 'c list" where
  "when_text s f = (case s of None \<Rightarrow> [] | Some x \<Rightarrow> if x = [] then [] else f x)"

definition date_conds :: "ms option \<Rightarrow> ms option \<Rightarrow> (audit_row \<Rightarrow> bool) list" where
  "date_conds startDate endDate =
     (case startDate of None \<Rightarrow> [] | Some d \<Rightarrow> [\<lambda>r. d \<le> lg_createdAt r]) @
     (case endDate of None \<Rightarrow> [] | Some d \<Rightarrow> [\<lambda>r. lg_createdAt r \<le> d])"

definition actorId_cond :: "query_env \<Rightarrow> string \<Rightarrow> audit_row \<Rightarrow> bool" where
  "actorId_cond q s r \<longleftrightarrow>
     (case toNullableUserId (Some (UStr s)) of None \<Rightarrow> False | Some i \<Rightarrow> lg_adminId r = Some i) \<or>
     json_member_text q (lg_metadata r) ''actorId'' = Some s"

definition requestId_cond :: "query_env \<Rightarrow> string \<Rightarrow> audit_row \<Rightarrow> bool" where
  "requestId_cond q s r \<longleftrightarrow> lg_requestId r = Some s \<or> json_member_text q (lg_metadata r) ''requestId'' = Some s"

definition exportId_cond :: "query_env \<Rightarrow> string \<Rightarrow> audit_row \<Rightarrow> bool" where
  "exportId_cond q s r \<longleftrightarrow>
     json_member_text q (lg_metadata r) ''exportId'' = Some s \<or> json_member_text q (lg_metadata r) ''entityId'' = Some s"

definition member_cond :: "query_env \<Rightarrow> string \<Rightarrow> string \<Rightarrow> audit_row \<Rightarrow> bool" where
  "member_cond q k s r \<longleftrightarrow> json_member_text q (lg_metadata r) k = Some s"

definition text_id :: "string \<Rightarrow> int list" where
  "text_id s = (case toNullableUserId (Some (UStr s)) of None \<Rightarrow> [] | Some i \<Rightarrow> [i])"

subsection \<open>By entity and by user\<close>

definition findByEntity :: "query_env \<Rightarrow> string \<Rightarrow> string \<Rightarrow> audit_row list \<Rightarrow> audit_row list" where
  "findByEntity q entityType entityId t =
     (if qe_up q
      then order_desc lg_createdAt (filter (\<lambda>r. lg_entityType r = Some entityType \<and> lg_entityId r = Some entityId) t)
      else [])"

text \<open>The promise of \<open>findByUser\<close> is returned, not awaited, inside its \<open>try\<close>: a failure reaches the caller.\<close>

definition findByUser :: "query_env \<Rightarrow> user_ref \<Rightarrow> audit_row list \<Rightarrow> audit_row list outcome" where
  "findByUser q userId t =
     (case toNullableUserId (Some userId) of
        None \<Rightarrow> Inr []
      | Some i \<Rightarrow>
          if qe_up q \<and> int4 i then Inr (order_desc lg_createdAt (filter (\<lambda>r. lg_adminId r = Some i) t))
          else Inl (PlainError ''QueryFailedError''))"

subsection \<open>The general query\<close>

record find_options =
  fo_userId :: "user_ref option"
  fo_actor :: "string option"
  fo_actorId :: "string option"
  fo_actorType :: "string option"
  fo_actionType :: "AuditActionType option"
  fo_entityType :: "string option"
  fo_entityId :: "string option"
  fo_requestId :: "string option"
  fo_exportId :: "string option"
  fo_templateKey :: "string option"
  fo_templateVersion :: "string option"
  fo_search :: "string option"
  fo_sortBy :: "string option"
  fo_sortOrder :: "string option"
  fo_startDate :: "ms option"
  fo_endDate :: "ms option"
  fo_limit :: "int option"
  fo_offset :: "int option"

definition no_options :: find_options where
  "no_options = \<lparr>fo_userId = None, fo_actor = None, fo_actorId = None, fo_actorType = None, fo_actionType = None,
     fo_entityType = None, fo_entityId = None, fo_requestId = None, fo_exportId = None, fo_templateKey = None,
     fo_templateVersion = None, fo_search = None, fo_sortBy = None, fo_sortOrder = None, fo_startDate = None,
     fo_endDate = None, fo_limit = None, fo_offset = None\<rparr>"

definition actor_cond :: "query_env \<Rightarrow> string \<Rightarrow> audit_row \<Rightarrow> bool" where
  "actor_cond q actor r \<longleftrightarrow>
     ilike_contains (row_username q r) actor \<or>
     ilike_contains (json_member_text q (lg_metadata r) ''actorLabel'') actor \<or>
     ilike_contains (json_member_text q (lg_metadata r) ''actorId'') actor \<or>
     (case toNullableUserId (Some (UStr actor)) of None \<Rightarrow> False | Some i \<Rightarrow> lg_adminId r = Some i)"

definition search_cond :: "query_env \<Rightarrow> string \<Rightarrow> audit_row \<Rightarrow> bool" where
  "search_cond q search r \<longleftrightarrow>
     list_ex (\<lambda>column. ilike_contains column search)
       [action_text (lg_action r), lg_entityType r, lg_entityId r, lg_notes r, lg_requestId r, row_username q r,
        Some (qe_jsonb q (JObj (lg_metadata r)))]"

definition find_conds :: "query_env \<Rightarrow> find_options \<Rightarrow> (audit_row \<Rightarrow> bool) list" where
  "find_conds q opts =
     (case uid_or_null (fo_userId opts) of None \<Rightarrow> [] | Some u \<Rightarrow> [\<lambda>r. lg_adminId r = toNullableUserId (Some u)]) @
     when_text (fo_actor opts) (\<lambda>s. when_text (Some (js_trim s)) (\<lambda>actor. [actor_cond q actor])) @
     when_text (fo_actorId opts) (\<lambda>s. [actorId_cond q s]) @
     when_text (fo_actorType opts) (\<lambda>s. [member_cond q ''actorType'' s]) @
     (case fo_actionType opts of None \<Rightarrow> [] | Some a \<Rightarrow> [\<lambda>r. lg_action r = a]) @
     when_text (fo_entityType opts) (\<lambda>s. [\<lambda>r. lg_entityType r = Some s]) @
     when_text (fo_entityId opts) (\<lambda>s. [\<lambda>r. lg_entityId r = Some s]) @
     when_text (fo_requestId opts) (\<lambda>s. [requestId_cond q s]) @
     when_text (fo_exportId opts) (\<lambda>s. [exportId_cond q s]) @
     when_text (fo_templateKey opts) (\<lambda>s. [member_cond q ''templateKey'' s]) @
     when_text (fo_templateVersion opts) (\<lambda>s. [member_cond q ''templateVersion'' s]) @
     when_text (fo_search opts) (\<lambda>s. when_text (Some (js_trim s)) (\<lambda>search. [search_cond q search])) @
     date_conds (fo_startDate opts) (fo_endDate opts)"

definition find_ids :: "find_options \<Rightarrow> int list" where
  "find_ids opts =
     (case uid_or_null (fo_userId opts) of None \<Rightarrow> [] | Some u \<Rightarrow> (case toNullableUserId (Some u) of None \<Rightarrow> [] | Some i \<Rightarrow> [i])) @
     when_text (fo_actor opts) (\<lambda>s. when_text (Some (js_trim s)) text_id) @
     when_text (fo_actorId opts) text_id"

text \<open>
  \<open>ORDER BY\<close>: a nullable column sorts its \<open>NULL\<close>s last going up and first going down.  The keys are applied from the
  last to the first, each keeping the order of equal rows.
\<close>

definition order_by :: "(audit_row \<Rightarrow> int option) \<Rightarrow> bool \<Rightarrow> audit_row list \<Rightarrow> audit_row list" where
  "order_by k up t =
     (let v = (\<lambda>r. case k r of None \<Rightarrow> 0 | Some i \<Rightarrow> i); n = (\<lambda>r. if k r = None then 1 else 0) in
      if up then order_asc n (order_asc v t) else order_desc n (order_desc v t))"

definition find_order :: "query_env \<Rightarrow> find_options \<Rightarrow> audit_row list \<Rightarrow> audit_row list" where
  "find_order q opts t =
     (let up = fo_sortOrder opts = Some ''ASC''; newest = order_desc lg_createdAt;
          rank = (\<lambda>column. \<lambda>r. map_option (qe_collate q) (column r)) in
      if fo_sortBy opts = Some ''actor'' then order_by (rank (row_username q)) up (newest t)
      else if fo_sortBy opts = Some ''action'' then order_by (\<lambda>r. Some (action_rank (lg_action r))) up (newest t)
      else if fo_sortBy opts = Some ''target'' then
        order_by (rank lg_entityType) up (order_by (rank lg_entityId) up (newest t))
      else order_by (\<lambda>r. Some (lg_createdAt r)) up
        (if truthy (fo_sortBy opts) \<and> fo_sortBy opts \<noteq> Some ''createdAt'' then newest t else t))"

definition findAll :: "query_env \<Rightarrow> find_options \<Rightarrow> audit_row list \<Rightarrow> audit_page" where
  "findAll q opts t =
     (if uid_or_null (fo_userId opts) \<noteq> None \<and> toNullableUserId (uid_or_null (fo_userId opts)) = None
      then empty_page (fo_limit opts) (fo_offset opts)
      else run_query q (find_ids opts) (find_conds q opts) (find_order q opts) (fo_limit opts) (fo_offset opts) t)"

subsection \<open>Counts\<close>

definition getStatistics :: "query_env \<Rightarrow> ms option \<Rightarrow> ms option \<Rightarrow> audit_row list \<Rightarrow> nat \<times> (AuditActionType \<times> nat) list" where
  "getStatistics q startDate endDate t =
     (let rows = filter (\<lambda>r. list_all (\<lambda>p. p r) (date_conds startDate endDate)) t in
      if qe_up q
      then (length rows, map (\<lambda>a. (a, count_list (map lg_action rows) a)) (remdups (map lg_action rows)))
      else (0, []))"

record observability =
  ob_totalLogs :: nat
  ob_actionTypeCounts :: "(AuditActionType \<times> nat) list"
  ob_failuresTotal :: nat
  ob_recentFailures :: "audit_row list"
  ob_generatedAt :: string

definition getObservabilityMetrics ::
  "query_env \<Rightarrow> (ms \<Rightarrow> string) \<Rightarrow> ms \<Rightarrow> ms option \<Rightarrow> ms option \<Rightarrow> audit_row list \<Rightarrow> observability" where
  "getObservabilityMetrics q toISO now startDate endDate t =
     (let statistics = getStatistics q startDate endDate t;
          recentFailures = findAll q (no_options\<lparr>fo_startDate := startDate, fo_endDate := endDate,
            fo_search := Some ''failed'', fo_limit := Some 10, fo_offset := Some 0\<rparr>) t in
      \<lparr>ob_totalLogs = fst statistics, ob_actionTypeCounts = snd statistics, ob_failuresTotal = ap_total recentFailures,
       ob_recentFailures = ap_logs recentFailures, ob_generatedAt = toISO now\<rparr>)"

subsection \<open>Template rollouts and exports\<close>

definition rolloutActionTypes :: "AuditActionType list" where
  "rolloutActionTypes =
     [TEMPLATE_STATE_TRANSITION, TEMPLATE_ROLLOUT_KILLSWITCH, TEMPLATE_FALLBACK_ACTIVATED, TEMPLATE_ROLLOUT_DIFF_RECORDED]"

definition getTemplateRolloutHistory :: "query_env \<Rightarrow> find_options \<Rightarrow> audit_row list \<Rightarrow> audit_page" where
  "getTemplateRolloutHistory q opts t =
     run_query q (when_text (fo_actorId opts) text_id)
       ((\<lambda>r. lg_action r \<in> set rolloutActionTypes) #
        when_text (fo_templateKey opts) (\<lambda>s. [member_cond q ''templateKey'' s]) @
        when_text (fo_templateVersion opts) (\<lambda>s. [member_cond q ''templateVersion'' s]) @
        when_text (fo_actorId opts) (\<lambda>s. [actorId_cond q s]) @
        date_conds (fo_startDate opts) (fo_endDate opts))
       (order_desc lg_createdAt) (fo_limit opts) (fo_offset opts) t"

definition exportActionTypes :: "AuditActionType list" where
  "exportActionTypes = [EXPORT_REQUEST_CREATED, EXPORT_GENERATION_COMPLETED, EXPORT_LINK_REFRESHED, EXPORT_DOWNLOADED]"

definition getExportAccessTrail :: "query_env \<Rightarrow> find_options \<Rightarrow> audit_row list \<Rightarrow> audit_page" where
  "getExportAccessTrail q opts t =
     run_query q (when_text (fo_actorId opts) text_id)
       ((\<lambda>r. lg_action r \<in> set exportActionTypes) # (\<lambda>r. lg_entityType r = Some ''data_export'') #
        when_text (fo_requestId opts) (\<lambda>s. [requestId_cond q s]) @
        when_text (fo_exportId opts) (\<lambda>s. [exportId_cond q s]) @
        when_text (fo_actorId opts) (\<lambda>s. [actorId_cond q s]) @
        when_text (fo_actorType opts) (\<lambda>s. [member_cond q ''actorType'' s]) @
        date_conds (fo_startDate opts) (fo_endDate opts))
       (order_desc lg_createdAt) (fo_limit opts) (fo_offset opts) t"

text \<open>\<open>ModerationService.getAuditLogs\<close>: a limit of 0 is no limit, and a failure reaches the caller.\<close>

definition getAuditLogs ::
  "query_env \<Rightarrow> int option \<Rightarrow> AuditActionType option \<Rightarrow> string option \<Rightarrow> string option \<Rightarrow> nat \<Rightarrow> nat \<Rightarrow> audit_row list \<Rightarrow>
   (audit_row list \<times> nat) outcome" where
  "getAuditLogs q adminId action entityType entityId limit offset t =
     (let conds =
          (case adminId of None \<Rightarrow> [] | Some i \<Rightarrow> if i = 0 then [] else [\<lambda>r. lg_adminId r = Some i]) @
          (case action of None \<Rightarrow> [] | Some a \<Rightarrow> [\<lambda>r. lg_action r = a]) @
          when_text entityType (\<lambda>s. [\<lambda>r. lg_entityType r = Some s]) @
          when_text entityId (\<lambda>s. [\<lambda>r. lg_entityId r = Some s]);
          rows = filter (\<lambda>r. list_all (\<lambda>p. p r) conds) t in
      if qe_up q \<and> list_all int4 (case adminId of None \<Rightarrow> [] | Some i \<Rightarrow> [i])
      then Inr (skip_take offset (if limit = 0 then length rows else limit) (order_desc lg_createdAt rows), length rows)
      else Inl (PlainError ''QueryFailedError''))"

section \<open>Pages\<close>

lemma mset_order_by [simp]: "mset (order_by k up t) = mset t"
  by (simp add: order_by_def order_asc_def Let_def)

lemma mset_find_order [simp]: "mset (find_order q opts t) = mset t"
  by (simp add: find_order_def Let_def)

lemma num_or_simps [simp]: "num_or None d = d" "i \<noteq> 0 \<Longrightarrow> num_or (Some i) d = i" "num_or (Some i) 0 = i"
  by (simp_all add: num_or_def)

lemma find_conds_paging [simp]:
  "find_conds q (opts\<lparr>fo_limit := l, fo_offset := i\<rparr>) = find_conds q opts"
  "find_ids (opts\<lparr>fo_limit := l, fo_offset := i\<rparr>) = find_ids opts"
  "find_order q (opts\<lparr>fo_limit := l, fo_offset := i\<rparr>) = find_order q opts"
  by (simp_all add: find_conds_def find_ids_def fun_eq_iff find_order_def Let_def cong: if_cong)

definition matching :: "query_env \<Rightarrow> find_options \<Rightarrow> audit_row list \<Rightarrow> audit_row list" where
  "matching q opts t = filter (\<lambda>r. list_all (\<lambda>p. p r) (find_conds q opts)) t"

text \<open>A query whose ids are numbers the columns can hold.\<close>

definition answerable :: "query_env \<Rightarrow> find_options \<Rightarrow> bool" where
  "answerable q opts \<longleftrightarrow> qe_up q \<and> list_all int4 (find_ids opts) \<and>
     (uid_or_null (fo_userId opts) \<noteq> None \<longrightarrow> toNullableUserId (uid_or_null (fo_userId opts)) \<noteq> None)"

lemma findAll_page:
  assumes "answerable q opts" "0 < l"
  shows "findAll q (opts\<lparr>fo_limit := Some (int l), fo_offset := Some (int i)\<rparr>) t =
    \<lparr>ap_logs = skip_take i l (find_order q opts (matching q opts t)), ap_total = length (matching q opts t),
     ap_limit = int l, ap_offset = int i\<rparr>"
  using assms by (auto simp: findAll_def run_query_def answerable_def matching_def Let_def)

text \<open>
  The pages of an audit query are the rows that match it: with a page size \<open>l\<close>, the pages at the offsets
  \<open>0, l, 2l, \<dots>\<close> laid end to end hold every matching row exactly as often as the table does and nothing else, they
  continue the one order the query asks for, and every page reports the number of matching rows.
\<close>

theorem audit_pages_refine:
  assumes "answerable q opts" "0 < l" "length (matching q opts t) \<le> n * l"
  shows "concat (map (\<lambda>p. ap_logs (findAll q (opts\<lparr>fo_limit := Some (int l), fo_offset := Some (int (p * l))\<rparr>) t)) [0..<n]) =
      find_order q opts (matching q opts t) \<and>
    mset (find_order q opts (matching q opts t)) = filter_mset (\<lambda>r. list_all (\<lambda>p. p r) (find_conds q opts)) (mset t) \<and>
    list_all (\<lambda>p. ap_total (findAll q (opts\<lparr>fo_limit := Some (int l), fo_offset := Some (int (p * l))\<rparr>) t) =
      length (matching q opts t)) [0..<n]"
proof -
  have len: "length (find_order q opts (matching q opts t)) = length (matching q opts t)"
    by (metis mset_find_order size_mset)
  have "concat (map (\<lambda>p. ap_logs (findAll q (opts\<lparr>fo_limit := Some (int l), fo_offset := Some (int (p * l))\<rparr>) t)) [0..<n]) =
      find_order q opts (matching q opts t)"
    unfolding findAll_page [OF assms(1,2)] using pages_concat [of l "find_order q opts (matching q opts t)" n] assms(3) len by simp
  moreover have "mset (find_order q opts (matching q opts t)) = filter_mset (\<lambda>r. list_all (\<lambda>p. p r) (find_conds q opts)) (mset t)"
    by (simp add: matching_def mset_filter)
  moreover have "list_all (\<lambda>p. ap_total (findAll q (opts\<lparr>fo_limit := Some (int l), fo_offset := Some (int (p * l))\<rparr>) t) =
      length (matching q opts t)) [0..<n]"
    unfolding findAll_page [OF assms(1,2)] by (simp add: list_all_iff)
  ultimately show ?thesis by blast
qed

definition query_demo :: query_env where
  "query_demo = \<lparr>qe_jsonb = json_text, qe_username = (\<lambda>i. Some ''ada''), qe_collate = (\<lambda>s. int (length s)), qe_up = True\<rparr>"

definition demo_trail :: "audit_row list" where
  "demo_trail = logFailedLogin audit_demo first_call ''eve'' ''bad'' no_context
     (logFailedLogin audit_demo first_call ''mallory'' ''bad'' no_context [])"

lemma demo_trail_length: "length demo_trail = 2"
  by code_simp

theorem audit_pages_refine_witness:
  "length (concat (map (\<lambda>p. ap_logs (findAll query_demo (no_options\<lparr>fo_limit := Some (int 1), fo_offset := Some (int (p * 1))\<rparr>) demo_trail)) [0..<2])) = 2"
proof -
  have ok: "answerable query_demo no_options" "length (matching query_demo no_options demo_trail) \<le> 2 * 1" by code_simp+
  have "length (find_order query_demo no_options (matching query_demo no_options demo_trail)) = 2" by code_simp
  then show ?thesis using audit_pages_refine [OF ok(1) zero_less_one ok(2)] by presburger
qed

section \<open>Counts\<close>

lemma sum_counts: "set xs \<subseteq> set ks \<Longrightarrow> distinct ks \<Longrightarrow> sum_list (map (count_list xs) ks) = length xs"
proof (induction xs)
  case (Cons x xs)
  have "sum_list (map (count_list (x # xs)) ks) = sum_list (map (\<lambda>k. count_list xs k + (if k = x then 1 else 0)) ks)"
    by (rule arg_cong [where f = sum_list]) auto
  also have "\<dots> = sum_list (map (count_list xs) ks) + sum_list (map (\<lambda>k. if k = x then 1 else 0) ks)"
    by (rule sum_list_addf)
  also have "sum_list (map (\<lambda>k. if k = x then 1 else 0) ks) = (1::nat)"
    using Cons.prems by (subst sum_list_distinct_conv_sum_set) (auto simp: sum.delta)
  finally show ?case using Cons by simp
qed simp

lemma statistics_complete:
  assumes "getStatistics q startDate endDate t = (n, counts)"
  shows "sum_list (map snd counts) = n" "distinct (map fst counts)"
proof -
  let ?as = "map lg_action (filter (\<lambda>r. list_all (\<lambda>p. p r) (date_conds startDate endDate)) t)"
  have "sum_list (map (count_list ?as) (remdups ?as)) = length ?as" by (rule sum_counts) auto
  then show "sum_list (map snd counts) = n" "distinct (map fst counts)"
    using assms by (auto simp: getStatistics_def Let_def comp_def split: if_splits)
qed

section \<open>What the trails miss\<close>

lemma run_query_rows: "r \<in> set (ap_logs (run_query q ids conds ord l i t)) \<Longrightarrow> (\<And>u. set (ord u) = set u) \<Longrightarrow>
    r \<in> set t \<and> list_all (\<lambda>p. p r) conds"
  by (auto simp: run_query_def Let_def skip_take_def empty_page_def split: if_splits dest!: in_set_takeD in_set_dropD)

text \<open>
  The access trail of an export never shows a refused download, a token that ran out or an export that expired, though
  each of them is logged.
\<close>

lemma export_trail_omits_failures:
  assumes "r \<in> set (ap_logs (getExportAccessTrail q opts t))"
  shows "lg_action r \<notin> {EXPORT_DOWNLOAD_FAILED, EXPORT_TOKEN_EXPIRED, EXPORT_EXPIRED}"
  using run_query_rows [OF assms [unfolded getExportAccessTrail_def]] by (auto simp: exportActionTypes_def)

lemma refused_download_logged:
  "map lg_action (logExportLifecycleEvent audit_demo first_call
     \<lparr>xe_action = ''download_failed'', xe_requestId = ''x1'', xe_exportId = None, xe_actorType = ''system'', xe_actorId = None,
      xe_occurredAt = None, xe_metadata = [], xe_context = no_context\<rparr> []) = [EXPORT_DOWNLOAD_FAILED]"
  by code_simp

text \<open>The history of a report leaves out its creation: that entry is filed under the confession.\<close>

lemma report_trail_omits_creation:
  "findByEntity query_demo ''report'' ''r1'' (logReport audit_demo first_call ''r1'' ''confession'' ''c1'' ''7'' ''spam'' no_context []) = []"
  "length (findByEntity query_demo ''confession'' ''c1''
     (logReport audit_demo first_call ''r1'' ''confession'' ''c1'' ''7'' ''spam'' no_context [])) = 1"
proof -
  let ?t = "logReport audit_demo first_call ''r1'' ''confession'' ''c1'' ''7'' ''spam'' no_context []"
  have fits: "toNullableUserId (uid_or_null (Some (UStr ''7''))) = Some 7" by code_simp
  obtain r where "?t = [r]" "lg_entityType r = Some ''confession''" "lg_entityId r = Some ''c1''"
    by (simp add: logReport_def audit_log_def audit_save_def row_fits_def entry_of_def first_call_def audit_demo_def no_context_def
        as_user_def fits or_null_def extractEntityId_def extractMetadataString_def map_filter_simps)
  then show "findByEntity query_demo ''report'' ''r1'' ?t = []" "length (findByEntity query_demo ''confession'' ''c1'' ?t) = 1"
    by (simp_all add: findByEntity_def query_demo_def order_desc_def)
qed

text \<open>The history of a template cannot be asked for a version of three parts: it is stored masked.\<close>

lemma version_history_empty:
  "map (\<lambda>v. ap_total (getTemplateRolloutHistory query_demo (no_options\<lparr>fo_templateVersion := v\<rparr>)
     (audit_log audit_demo first_call TEMPLATE_STATE_TRANSITION [(''templateVersion'', JStr ''1.2.3'')] no_context [])))
     [Some ''1.2.3'', None] = [0, 1]"
  by code_simp

end
