(* ===== verification/Admin.thy ===== *)
theory Admin
  imports Access Audit_Query Reports Confession_Cache
begin

text \<open>
  What administrators change (\<^verbatim>\<open>admin/services/admin.service.ts\<close>): decisions on reports, one by one and in bulk,
  deletion and hiding of confessions, bans and roles.  Every change runs in a transaction together with its
  entry in the audit log (\<^verbatim>\<open>admin/services/moderation.service.ts\<close>); the transaction is a function that returns
  either an exception or a result with the new state, and an exception leaves the state as it was.

  Shown: a change is recorded or it does not happen; nobody changes the own role and no banned account is made
  administrator; a bulk decision gives every requested id one outcome and one entry.
\<close>

section \<open>State\<close>

record admin_user =
  us_id :: int
  us_username :: string
  us_emailHash :: string
  us_role :: user_role
  us_is_active :: bool
  us_createdAt :: ms
  us_updatedAt :: ms

datatype admin_event = ReportUpdated report | ReportsBulkUpdated "report list"

record admin_state =
  ad_reports :: "report list"
  ad_confessions :: "confession list"
  ad_users :: "admin_user list"
  ad_templates :: "note_template list"
  ad_audit :: "audit_row list"
  ad_events :: "admin_event list"

record admin_env =
  av_sha :: "string \<Rightarrow> string"
  av_iso :: "ms \<Rightarrow> string"

definition audit_env_of :: "admin_env \<Rightarrow> admin_state \<Rightarrow> audit_env" where
  "audit_env_of env st =
     \<lparr>ae_sha = av_sha env, ae_iso = av_iso env, ae_users = (\<lambda>i. list_ex (\<lambda>u. us_id u = i) (ad_users st))\<rparr>"

text \<open>The administrator's request: who, the call of the database for the entry, and the HTTP request.\<close>

record admin_call =
  cl_adminId :: int
  cl_db :: db_call
  cl_request :: "web_request option"

definition runInModerationTransaction ::
  "(admin_state \<Rightarrow> ('a \<times> admin_state) outcome) \<Rightarrow> admin_state \<Rightarrow> 'a outcome \<times> admin_state" where
  "runInModerationTransaction work st = (case work st of Inl e \<Rightarrow> (Inl e, st) | Inr (x, st') \<Rightarrow> (Inr x, st'))"

definition record_action ::
  "admin_env \<Rightarrow> admin_call \<Rightarrow> AuditActionType \<Rightarrow> string \<Rightarrow> string \<Rightarrow> obj \<Rightarrow> string option \<Rightarrow> 'a \<Rightarrow> admin_state \<Rightarrow>
   ('a \<times> admin_state) outcome" where
  "record_action env cl action entityType entityId metadata notes x st =
     (case logAction (audit_env_of env st) (cl_db cl) (cl_adminId cl) action (Some entityType) (Some entityId) metadata notes
         (cl_request cl) (ad_audit st) of
        None \<Rightarrow> Inl (PlainError ''QueryFailedError'')
      | Some t \<Rightarrow> Inr (x, st\<lparr>ad_audit := t\<rparr>))"

definition emit_updated :: "report outcome \<times> admin_state \<Rightarrow> report outcome \<times> admin_state" where
  "emit_updated r =
     (case r of (Inr saved, st) \<Rightarrow> (Inr saved, st\<lparr>ad_events := ad_events st @ [ReportUpdated saved]\<rparr>) | (Inl e, st) \<Rightarrow> (Inl e, st))"

section \<open>Reports\<close>

definition templateUsed :: "int option \<Rightarrow> note_template list \<Rightarrow> string option" where
  "templateUsed templateId ts =
     (case templateId of
        None \<Rightarrow> None
      | Some i \<Rightarrow> if i = 0 then None else (case template_findById i ts of Inl _ \<Rightarrow> None | Inr t \<Rightarrow> Some (nt_name t)))"

definition resolveReport ::
  "admin_env \<Rightarrow> admin_call \<Rightarrow> ident \<Rightarrow> string option \<Rightarrow> int option \<Rightarrow> admin_state \<Rightarrow> report outcome \<times> admin_state" where
  "resolveReport env cl i resolutionNotes templateId st0 =
     emit_updated (runInModerationTransaction (\<lambda>st.
       case find_one (\<lambda>r. rp_id r = i) (ad_reports st) of
         None \<Rightarrow> Inl (NotFoundException ''Report not found'')
       | Some report \<Rightarrow>
           if rp_status report = RResolved then Inl (BadRequestException ''Report already resolved'')
           else
             (let now = dc_now (cl_db cl);
                  updated = report\<lparr>rp_status := RResolved, rp_resolvedBy := Some (cl_adminId cl), rp_resolvedAt := Some now,
                    rp_resolutionNotes := resolutionNotes, rp_templateId := templateId, rp_updatedAt := now\<rparr> in
              record_action env cl REPORT_RESOLVED ''report'' i
                ([(''reportType'', JStr (report_type_str (rp_type report))), (''confessionId'', JStr (rp_confessionId report))] @
                 (case templateId of None \<Rightarrow> [] | Some n \<Rightarrow> [(''templateId'', JInt n)]) @
                 [(''templateName'', json_opt (templateUsed templateId (ad_templates st0)))])
                resolutionNotes updated (st\<lparr>ad_reports := save_row rp_id updated (ad_reports st)\<rparr>))) st0)"

definition dismissReport ::
  "admin_env \<Rightarrow> admin_call \<Rightarrow> ident \<Rightarrow> string option \<Rightarrow> admin_state \<Rightarrow> report outcome \<times> admin_state" where
  "dismissReport env cl i notes st0 =
     emit_updated (runInModerationTransaction (\<lambda>st.
       case find_one (\<lambda>r. rp_id r = i) (ad_reports st) of
         None \<Rightarrow> Inl (NotFoundException ''Report not found'')
       | Some report \<Rightarrow>
           if rp_status report = RDismissed then Inl (BadRequestException ''Report already dismissed'')
           else
             (let now = dc_now (cl_db cl);
                  updated = report\<lparr>rp_status := RDismissed, rp_resolvedBy := Some (cl_adminId cl), rp_resolvedAt := Some now,
                    rp_resolutionNotes := notes, rp_updatedAt := now\<rparr> in
              record_action env cl REPORT_DISMISSED ''report'' i [(''reportType'', JStr (report_type_str (rp_type report)))]
                notes updated (st\<lparr>ad_reports := save_row rp_id updated (ad_reports st)\<rparr>))) st0)"

subsection \<open>In bulk\<close>

datatype bulk_outcome = Bulk_resolved | Bulk_skipped | Bulk_not_found

fun bulk_text :: "bulk_outcome \<Rightarrow> string" where
  "bulk_text Bulk_resolved = ''resolved''"
| "bulk_text Bulk_skipped = ''skipped''"
| "bulk_text Bulk_not_found = ''not_found''"

record bulk_item =
  bi_id :: ident
  bi_outcome :: bulk_outcome
  bi_previousStatus :: "report_status option"

record bulk_result =
  br_requested :: nat
  br_resolved :: nat
  br_skipped :: nat
  br_notFound :: nat
  br_outcomes :: "bulk_item list"

definition bulk_mark :: "int \<Rightarrow> string option \<Rightarrow> ms \<Rightarrow> report \<Rightarrow> report" where
  "bulk_mark adminId notes now r =
     r\<lparr>rp_status := RResolved, rp_resolvedBy := Some adminId, rp_resolvedAt := Some now, rp_resolutionNotes := notes\<rparr>"

text \<open>
  The loop over the ids: \<open>found\<close> are the entities of the map, changed in place, so an id that comes twice finds
  its report resolved the second time.
\<close>

fun bulk_scan :: "(report \<Rightarrow> report) \<Rightarrow> ident list \<Rightarrow> report list \<Rightarrow> bulk_item list \<times> report list" where
  "bulk_scan mark [] found = ([], [])"
| "bulk_scan mark (i # ids) found =
     (case find_one (\<lambda>r. rp_id r = i) found of
        None \<Rightarrow>
          (case bulk_scan mark ids found of
             (items, toSave) \<Rightarrow> (\<lparr>bi_id = i, bi_outcome = Bulk_not_found, bi_previousStatus = None\<rparr> # items, toSave))
      | Some r \<Rightarrow>
          if rp_status r \<noteq> RPending then
            (case bulk_scan mark ids found of
               (items, toSave) \<Rightarrow> (\<lparr>bi_id = i, bi_outcome = Bulk_skipped, bi_previousStatus = Some (rp_status r)\<rparr> # items, toSave))
          else
            (case bulk_scan mark ids (save_row rp_id (mark r) found) of
               (items, toSave) \<Rightarrow>
                 (\<lparr>bi_id = i, bi_outcome = Bulk_resolved, bi_previousStatus = Some RPending\<rparr> # items, mark r # toSave)))"

definition bulk_metadata :: "admin_env \<Rightarrow> ms \<Rightarrow> bulk_item \<Rightarrow> obj" where
  "bulk_metadata env now item =
     [(''action'', JStr ''bulk_resolve''), (''outcome'', JStr (bulk_text (bi_outcome item))),
      (''previousStatus'', json_opt (map_option report_status_str (bi_previousStatus item))),
      (''resolvedAt'', if bi_outcome item = Bulk_resolved then JStr (av_iso env now) else JNull)]"

fun record_items ::
  "admin_env \<Rightarrow> int \<Rightarrow> ms \<Rightarrow> string option \<Rightarrow> web_request option \<Rightarrow> (db_call \<times> bulk_item) list \<Rightarrow> admin_state \<Rightarrow> admin_state outcome" where
  "record_items env adminId now notes req [] st = Inr st"
| "record_items env adminId now notes req ((c, item) # rest) st =
     (case record_action env \<lparr>cl_adminId = adminId, cl_db = c, cl_request = req\<rparr> BULK_ACTION ''report'' (bi_id item)
         (bulk_metadata env now item) notes () st of
        Inl e \<Rightarrow> Inl e
      | Inr (_, st') \<Rightarrow> record_items env adminId now notes req rest st')"

definition count_outcome :: "bulk_outcome \<Rightarrow> bulk_item list \<Rightarrow> nat" where
  "count_outcome b items = length (filter (\<lambda>item. bi_outcome item = b) items)"

definition summary_of :: "ident list \<Rightarrow> bulk_item list \<Rightarrow> bulk_result" where
  "summary_of ids items =
     \<lparr>br_requested = length ids, br_resolved = count_outcome Bulk_resolved items, br_skipped = count_outcome Bulk_skipped items,
      br_notFound = count_outcome Bulk_not_found items, br_outcomes = items\<rparr>"

text \<open>\<open>calls\<close> gives the call of the database for the entry of each outcome.\<close>

definition bulkResolveReports ::
  "admin_env \<Rightarrow> (nat \<Rightarrow> db_call) \<Rightarrow> ident list \<Rightarrow> int \<Rightarrow> string option \<Rightarrow> web_request option \<Rightarrow> ms \<Rightarrow> admin_state \<Rightarrow>
   bulk_result outcome \<times> admin_state" where
  "bulkResolveReports env calls ids adminId notes req now st0 =
     (case runInModerationTransaction (\<lambda>st.
         case bulk_scan (bulk_mark adminId notes now) ids (filter (\<lambda>r. rp_id r \<in> set ids) (ad_reports st)) of
           (items, toSave) \<Rightarrow>
             (let saved = map (\<lambda>r. r\<lparr>rp_version := rp_version r + 1, rp_updatedAt := now\<rparr>) toSave in
              case record_items env adminId now notes req (zip (map calls [0..<length items]) items)
                  (st\<lparr>ad_reports := foldl (\<lambda>t r. save_row rp_id r t) (ad_reports st) saved\<rparr>) of
                Inl e \<Rightarrow> Inl e
              | Inr st' \<Rightarrow> Inr ((saved, summary_of ids items), st'))) st0 of
        (Inl e, st) \<Rightarrow> (Inl e, st)
      | (Inr (toPublish, summary), st) \<Rightarrow>
          (Inr summary, if toPublish = [] then st else st\<lparr>ad_events := ad_events st @ [ReportsBulkUpdated toPublish]\<rparr>))"

section \<open>Confessions\<close>

definition on_confession ::
  "admin_env \<Rightarrow> admin_call \<Rightarrow> AuditActionType \<Rightarrow> ident \<Rightarrow> obj \<Rightarrow> string option \<Rightarrow> (confession \<Rightarrow> confession) \<Rightarrow> admin_state \<Rightarrow>
   confession outcome \<times> admin_state" where
  "on_confession env cl action i metadata notes change st0 =
     runInModerationTransaction (\<lambda>st.
       case find_one (\<lambda>c. co_id c = i) (ad_confessions st) of
         None \<Rightarrow> Inl (NotFoundException ''Confession not found'')
       | Some c \<Rightarrow>
           record_action env cl action ''confession'' i metadata notes (change c)
             (st\<lparr>ad_confessions := save_row co_id (change c) (ad_confessions st)\<rparr>)) st0"

definition deleteConfession ::
  "admin_env \<Rightarrow> admin_call \<Rightarrow> ident \<Rightarrow> string option \<Rightarrow> admin_state \<Rightarrow> unit outcome \<times> admin_state" where
  "deleteConfession env cl i reason st =
     (case on_confession env cl CONFESSION_DELETED i [(''reason'', json_opt reason)] reason (\<lambda>c. c\<lparr>co_isDeleted := True\<rparr>) st of
        (Inl e, st') \<Rightarrow> (Inl e, st') | (Inr _, st') \<Rightarrow> (Inr (), st'))"

definition hideConfession ::
  "admin_env \<Rightarrow> admin_call \<Rightarrow> ident \<Rightarrow> string option \<Rightarrow> admin_state \<Rightarrow> confession outcome \<times> admin_state" where
  "hideConfession env cl i reason st =
     on_confession env cl CONFESSION_HIDDEN i [(''reason'', json_opt reason)] reason (\<lambda>c. c\<lparr>co_isHidden := True\<rparr>) st"

definition unhideConfession :: "admin_env \<Rightarrow> admin_call \<Rightarrow> ident \<Rightarrow> admin_state \<Rightarrow> confession outcome \<times> admin_state" where
  "unhideConfession env cl i st =
     on_confession env cl CONFESSION_UNHIDDEN i [] None (\<lambda>c. c\<lparr>co_isHidden := False\<rparr>) st"

section \<open>Users\<close>

definition unlockAccount :: "'s redis \<Rightarrow> ms \<Rightarrow> string \<Rightarrow> ('s, unit) cmd" where
  "unlockAccount R now email = clearLockout R now email"

definition save_user :: "ms \<Rightarrow> admin_user \<Rightarrow> admin_state \<Rightarrow> admin_state" where
  "save_user now u st = st\<lparr>ad_users := save_row us_id (u\<lparr>us_updatedAt := now\<rparr>) (ad_users st)\<rparr>"

definition banUser ::
  "admin_env \<Rightarrow> admin_call \<Rightarrow> int \<Rightarrow> string option \<Rightarrow> int option \<Rightarrow> admin_state \<Rightarrow> admin_user outcome \<times> admin_state" where
  "banUser env cl userId reason durationDays st0 =
     runInModerationTransaction (\<lambda>st.
       case find_one (\<lambda>u. us_id u = userId) (ad_users st) of
         None \<Rightarrow> Inl (NotFoundException ''User not found'')
       | Some user \<Rightarrow>
           if \<not> us_is_active user then Inl (BadRequestException ''User is already banned'')
           else
             (let now = dc_now (cl_db cl); saved = user\<lparr>us_is_active := False, us_updatedAt := now\<rparr>;
                  bannedUntil = (case durationDays of None \<Rightarrow> None
                    | Some d \<Rightarrow> if d = 0 then None else Some (now + d * 24 * 60 * 60 * 1000)) in
              record_action env cl USER_BANNED ''user'' (int_str userId)
                [(''reason'', json_opt reason), (''durationDays'', json_nullable JInt durationDays),
                 (''bannedUntil'', json_nullable (\<lambda>d. JStr (av_iso env d)) bannedUntil)]
                reason saved (save_user now saved st))) st0"

fun role_text :: "user_role \<Rightarrow> string" where
  "role_text USER = ''user''"
| "role_text MODERATOR = ''moderator''"
| "role_text ADMIN = ''admin''"

definition role_of :: "string \<Rightarrow> user_role option" where
  "role_of s = List.find (\<lambda>r. role_text r = s) [USER, MODERATOR, ADMIN]"

text \<open>The entry of a refused request is written outside a transaction; when it cannot be written, nothing is said.\<close>

definition logSecurityEvent ::
  "admin_env \<Rightarrow> admin_call \<Rightarrow> string \<Rightarrow> int \<Rightarrow> obj \<Rightarrow> admin_state \<Rightarrow> admin_state" where
  "logSecurityEvent env cl eventType targetUserId metadata st =
     (case record_action env cl MODERATION_ESCALATION ''user'' (int_str targetUserId)
         (obj_spread (obj_spread [(''eventType'', JStr eventType)] ((''targetUserId'', JInt targetUserId) # metadata))
           [(''requestId'', json_opt (or_null (Option.bind (cl_request cl) wr_requestId))),
            (''ipAddress'', json_opt (or_null (Option.bind (cl_request cl) wr_ip)))])
         (Some (''Security event: '' @ eventType)) () st of
        Inl _ \<Rightarrow> st | Inr (_, st') \<Rightarrow> st')"

definition role_action :: "user_role \<Rightarrow> user_role \<Rightarrow> AuditActionType" where
  "role_action previousRole role =
     (if role = ADMIN then USER_ADMIN_GRANTED else if previousRole = ADMIN then USER_ADMIN_REVOKED else MODERATION_OVERRIDE)"

definition change_role ::
  "admin_env \<Rightarrow> admin_call \<Rightarrow> int \<Rightarrow> user_role \<Rightarrow> string option \<Rightarrow> admin_state \<Rightarrow> admin_user outcome \<times> admin_state" where
  "change_role env cl userId role reason st0 =
     runInModerationTransaction (\<lambda>st.
       case find_one (\<lambda>u. us_id u = userId) (ad_users st) of
         None \<Rightarrow> Inl (NotFoundException ''User not found'')
       | Some user \<Rightarrow>
           (let previousRole = us_role user in
            if previousRole = role then Inr (user, st)
            else if role = ADMIN \<and> previousRole \<noteq> ADMIN \<and> \<not> us_is_active user
            then Inl (BadRequestException ''Cannot grant admin to a banned user'')
            else
              (let now = dc_now (cl_db cl); saved = user\<lparr>us_role := role, us_updatedAt := now\<rparr> in
               record_action env cl (role_action previousRole role) ''user'' (int_str userId)
                 [(''previousRole'', JStr (role_text previousRole)), (''newRole'', JStr (role_text role)),
                  (''targetUserId'', JInt userId), (''actorId'', JInt (cl_adminId cl)), (''reason'', json_opt (or_null reason)),
                  (''requestId'', json_opt (or_null (Option.bind (cl_request cl) wr_requestId)))]
                 (Some (js_or reason (''Role changed from '' @ role_text previousRole @ '' to '' @ role_text role)))
                 saved (save_user now saved st)))) st0"

definition updateUserRole ::
  "admin_env \<Rightarrow> admin_call \<Rightarrow> int \<Rightarrow> string \<Rightarrow> string option \<Rightarrow> admin_state \<Rightarrow> admin_user outcome \<times> admin_state" where
  "updateUserRole env cl userId role reason st =
     (case role_of role of
        None \<Rightarrow> (Inl (BadRequestException ''Invalid role''), st)
      | Some r \<Rightarrow>
          if userId = cl_adminId cl then
            (Inl (ForbiddenException ''Self-escalation is not permitted''),
             logSecurityEvent env cl ''ROLE_SELF_ESCALATION_BLOCKED'' userId
               [(''attemptedRole'', JStr role), (''reason'', json_opt (or_null reason))] st)
          else change_role env cl userId r reason st)"

definition unbanUser :: "admin_env \<Rightarrow> admin_call \<Rightarrow> int \<Rightarrow> admin_state \<Rightarrow> admin_user outcome \<times> admin_state" where
  "unbanUser env cl userId st0 =
     runInModerationTransaction (\<lambda>st.
       case find_one (\<lambda>u. us_id u = userId) (ad_users st) of
         None \<Rightarrow> Inl (NotFoundException ''User not found'')
       | Some user \<Rightarrow>
           if us_is_active user then Inl (BadRequestException ''User is not banned'')
           else
             (let now = dc_now (cl_db cl); saved = user\<lparr>us_is_active := True, us_updatedAt := now\<rparr> in
              record_action env cl USER_UNBANNED ''user'' (int_str userId) [] None saved (save_user now saved st))) st0"

section \<open>Commands\<close>

text \<open>Every request of this file that may write, run to its end; the flag tells whether it succeeded.\<close>

datatype admin_command =
    Resolve admin_call ident "string option" "int option"
  | Dismiss admin_call ident "string option"
  | BulkResolve "nat \<Rightarrow> db_call" "ident list" int "string option" "web_request option" ms
  | DeleteConfession admin_call ident "string option"
  | Hide admin_call ident "string option"
  | Unhide admin_call ident
  | Ban admin_call int "string option" "int option"
  | Unban admin_call int
  | SetRole admin_call int string "string option"

fun commander :: "admin_command \<Rightarrow> int" where
  "commander (Resolve cl _ _ _) = cl_adminId cl"
| "commander (Dismiss cl _ _) = cl_adminId cl"
| "commander (BulkResolve _ _ adminId _ _ _) = adminId"
| "commander (DeleteConfession cl _ _) = cl_adminId cl"
| "commander (Hide cl _ _) = cl_adminId cl"
| "commander (Unhide cl _) = cl_adminId cl"
| "commander (Ban cl _ _ _) = cl_adminId cl"
| "commander (Unban cl _) = cl_adminId cl"
| "commander (SetRole cl _ _ _) = cl_adminId cl"

fun admin_run :: "admin_env \<Rightarrow> admin_command \<Rightarrow> admin_state \<Rightarrow> bool \<times> admin_state" where
  "admin_run env (Resolve cl i notes t) st = map_prod is_ok id (resolveReport env cl i notes t st)"
| "admin_run env (Dismiss cl i notes) st = map_prod is_ok id (dismissReport env cl i notes st)"
| "admin_run env (BulkResolve calls ids a notes req now) st = map_prod is_ok id (bulkResolveReports env calls ids a notes req now st)"
| "admin_run env (DeleteConfession cl i reason) st = map_prod is_ok id (deleteConfession env cl i reason st)"
| "admin_run env (Hide cl i reason) st = map_prod is_ok id (hideConfession env cl i reason st)"
| "admin_run env (Unhide cl i) st = map_prod is_ok id (unhideConfession env cl i st)"
| "admin_run env (Ban cl i reason days) st = map_prod is_ok id (banUser env cl i reason days st)"
| "admin_run env (Unban cl i) st = map_prod is_ok id (unbanUser env cl i st)"
| "admin_run env (SetRole cl i role reason) st = map_prod is_ok id (updateUserRole env cl i role reason st)"

section \<open>Nothing changes without an entry\<close>

definition names :: "int \<Rightarrow> string \<Rightarrow> string \<Rightarrow> audit_row \<Rightarrow> bool" where
  "names admin entity i r \<longleftrightarrow> lg_adminId r = Some admin \<and> lg_entityType r = Some entity \<and> lg_entityId r = Some i"

text \<open>The rows of a table that bear the name \<open>i\<close> are the same in both, or an entry names \<open>i\<close>.\<close>

definition accounts :: "('r \<Rightarrow> string) \<Rightarrow> string \<Rightarrow> int \<Rightarrow> 'r list \<Rightarrow> 'r list \<Rightarrow> audit_row list \<Rightarrow> bool" where
  "accounts name entity admin t t' new \<longleftrightarrow>
     (\<forall>i. filter (\<lambda>r. name r = i) t' = filter (\<lambda>r. name r = i) t \<or> list_ex (names admin entity i) new)"

definition user_name :: "admin_user \<Rightarrow> string" where
  "user_name u = int_str (us_id u)"

definition accounted :: "int \<Rightarrow> admin_state \<Rightarrow> admin_state \<Rightarrow> bool" where
  "accounted admin st st' \<longleftrightarrow>
     (\<exists>new. ad_audit st' = ad_audit st @ new \<and>
        accounts rp_id ''report'' admin (ad_reports st) (ad_reports st') new \<and>
        accounts co_id ''confession'' admin (ad_confessions st) (ad_confessions st') new \<and>
        accounts user_name ''user'' admin (ad_users st) (ad_users st') new)"

lemma accounts_refl [simp]: "accounts name entity admin t t new"
  by (simp add: accounts_def)

lemma accounted_refl [simp]: "accounted admin st st"
  by (auto simp: accounted_def)

lemma filter_save_row:
  assumes "\<And>x. key x = key r \<Longrightarrow> \<not> P x" "\<exists>x \<in> set t. key x = key r"
  shows "filter P (save_row key r t) = filter P t"
proof -
  have "filter P (update_where (\<lambda>x. key x = key r) (\<lambda>_. r) t) = filter P t"
    using assms(1) by (induction t) (auto simp: update_where_def)
  with assms(2) show ?thesis by (auto simp: save_row_def)
qed

lemma save_row_accounts:
  assumes "\<exists>x \<in> set t. key x = key r" "\<And>x. key x = key r \<Longrightarrow> name x = i" "list_ex (names admin entity i) new"
  shows "accounts name entity admin t (save_row key r t) new"
  unfolding accounts_def
proof
  fix j
  show "filter (\<lambda>x. name x = j) (save_row key r t) = filter (\<lambda>x. name x = j) t \<or> list_ex (names admin entity j) new"
  proof (cases "i = j")
    case False
    then show ?thesis using assms(1,2) by (intro disjI1 filter_save_row) auto
  qed (use assms(3) in simp)
qed

lemma record_action_Inr:
  assumes "record_action env cl action entity i m notes x st = Inr (y, st')"
  shows "y = x \<and> (\<exists>row. st' = st\<lparr>ad_audit := ad_audit st @ [row]\<rparr> \<and> names (cl_adminId cl) entity i row \<and> lg_action row = action)"
  using assms
  by (auto simp: record_action_def logAction_def audit_save_def action_entry_def names_def Let_def split: option.splits if_splits)

text \<open>
  A table of the administrators: where its rows are in the state, what identifies a row, and the name its entries
  bear.  What is proved once: a transaction that saves one changed row and records it accounts for the change.
\<close>

locale entity_table =
  fixes rows :: "admin_state \<Rightarrow> 'r list"
    and put :: "'r list \<Rightarrow> admin_state \<Rightarrow> admin_state"
    and key :: "'r \<Rightarrow> 'k"
    and name :: "'r \<Rightarrow> string"
    and entity :: string
  assumes audit_put: "ad_audit (put t st) = ad_audit st"
    and key_name: "key a = key b \<Longrightarrow> name a = name b"
    and frame: "\<lbrakk>accounts name entity admin (rows st) t new\<rbrakk> \<Longrightarrow>
       accounted admin st ((put t st)\<lparr>ad_audit := ad_audit st @ new\<rparr>)"
begin

lemma saved_accounted:
  assumes "record_action env cl action entity i m notes x (put (save_row key r' (rows st)) st) = Inr (y, st')"
    and "find_one P (rows st) = Some r" "key r' = key r" "\<And>r. P r \<Longrightarrow> name r = i"
  shows "accounted (cl_adminId cl) st st'"
proof -
  have r: "r \<in> set (rows st)" "name r = i" using find_one_SomeD [OF assms(2)] assms(4) by auto
  from record_action_Inr [OF assms(1)] obtain row where
    st': "st' = (put (save_row key r' (rows st)) st)\<lparr>ad_audit := ad_audit st @ [row]\<rparr>" and "names (cl_adminId cl) entity i row"
    by (auto simp: audit_put)
  moreover have "name z = i" if "key z = key r'" for z using key_name [of z r] that assms(3) r(2) by simp
  ultimately have "accounts name entity (cl_adminId cl) (rows st) (save_row key r' (rows st)) [row]"
    using r assms(3) by (intro save_row_accounts [where i = i]) auto
  then show ?thesis unfolding st' by (rule frame)
qed

end

interpretation reports: entity_table ad_reports "\<lambda>t st. st\<lparr>ad_reports := t\<rparr>" rp_id rp_id "''report''"
  by unfold_locales (auto simp: accounted_def)

interpretation confs: entity_table ad_confessions "\<lambda>t st. st\<lparr>ad_confessions := t\<rparr>" co_id co_id "''confession''"
  by unfold_locales (auto simp: accounted_def)

interpretation users: entity_table ad_users "\<lambda>t st. st\<lparr>ad_users := t\<rparr>" us_id user_name "''user''"
  by unfold_locales (auto simp: accounted_def user_name_def)

text \<open>What a failed request leaves, and what a successful one accounts for.\<close>

definition lawful :: "int \<Rightarrow> 'a outcome \<Rightarrow> admin_state \<Rightarrow> admin_state \<Rightarrow> bool" where
  "lawful admin r st st' \<longleftrightarrow> (if is_ok r then accounted admin st st' else st' = st)"

lemma transaction_lawful:
  assumes "runInModerationTransaction work st = (r, st')" "\<And>x st'. work st = Inr (x, st') \<Longrightarrow> accounted admin st st'"
  shows "lawful admin r st st'"
  using assms by (cases "work st") (auto simp: runInModerationTransaction_def lawful_def)

lemma emitted_lawful:
  assumes "emit_updated (runInModerationTransaction work st) = (r, st')"
    "\<And>x st'. work st = Inr (x, st') \<Longrightarrow> accounted admin st st'"
  shows "lawful admin r st st'"
  using assms
  by (cases "work st") (auto simp: runInModerationTransaction_def emit_updated_def lawful_def accounted_def)

lemma resolveReport_lawful:
  "resolveReport env cl i notes templateId st = (r, st') \<Longrightarrow> lawful (cl_adminId cl) r st st'"
  unfolding resolveReport_def
  by (erule emitted_lawful) (auto simp: Let_def split: option.splits if_splits elim!: reports.saved_accounted)

lemma dismissReport_lawful:
  "dismissReport env cl i notes st = (r, st') \<Longrightarrow> lawful (cl_adminId cl) r st st'"
  unfolding dismissReport_def
  by (erule emitted_lawful) (auto simp: Let_def split: option.splits if_splits elim!: reports.saved_accounted)

lemma on_confession_lawful:
  assumes "on_confession env cl action i m notes change st = (r, st')" "\<And>c. co_id (change c) = co_id c"
  shows "lawful (cl_adminId cl) r st st'"
  using assms(1) unfolding on_confession_def
  by (rule transaction_lawful)
    (auto simp: Let_def assms(2) split: option.splits if_splits elim!: confs.saved_accounted)

lemma confession_commands_lawful:
  "deleteConfession env cl i reason st = (r, st') \<Longrightarrow> lawful (cl_adminId cl) r st st'"
  "hideConfession env cl i reason st = (s, st') \<Longrightarrow> lawful (cl_adminId cl) s st st'"
  "unhideConfession env cl i st = (s, st') \<Longrightarrow> lawful (cl_adminId cl) s st st'"
  by (auto simp: deleteConfession_def hideConfession_def unhideConfession_def lawful_def split: prod.splits sum.splits
      dest!: on_confession_lawful)

lemma user_commands_lawful:
  "banUser env cl userId reason days st = (r, st') \<Longrightarrow> lawful (cl_adminId cl) r st st'"
  "unbanUser env cl userId st = (r, st') \<Longrightarrow> lawful (cl_adminId cl) r st st'"
  "change_role env cl userId role reason st = (r, st') \<Longrightarrow> lawful (cl_adminId cl) r st st'"
  unfolding banUser_def unbanUser_def change_role_def save_user_def
  by (erule transaction_lawful, auto simp: Let_def user_name_def split: option.splits if_splits elim!: users.saved_accounted)+

text \<open>A refused change of the own role adds at most its entry.\<close>

lemma logSecurityEvent_audit:
  "\<exists>new. logSecurityEvent env cl ev i m st = st\<lparr>ad_audit := ad_audit st @ new\<rparr>"
  by (auto simp: logSecurityEvent_def split: sum.split prod.split dest!: record_action_Inr intro: exI [of _ "[]"])

section \<open>Bulk decisions\<close>

lemma record_items_Inr:
  assumes "record_items env adminId now notes req cs st = Inr st'"
  shows "\<exists>new. st' = st\<lparr>ad_audit := ad_audit st @ new\<rparr> \<and>
    list_all2 (\<lambda>item row. names adminId ''report'' (bi_id item) row) (map snd cs) new"
  using assms
proof (induction cs arbitrary: st)
  case Nil
  then show ?case by (auto intro: exI [of _ "[]"])
next
  case (Cons c cs)
  obtain d item where c: "c = (d, item)" by force
  from Cons.prems obtain x st1 where
    one: "record_action env \<lparr>cl_adminId = adminId, cl_db = d, cl_request = req\<rparr> BULK_ACTION ''report'' (bi_id item)
         (bulk_metadata env now item) notes () st = Inr (x, st1)"
    and rest: "record_items env adminId now notes req cs st1 = Inr st'"
    unfolding c by (auto split: sum.splits prod.splits)
  from record_action_Inr [OF one] obtain row where
    row: "st1 = st\<lparr>ad_audit := ad_audit st @ [row]\<rparr>" "names adminId ''report'' (bi_id item) row" by auto
  from Cons.IH [OF rest] obtain new where
    "st' = st1\<lparr>ad_audit := ad_audit st1 @ new\<rparr>" "list_all2 (\<lambda>item row. names adminId ''report'' (bi_id item) row) (map snd cs) new"
    by blast
  with row c show ?case by (intro exI [of _ "row # new"]) simp
qed

lemma bulk_scan_ids: "bulk_scan mark ids found = (items, toSave) \<Longrightarrow> map bi_id items = ids"
  by (induction ids arbitrary: found items toSave) (auto split: option.splits if_splits prod.splits)

lemma bulk_scan_saved:
  assumes "bulk_scan mark ids found = (items, toSave)" "distinct (map rp_id found)"
    and mark: "\<And>r. rp_id (mark r) = rp_id r" "\<And>r. rp_status (mark r) \<noteq> RPending"
  shows "set toSave = mark ` {r \<in> set found. rp_id r \<in> set ids \<and> rp_status r = RPending} \<and> distinct (map rp_id toSave)"
  using assms(1,2)
proof (induction ids arbitrary: found items toSave)
  case (Cons i ids)
  show ?case
  proof (cases "find_one (\<lambda>r. rp_id r = i) found")
    case None
    then have "\<forall>r \<in> set found. rp_id r \<noteq> i" by (simp add: find_one_None_iff)
    with None Cons show ?thesis by (fastforce split: prod.splits)
  next
    case (Some r)
    then have r: "r \<in> set found" "rp_id r = i" by (auto dest: find_one_SomeD)
    have only: "x = r" if "x \<in> set found" "rp_id x = i" for x
      using that r distinct_keys_eq [OF Cons.prems(2)] by auto
    show ?thesis
    proof (cases "rp_status r = RPending")
      case False
      with Some Cons.prems(1) obtain items' where rest: "bulk_scan mark ids found = (items', toSave)"
        by (auto split: prod.splits)
      have "{x \<in> set found. rp_id x \<in> set (i # ids) \<and> rp_status x = RPending} =
          {x \<in> set found. rp_id x \<in> set ids \<and> rp_status x = RPending}" using only False by auto
      with Cons.IH [OF rest Cons.prems(2)] show ?thesis by metis
    next
      case True
      let ?found = "save_row rp_id (mark r) found"
      from True Some Cons.prems(1) obtain items' saves where
        rest: "bulk_scan mark ids ?found = (items', saves)" and toSave: "toSave = mark r # saves"
        by (auto split: prod.splits)
      have IH: "set saves = mark ` {x \<in> set ?found. rp_id x \<in> set ids \<and> rp_status x = RPending}" "distinct (map rp_id saves)"
        using Cons.IH [OF rest] distinct_save_row [OF Cons.prems(2)] by auto
      have "set ?found = insert (mark r) {x \<in> set found. rp_id x \<noteq> i}"
      proof (intro equalityI subsetI)
        fix x
        assume "x \<in> set ?found"
        then show "x \<in> insert (mark r) {x \<in> set found. rp_id x \<noteq> i}"
          by (cases rule: in_save_rowE) (simp_all add: mark r)
      qed (auto simp: mark r intro: other_in_save_row)
      then have pend: "{x \<in> set ?found. rp_id x \<in> set ids \<and> rp_status x = RPending} =
          {x \<in> set found. rp_id x \<noteq> i \<and> rp_id x \<in> set ids \<and> rp_status x = RPending}" using mark(2) by auto
      moreover have "{x \<in> set found. rp_id x \<in> set (i # ids) \<and> rp_status x = RPending} =
          insert r {x \<in> set found. rp_id x \<noteq> i \<and> rp_id x \<in> set ids \<and> rp_status x = RPending}" (is "?all = ?one")
      proof (rule set_eqI)
        fix x
        show "x \<in> ?all \<longleftrightarrow> x \<in> ?one" using r True only [of x] by (cases "rp_id x = i") auto
      qed
      moreover have "rp_id (mark r) \<notin> rp_id ` set saves" unfolding IH(1) pend using r mark(1) by auto
      ultimately show ?thesis using IH toSave by simp
    qed
  qed
qed simp

text \<open>Saving rows one after the other is replacing each row by the saved one with its id.\<close>

lemma foldl_save_rows:
  assumes "distinct (map rp_id saved)" "rp_id ` set saved \<subseteq> rp_id ` set t"
  shows "foldl (\<lambda>t r. save_row rp_id r t) t saved =
    map (\<lambda>x. case find_one (\<lambda>r. rp_id r = rp_id x) saved of None \<Rightarrow> x | Some r \<Rightarrow> r) t"
  using assms
proof (induction saved arbitrary: t)
  case (Cons r saved)
  have t: "save_row rp_id r t = map (\<lambda>x. if rp_id x = rp_id r then r else x) t"
    using Cons.prems(2) by (auto simp: save_row_def update_where_def)
  have "rp_id ` set saved \<subseteq> rp_id ` set (save_row rp_id r t)"
    using Cons.prems(2) keys_save_row [of rp_id r t] by (metis image_insert image_set insert_subset list.simps(15))
  then have IH: "foldl (\<lambda>t r. save_row rp_id r t) (save_row rp_id r t) saved =
      map (\<lambda>x. case find_one (\<lambda>r. rp_id r = rp_id x) saved of None \<Rightarrow> x | Some r \<Rightarrow> r) (save_row rp_id r t)"
    using Cons by simp
  have "find_one (\<lambda>q. rp_id q = rp_id r) saved = None"
    using Cons.prems(1) by (auto simp: find_one_None_iff rev_image_eqI)
  then show ?case using IH by (simp add: t)
qed simp

definition bulk_resolved :: "int \<Rightarrow> string option \<Rightarrow> ms \<Rightarrow> report \<Rightarrow> report" where
  "bulk_resolved adminId notes now r =
     (bulk_mark adminId notes now r)\<lparr>rp_version := rp_version r + 1, rp_updatedAt := now\<rparr>"

lemma bulk_table:
  assumes "distinct (map rp_id t)"
    and scan: "bulk_scan (bulk_mark adminId notes now) ids (filter (\<lambda>r. rp_id r \<in> set ids) t) = (items, toSave)"
  shows "foldl (\<lambda>t r. save_row rp_id r t) t (map (\<lambda>r. r\<lparr>rp_version := rp_version r + 1, rp_updatedAt := now\<rparr>) toSave) =
    map (\<lambda>r. if rp_id r \<in> set ids \<and> rp_status r = RPending then bulk_resolved adminId notes now r else r) t"
proof -
  let ?bump = "\<lambda>r. r\<lparr>rp_version := rp_version r + 1, rp_updatedAt := now\<rparr> :: report"
  let ?mark = "bulk_mark adminId notes now"
  let ?pending = "{r \<in> set t. rp_id r \<in> set ids \<and> rp_status r = RPending}"
  have keep: "rp_id (?bump (?mark r)) = rp_id r" "?bump (?mark r) = bulk_resolved adminId notes now r" for r
    by (simp_all add: bulk_mark_def bulk_resolved_def)
  have saved: "set toSave = ?mark ` ?pending" "distinct (map rp_id toSave)"
    using bulk_scan_saved [OF scan distinct_map_filter [OF assms(1)]] by (auto simp: bulk_mark_def)
  have d: "distinct (map rp_id (map ?bump toSave))" using saved(2) by (simp add: comp_def)
  have sub: "rp_id ` set (map ?bump toSave) \<subseteq> rp_id ` set t" using saved(1) keep(1) by (auto simp: image_iff)
  have "(case find_one (\<lambda>r. rp_id r = rp_id x) (map ?bump toSave) of None \<Rightarrow> x | Some r \<Rightarrow> r) =
      (if rp_id x \<in> set ids \<and> rp_status x = RPending then bulk_resolved adminId notes now x else x)" if x: "x \<in> set t" for x
  proof -
    have one: "y = x" if "y \<in> set t" "rp_id y = rp_id x" for y
      using distinct_keys_eq [OF assms(1) that(1) x that(2)] .
    show ?thesis
    proof (cases "find_one (\<lambda>r. rp_id r = rp_id x) (map ?bump toSave)")
      case None
      then have "x \<notin> ?pending" using saved(1) keep(1) by (auto simp: find_one_None_iff)
      with x None show ?thesis by auto
    next
      case (Some r)
      then obtain y where "y \<in> ?pending" "r = ?bump (?mark y)" "rp_id r = rp_id x"
        using saved(1) by (auto dest!: find_one_SomeD)
      with one keep Some show ?thesis by fastforce
    qed
  qed
  then show ?thesis unfolding foldl_save_rows [OF d sub] by (rule map_cong [OF refl])
qed

lemma bulk_cases:
  assumes "bulkResolveReports env calls ids adminId notes req now st = (r, st')"
  obtains (failed) e where "r = Inl e" "st' = st"
  | (done_all) items toSave new where "r = Inr (summary_of ids items)"
      "bulk_scan (bulk_mark adminId notes now) ids (filter (\<lambda>r. rp_id r \<in> set ids) (ad_reports st)) = (items, toSave)"
      "list_all2 (\<lambda>item row. names adminId ''report'' (bi_id item) row) items new" "ad_audit st' = ad_audit st @ new"
      "ad_reports st' = foldl (\<lambda>t r. save_row rp_id r t) (ad_reports st)
         (map (\<lambda>r. r\<lparr>rp_version := rp_version r + 1, rp_updatedAt := now\<rparr>) toSave)"
      "ad_confessions st' = ad_confessions st" "ad_users st' = ad_users st"
proof -
  obtain items toSave where
    scan: "bulk_scan (bulk_mark adminId notes now) ids (filter (\<lambda>r. rp_id r \<in> set ids) (ad_reports st)) = (items, toSave)" by force
  let ?st = "st\<lparr>ad_reports := foldl (\<lambda>t r. save_row rp_id r t) (ad_reports st)
    (map (\<lambda>r. r\<lparr>rp_version := rp_version r + 1, rp_updatedAt := now\<rparr>) toSave)\<rparr>"
  let ?cs = "zip (map calls [0..<length items]) items"
  show thesis
  proof (cases "record_items env adminId now notes req ?cs ?st")
    case (Inl e)
    with assms scan show thesis
      by (intro failed) (auto simp: bulkResolveReports_def runInModerationTransaction_def Let_def)
  next
    case (Inr st1)
    from record_items_Inr [OF this] obtain new where
      "st1 = ?st\<lparr>ad_audit := ad_audit st @ new\<rparr>" "list_all2 (\<lambda>item row. names adminId ''report'' (bi_id item) row) items new"
      by auto
    with assms scan Inr show thesis
      by (intro done_all [of items toSave new]) (auto simp: bulkResolveReports_def runInModerationTransaction_def Let_def)
  qed
qed

lemma list_all2_named:
  assumes "list_all2 (\<lambda>item row. names adminId ''report'' (bi_id item) row) items new" "i \<in> set (map bi_id items)"
  shows "list_ex (names adminId ''report'' i) new"
  using assms by (induction rule: list_all2_induct) auto

lemma bulk_lawful:
  assumes "bulkResolveReports env calls ids adminId notes req now st = (r, st')" "distinct (map rp_id (ad_reports st))"
  shows "lawful adminId r st st'"
  using assms(1)
proof (cases rule: bulk_cases)
  case (done_all items toSave new)
  let ?f = "\<lambda>r. if rp_id r \<in> set ids \<and> rp_status r = RPending then bulk_resolved adminId notes now r else r"
  have table: "ad_reports st' = map ?f (ad_reports st)"
    using done_all(5) bulk_table [OF assms(2) done_all(2)] by simp
  have f: "rp_id (?f r) = rp_id r" for r by (simp add: bulk_resolved_def bulk_mark_def)
  have "accounts rp_id ''report'' adminId (ad_reports st) (ad_reports st') new"
    unfolding accounts_def
  proof
    fix i
    show "filter (\<lambda>r. rp_id r = i) (ad_reports st') = filter (\<lambda>r. rp_id r = i) (ad_reports st) \<or>
      list_ex (names adminId ''report'' i) new"
    proof (cases "i \<in> set ids")
      case True
      then show ?thesis using list_all2_named [OF done_all(3)] bulk_scan_ids [OF done_all(2)] by blast
    next
      case False
      then have "filter (\<lambda>r. rp_id r = i) (map ?f (ad_reports st)) = filter (\<lambda>r. rp_id r = i) (ad_reports st)"
        unfolding filter_map comp_def f by (intro map_idI) auto
      then show ?thesis by (simp add: table)
    qed
  qed
  with done_all show ?thesis by (auto simp: lawful_def accounted_def)
qed (simp add: lawful_def)

section \<open>The properties\<close>

lemma updateUserRole_cases:
  assumes "updateUserRole env cl userId role reason st = (r, st')"
  obtains (refused) e new where "r = Inl e" "st' = st\<lparr>ad_audit := ad_audit st @ new\<rparr>"
  | (passed) ro where "role_of role = Some ro" "userId \<noteq> cl_adminId cl" "change_role env cl userId ro reason st = (r, st')"
proof (cases "role_of role")
  case None
  then show thesis using assms refused [of _ "[]"] by (auto simp: updateUserRole_def)
next
  case (Some ro)
  show thesis
  proof (cases "userId = cl_adminId cl")
    case True
    obtain new where "logSecurityEvent env cl ''ROLE_SELF_ESCALATION_BLOCKED'' userId
        [(''attemptedRole'', JStr role), (''reason'', json_opt (or_null reason))] st = st\<lparr>ad_audit := ad_audit st @ new\<rparr>"
      using logSecurityEvent_audit by blast
    with Some True assms show thesis by (intro refused) (auto simp: updateUserRole_def)
  next
    case False
    with Some assms show thesis by (intro passed) (auto simp: updateUserRole_def)
  qed
qed

text \<open>A failed request leaves every table but the log as it was.\<close>

definition settled :: "int \<Rightarrow> bool \<Rightarrow> admin_state \<Rightarrow> admin_state \<Rightarrow> bool" where
  "settled admin ok st st' \<longleftrightarrow> accounted admin st st' \<and>
     (ok \<or> ad_reports st' = ad_reports st \<and> ad_confessions st' = ad_confessions st \<and> ad_users st' = ad_users st \<and>
        ad_events st' = ad_events st)"

lemma lawful_settled: "lawful admin r st st' \<Longrightarrow> settled admin (is_ok r) st st'"
  by (auto simp: lawful_def settled_def split: if_splits)

lemma updateUserRole_settled:
  assumes "updateUserRole env cl userId role reason st = (r, st')"
  shows "settled (cl_adminId cl) (is_ok r) st st'"
  using assms
proof (cases rule: updateUserRole_cases)
  case (passed ro)
  then show ?thesis using user_commands_lawful(3) [OF passed(3)] by (blast intro: lawful_settled)
qed (auto simp: settled_def accounted_def)

lemmas commands_lawful = resolveReport_lawful dismissReport_lawful confession_commands_lawful user_commands_lawful(1,2) bulk_lawful

lemma admin_run_settled:
  assumes "admin_run env cmd st = (ok, st')" "distinct (map rp_id (ad_reports st))"
  shows "settled (commander cmd) ok st st'"
  using assms
  by (cases cmd) (auto simp: map_prod_def split: prod.splits intro: lawful_settled updateUserRole_settled commands_lawful)


definition ada :: admin_user where
  "ada = \<lparr>us_id = 1, us_username = ''ada'', us_emailHash = [], us_role = ADMIN, us_is_active = True, us_createdAt = 0, us_updatedAt = 0\<rparr>"

definition eve :: admin_user where
  "eve = \<lparr>us_id = 2, us_username = ''eve'', us_emailHash = [], us_role = USER, us_is_active = False, us_createdAt = 0, us_updatedAt = 0\<rparr>"

definition open_report :: report where
  "open_report = new_report ''r1'' ''c1'' (Some 2) None (Some SPAM) None None 0"

definition office :: admin_state where
  "office = \<lparr>ad_reports = [open_report], ad_confessions = [], ad_users = [ada, eve], ad_templates = [], ad_audit = [], ad_events = []\<rparr>"

definition office_env :: admin_env where
  "office_env = \<lparr>av_sha = demo_sha, av_iso = int_str\<rparr>"

definition ada_asks :: admin_call where
  "ada_asks = \<lparr>cl_adminId = 1, cl_db = first_call, cl_request = None\<rparr>"

lemma record_action_eq:
  assumes "dc_up (cl_db cl)" "cl_request cl = None" "list_ex (\<lambda>u. us_id u = cl_adminId cl) (ad_users st)"
    "- (2 ^ 31) \<le> cl_adminId cl" "cl_adminId cl < 2 ^ 31"
  shows "record_action env cl action entity i m notes x st = Inr (x, st\<lparr>ad_audit := ad_audit st @
    [action_entry (audit_env_of env st) (cl_db cl) (cl_adminId cl) action (Some entity) (Some i) m notes None]\<rparr>)"
  using assms
  by (auto simp: record_action_def logAction_def audit_save_def row_fits_def action_entry_def Let_def or_null_def audit_env_of_def)

lemma record_items_ok:
  assumes "list_all (\<lambda>c. dc_up (fst c)) cs" "list_ex (\<lambda>u. us_id u = adminId) (ad_users st)" "- (2 ^ 31) \<le> adminId" "adminId < 2 ^ 31"
  shows "\<exists>st'. record_items env adminId now notes None cs st = Inr st'"
  using assms by (induction cs arbitrary: st) (auto simp: record_action_eq)

lemma office_users: "ad_users office = [ada, eve]" "us_id ada = 1" "us_id eve = 2" "us_role eve = USER" "us_role ada = ADMIN"
  by (simp_all add: office_def ada_def eve_def)

lemma ada_asks_ok: "dc_up (cl_db ada_asks)" "cl_request ada_asks = None" "cl_adminId ada_asks = 1" "dc_now (cl_db ada_asks) = 5"
  by (simp_all add: ada_asks_def first_call_def)


subsection \<open>Roles\<close>

lemma record_action_users:
  "record_action env cl action entity i m notes x st = Inr (y, st') \<Longrightarrow> ad_users st' = ad_users st"
  by (auto dest: record_action_Inr)

lemma transaction_cases:
  assumes "runInModerationTransaction work st = (r, st')"
  obtains "st' = st" | x where "work st = Inr (x, st')" "r = Inr x"
  using assms by (cases "work st") (auto simp: runInModerationTransaction_def)

lemma transaction_users:
  assumes "runInModerationTransaction work st = (r, st')" "\<And>x st'. work st = Inr (x, st') \<Longrightarrow> ad_users st' = ad_users st"
  shows "ad_users st' = ad_users st"
  using assms by (cases "work st") (force simp: runInModerationTransaction_def)+

lemma emitted_users:
  assumes "emit_updated (runInModerationTransaction work st) = (r, st')"
    "\<And>x st'. work st = Inr (x, st') \<Longrightarrow> ad_users st' = ad_users st"
  shows "ad_users st' = ad_users st"
  using assms by (cases "work st") (force simp: runInModerationTransaction_def emit_updated_def)+

lemma other_commands_users:
  "resolveReport env cl i notes t st = (r, st') \<Longrightarrow> ad_users st' = ad_users st"
  "dismissReport env cl i notes st = (r, st') \<Longrightarrow> ad_users st' = ad_users st"
  "on_confession env cl action i m notes ch st = (c, st') \<Longrightarrow> ad_users st' = ad_users st"
  unfolding resolveReport_def dismissReport_def on_confession_def Let_def
  by (erule emitted_users transaction_users,
      auto split: option.splits if_splits dest!: record_action_users)+

lemma bulk_users:
  "bulkResolveReports env calls ids adminId notes req now st = (b, st') \<Longrightarrow> ad_users st' = ad_users st"
  by (erule bulk_cases) (hypsubst, rule refl, assumption)

text \<open>What a request may do to the account \<open>u\<close> when it becomes \<open>u'\<close>.\<close>

definition role_rule :: "int \<Rightarrow> admin_user \<Rightarrow> admin_user \<Rightarrow> bool" where
  "role_rule admin u u' \<longleftrightarrow>
     us_role u' = us_role u \<or> us_id u \<noteq> admin \<and> (us_role u' = ADMIN \<longrightarrow> us_is_active u \<and> us_is_active u')"

lemma saved_role_rule:
  assumes "find_one (\<lambda>u. us_id u = userId) us = Some g" "us_id saved = us_id g" "role_rule admin g saved"
    and "distinct (map us_id us)" "u \<in> set us" "u' \<in> set (save_row us_id saved us)" "us_id u' = us_id u"
  shows "role_rule admin u u'"
proof -
  have g: "g \<in> set us" using find_one_SomeD [OF assms(1)] by simp
  from assms(6) show ?thesis
  proof (cases rule: in_save_rowE)
    case this
    note hit = this
    then have "us_id u = us_id g" using assms(2,7) by simp
    then have "u = g" by (rule distinct_keys_eq [OF assms(4,5) g])
    with hit assms(3) show ?thesis by blast
  next
    case other
    have "u = u'" by (rule distinct_keys_eq [OF assms(4,5) other(1) assms(7) [symmetric]])
    then show ?thesis by (simp add: role_rule_def)
  qed
qed

lemma role_ruleI:
  "us_role u' = us_role u \<Longrightarrow> role_rule admin u u'"
  "us_id u \<noteq> admin \<Longrightarrow> us_role u' \<noteq> ADMIN \<or> us_is_active u \<and> us_is_active u' \<Longrightarrow> role_rule admin u u'"
  by (auto simp: role_rule_def)

lemma saved_user_role_rule:
  assumes "record_action env cl action entity i m notes x (save_user now g st) = Inr (y, st')"
    and "find_one (\<lambda>u. us_id u = userId) (ad_users st) = Some h" "us_id g = us_id h" "role_rule admin h (g\<lparr>us_updatedAt := now\<rparr>)"
    and "distinct (map us_id (ad_users st))" "u \<in> set (ad_users st)" "u' \<in> set (ad_users st')" "us_id u' = us_id u"
  shows "role_rule admin u u'"
proof -
  have "u' \<in> set (save_row us_id (g\<lparr>us_updatedAt := now\<rparr>) (ad_users st))"
    using assms(7) record_action_users [OF assms(1)] by (simp add: save_user_def)
  then show ?thesis using saved_role_rule [OF assms(2) _ assms(4,5,6) _ assms(8)] assms(3) by simp
qed

lemma user_commands_role_rule:
  assumes users: "distinct (map us_id (ad_users st))" "u \<in> set (ad_users st)" "u' \<in> set (ad_users st')" "us_id u' = us_id u"
  shows "banUser env cl userId reason days st = (r, st') \<Longrightarrow> role_rule admin u u'"
    "unbanUser env cl userId st = (r, st') \<Longrightarrow> role_rule admin u u'"
    "change_role env cl userId role reason st = (r, st') \<Longrightarrow> userId \<noteq> admin \<Longrightarrow> role_rule admin u u'"
proof -
  have same: "role_rule admin u u'" if "st' = st"
    using distinct_keys_eq [OF users(1,2) _ users(4) [symmetric]] users(3) that by (simp add: role_rule_def)
  note saved = saved_user_role_rule [OF _ _ _ _ users]
  show "banUser env cl userId reason days st = (r, st') \<Longrightarrow> role_rule admin u u'"
    unfolding banUser_def Let_def
    by (erule transaction_cases) (erule same, auto split: option.splits if_splits intro: role_ruleI elim!: saved)
  show "unbanUser env cl userId st = (r, st') \<Longrightarrow> role_rule admin u u'"
    unfolding unbanUser_def Let_def
    by (erule transaction_cases) (erule same, auto split: option.splits if_splits intro: role_ruleI elim!: saved)
  show "change_role env cl userId role reason st = (r, st') \<Longrightarrow> userId \<noteq> admin \<Longrightarrow> role_rule admin u u'"
    unfolding change_role_def Let_def
    by (erule transaction_cases)
      (erule same, auto split: option.splits if_splits dest: find_one_SomeD intro: same role_ruleI elim!: saved)
qed

lemma unchanged_role_rule:
  assumes "ad_users st' = ad_users st" "distinct (map us_id (ad_users st))" "u \<in> set (ad_users st)" "u' \<in> set (ad_users st')"
    "us_id u' = us_id u"
  shows "role_rule admin u u'"
  using distinct_keys_eq [OF assms(2,3) _ assms(5) [symmetric]] assms(1,4) by (simp add: role_rule_def)

lemma admin_run_role_rule:
  assumes run: "admin_run env cmd st = (ok, st')"
    and users: "distinct (map us_id (ad_users st))" "u \<in> set (ad_users st)" "u' \<in> set (ad_users st')" "us_id u' = us_id u"
  shows "role_rule (commander cmd) u u'"
proof -
  note same = unchanged_role_rule [OF _ users]
  show ?thesis
  proof (cases cmd)
    case (SetRole cl i role reason)
    then obtain r where r: "updateUserRole env cl i role reason st = (r, st')"
      using run by (auto simp: map_prod_def split: prod.splits)
    then show ?thesis
    proof (cases rule: updateUserRole_cases)
      case refused
      then show ?thesis by (intro same) simp
    next
      case (passed ro)
      then show ?thesis using user_commands_role_rule(3) [OF users passed(3)] SetRole by simp
    qed
  next
    case (Ban cl i reason days)
    then show ?thesis using run user_commands_role_rule(1) [OF users] by (auto simp: map_prod_def split: prod.splits)
  next
    case (Unban cl i)
    then show ?thesis using run user_commands_role_rule(2) [OF users] by (auto simp: map_prod_def split: prod.splits)
  qed (use run in \<open>auto simp: map_prod_def deleteConfession_def hideConfession_def unhideConfession_def
        split: prod.splits sum.splits dest!: other_commands_users bulk_users intro: same\<close>)
qed

text \<open>
  No request of an administrator changes the administrator's own role, and none makes a banned account an
  administrator: whenever an account's role differs after a request, the account is not the requester's, and if
  the new role is administrator the account was active and still is.
\<close>

theorem roles_guarded:
  assumes "admin_run env cmd st = (ok, st')" "distinct (map us_id (ad_users st))"
    "u \<in> set (ad_users st)" "u' \<in> set (ad_users st')" "us_id u' = us_id u" "us_role u' \<noteq> us_role u"
  shows "us_id u \<noteq> commander cmd \<and> (us_role u' = ADMIN \<longrightarrow> us_is_active u \<and> us_is_active u')"
  using admin_run_role_rule [OF assms(1-5)] assms(6) by (simp add: role_rule_def)

theorem roles_guarded_witness:
  "us_role (eve\<lparr>us_role := MODERATOR, us_updatedAt := 5\<rparr>) \<noteq> us_role eve \<and>
   us_id eve \<noteq> commander (SetRole ada_asks 2 ''moderator'' None)"
proof -
  let ?cmd = "SetRole ada_asks 2 ''moderator'' None"
  have run: "admin_run office_env ?cmd office = (fst (admin_run office_env ?cmd office), snd (admin_run office_env ?cmd office))"
    by (rule prod.collapse [symmetric])
  have changed: "eve\<lparr>us_role := MODERATOR, us_updatedAt := 5\<rparr> \<in> set (ad_users (snd (admin_run office_env ?cmd office)))"
    by (simp add: updateUserRole_def role_of_def ada_asks_ok change_role_def runInModerationTransaction_def office_users Let_def
        save_user_def save_row_def record_action_eq)
  have "distinct (map us_id (ad_users office))" "eve \<in> set (ad_users office)" by code_simp+
  from roles_guarded [OF run this changed] show ?thesis by (simp add: eve_def)
qed

subsection \<open>Bulk decisions\<close>

text \<open>
  A bulk decision that succeeds gives every requested id one outcome, in the order of the request, and the
  three counts add up to the number of ids; the reports afterwards are the reports before, with exactly those
  that were requested and pending resolved by the administrator and their version raised; and every id, found or
  not, has an audit entry of its own.
\<close>

theorem bulk_decision_exact:
  assumes "bulkResolveReports env calls ids adminId notes req now st = (Inr s, st')" "distinct (map rp_id (ad_reports st))"
  shows "map bi_id (br_outcomes s) = ids \<and>
    br_resolved s + br_skipped s + br_notFound s = br_requested s \<and> br_requested s = length ids \<and>
    ad_reports st' = map (\<lambda>r. if rp_id r \<in> set ids \<and> rp_status r = RPending
        then r\<lparr>rp_status := RResolved, rp_resolvedBy := Some adminId, rp_resolvedAt := Some now, rp_resolutionNotes := notes,
               rp_version := rp_version r + 1, rp_updatedAt := now\<rparr> else r) (ad_reports st) \<and>
    (\<exists>new. ad_audit st' = ad_audit st @ new \<and> map lg_entityId new = map Some ids)"
  using assms(1)
proof (cases rule: bulk_cases)
  case (done_all items toSave new)
  have ids: "map bi_id items = ids" by (rule bulk_scan_ids [OF done_all(2)])
  have counts: "count_outcome Bulk_resolved is + count_outcome Bulk_skipped is + count_outcome Bulk_not_found is = length is" for "is"
  proof (induction "is")
    case (Cons item "is")
    then show ?case by (cases "bi_outcome item") (auto simp: count_outcome_def)
  qed (simp add: count_outcome_def)
  have "map lg_entityId new = map (\<lambda>item. Some (bi_id item)) items"
    using done_all(3) by (induction rule: list_all2_induct) (auto simp: names_def)
  also have "\<dots> = map Some ids" using ids by auto
  finally have entries: "map lg_entityId new = map Some ids" .
  have "ad_reports st' = map (\<lambda>r. if rp_id r \<in> set ids \<and> rp_status r = RPending then bulk_resolved adminId notes now r else r) (ad_reports st)"
    using done_all(5) bulk_table [OF assms(2) done_all(2)] by simp
  then show ?thesis
    using done_all(1,4) ids entries counts [of items] arg_cong [OF ids, of length]
    by (auto simp: summary_of_def bulk_resolved_def bulk_mark_def)
qed simp

lemma bulk_ok:
  assumes "\<And>n. dc_up (calls n)" "list_ex (\<lambda>u. us_id u = adminId) (ad_users st)" "- (2 ^ 31) \<le> adminId" "adminId < 2 ^ 31"
  shows "\<exists>s st'. bulkResolveReports env calls ids adminId notes None now st = (Inr s, st')"
proof -
  obtain items toSave where
    scan: "bulk_scan (bulk_mark adminId notes now) ids (filter (\<lambda>r. rp_id r \<in> set ids) (ad_reports st)) = (items, toSave)" by force
  let ?st = "st\<lparr>ad_reports := foldl (\<lambda>t r. save_row rp_id r t) (ad_reports st)
    (map (\<lambda>r. r\<lparr>rp_version := rp_version r + 1, rp_updatedAt := now\<rparr>) toSave)\<rparr>"
  have "\<exists>st'. record_items env adminId now notes None (zip (map calls [0..<length items]) items) ?st = Inr st'"
    using assms by (intro record_items_ok) (auto simp: list_all_iff set_zip)
  then show ?thesis using scan by (auto simp: bulkResolveReports_def runInModerationTransaction_def Let_def)
qed

theorem bulk_decision_exact_witness:
  "(case bulkResolveReports office_env (\<lambda>_. first_call) [''r1'', ''r9'', ''r1''] 1 None None 5 office of
      (Inr s, st') \<Rightarrow> map bi_outcome (br_outcomes s) = [Bulk_resolved, Bulk_not_found, Bulk_skipped] \<and>
        br_resolved s + br_skipped s + br_notFound s = 3 \<and> map rp_status (ad_reports st') = [RResolved]
    | (Inl _, _) \<Rightarrow> False)"
proof -
  let ?run = "bulkResolveReports office_env (\<lambda>_. first_call) [''r1'', ''r9'', ''r1''] 1 None None 5 office"
  obtain items toSave where
    scan: "bulk_scan (bulk_mark 1 None 5) [''r1'', ''r9'', ''r1''] (filter (\<lambda>r. rp_id r \<in> set [''r1'', ''r9'', ''r1'']) (ad_reports office)) =
      (items, toSave)" "map bi_outcome items = [Bulk_resolved, Bulk_not_found, Bulk_skipped]"
    by (simp add: office_def open_report_def new_report_def bulk_mark_def save_row_def)
  have "\<exists>s st'. ?run = (Inr s, st')" by (rule bulk_ok) (simp_all add: first_call_def office_users)
  then obtain s st' where run: "?run = (Inr s, st')" by blast
  moreover have "br_outcomes s = items"
    using run scan(1) by (cases rule: bulk_cases) (auto simp: summary_of_def)
  ultimately have run: "?run = (Inr s, st')" "map bi_outcome (br_outcomes s) = [Bulk_resolved, Bulk_not_found, Bulk_skipped]"
    using scan(2) by simp_all
  have "distinct (map rp_id (ad_reports office))" "ad_reports office = [open_report]" "rp_id open_report = ''r1''" "rp_status open_report = RPending"
    by code_simp+
  with bulk_decision_exact [OF run(1)] run show ?thesis by simp
qed

section \<open>What the requests do not guard\<close>

text \<open>
  The decisions of this service neither check nor raise the version of a report: a moderator who read the report
  before still passes the version check of \<open>ReportsService\<close> and overwrites the decision.
\<close>

lemma dismiss_keeps_version:
  assumes "dismissReport env cl i notes st = (Inr r, st')" "find_one (\<lambda>r. rp_id r = i) (ad_reports st) = Some before"
  shows "guarded_decision i (rp_version before) d (ad_reports st') \<noteq> None"
proof -
  have b: "rp_id before = i" "before \<in> set (ad_reports st)" using find_one_SomeD [OF assms(2)] by auto
  let ?now = "dc_now (cl_db cl)"
  let ?after = "before\<lparr>rp_status := RDismissed, rp_resolvedBy := Some (cl_adminId cl), rp_resolvedAt := Some ?now,
    rp_resolutionNotes := notes, rp_updatedAt := ?now\<rparr>"
  have "ad_reports st' = save_row rp_id ?after (ad_reports st)"
    using assms unfolding dismissReport_def emit_updated_def runInModerationTransaction_def Let_def
    by (auto split: sum.splits if_splits dest!: record_action_Inr)
  then have "?after \<in> set (ad_reports st')" by simp
  moreover have "rp_id ?after = i \<and> rp_version ?after = rp_version before" using b by simp
  ultimately have "\<exists>r \<in> set (ad_reports st'). rp_id r = i \<and> rp_version r = rp_version before" by (rule bexI [rotated])
  then show ?thesis by (simp add: guarded_decision_def)
qed

text \<open>Each of the two decisions refuses only its own status, so a dismissed report can be resolved and the other way round.\<close>

lemma dismissed_can_be_resolved:
  "map rp_status (ad_reports (snd (resolveReport office_env ada_asks ''r1'' None None
     (office\<lparr>ad_reports := [open_report\<lparr>rp_status := RDismissed\<rparr>]\<rparr>)))) = [RResolved]"
  by (simp add: resolveReport_def emit_updated_def runInModerationTransaction_def Let_def record_action_eq ada_asks_ok office_def
      open_report_def new_report_def save_row_def ada_def)

text \<open>Hiding a confession leaves the cached copy: until it expires, the hidden text is still served.\<close>

lemma hide_table:
  assumes "dc_up (cl_db cl)" "cl_request cl = None" "list_ex (\<lambda>u. us_id u = cl_adminId cl) (ad_users st)"
    "- (2 ^ 31) \<le> cl_adminId cl" "cl_adminId cl < 2 ^ 31" "distinct (map co_id (ad_confessions st))" "i \<in> co_id ` set (ad_confessions st)"
  shows "ad_confessions (snd (hideConfession env cl i reason st)) =
    update_where (\<lambda>c. co_id c = i) (\<lambda>c. c\<lparr>co_isHidden := True\<rparr>) (ad_confessions st)"
proof -
  obtain c where c: "find_one (\<lambda>c. co_id c = i) (ad_confessions st) = Some c"
    using assms(7) by (metis (mono_tags, lifting) find_one_None_iff imageE option.exhaust)
  then have mem: "c \<in> set (ad_confessions st)" "co_id c = i" by (auto dest: find_one_SomeD)
  then show ?thesis
    using c save_row_update [OF assms(6) mem(1), of "\<lambda>c. c\<lparr>co_isHidden := True\<rparr>"] assms(1-5)
    by (simp add: hideConfession_def on_confession_def runInModerationTransaction_def record_action_eq)
qed

lemma hide_leaves_cache:
  "let office = \<lparr>ad_reports = [], ad_confessions = cs_confessions viewed_state, ad_users = [ada], ad_templates = [], ad_audit = [], ad_events = []\<rparr>;
       hidden = ad_confessions (snd (hideConfession office_env ada_asks ''c1'' None office))
   in map co_isHidden hidden = [True] \<and>
      shown_text (fst (getConfessionByIdWithViewCount demo_env ''c1'' ''ip'' 10 (viewed_state\<lparr>cs_confessions := hidden\<rparr>))) = Some ''hi''"
proof -
  let ?office = "\<lparr>ad_reports = [], ad_confessions = cs_confessions viewed_state, ad_users = [ada], ad_templates = [], ad_audit = [], ad_events = []\<rparr>"
  let ?hidden = "update_where (\<lambda>c. co_id c = ''c1'') (\<lambda>c. c\<lparr>co_isHidden := True\<rparr>) (cs_confessions viewed_state)"
  have "map co_id (cs_confessions viewed_state) = [''c1'']" by code_simp
  then have ids: "distinct (map co_id (cs_confessions viewed_state))" "''c1'' \<in> co_id ` set (cs_confessions viewed_state)"
    by (simp, metis list.set_intros(1) list.set_map)
  have "ad_confessions (snd (hideConfession office_env ada_asks ''c1'' None ?office)) = ?hidden"
    using hide_table [of ada_asks ?office "''c1''" office_env None] ids by (simp add: ada_asks_ok ada_def)
  moreover have "map co_isHidden ?hidden = [True] \<and>
      shown_text (fst (getConfessionByIdWithViewCount demo_env ''c1'' ''ip'' 10 (viewed_state\<lparr>cs_confessions := ?hidden\<rparr>))) = Some ''hi''"
    by code_simp
  ultimately show ?thesis by (simp add: Let_def)
qed

text \<open>A ban for a number of days is a ban for good: the number goes into the log only, no column of the user holds it.\<close>

lemma ban_duration_only_logged:
  "ad_users (snd (banUser env cl i reason days st)) = ad_users (snd (banUser env cl i reason None st)) \<or>
   is_ok (fst (banUser env cl i reason days st)) \<noteq> is_ok (fst (banUser env cl i reason None st))"
  unfolding banUser_def Let_def runInModerationTransaction_def
  by (auto split: option.split sum.split dest!: record_action_Inr)

end
