(* ===== verification/Admin_Query.thy ===== *)
theory Admin_Query
  imports Admin Tip_Model
begin

text \<open>
  What administrators read (\<^verbatim>\<open>admin/services/admin.service.ts\<close>): reports and users, by offset and by cursor, the
  history of a user, the anchor and the tips of a confession, and the figures of the dashboard.

  A report is shown with its confession, whose text is decrypted or, when that fails, shown as it is stored.  The
  reading of dates, the beginning of the day and the truncation to days are arguments.

  Shown: the pages of reports that the cursors lead through are the slices of one list, as long as the limit is
  below the maximum; at the maximum the first page claims to be the last.
\<close>

section \<open>Reports\<close>

record read_env =
  re_unseal :: "string \<Rightarrow> string \<Rightarrow> string \<Rightarrow> string option"
  re_aesKey :: string
  re_iso :: "ms \<Rightarrow> string"
  re_dateParse :: "string \<Rightarrow> ms option"
  re_collate :: "string \<Rightarrow> int"

definition safeDecryptConfessionMessage :: "read_env \<Rightarrow> string \<Rightarrow> string" where
  "safeDecryptConfessionMessage env message =
     (case decryptConfession (re_unseal env) message (re_aesKey env) of Inl _ \<Rightarrow> message | Inr text \<Rightarrow> text)"

definition decrypted :: "read_env \<Rightarrow> confession \<Rightarrow> confession" where
  "decrypted env c = (if co_message c = [] then c else c\<lparr>co_message := safeDecryptConfessionMessage env (co_message c)\<rparr>)"

record shown_report =
  sr_report :: report
  sr_confession :: "confession option"
  sr_reporter :: "admin_user option"
  sr_resolver :: "admin_user option"

definition join_user :: "int option \<Rightarrow> admin_state \<Rightarrow> admin_user option" where
  "join_user i st = Option.bind i (\<lambda>i. find_one (\<lambda>u. us_id u = i) (ad_users st))"

definition joined :: "read_env \<Rightarrow> admin_state \<Rightarrow> report \<Rightarrow> shown_report" where
  "joined env st r =
     \<lparr>sr_report = r,
      sr_confession = map_option (decrypted env) (find_one (\<lambda>c. co_id c = rp_confessionId r) (ad_confessions st)),
      sr_reporter = join_user (rp_reporterId r) st, sr_resolver = join_user (rp_resolvedBy r) st\<rparr>"

definition report_filter ::
  "report_status option \<Rightarrow> report_type option \<Rightarrow> ms option \<Rightarrow> ms option \<Rightarrow> report \<Rightarrow> bool" where
  "report_filter status ty startDate endDate r \<longleftrightarrow>
     (status = None \<or> status = Some (rp_status r)) \<and> (ty = None \<or> ty = Some (rp_type r)) \<and>
     (case startDate of None \<Rightarrow> True | Some d \<Rightarrow> d \<le> rp_createdAt r) \<and>
     (case endDate of None \<Rightarrow> True | Some d \<Rightarrow> rp_createdAt r \<le> d)"

text \<open>\<open>take\<close> of 0 is no limit.\<close>

definition take_skip :: "nat \<Rightarrow> nat \<Rightarrow> 'r list \<Rightarrow> 'r list" where
  "take_skip limit offset t = skip_take offset (if limit = 0 then length t else limit) t"

definition getReports ::
  "read_env \<Rightarrow> report_status option \<Rightarrow> report_type option \<Rightarrow> ms option \<Rightarrow> ms option \<Rightarrow> nat \<Rightarrow> nat \<Rightarrow> admin_state \<Rightarrow>
   shown_report list \<times> nat" where
  "getReports env status ty startDate endDate limit offset st =
     (let rows = filter (report_filter status ty startDate endDate) (ad_reports st) in
      (map (joined env st) (take_skip limit offset (order_desc rp_createdAt rows)), length rows))"

definition getReportById :: "read_env \<Rightarrow> ident \<Rightarrow> admin_state \<Rightarrow> shown_report outcome" where
  "getReportById env i st =
     (case find_one (\<lambda>r. rp_id r = i) (ad_reports st) of
        None \<Rightarrow> Inl (NotFoundException ''Report not found'') | Some r \<Rightarrow> Inr (joined env st r))"

subsection \<open>By cursor\<close>

text \<open>
  The position a cursor stands for: no cursor, or one that cannot be read, starts at the beginning; one whose date
  or id makes no sense to the database fails there.
\<close>

datatype 'k position = Start | After "ms \<times> 'k" | Senseless

definition cursor_date :: "read_env \<Rightarrow> obj \<Rightarrow> ms option" where
  "cursor_date env o' = (case map_of o' ''createdAt'' of Some (JStr s) \<Rightarrow> re_dateParse env s | Some (JInt i) \<Rightarrow> Some i | _ \<Rightarrow> None)"

definition report_position :: "read_env \<Rightarrow> string option \<Rightarrow> ident position" where
  "report_position env cursor =
     (case decodeCursor cursor of
        None \<Rightarrow> Start
      | Some o' \<Rightarrow> (case (cursor_date env o', map_of o' ''id'') of (Some d, Some (JStr i)) \<Rightarrow> After (d, i) | _ \<Rightarrow> Senseless))"

definition after_position :: "'k::linorder position \<Rightarrow> ms \<times> 'k \<Rightarrow> bool" where
  "after_position p k = (case p of Start \<Rightarrow> True | After q \<Rightarrow> k < q | Senseless \<Rightarrow> False)"

definition newest_first :: "('r \<Rightarrow> ms \<times> 'k::linorder) \<Rightarrow> 'r list \<Rightarrow> 'r list" where
  "newest_first key t = rev (sort_key key t)"

definition cursor_take :: "nat \<Rightarrow> nat" where
  "cursor_take limit = nat (min (int limit + 1) MAX_LIMIT)"

text \<open>Fetch \<open>take\<close> rows; one more than \<open>limit\<close> means that there are more, and the last of them is dropped.\<close>

definition cursor_page_of :: "('r \<Rightarrow> string) \<Rightarrow> nat \<Rightarrow> 'r list \<Rightarrow> 'r cursor_page" where
  "cursor_page_of cursor_of limit rows =
     (let fetched = take (cursor_take limit) rows; hasMore = limit < length fetched;
          data = (if hasMore then butlast fetched else fetched) in
      CursorPaginatedResponseDto data (if hasMore \<and> data \<noteq> [] then Some (cursor_of (last data)) else None) hasMore limit)"

definition report_key :: "report \<Rightarrow> ms \<times> ident" where
  "report_key r = (rp_createdAt r, rp_id r)"

definition report_cursor :: "read_env \<Rightarrow> report \<Rightarrow> string" where
  "report_cursor env r = encodeCursor [(''id'', JStr (rp_id r)), (''createdAt'', JStr (re_iso env (rp_createdAt r)))]"

definition map_page :: "('a \<Rightarrow> 'b) \<Rightarrow> 'a cursor_page \<Rightarrow> 'b cursor_page" where
  "map_page f p = CursorPaginatedResponseDto (map f (cp_data p)) (cp_nextCursor p) (cp_hasMore p) (cp_limit p)"

definition getReportsCursor ::
  "read_env \<Rightarrow> report_status option \<Rightarrow> report_type option \<Rightarrow> ms option \<Rightarrow> ms option \<Rightarrow> nat \<Rightarrow> string option \<Rightarrow> admin_state \<Rightarrow>
   shown_report cursor_page outcome" where
  "getReportsCursor env status ty startDate endDate limit cursor st =
     (let p = report_position env cursor in
      if p = Senseless then Inl (PlainError ''QueryFailedError'')
      else Inr (map_page (joined env st) (cursor_page_of (report_cursor env) limit
        (newest_first report_key
          (filter (\<lambda>r. after_position p (report_key r) \<and> report_filter status ty startDate endDate r) (ad_reports st))))))"

definition user_position :: "read_env \<Rightarrow> string option \<Rightarrow> int position" where
  "user_position env cursor =
     (case decodeCursor cursor of
        None \<Rightarrow> Start
      | Some o' \<Rightarrow> (case (cursor_date env o', map_of o' ''id'') of (Some d, Some (JInt i)) \<Rightarrow> After (d, i) | _ \<Rightarrow> Senseless))"

definition user_key :: "admin_user \<Rightarrow> ms \<times> int" where
  "user_key u = (us_createdAt u, us_id u)"

definition searchUsersCursor ::
  "read_env \<Rightarrow> string \<Rightarrow> nat \<Rightarrow> string option \<Rightarrow> admin_state \<Rightarrow> admin_user cursor_page outcome" where
  "searchUsersCursor env query limit cursor st =
     (let p = user_position env cursor in
      if p = Senseless then Inl (PlainError ''QueryFailedError'')
      else Inr (cursor_page_of
        (\<lambda>u. encodeCursor [(''id'', JInt (us_id u)), (''createdAt'', JStr (re_iso env (us_createdAt u)))]) limit
        (newest_first user_key
          (filter (\<lambda>u. ilike_contains (Some (us_username u)) query \<and> after_position p (user_key u)) (ad_users st)))))"

section \<open>Users\<close>

fun role_rank :: "user_role \<Rightarrow> int" where
  "role_rank USER = 0"
| "role_rank MODERATOR = 1"
| "role_rank ADMIN = 2"

definition user_sort :: "read_env \<Rightarrow> string \<Rightarrow> admin_user \<Rightarrow> int" where
  "user_sort env sortBy u =
     (if sortBy = ''username'' then re_collate env (us_username u)
      else if sortBy = ''role'' then role_rank (us_role u)
      else if sortBy = ''status'' then (if us_is_active u then 1 else 0)
      else us_createdAt u)"

definition searchUsers ::
  "read_env \<Rightarrow> string \<Rightarrow> int \<Rightarrow> int \<Rightarrow> string \<Rightarrow> string \<Rightarrow> admin_state \<Rightarrow> admin_user list \<times> nat" where
  "searchUsers env query limit offset sortBy sortOrder st =
     (let safeLimit = min (max limit 1) 100; safeOffset = max offset 0; trimmed = js_trim query;
          rows = filter (\<lambda>u. trimmed = [] \<or> ilike_contains (Some (us_username u)) trimmed \<or> us_emailHash u = trimmed) (ad_users st);
          ordered = (if sortOrder = ''ASC'' then order_asc (user_sort env sortBy) rows else order_desc (user_sort env sortBy) rows) in
      (skip_take (nat safeOffset) (nat safeLimit) ordered, length rows))"

datatype activity = PublishedConfession ident ms string | SubmittedReport ident ms string

fun activity_time :: "activity \<Rightarrow> ms" where
  "activity_time (PublishedConfession _ d _) = d"
| "activity_time (SubmittedReport _ d _) = d"

record user_history =
  uh_user :: admin_user
  uh_isAdmin :: bool
  uh_confessionCount :: nat
  uh_reportsFiled :: nat
  uh_reportsReceived :: nat
  uh_confessions :: "confession list"
  uh_reports :: "(report \<times> confession option) list"
  uh_activityTimeline :: "activity list"
  uh_note :: string

definition activity_of :: "confession list \<Rightarrow> report list \<Rightarrow> activity list" where
  "activity_of confessions reports =
     take 30 (order_desc activity_time
       (map (\<lambda>c. PublishedConfession (co_id c) (co_created_at c) (co_message c)) (take 20 confessions) @
        map (\<lambda>r. SubmittedReport (rp_id r) (rp_createdAt r) (js_or (rp_reason r) (report_type_str (rp_type r)))) (take 20 reports)))"

text \<open>\<open>counted\<close> tells whether the count of received reports succeeded.\<close>

definition getUserHistory ::
  "read_env \<Rightarrow> int \<Rightarrow> anon_link list \<Rightarrow> bool \<Rightarrow> admin_state \<Rightarrow> user_history outcome" where
  "getUserHistory env userId links counted st =
     (case find_one (\<lambda>u. us_id u = userId) (ad_users st) of
        None \<Rightarrow> Inl (NotFoundException ''User not found'')
      | Some user \<Rightarrow>
          (let reports = take 100 (order_desc rp_createdAt (filter (\<lambda>r. rp_reporterId r = Some userId) (ad_reports st)));
               anonIds = remdups (map al_anonymousUserId (take 200 (order_desc al_createdAt (filter (\<lambda>l. al_userId l = userId) links))));
               stored = take 200 (order_desc co_created_at (filter (\<lambda>c. co_anonymousUserId c \<in> set anonIds) (ad_confessions st)));
               confessions = map (decrypted env) stored in
           Inr \<lparr>uh_user = user, uh_isAdmin = (us_role user = ADMIN), uh_confessionCount = length confessions,
                uh_reportsFiled = length reports,
                uh_reportsReceived = (if anonIds \<noteq> [] \<and> counted
                  then length (filter (\<lambda>r. list_ex (\<lambda>c. co_id c = rp_confessionId r \<and> co_anonymousUserId c \<in> set anonIds)
                    (ad_confessions st)) (ad_reports st)) else 0),
                uh_confessions = confessions,
                uh_reports = map (\<lambda>r. (r, sr_confession (joined env st r))) reports,
                uh_activityTimeline = activity_of confessions reports,
                uh_note = (if anonIds \<noteq> [] then ''Confessions derived from user session mappings (user_anonymous_users)''
                  else ''No anonymous session mappings found for this user yet'')\<rparr>))"

section \<open>Anchors and tips\<close>

record anchor_view =
  an_confessionId :: ident
  an_stellarTxHash :: "string option"
  an_stellarHash :: "string option"
  an_isAnchored :: bool
  an_anchoredAt :: "ms option"

definition lookupAnchorAndTip ::
  "string option \<Rightarrow> ident option \<Rightarrow> confession list \<Rightarrow> tip list \<Rightarrow> (anchor_view option \<times> tip list) outcome" where
  "lookupAnchorAndTip txHash confessionId confessions allTips =
     (if \<not> truthy txHash \<and> \<not> truthy confessionId
      then Inl (BadRequestException ''At least one of txHash or confessionId is required'')
      else
        (let byHash = (if truthy txHash then find_one (\<lambda>c. co_stellarTxHash c = txHash) confessions else None);
             byTx = (if truthy txHash then (case find_one (\<lambda>t. Some (tip_txId t) = txHash) allTips of None \<Rightarrow> [] | Some t \<Rightarrow> [t]) else []);
             found = (if byHash = None \<and> truthy confessionId then find_one (\<lambda>c. Some (co_id c) = confessionId) confessions else byHash);
             tips = (if byTx = [] \<and> truthy confessionId
               then order_desc tip_createdAt (filter (\<lambda>t. Some (tip_confessionId t) = confessionId) allTips) else byTx) in
         Inr (map_option (\<lambda>c. \<lparr>an_confessionId = co_id c, an_stellarTxHash = co_stellarTxHash c, an_stellarHash = co_stellarHash c,
                an_isAnchored = co_isAnchored c, an_anchoredAt = co_anchoredAt c\<rparr>) found, tips)))"

section \<open>Figures\<close>

record report_stats =
  rt_pendingCount :: nat
  rt_oldestUnresolvedAge :: "int option"
  rt_resolvedTodayCount :: nat

definition getReportStats :: "ms \<Rightarrow> ms \<Rightarrow> report list \<Rightarrow> report_stats" where
  "getReportStats todayStart now t =
     (let pending = filter (\<lambda>r. rp_status r = RPending) t in
      \<lparr>rt_pendingCount = length pending,
       rt_oldestUnresolvedAge = (case order_asc rp_createdAt pending of [] \<Rightarrow> None | r # _ \<Rightarrow> Some ((now - rp_createdAt r) div 1000)),
       rt_resolvedTodayCount = length (filter (\<lambda>r. rp_status r = RResolved \<and>
         (case rp_resolvedAt r of None \<Rightarrow> False | Some d \<Rightarrow> todayStart \<le> d)) t)\<rparr>)"

definition group_counts :: "'k list \<Rightarrow> ('k \<times> nat) list" where
  "group_counts ks = map (\<lambda>k. (k, count_list ks k)) (remdups ks)"

record admin_analytics =
  aa_totalUsers :: nat
  aa_activeUsers :: nat
  aa_totalConfessions :: nat
  aa_totalReports :: nat
  aa_bannedUsers :: nat
  aa_hiddenConfessions :: nat
  aa_deletedConfessions :: nat
  aa_byStatus :: "(report_status \<times> nat) list"
  aa_byType :: "(report_type \<times> nat) list"
  aa_confessionsOverTime :: "(ms \<times> nat) list"
  aa_start :: ms
  aa_end :: ms

definition getAnalytics :: "(ms \<Rightarrow> ms) \<Rightarrow> ms option \<Rightarrow> ms option \<Rightarrow> ms \<Rightarrow> admin_state \<Rightarrow> admin_analytics" where
  "getAnalytics day startDate endDate now st =
     (let start = nullish startDate (now - 30 * 24 * 60 * 60 * 1000); end' = nullish endDate now;
          reports = filter (\<lambda>r. start \<le> rp_createdAt r \<and> rp_createdAt r \<le> end') (ad_reports st);
          confessions = filter (\<lambda>c. start \<le> co_created_at c \<and> co_created_at c \<le> end') (ad_confessions st) in
      \<lparr>aa_totalUsers = length (ad_users st),
       aa_activeUsers = length (filter (\<lambda>u. start \<le> us_updatedAt u) (ad_users st)),
       aa_totalConfessions = length (ad_confessions st), aa_totalReports = length (ad_reports st),
       aa_bannedUsers = length (filter (\<lambda>u. \<not> us_is_active u) (ad_users st)),
       aa_hiddenConfessions = length (filter co_isHidden (ad_confessions st)),
       aa_deletedConfessions = length (filter co_isDeleted (ad_confessions st)),
       aa_byStatus = group_counts (map rp_status reports), aa_byType = group_counts (map rp_type reports),
       aa_confessionsOverTime = order_asc fst (group_counts (map (\<lambda>c. day (co_created_at c)) confessions)),
       aa_start = start, aa_end = end'\<rparr>)"

section \<open>The reports as a keyset feed\<close>

definition report_fetch ::
  "(report \<Rightarrow> bool) \<Rightarrow> nat \<Rightarrow> (ms \<times> ident) option \<Rightarrow> report list \<Rightarrow> report list \<times> (ms \<times> ident) option" where
  "report_fetch P limit k t =
     (let xs = newest_first report_key (filter (\<lambda>r. case k of None \<Rightarrow> True | Some p \<Rightarrow> report_key r < p) (filter P t))
      in (take limit xs, if limit < length xs then Some (report_key (xs ! (limit - 1))) else None))"

lemma mset_newest_first [simp]: "mset (newest_first key t) = mset t"
  by (simp add: newest_first_def)

lemma length_newest_first [simp]: "length (newest_first key t) = length t"
  by (simp add: newest_first_def)

lemma sorted_newest_first:
  assumes "distinct (map key t)"
  shows "sorted_wrt (\<lambda>a b. key b < key a) (newest_first key t)"
proof -
  have "distinct (map key (sort_key key t))"
    using assms by (metis (no_types, lifting) distinct_map mset_eq_imp_distinct_iff mset_sort set_sort)
  then have "sorted_wrt (<) (map key (sort_key key t))" by (simp add: strict_sorted_iff)
  then show ?thesis by (simp add: newest_first_def sorted_wrt_rev sorted_wrt_map)
qed

interpretation desk: keyset_feed report_key "\<lambda>a b. b < a" "filter P" "Suc n" "\<lambda>k. k" "report_fetch P (Suc n)" for P n
proof unfold_locales
  fix t k
  assume d: "distinct (map report_key (filter P t))"
  let ?after = "\<lambda>r. case k of None \<Rightarrow> True | Some p \<Rightarrow> report_key r < p"
  show "\<exists>xs. mset xs = mset (filter ?after (filter P t)) \<and> sorted_wrt (\<lambda>r q. report_key q < report_key r) xs \<and>
     report_fetch P (Suc n) (map_option (\<lambda>k. k) k) t =
       (take (Suc n) xs, if Suc n < length xs then Some (report_key (xs ! (Suc n - 1))) else None)"
    unfolding report_fetch_def Let_def option.map_ident
    by (intro exI [of _ "newest_first report_key (filter ?after (filter P t))"] conjI sorted_newest_first distinct_map_filter [OF d])
      simp_all
qed auto

lemma cursor_page_rows:
  assumes "0 < limit" "limit < 100"
  shows "cursor_page_of cursor_of limit rows = CursorPaginatedResponseDto (take limit rows)
    (if limit < length rows then Some (cursor_of (rows ! (limit - 1))) else None) (limit < length rows) limit"
proof -
  have take: "cursor_take limit = Suc limit" using assms(2) by (simp add: cursor_take_def MAX_LIMIT_def)
  have "last (take limit rows) = rows ! (limit - 1)" if "limit < length rows"
    using that assms(1) by (subst last_conv_nth) auto
  then show ?thesis using assms(1) by (auto simp: cursor_page_of_def Let_def take butlast_take)
qed

definition good_dates :: "read_env \<Rightarrow> bool" where
  "good_dates env \<longleftrightarrow> (\<forall>d. re_dateParse env (re_iso env d) = Some d)"

lemma report_cursor_position:
  assumes "good_dates env"
  shows "report_position env (map_option (report_cursor env) c) = (case c of None \<Rightarrow> Start | Some r \<Rightarrow> After (report_key r))"
proof (cases c)
  case (Some r)
  let ?obj = "[(''id'', JStr (rp_id r)), (''createdAt'', JStr (re_iso env (rp_createdAt r)))]"
  have "decodeCursor (Some (report_cursor env r)) = Some ?obj" unfolding report_cursor_def by (rule cursor_roundtrip) simp
  with assms Some show ?thesis by (simp add: report_position_def cursor_date_def good_dates_def report_key_def)
qed (simp add: report_position_def decodeCursor_def)

lemma reports_slice:
  assumes "distinct (map rp_id t)" "i \<le> length (filter P t)"
  defines "L \<equiv> newest_first report_key (filter P t)"
  shows "newest_first report_key (filter (\<lambda>r. case map_option report_key (cursor_at (\<lambda>r. r) L i) of None \<Rightarrow> True | Some p \<Rightarrow> report_key r < p)
      (filter P t)) = drop i L" (is "newest_first _ (filter ?after _) = _")
proof -
  have d: "distinct (map report_key (filter P t))"
    using distinct_map_filter [OF assms(1), of P] by (auto simp: distinct_map inj_on_def report_key_def)
  have k: "map_option report_key (cursor_at (\<lambda>r. r) L i) = cursor_at report_key L i" by (simp add: cursor_at_def)
  have "fst (report_fetch P (Suc (length t)) (cursor_at report_key L i) t) = take (Suc (length t)) (drop i L)"
    using desk.page_refines [OF d, where L = L and i = i and n = "length t"] assms(2) sorted_newest_first [OF d] by (simp add: L_def)
  moreover have "length (filter ?after (filter P t)) \<le> Suc (length t)"
    by (meson le_SucI length_filter_le le_trans)
  moreover have "length (drop i L) \<le> Suc (length t)"
    by (simp add: L_def) (meson diff_le_self le_SucI le_trans length_filter_le)
  ultimately show ?thesis unfolding k by (simp add: report_fetch_def Let_def)
qed

text \<open>
  With a limit from 1 to 99 the administrators' list of reports refines one list: the reports that pass the
  filters, newest first, ties by id.  The request that carries the cursor of position \<open>i\<close> of that list, or none for
  its start, returns the \<open>limit\<close> reports from there on and the cursor of the position after them exactly if more
  remain.
\<close>

theorem report_pages_refine:
  assumes "good_dates env" "distinct (map rp_id (ad_reports st))" "0 < limit" "limit < 100"
    and "L = newest_first report_key (filter (report_filter status ty startDate endDate) (ad_reports st))" "i \<le> length L"
  shows "getReportsCursor env status ty startDate endDate limit (cursor_at (report_cursor env) L i) st =
    Inr (CursorPaginatedResponseDto (map (joined env st) (take limit (drop i L)))
      (if i + limit < length L then cursor_at (report_cursor env) L (i + limit) else None) (i + limit < length L) limit)"
proof -
  let ?P = "report_filter status ty startDate endDate"
  have c: "cursor_at (report_cursor env) L i = map_option (report_cursor env) (cursor_at (\<lambda>r. r) L i)" by (simp add: cursor_at_def)
  let ?p = "report_position env (cursor_at (report_cursor env) L i)"
  have p: "?p = (case cursor_at (\<lambda>r. r) L i of None \<Rightarrow> Start | Some r \<Rightarrow> After (report_key r))"
    unfolding c by (rule report_cursor_position [OF assms(1)])
  have filters: "filter (\<lambda>r. after_position ?p (report_key r) \<and> ?P r) (ad_reports st) =
      filter (\<lambda>r. case map_option report_key (cursor_at (\<lambda>r. r) L i) of None \<Rightarrow> True | Some p \<Rightarrow> report_key r < p) (filter ?P (ad_reports st))"
    unfolding p by (cases "cursor_at (\<lambda>r. r) L i") (simp_all add: after_position_def conj_commute)
  have slice: "newest_first report_key (filter (\<lambda>r. after_position ?p (report_key r) \<and> ?P r) (ad_reports st)) = drop i L"
    unfolding filters using reports_slice [OF assms(2), of i ?P] assms(5,6) by simp
  have "?p \<noteq> Senseless" unfolding p by (simp split: option.split)
  moreover have "limit < length (drop i L) \<longleftrightarrow> i + limit < length L" using assms(6) by auto
  moreover have "Some (report_cursor env (drop i L ! (limit - 1))) = cursor_at (report_cursor env) L (i + limit)"
    if "i + limit < length L" using that assms(3) by (simp add: cursor_at_def)
  ultimately show ?thesis
    unfolding getReportsCursor_def Let_def slice cursor_page_rows [OF assms(3,4)]
    by (simp add: map_page_def CursorPaginatedResponseDto_def)
qed

definition desk_env :: read_env where
  "desk_env = \<lparr>re_unseal = (\<lambda>k iv c. None), re_aesKey = [], re_iso = ms_text, re_dateParse = ms_parse, re_collate = (\<lambda>s. 0)\<rparr>"

theorem report_pages_refine_witness:
  "(case getReportsCursor desk_env None None None None 1 None office of
      Inr p \<Rightarrow> map (\<lambda>s. rp_id (sr_report s)) (cp_data p) = [''r1''] \<and> \<not> cp_hasMore p | Inl _ \<Rightarrow> False)"
proof -
  have dates: "good_dates desk_env" by (simp add: good_dates_def desk_env_def ms_parse_text)
  have rows: "distinct (map rp_id (ad_reports office))"
    "newest_first report_key (filter (report_filter None None None None) (ad_reports office)) = [open_report]"
    by (simp_all add: office_def report_filter_def newest_first_def)
  show ?thesis
    using report_pages_refine [OF dates rows(1), of 1 _ None None None None 0, OF _ _ rows(2) [symmetric]]
    by (simp add: cursor_at_def CursorPaginatedResponseDto_def joined_def open_report_def new_report_def)
qed

section \<open>At the maximum\<close>

text \<open>
  A limit of 100 asks the database for 100 rows instead of 101, so there never seem to be more: the page has no
  cursor and the rest of the reports, or of the users, cannot be reached.
\<close>

lemma full_page_ends:
  assumes "100 \<le> limit"
  shows "\<not> cp_hasMore (cursor_page_of cursor_of limit rows) \<and> cp_nextCursor (cursor_page_of cursor_of limit rows) = None \<and>
    cp_data (cursor_page_of cursor_of limit rows) = take 100 rows"
  using assms by (simp add: cursor_page_of_def cursor_take_def MAX_LIMIT_def CursorPaginatedResponseDto_def Let_def min_def)

end
