(* ===== verification/Output_Escape.thy ===== *)
theory Output_Escape
  imports Codec
begin

text \<open>
  How text leaves the system (\<^verbatim>\<open>utils/output-escape.ts\<close>): HTML for the mails, CSV for the exports.

  A value handed to the CSV writer is \<open>undefined\<close>, a \<open>Date\<close> or what JSON can say; dates are printed by an
  argument, \<open>toISOString\<close>.  A row is the list of its members, in the order in which \<open>Object.keys\<close> gives
  them (the keys of the exports are names, never array indices).
  Shown: a reader of HTML gets back the text that was escaped, and no markup is left in it; a reader
  of RFC 4180 gets back every cell in its own row and column; and no text cell it reads starts a
  formula.
\<close>

section \<open>HTML\<close>

definition SQ :: char where "SQ = CHR 0x27"

definition html_escape_char :: "char \<Rightarrow> string" where
  "html_escape_char c =
     (if c = CHR ''&'' then ''&amp;'' else if c = CHR ''<'' then ''&lt;'' else if c = CHR ''>'' then ''&gt;''
      else if c = DQ then ''&quot;'' else if c = SQ then ''&#39;'' else [c])"

text \<open>\<open>None\<close> is \<open>null\<close> or \<open>undefined\<close>.\<close>

definition escapeHtml :: "string option \<Rightarrow> string" where
  "escapeHtml v = concat (map html_escape_char (nullish v []))"

text \<open>How a browser reads the five references.\<close>

fun html_read :: "string \<Rightarrow> string" where
  "html_read [] = []"
| "html_read (c # s) =
     (if starts_with (c # s) ''&amp;'' then CHR ''&'' # html_read (drop 4 s)
      else if starts_with (c # s) ''&lt;'' then CHR ''<'' # html_read (drop 3 s)
      else if starts_with (c # s) ''&gt;'' then CHR ''>'' # html_read (drop 3 s)
      else if starts_with (c # s) ''&quot;'' then DQ # html_read (drop 5 s)
      else if starts_with (c # s) ''&#39;'' then SQ # html_read (drop 4 s)
      else c # html_read s)"

section \<open>CSV\<close>

datatype jsv = Undefined | Date_at ms | Plain json

type_synonym jsrow = "(string \<times> jsv) list"

definition formula_trigger :: "string \<Rightarrow> bool" where
  "formula_trigger s = (case s of [] \<Rightarrow> False | c # _ \<Rightarrow> c \<in> {CHR ''='', CHR ''+'', CHR ''-'', CHR ''@'', CHR 0x09, CHR 0x0D})"

text \<open>The text of a value before it is quoted: \<open>toISOString\<close>, \<open>JSON.stringify\<close> or \<open>String\<close>.\<close>

definition cell_text :: "(ms \<Rightarrow> string) \<Rightarrow> jsv \<Rightarrow> string" where
  "cell_text toISO v =
     (case v of
        Undefined \<Rightarrow> []
      | Date_at t \<Rightarrow> toISO t
      | Plain j \<Rightarrow> (case j of JNull \<Rightarrow> [] | JStr s \<Rightarrow> s | _ \<Rightarrow> json_text j))"

definition is_text :: "jsv \<Rightarrow> bool" where
  "is_text v = (case v of Plain (JStr _) \<Rightarrow> True | _ \<Rightarrow> False)"

definition guarded_text :: "(ms \<Rightarrow> string) \<Rightarrow> jsv \<Rightarrow> string" where
  "guarded_text toISO v =
     (let text = cell_text toISO v in if is_text v \<and> formula_trigger text then SQ # text else text)"

definition double_quotes :: "string \<Rightarrow> string" where
  "double_quotes s = concat (map (\<lambda>c. if c = DQ then [DQ, DQ] else [c]) s)"

definition needs_quotes :: "string \<Rightarrow> bool" where
  "needs_quotes s = list_ex (\<lambda>c. c \<in> {DQ, CHR '','', CHR 0x0D, CHR 0x0A}) s"

definition quote_cell :: "string \<Rightarrow> string" where
  "quote_cell g = (let escaped = double_quotes g in if needs_quotes escaped then DQ # escaped @ [DQ] else escaped)"

definition escapeCsvCell :: "(ms \<Rightarrow> string) \<Rightarrow> jsv \<Rightarrow> string" where
  "escapeCsvCell toISO v = (if v = Undefined \<or> v = Plain JNull then [] else quote_cell (guarded_text toISO v))"

definition js_index :: "jsrow \<Rightarrow> string \<Rightarrow> jsv" where
  "js_index row k = (case map_of row k of None \<Rightarrow> Undefined | Some v \<Rightarrow> v)"

fun join_lines :: "string list \<Rightarrow> string" where
  "join_lines [] = []"
| "join_lines [x] = x"
| "join_lines (x # y # zs) = x @ [CHR 0x0A] @ join_lines (y # zs)"

definition csv_line :: "(ms \<Rightarrow> string) \<Rightarrow> jsv list \<Rightarrow> string" where
  "csv_line toISO vs = join_comma (map (escapeCsvCell toISO) vs)"

definition toCsv :: "(ms \<Rightarrow> string) \<Rightarrow> jsrow list \<Rightarrow> string" where
  "toCsv toISO rows =
     (case rows of
        [] \<Rightarrow> []
      | first # _ \<Rightarrow>
          (let headers = map fst first in
           csv_line toISO (map (\<lambda>h. Plain (JStr h)) headers) @ [CHR 0x0A] @
           join_lines (map (\<lambda>row. csv_line toISO (map (js_index row) headers)) rows)))"

section \<open>Reading HTML back\<close>

lemma html_read_char: "html_read (html_escape_char c @ s) = c # html_read s"
  by (simp add: html_escape_char_def DQ_def SQ_def)

text \<open>Escaping loses nothing and leaves no markup: a reader of HTML gets the text back, and
  the escaped text holds none of the characters that open a tag or close an attribute.\<close>

theorem escapeHtml_faithful:
  "html_read (escapeHtml v) = nullish v [] \<and> set (escapeHtml v) \<inter> {CHR ''<'', CHR ''>'', DQ, SQ} = {}"
proof
  have "html_read (concat (map html_escape_char s)) = s" for s
    by (induction s) (simp_all add: html_read_char)
  then show "html_read (escapeHtml v) = nullish v []" by (simp add: escapeHtml_def)
  have "set (html_escape_char c) \<inter> {CHR ''<'', CHR ''>'', DQ, SQ} = {}" for c
    by (auto simp: html_escape_char_def DQ_def SQ_def)
  then show "set (escapeHtml v) \<inter> {CHR ''<'', CHR ''>'', DQ, SQ} = {}"
    unfolding escapeHtml_def by fastforce
qed

section \<open>Reading CSV back\<close>

text \<open>A reader of RFC 4180: commas part cells, line feeds part records, and between quotes both are
  text.  The first argument tells whether a quote is open.\<close>

definition put_in_cell :: "string \<Rightarrow> string list list \<Rightarrow> string list list" where
  "put_in_cell p t = (case t of (cell # row) # rows \<Rightarrow> ((p @ cell) # row) # rows | _ \<Rightarrow> t)"

definition next_cell :: "string list list \<Rightarrow> string list list" where
  "next_cell t = (case t of row # rows \<Rightarrow> ([] # row) # rows | [] \<Rightarrow> [])"

fun csv_read :: "bool \<Rightarrow> string \<Rightarrow> string list list" where
  "csv_read _ [] = [[[]]]"
| "csv_read False (c # s) =
     (if c = CHR '','' then next_cell (csv_read False s)
      else if c = CHR 0x0A then [[]] # csv_read False s
      else if c = DQ then csv_read True s
      else put_in_cell [c] (csv_read False s))"
| "csv_read True (c # s) =
     (if c = DQ then
        (case s of [] \<Rightarrow> csv_read False [] | d # r \<Rightarrow> if d = DQ then put_in_cell [DQ] (csv_read True r) else csv_read False s)
      else put_in_cell [c] (csv_read True s))"

definition tabular :: "string list list \<Rightarrow> bool" where
  "tabular t = (case t of (_ # _) # _ \<Rightarrow> True | _ \<Rightarrow> False)"

lemma tabular_put [simp]: "tabular (put_in_cell p t) = tabular t"
  by (auto simp: tabular_def put_in_cell_def split: list.splits)

lemma tabular_next [simp]: "tabular t \<Longrightarrow> tabular (next_cell t)"
  by (auto simp: tabular_def next_cell_def split: list.splits)

lemma csv_read_tabular: "tabular (csv_read q s)"
proof (induction q s rule: csv_read.induct)
  case (1 q) then show ?case by (simp add: tabular_def)
next
  case (2 c s) then show ?case by (auto simp: tabular_def [of "[[]] # _"])
next
  case (3 c s) then show ?case by (cases s) (auto simp: tabular_def [of "[[[]]]"])
qed

lemma put_put [simp]: "put_in_cell a (put_in_cell b t) = put_in_cell (a @ b) t"
  by (auto simp: put_in_cell_def split: list.splits)

lemma put_nil [simp]: "put_in_cell [] t = t"
  by (auto simp: put_in_cell_def split: list.splits)

lemma read_plain:
  assumes "\<not> needs_quotes p"
  shows "csv_read False (p @ rest) = put_in_cell p (csv_read False rest)"
  using assms by (induction p) (auto simp: needs_quotes_def)

definition cell_end :: "string \<Rightarrow> bool" where
  "cell_end rest \<longleftrightarrow> rest = [] \<or> hd rest = CHR '','' \<or> hd rest = CHR 0x0A"

lemma read_quoted:
  assumes "cell_end rest"
  shows "csv_read True (double_quotes s @ DQ # rest) = put_in_cell s (csv_read False rest)"
proof (induction s)
  case Nil
  from assms show ?case by (cases rest) (auto simp: double_quotes_def cell_end_def DQ_def)
next
  case (Cons c s)
  then show ?case by (simp add: double_quotes_def)
qed

lemma double_quotes_plain: "\<not> needs_quotes (double_quotes s) \<Longrightarrow> double_quotes s = s"
  by (induction s) (auto simp: double_quotes_def needs_quotes_def split: if_splits)

lemma read_cell:
  assumes "cell_end rest"
  shows "csv_read False (escapeCsvCell toISO v @ rest) = put_in_cell (guarded_text toISO v) (csv_read False rest)"
proof (cases "v = Undefined \<or> v = Plain JNull")
  case True
  then have "guarded_text toISO v = []" by (auto simp: guarded_text_def cell_text_def is_text_def)
  with True show ?thesis by (auto simp: escapeCsvCell_def)
next
  case False
  show ?thesis
  proof (cases "needs_quotes (double_quotes (guarded_text toISO v))")
    case True
    with False assms show ?thesis by (simp add: escapeCsvCell_def quote_cell_def read_quoted) (simp add: DQ_def)
  next
    case plain: False
    with double_quotes_plain [OF plain] False show ?thesis
      by (simp add: escapeCsvCell_def quote_cell_def read_plain)
  qed
qed

text \<open>One record: its cells, then nothing or the next record.\<close>

lemma csv_line_Cons: "csv_line toISO (v # w # vs) = escapeCsvCell toISO v @ CHR '','' # csv_line toISO (w # vs)"
  by (simp add: csv_line_def)

lemma read_line:
  assumes "vs \<noteq> []"
  shows "csv_read False (csv_line toISO vs) = [map (guarded_text toISO) vs]"
    and "csv_read False (csv_line toISO vs @ CHR 0x0A # rest) = map (guarded_text toISO) vs # csv_read False rest"
proof -
  have "csv_read False (csv_line toISO vs) = [map (guarded_text toISO) vs] \<and>
        csv_read False (csv_line toISO vs @ CHR 0x0A # rest) = map (guarded_text toISO) vs # csv_read False rest"
    using assms
  proof (induction vs rule: induct_list012)
    case (2 v)
    then show ?case
      using read_cell [of "[]" toISO v] read_cell [of "CHR 0x0A # rest" toISO v]
      by (simp add: cell_end_def csv_line_def put_in_cell_def DQ_def)
  next
    case (3 v w vs)
    then show ?case
      by (simp add: csv_line_Cons read_cell cell_end_def next_cell_def put_in_cell_def)
  qed simp
  then show "csv_read False (csv_line toISO vs) = [map (guarded_text toISO) vs]"
    and "csv_read False (csv_line toISO vs @ CHR 0x0A # rest) = map (guarded_text toISO) vs # csv_read False rest"
    by simp_all
qed

lemma read_lines:
  assumes "ls \<noteq> []" "\<forall>vs \<in> set ls. vs \<noteq> []"
  shows "csv_read False (join_lines (map (csv_line toISO) ls)) = map (map (guarded_text toISO)) ls"
  using assms by (induction ls rule: induct_list012) (simp_all add: read_line)

lemma toCsv_lines:
  "toCsv toISO (first # rows) =
     join_lines (map (csv_line toISO)
       (map (\<lambda>k. Plain (JStr k)) (map fst first) # map (\<lambda>row. map (js_index row) (map fst first)) (first # rows)))"
  by (simp add: toCsv_def o_def)

lemma guarded_no_formula: "is_text v \<Longrightarrow> \<not> formula_trigger (guarded_text toISO v)"
  by (auto simp: guarded_text_def Let_def formula_trigger_def SQ_def)

text \<open>C40: what is written as CSV is read as the table that was meant: the names of the columns, then
  for every row the values of those columns, each in its place, whatever quotes, commas and line
  breaks they hold; and no text cell starts a formula.\<close>

theorem toCsv_faithful:
  assumes "rows \<noteq> []" "hd rows \<noteq> []"
  shows "csv_read False (toCsv toISO rows) =
           map (\<lambda>k. guarded_text toISO (Plain (JStr k))) (map fst (hd rows)) #
           map (\<lambda>row. map (\<lambda>k. guarded_text toISO (js_index row k)) (map fst (hd rows))) rows \<and>
         (\<forall>s. \<not> formula_trigger (guarded_text toISO (Plain (JStr s))))"
proof
  obtain first rest where "rows = first # rest" using assms(1) by (cases rows) auto
  with assms(2) show "csv_read False (toCsv toISO rows) =
           map (\<lambda>k. guarded_text toISO (Plain (JStr k))) (map fst (hd rows)) #
           map (\<lambda>row. map (\<lambda>k. guarded_text toISO (js_index row k)) (map fst (hd rows))) rows"
    by (simp add: toCsv_lines read_lines o_def del: list.map(2) join_lines.simps) simp
  show "\<forall>s. \<not> formula_trigger (guarded_text toISO (Plain (JStr s)))"
    by (simp add: guarded_no_formula is_text_def)
qed

theorem toCsv_faithful_witness:
  "csv_read False (toCsv int_str [[(''id'', Plain (JInt 1)), (''message'', Plain (JStr ''=A1,2''))], [(''message'', Date_at 7)]]) =
     [[''id'', ''message''], [''1'', SQ # ''=A1,2''], [[], ''7'']]"
proof -
  have "guarded_text int_str (Plain (JStr ''=A1,2'')) = SQ # ''=A1,2''" "guarded_text int_str (Plain (JInt 1)) = ''1''"
    "guarded_text int_str (Date_at 7) = ''7''" "guarded_text int_str Undefined = []"
    "guarded_text int_str (Plain (JStr ''id'')) = ''id''" "guarded_text int_str (Plain (JStr ''message'')) = ''message''"
    by code_simp+
  then show ?thesis
    using toCsv_faithful [of "[[(''id'', Plain (JInt 1)), (''message'', Plain (JStr ''=A1,2''))], [(''message'', Date_at 7)]]" int_str]
    by (simp add: js_index_def)
qed

end
