(* ===== verification/Export_Redaction.thy ===== *)
theory Export_Redaction
  imports Output_Escape Access Messages Comments Moderation
begin

text \<open>
  What a data export holds: \<open>compileUserData\<close> of \<^verbatim>\<open>data-export/data-export.service.ts\<close>, its five queries
  and the redaction of every kind of row.

  An exported row is the list of its members.  A relation that the query did not load is \<open>undefined\<close>,
  and so is every member read through it.  The decimal columns come back as the text the database
  prints, which is an argument.
  Shown: the export is the same for any two databases that differ only in what must not leave them,
  and nothing is dropped from it.
\<close>

section \<open>The database\<close>

record export_env =
  xv_iso :: "ms \<Rightarrow> string"
  xv_score :: "rat \<Rightarrow> string"
  xv_amount :: "jsnum \<Rightarrow> string"

record export_db =
  xd_users :: "login_user list"
  xd_links :: "anon_link list"
  xd_confessions :: "confession list"
  xd_comments :: "comment list"
  xd_messages :: "message list"
  xd_tips :: "tip list"
  xd_reports :: "report list"
  xd_logs :: "moderation_log list"

text \<open>\<open>leftJoinAndSelect(anonymousUser.userLinks)\<close> with \<open>userLinks.userId = :userId\<close>.\<close>

definition linked_to :: "string \<Rightarrow> export_db \<Rightarrow> ident \<Rightarrow> bool" where
  "linked_to userId db anonId \<longleftrightarrow> list_ex (\<lambda>l. al_anonymousUserId l = anonId \<and> int_str (al_userId l) = userId) (xd_links db)"

definition export_confessions :: "string \<Rightarrow> export_db \<Rightarrow> confession list" where
  "export_confessions userId db = filter (\<lambda>c. linked_to userId db (co_anonymousUserId c)) (xd_confessions db)"

definition export_comments :: "string \<Rightarrow> export_db \<Rightarrow> comment list" where
  "export_comments userId db = filter (\<lambda>c. linked_to userId db (cm_anonymousUserId c)) (xd_comments db)"

definition export_messages :: "string \<Rightarrow> export_db \<Rightarrow> message list" where
  "export_messages userId db = filter (\<lambda>m. linked_to userId db (msg_senderId m)) (xd_messages db)"

definition export_tips :: "string \<Rightarrow> export_db \<Rightarrow> tip list" where
  "export_tips userId db =
     filter (\<lambda>t. case find_one (\<lambda>c. co_id c = tip_confessionId t) (xd_confessions db) of
                   None \<Rightarrow> False | Some c \<Rightarrow> linked_to userId db (co_anonymousUserId c)) (xd_tips db)"

definition export_reports :: "string \<Rightarrow> export_db \<Rightarrow> report list" where
  "export_reports userId db =
     filter (\<lambda>r. (case rp_reporterId r of None \<Rightarrow> False | Some i \<Rightarrow> int_str i = userId) \<or>
                 (case rp_anonymousReporterId r of None \<Rightarrow> False | Some a \<Rightarrow> linked_to userId db a)) (xd_reports db)"

definition export_logs :: "string \<Rightarrow> export_db \<Rightarrow> moderation_log list" where
  "export_logs userId db = filter (\<lambda>l. ml_userId l = Some userId) (xd_logs db)"

section \<open>Redaction\<close>

definition js_str :: "string \<Rightarrow> jsv" where "js_str s = Plain (JStr s)"
definition js_bool :: "bool \<Rightarrow> jsv" where "js_bool b = Plain (JBool b)"

definition js_nullable :: "('a \<Rightarrow> jsv) \<Rightarrow> 'a option \<Rightarrow> jsv" where
  "js_nullable f v = (case v of None \<Rightarrow> Plain JNull | Some x \<Rightarrow> f x)"

definition js_flags :: "string list \<Rightarrow> json" where
  "js_flags fs = JArr (map JStr fs)"

definition confession_deleted :: "confession \<Rightarrow> bool" where
  "confession_deleted c \<longleftrightarrow> co_isDeleted c \<or> co_deletedAt c \<noteq> None"

definition confession_moderated :: "confession \<Rightarrow> bool" where
  "confession_moderated c \<longleftrightarrow> co_isHidden c \<or> co_moderationStatus c = MRejected"

definition redactConfessionForExport :: "export_env \<Rightarrow> bool \<Rightarrow> confession \<Rightarrow> jsrow" where
  "redactConfessionForExport env active c =
     (if confession_deleted c then
        [(''id'', js_str (co_id c)), (''message'', js_str ''[REDACTED: Content was deleted]''),
         (''_redacted'', js_bool True), (''_reason'', js_str ''deleted''),
         (''deletedAt'', js_nullable Date_at (co_deletedAt c)), (''created_at'', Date_at (co_created_at c)),
         (''metadata'', Plain (JObj [(''wasAnchored'', JBool (co_isAnchored c)), (''hadReactions'', JBool True)]))]
      else if confession_moderated c then
        [(''id'', js_str (co_id c)), (''message'', js_str ''[REDACTED: Content was removed by moderation]''),
         (''_redacted'', js_bool True), (''_reason'', js_str ''moderated''),
         (''moderationStatus'', js_str (status_text (co_moderationStatus c))), (''created_at'', Date_at (co_created_at c)),
         (''metadata'', Plain (JObj [(''moderationScore'', JStr (xv_score env (co_moderationScore c))),
                                     (''moderationFlags'', js_flags (co_moderationFlags c))]))]
      else if \<not> active then
        [(''id'', js_str (co_id c)), (''message'', js_str ''[REDACTED: User account deactivated]''),
         (''_redacted'', js_bool True), (''_reason'', js_str ''user_deactivated''), (''created_at'', Date_at (co_created_at c)),
         (''metadata'', Plain (JObj [(''originalLength'', JInt (int (length (co_message c))))]))]
      else
        [(''id'', js_str (co_id c)), (''message'', js_str (co_message c)), (''gender'', js_nullable js_str (co_gender c)),
         (''created_at'', Date_at (co_created_at c)), (''view_count'', Plain (JInt (int (co_view_count c)))),
         (''isAnchored'', js_bool (co_isAnchored c)), (''stellarTxHash'', js_nullable js_str (co_stellarTxHash c)),
         (''_redacted'', js_bool False)])"

definition redactCommentForExport :: "bool \<Rightarrow> comment \<Rightarrow> jsrow" where
  "redactCommentForExport active c =
     (if cm_isDeleted c then
        [(''id'', Plain (JInt (cm_id c))), (''content'', js_str ''[REDACTED: Comment was deleted]''), (''_redacted'', js_bool True),
         (''_reason'', js_str ''deleted''), (''createdAt'', Date_at (cm_createdAt c)), (''confessionId'', Undefined)]
      else if \<not> active then
        [(''id'', Plain (JInt (cm_id c))), (''content'', js_str ''[REDACTED: User account deactivated]''), (''_redacted'', js_bool True),
         (''_reason'', js_str ''user_deactivated''), (''createdAt'', Date_at (cm_createdAt c)), (''confessionId'', Undefined)]
      else
        [(''id'', Plain (JInt (cm_id c))), (''content'', js_str (cm_content c)), (''createdAt'', Date_at (cm_createdAt c)),
         (''confessionId'', Undefined), (''parentId'', js_nullable (\<lambda>i. Plain (JInt i)) (cm_parentId c)), (''_redacted'', js_bool False)])"

definition redactMessageForExport :: "bool \<Rightarrow> message \<Rightarrow> jsrow" where
  "redactMessageForExport active m =
     (if \<not> active then
        [(''id'', Plain (JInt (msg_id m))), (''content'', js_str ''[REDACTED: User account deactivated]''),
         (''replyContent'', if truthy (msg_replyContent m) then js_str ''[REDACTED: User account deactivated]'' else Plain JNull),
         (''_redacted'', js_bool True), (''_reason'', js_str ''user_deactivated''), (''createdAt'', Date_at (msg_createdAt m)),
         (''confessionId'', Undefined)]
      else
        [(''id'', Plain (JInt (msg_id m))), (''content'', js_str (msg_content m)), (''replyContent'', js_nullable js_str (msg_replyContent m)),
         (''createdAt'', Date_at (msg_createdAt m)), (''repliedAt'', js_nullable Date_at (msg_repliedAt m)), (''confessionId'', Undefined),
         (''_redacted'', js_bool False)])"

fun tip_status_text :: "tip_status \<Rightarrow> string" where
  "tip_status_text PENDING = ''pending''"
| "tip_status_text STALE_PENDING = ''stale_pending''"
| "tip_status_text VERIFIED = ''verified''"
| "tip_status_text REJECTED = ''rejected''"
| "tip_status_text CONFLICT = ''conflict''"

definition redactTipForExport :: "export_env \<Rightarrow> tip \<Rightarrow> jsrow" where
  "redactTipForExport env t =
     [(''id'', js_str (tip_id t)), (''amount'', js_str (xv_amount env (tip_amount t))),
      (''verificationStatus'', js_str (tip_status_text (tip_verificationStatus t))), (''confessionId'', js_str (tip_confessionId t)),
      (''createdAt'', Date_at (tip_createdAt t)), (''senderAddress'', js_str ''[REDACTED]''), (''_redacted'', js_bool True),
      (''_reason'', js_str ''counterpart_privacy'')]"

fun report_type_text :: "report_type \<Rightarrow> string" where
  "report_type_text SPAM = ''spam''"
| "report_type_text HARASSMENT = ''harassment''"
| "report_type_text HATE_SPEECH = ''hate_speech''"
| "report_type_text INAPPROPRIATE_CONTENT = ''inappropriate_content''"
| "report_type_text COPYRIGHT = ''copyright''"
| "report_type_text OTHER = ''other''"

fun report_status_text :: "report_status \<Rightarrow> string" where
  "report_status_text RPending = ''pending''"
| "report_status_text RReviewing = ''reviewing''"
| "report_status_text RResolved = ''resolved''"
| "report_status_text RDismissed = ''dismissed''"

definition redactReportForExport :: "report \<Rightarrow> jsrow" where
  "redactReportForExport r =
     [(''id'', js_str (rp_id r)), (''confessionId'', js_str (rp_confessionId r)), (''type'', js_str (report_type_text (rp_type r))),
      (''reason'', js_nullable js_str (rp_reason r)), (''status'', js_str (report_status_text (rp_status r))),
      (''createdAt'', Date_at (rp_createdAt r)), (''resolvedAt'', js_nullable Date_at (rp_resolvedAt r)),
      (''resolutionNotes'', js_nullable js_str (rp_resolutionNotes r)), (''resolver'', js_str ''[REDACTED]''),
      (''resolvedBy'', Plain JNull), (''_redacted'', js_bool True), (''_reason'', js_str ''counterpart_privacy'')]"

definition redactModerationLogForExport :: "export_env \<Rightarrow> moderation_log \<Rightarrow> jsrow" where
  "redactModerationLogForExport env l =
     [(''id'', js_str (ml_id l)), (''confessionId'', js_nullable js_str (ml_confessionId l)),
      (''moderationScore'', js_str (xv_score env (ml_moderationScore l))), (''moderationFlags'', Plain (js_flags (ml_moderationFlags l))),
      (''moderationStatus'', js_str (status_text (ml_moderationStatus l))), (''createdAt'', Date_at (ml_createdAt l)),
      (''reviewedAt'', js_nullable Date_at (ml_reviewedAt l)), (''reviewNotes'', js_nullable js_str (ml_reviewNotes l)),
      (''reviewedBy'', js_str ''[REDACTED]''), (''_redacted'', js_bool True), (''_reason'', js_str ''counterpart_privacy'')]"

section \<open>The whole export\<close>

record export_data =
  ed_userId :: string
  ed_exportedAt :: string
  ed_userStatus :: string
  ed_confessions :: "jsrow list"
  ed_comments :: "jsrow list"
  ed_messages :: "jsrow list"
  ed_tips :: "jsrow list"
  ed_reports :: "jsrow list"
  ed_moderationLogs :: "jsrow list"
  ed_deactivatedUserContentMasked :: bool

definition compileUserData :: "export_env \<Rightarrow> string \<Rightarrow> ms \<Rightarrow> export_db \<Rightarrow> export_data outcome" where
  "compileUserData env userId now db =
     (case find_one (\<lambda>u. int_str (lu_id u) = userId) (xd_users db) of
        None \<Rightarrow> Inl (NotFoundException ''User not found'')
      | Some user \<Rightarrow>
          (let active = lu_isActive user in
           Inr \<lparr>ed_userId = userId, ed_exportedAt = xv_iso env now,
                ed_userStatus = (if active then ''active'' else ''deactivated''),
                ed_confessions = map (redactConfessionForExport env active) (export_confessions userId db),
                ed_comments = map (redactCommentForExport active) (export_comments userId db),
                ed_messages = map (redactMessageForExport active) (export_messages userId db),
                ed_tips = map (redactTipForExport env) (export_tips userId db),
                ed_reports = map redactReportForExport (export_reports userId db),
                ed_moderationLogs = map (redactModerationLogForExport env) (export_logs userId db),
                ed_deactivatedUserContentMasked = (\<not> active)\<rparr>))"

text \<open>\<open>JSON.stringify\<close> leaves out members that are \<open>undefined\<close> and prints dates as text.\<close>

definition jsv_json :: "export_env \<Rightarrow> jsv \<Rightarrow> json option" where
  "jsv_json env v = (case v of Undefined \<Rightarrow> None | Date_at t \<Rightarrow> Some (JStr (xv_iso env t)) | Plain j \<Rightarrow> Some j)"

definition row_json :: "export_env \<Rightarrow> jsrow \<Rightarrow> json" where
  "row_json env r = JObj (List.map_filter (\<lambda>(k, v). map_option (Pair k) (jsv_json env v)) r)"

definition export_json :: "export_env \<Rightarrow> export_data \<Rightarrow> json" where
  "export_json env d =
     (let rows = (\<lambda>rs. JArr (map (row_json env) rs)) in
      JObj [(''userId'', JStr (ed_userId d)), (''exportedAt'', JStr (ed_exportedAt d)), (''userStatus'', JStr (ed_userStatus d)),
            (''confessions'', rows (ed_confessions d)), (''comments'', rows (ed_comments d)), (''messages'', rows (ed_messages d)),
            (''tips'', rows (ed_tips d)), (''reports'', rows (ed_reports d)), (''moderationLogs'', rows (ed_moderationLogs d)),
            (''reactions'', JArr []),
            (''_redactionPolicy'', JObj [(''description'', JStr ''Content redacted according to deletion and moderation policies''),
               (''deletedContentMasked'', JBool True), (''moderatedContentMasked'', JBool True),
               (''deactivatedUserContentMasked'', JBool (ed_deactivatedUserContentMasked d))])])"

section \<open>What does not leave the database\<close>

text \<open>A database in which everything private was overwritten: the content of deleted comments and
  of deleted or removed confessions, all content of a deactivated account (of a confession its
  length stays, of a reply that there is one), who sent a tip and in which transaction, who decided
  a report, who reviewed a log, and the text that was classified.\<close>

definition forget_confession :: "bool \<Rightarrow> confession \<Rightarrow> confession" where
  "forget_confession active c =
     (if confession_deleted c \<or> confession_moderated c
      then c\<lparr>co_message := [], co_gender := None, co_view_count := 0, co_stellarTxHash := None, co_stellarHash := None\<rparr>
      else if \<not> active
      then c\<lparr>co_message := replicate (length (co_message c)) (CHR ''x''), co_gender := None, co_view_count := 0,
             co_stellarTxHash := None, co_stellarHash := None\<rparr>
      else c)"

definition forget_comment :: "bool \<Rightarrow> comment \<Rightarrow> comment" where
  "forget_comment active c = (if cm_isDeleted c \<or> \<not> active then c\<lparr>cm_content := [], cm_parentId := None\<rparr> else c)"

definition forget_message :: "bool \<Rightarrow> message \<Rightarrow> message" where
  "forget_message active m =
     (if active then m
      else m\<lparr>msg_content := [], msg_replyContent := (if truthy (msg_replyContent m) then Some ''x'' else None), msg_repliedAt := None\<rparr>)"

definition forget_tip :: "tip \<Rightarrow> tip" where
  "forget_tip t = t\<lparr>tip_senderAddress := None, tip_txId := [], tip_idempotencyKey := None\<rparr>"

definition forget_report :: "report \<Rightarrow> report" where
  "forget_report r = r\<lparr>rp_resolvedBy := None, rp_templateId := None\<rparr>"

definition forget_log :: "moderation_log \<Rightarrow> moderation_log" where
  "forget_log l = l\<lparr>ml_reviewedBy := None, ml_content := [], ml_details := []\<rparr>"

definition forget_db :: "bool \<Rightarrow> export_db \<Rightarrow> export_db" where
  "forget_db active db =
     db\<lparr>xd_confessions := map (forget_confession active) (xd_confessions db), xd_comments := map (forget_comment active) (xd_comments db),
        xd_messages := map (forget_message active) (xd_messages db), xd_tips := map forget_tip (xd_tips db),
        xd_reports := map forget_report (xd_reports db), xd_logs := map forget_log (xd_logs db)\<rparr>"

lemma forget_confession_same [simp]:
  "co_id (forget_confession a c) = co_id c" "co_anonymousUserId (forget_confession a c) = co_anonymousUserId c"
  "redactConfessionForExport env a (forget_confession a c) = redactConfessionForExport env a c"
  by (auto simp: forget_confession_def redactConfessionForExport_def confession_deleted_def confession_moderated_def)

lemma forget_comment_same [simp]:
  "cm_anonymousUserId (forget_comment a c) = cm_anonymousUserId c"
  "redactCommentForExport a (forget_comment a c) = redactCommentForExport a c"
  by (auto simp: forget_comment_def redactCommentForExport_def)

lemma forget_message_same [simp]:
  "msg_senderId (forget_message a m) = msg_senderId m" "redactMessageForExport a (forget_message a m) = redactMessageForExport a m"
  by (auto simp: forget_message_def redactMessageForExport_def)

lemma forget_tip_same [simp]:
  "tip_confessionId (forget_tip t) = tip_confessionId t" "redactTipForExport env (forget_tip t) = redactTipForExport env t"
  by (simp_all add: forget_tip_def redactTipForExport_def)

lemma forget_report_same [simp]:
  "rp_reporterId (forget_report r) = rp_reporterId r" "rp_anonymousReporterId (forget_report r) = rp_anonymousReporterId r"
  "redactReportForExport (forget_report r) = redactReportForExport r"
  by (simp_all add: forget_report_def redactReportForExport_def)

lemma forget_log_same [simp]:
  "ml_userId (forget_log l) = ml_userId l" "redactModerationLogForExport env (forget_log l) = redactModerationLogForExport env l"
  by (simp_all add: forget_log_def redactModerationLogForExport_def)

lemma forget_db_same [simp]:
  "xd_users (forget_db a db) = xd_users db" "linked_to userId (forget_db a db) = linked_to userId db"
  by (simp_all add: forget_db_def linked_to_def fun_eq_iff)

lemma forget_db_tables:
  "xd_confessions (forget_db a db) = map (forget_confession a) (xd_confessions db)"
  "xd_comments (forget_db a db) = map (forget_comment a) (xd_comments db)"
  "xd_messages (forget_db a db) = map (forget_message a) (xd_messages db)"
  "xd_tips (forget_db a db) = map forget_tip (xd_tips db)"
  "xd_reports (forget_db a db) = map forget_report (xd_reports db)"
  "xd_logs (forget_db a db) = map forget_log (xd_logs db)"
  by (simp_all add: forget_db_def)

lemma forget_find [simp]:
  "find_one (\<lambda>c. co_id c = i) (map (forget_confession a) cs) = map_option (forget_confession a) (find_one (\<lambda>c. co_id c = i) cs)"
  by (induction cs) auto

lemma forget_queries [simp]:
  "export_confessions userId (forget_db a db) = map (forget_confession a) (export_confessions userId db)"
  "export_comments userId (forget_db a db) = map (forget_comment a) (export_comments userId db)"
  "export_messages userId (forget_db a db) = map (forget_message a) (export_messages userId db)"
  "export_tips userId (forget_db a db) = map forget_tip (export_tips userId db)"
  "export_reports userId (forget_db a db) = map forget_report (export_reports userId db)"
  "export_logs userId (forget_db a db) = map forget_log (export_logs userId db)"
  by (simp_all add: export_confessions_def export_comments_def export_messages_def export_tips_def export_reports_def
        export_logs_def forget_db_tables filter_map o_def option.case_eq_if option.map_sel cong: conj_cong)

text \<open>The account decides what is masked, so the two databases are compared at its own flag.\<close>

definition account_active :: "string \<Rightarrow> export_db \<Rightarrow> bool" where
  "account_active userId db =
     (case find_one (\<lambda>u. int_str (lu_id u) = userId) (xd_users db) of None \<Rightarrow> True | Some u \<Rightarrow> lu_isActive u)"

lemma compileUserData_forgets:
  "compileUserData env userId now (forget_db (account_active userId db) db) = compileUserData env userId now db"
  by (simp add: compileUserData_def account_active_def Let_def o_def split: option.split)

definition exported_id :: "jsrow \<Rightarrow> jsv" where
  "exported_id row = js_index row ''id''"

lemma exported_ids [simp]:
  "exported_id (redactConfessionForExport env a c) = js_str (co_id c)"
  "exported_id (redactCommentForExport a k) = Plain (JInt (cm_id k))"
  "exported_id (redactMessageForExport a m) = Plain (JInt (msg_id m))"
  "exported_id (redactTipForExport env t) = js_str (tip_id t)"
  "exported_id (redactReportForExport r) = js_str (rp_id r)"
  "exported_id (redactModerationLogForExport env l) = js_str (ml_id l)"
  by (simp_all add: exported_id_def js_index_def redactConfessionForExport_def redactCommentForExport_def
        redactMessageForExport_def redactTipForExport_def redactReportForExport_def redactModerationLogForExport_def)


text \<open>A confession that nobody removed is exported as it is stored: encrypted.\<close>

lemma export_keeps_stored_message:
  assumes "\<not> confession_deleted c" "\<not> confession_moderated c"
  shows "js_index (redactConfessionForExport env True c) ''message'' = js_str (co_message c)"
  using assms by (simp add: redactConfessionForExport_def js_index_def)

text \<open>Which confession a comment belongs to is never told.\<close>

lemma export_loses_confession:
  "js_index (redactCommentForExport a c) ''confessionId'' = Undefined"
  "js_index (redactMessageForExport a m) ''confessionId'' = Undefined"
  by (simp_all add: redactCommentForExport_def redactMessageForExport_def js_index_def)

section \<open>An example\<close>

definition demo_env :: export_env where
  "demo_env = \<lparr>xv_iso = int_str, xv_score = (\<lambda>_. ''0.5''), xv_amount = (\<lambda>_. ''1.0'')\<rparr>"

definition demo_account :: login_user where
  "demo_account = \<lparr>lu_id = 7, lu_username = ''a'', lu_email = [], lu_emailHash = [], lu_password = [], lu_isActive = True, lu_role = USER,
     lu_totpEnabled = False, lu_totpSecretEncrypted = None, lu_totpSecretIv = None, lu_totpSecretTag = None\<rparr>"

definition demo_deleted :: confession where
  "demo_deleted = \<lparr>co_id = ''c1'', co_message = ''secret'', co_gender = None, co_created_at = 1, co_anonymousUserId = ''a1'', co_view_count = 2,
     co_isDeleted = True, co_deletedAt = Some 2, co_deletedBy = None, co_moderationScore = 0, co_idempotencyKey = None,
     co_moderationFlags = [], co_moderationStatus = MApproved, co_requiresReview = False, co_isHidden = False, co_moderationDetails = [],
     co_stellarTxHash = None, co_stellarHash = None, co_isAnchored = False, co_anchoredAt = None, co_status = Published, co_publishAt = None\<rparr>"

definition demo_db :: export_db where
  "demo_db = \<lparr>xd_users = [demo_account], xd_links = [\<lparr>al_id = ''l1'', al_userId = 7, al_anonymousUserId = ''a1'', al_createdAt = 0\<rparr>],
     xd_confessions = [demo_deleted], xd_comments = [], xd_messages = [], xd_tips = [], xd_reports = [], xd_logs = []\<rparr>"

lemma seven_text: "int_str 7 = ''7''"
  by code_simp

lemma demo_compiled: "\<exists>d. compileUserData demo_env ''7'' 3 demo_db = Inr d"
  by (simp add: compileUserData_def demo_db_def demo_account_def Let_def seven_text)


end
