(* ===== verification/Data_Export.thy ===== *)
theory Data_Export
  imports Audit_Log One_Shot Confession_Model
begin

text \<open>
  The life of a data export (\<^verbatim>\<open>data-export/data-export.service.ts\<close>, its entities, the downloads of
  \<^verbatim>\<open>data-export/data-export.controller.ts\<close> and the sweep of \<^verbatim>\<open>data-export/data-export-cleanup.ts\<close>):
  requests, one-time links, parts, expiry.

  HMAC-SHA-256 is an argument, and so are the random tokens and the printed dates.  Days are 24 hours,
  as on a server that runs in UTC.  What the service hands to the audit log is kept as a list of
  events with their times.  \<open>validateAndConsumeToken\<close> reads first and updates later; the steps let
  anything run in between.
  Shown: a link is honoured at most once, and a fresh one is honoured; nothing is handed out without
  a signature, an owner and a file that is still kept; an account gets an export every seven days at
  most.
\<close>

section \<open>Rows\<close>

datatype export_status = XPending | XProcessing | XReady | XFailed | XExpired

record export_request =
  xr_id :: ident
  xr_userId :: string
  xr_status :: export_status
  xr_fileData :: "string option"
  xr_isChunked :: bool
  xr_chunkCount :: nat
  xr_totalSize :: string
  xr_combinedChecksum :: "string option"
  xr_createdAt :: ms
  xr_queuedAt :: "ms option"
  xr_processingAt :: "ms option"
  xr_completedAt :: "ms option"
  xr_failedAt :: "ms option"
  xr_expiredAt :: "ms option"
  xr_retryCount :: nat
  xr_lastFailureReason :: "string option"
  xr_downloadTokenHash :: "string option"
  xr_downloadedAt :: "ms option"

record export_chunk =
  ch_exportRequestId :: ident
  ch_chunkIndex :: int
  ch_fileData :: string
  ch_chunkSize :: nat
  ch_checksum :: string

record export_config =
  xc_background :: "string option"
  xc_linkTtl :: "int option"
  xc_staleTtl :: "int option"
  xc_secret :: "string option"
  xc_backendUrl :: "string option"
  xc_hmac :: "string \<Rightarrow> string \<Rightarrow> string"
  xc_iso :: "ms \<Rightarrow> string"

record export_state =
  xs_requests :: "export_request list"
  xs_chunks :: "export_chunk list"
  xs_queue :: "(string \<times> ident) list"
  xs_audit :: "(ms \<times> export_event) list"
  xs_cleanups :: "(ms \<times> obj) list"

definition DAY_MS :: int where "DAY_MS = 24 * 60 * 60 * 1000"

definition export_ttl :: "export_config \<Rightarrow> int" where
  "export_ttl cfg = nullish (xc_linkTtl cfg) DAY_MS"

definition signing_key :: "export_config \<Rightarrow> string" where
  "signing_key cfg = js_or (xc_secret cfg) ''APP_SECRET_NOT_SET''"

fun export_status_text :: "export_status \<Rightarrow> string" where
  "export_status_text XPending = ''PENDING''"
| "export_status_text XProcessing = ''PROCESSING''"
| "export_status_text XReady = ''READY''"
| "export_status_text XFailed = ''FAILED''"
| "export_status_text XExpired = ''EXPIRED''"

definition log_event :: "ms \<Rightarrow> string \<Rightarrow> string \<Rightarrow> string \<Rightarrow> ident \<Rightarrow> obj \<Rightarrow> export_state \<Rightarrow> export_state" where
  "log_event now action actorType actorId requestId m st =
     st\<lparr>xs_audit := xs_audit st @ [(now, \<lparr>xe_action = action, xe_requestId = requestId, xe_exportId = Some requestId,
        xe_actorType = actorType, xe_actorId = Some actorId, xe_occurredAt = None, xe_metadata = m, xe_context = no_context\<rparr>)]\<rparr>"

definition set_request :: "ident \<Rightarrow> (export_request \<Rightarrow> export_request) \<Rightarrow> export_state \<Rightarrow> export_state" where
  "set_request i f st = st\<lparr>xs_requests := update_where (\<lambda>r. xr_id r = i) f (xs_requests st)\<rparr>"

definition owned_request :: "ident \<Rightarrow> string \<Rightarrow> export_state \<Rightarrow> export_request option" where
  "owned_request requestId userId st = find_one (\<lambda>r. xr_id r = requestId \<and> xr_userId r = userId) (xs_requests st)"

section \<open>Requests\<close>

definition EXPORT_QUEUE :: string where "EXPORT_QUEUE = ''export-queue''"

definition new_request :: "ident \<Rightarrow> string \<Rightarrow> ms \<Rightarrow> ms \<Rightarrow> export_request" where
  "new_request newId userId now dbNow =
     \<lparr>xr_id = newId, xr_userId = userId, xr_status = XPending, xr_fileData = None, xr_isChunked = False, xr_chunkCount = 0,
      xr_totalSize = ''0'', xr_combinedChecksum = None, xr_createdAt = dbNow, xr_queuedAt = Some now, xr_processingAt = None,
      xr_completedAt = None, xr_failedAt = None, xr_expiredAt = None, xr_retryCount = 0, xr_lastFailureReason = None,
      xr_downloadTokenHash = None, xr_downloadedAt = None\<rparr>"

text \<open>The two queries that may refuse a request.\<close>

definition request_refused :: "string \<Rightarrow> ms \<Rightarrow> export_state \<Rightarrow> exn option" where
  "request_refused userId now st =
     (if find_one (\<lambda>r. xr_userId r = userId \<and> (xr_status r = XPending \<or> xr_status r = XProcessing)) (xs_requests st) \<noteq> None
      then Some (ConflictException ''An export is already in progress. Please wait for it to complete.'')
      else if find_one (\<lambda>r. xr_userId r = userId \<and> xr_createdAt r > now - 7 * DAY_MS) (xs_requests st) \<noteq> None
      then Some (BadRequestException ''Export allowed once every 7 days.'')
      else None)"

text \<open>Row, event, job; \<open>queueUp\<close> tells whether Redis takes the job.\<close>

definition request_write ::
  "export_config \<Rightarrow> string \<Rightarrow> ident \<Rightarrow> ms \<Rightarrow> ms \<Rightarrow> bool \<Rightarrow> export_state \<Rightarrow> ident outcome \<times> export_state" where
  "request_write cfg userId newId now dbNow queueUp st =
     (let st1 = st\<lparr>xs_requests := xs_requests st @ [new_request newId userId now dbNow]\<rparr>;
          st2 = log_event now ''request_created'' ''user'' userId newId
                  [(''status'', JStr ''PENDING''), (''queuedAt'', JStr (xc_iso cfg now))] st1
      in if queueUp then (Inr newId, st2\<lparr>xs_queue := xs_queue st2 @ [(userId, newId)]\<rparr>)
         else (Inl (PlainError ''queue unavailable''), st2))"

definition requestExport ::
  "export_config \<Rightarrow> string \<Rightarrow> ident \<Rightarrow> ms \<Rightarrow> ms \<Rightarrow> bool \<Rightarrow> export_state \<Rightarrow> ident outcome \<times> export_state" where
  "requestExport cfg userId newId now dbNow queueUp st =
     (if xc_background cfg \<noteq> Some ''true'' then
        (Inl (ServiceUnavailableException ''Data export requires background job processing. Set ENABLE_BACKGROUND_JOBS=true and ensure Redis is available.''),
         log_event now ''request_created'' ''system'' ''data-export-service'' ''n/a''
           [(''reason'', JStr ''background_jobs_disabled''), (''queue'', JStr EXPORT_QUEUE), (''userId'', JStr userId)] st)
      else case request_refused userId now st of
             Some e \<Rightarrow> (Inl e, st)
           | None \<Rightarrow> request_write cfg userId newId now dbNow queueUp st)"

section \<open>The marks of the worker\<close>

definition markExportProcessing :: "ident \<Rightarrow> ms \<Rightarrow> export_state \<Rightarrow> export_state" where
  "markExportProcessing requestId now = set_request requestId (\<lambda>r. r\<lparr>xr_status := XProcessing, xr_processingAt := Some now\<rparr>)"

definition markExportFailed :: "ident \<Rightarrow> string \<Rightarrow> ms \<Rightarrow> export_state \<Rightarrow> export_state" where
  "markExportFailed requestId reason now st =
     (let current = find_one (\<lambda>r. xr_id r = requestId) (xs_requests st);
          retryCount = nullish (map_option xr_retryCount current) 0 + 1
      in set_request requestId
           (\<lambda>r. r\<lparr>xr_status := XFailed, xr_failedAt := Some now, xr_retryCount := retryCount, xr_lastFailureReason := Some reason\<rparr>) st)"

definition markExportGenerated ::
  "export_config \<Rightarrow> ident \<Rightarrow> string \<Rightarrow> string \<Rightarrow> obj \<Rightarrow> ms \<Rightarrow> export_state \<Rightarrow> export_state" where
  "markExportGenerated cfg requestId userId fileData metadata now st =
     log_event now ''generation_completed'' ''system'' EXPORT_QUEUE requestId
       (obj_spread [(''userId'', JStr userId), (''status'', JStr ''READY''), (''completedAt'', JStr (xc_iso cfg now))] metadata)
       (set_request requestId (\<lambda>r. r\<lparr>xr_fileData := Some fileData, xr_status := XReady, xr_completedAt := Some now\<rparr>) st)"

section \<open>Links\<close>

definition hashDownloadToken :: "export_config \<Rightarrow> string \<Rightarrow> string" where
  "hashDownloadToken cfg token = xc_hmac cfg (signing_key cfg) token"

text \<open>A signed link: the id in its path and the parameters of its query.\<close>

record link =
  ln_requestId :: ident
  ln_userId :: "string option"
  ln_expires :: "string option"
  ln_signature :: "string option"
  ln_chunk :: "string option"
  ln_token :: "string option"

definition data_to_sign :: "ident \<Rightarrow> string \<Rightarrow> string option \<Rightarrow> string \<Rightarrow> string \<Rightarrow> string" where
  "data_to_sign requestId userId chunkText expires token =
     (case chunkText of
        Some c \<Rightarrow> requestId @ '':'' @ userId @ '':'' @ c @ '':'' @ expires
      | None \<Rightarrow> requestId @ '':'' @ userId @ '':'' @ expires @ '':'' @ token)"

definition signed_link :: "export_config \<Rightarrow> ident \<Rightarrow> string \<Rightarrow> int option \<Rightarrow> string \<Rightarrow> ms \<Rightarrow> link" where
  "signed_link cfg requestId userId chunkIndex token now =
     (let expires = int_str (now + export_ttl cfg); chunkText = map_option int_str chunkIndex in
      \<lparr>ln_requestId = requestId, ln_userId = Some userId, ln_expires = Some expires,
       ln_signature = Some (xc_hmac cfg (signing_key cfg) (data_to_sign requestId userId chunkText expires token)),
       ln_chunk = chunkText, ln_token = (if chunkIndex = None then Some token else None)\<rparr>)"

definition link_text :: "export_config \<Rightarrow> link \<Rightarrow> string" where
  "link_text cfg l =
     nullish (xc_backendUrl cfg) [] @ ''/api/data-export/download/'' @ ln_requestId l @ ''?userId='' @ nullish (ln_userId l) [] @
     ''&expires='' @ nullish (ln_expires l) [] @ ''&signature='' @ nullish (ln_signature l) [] @
     (case ln_chunk l of None \<Rightarrow> [] | Some c \<Rightarrow> ''&chunk='' @ c) @ (case ln_token l of None \<Rightarrow> [] | Some t \<Rightarrow> ''&token='' @ t)"

text \<open>The state after a link was made; the text sent to the user is \<open>link_text\<close> of \<open>signed_link\<close>.\<close>

definition issue_link :: "export_config \<Rightarrow> ident \<Rightarrow> string \<Rightarrow> int option \<Rightarrow> string \<Rightarrow> ms \<Rightarrow> export_state \<Rightarrow> export_state" where
  "issue_link cfg requestId userId chunkIndex token now st =
     log_event now ''link_refreshed'' ''user'' userId requestId [(''expiresAt'', JStr (xc_iso cfg (now + export_ttl cfg)))]
       (if chunkIndex = None
        then set_request requestId (\<lambda>r. r\<lparr>xr_downloadTokenHash := Some (hashDownloadToken cfg token), xr_downloadedAt := None\<rparr>) st
        else st)"

definition generateSignedDownloadUrl ::
  "export_config \<Rightarrow> ident \<Rightarrow> string \<Rightarrow> int option \<Rightarrow> string \<Rightarrow> ms \<Rightarrow> export_state \<Rightarrow> string \<times> export_state" where
  "generateSignedDownloadUrl cfg requestId userId chunkIndex token now st =
     (link_text cfg (signed_link cfg requestId userId chunkIndex token now), issue_link cfg requestId userId chunkIndex token now st)"

definition invalidateDownloadToken :: "ident \<Rightarrow> ms \<Rightarrow> export_state \<Rightarrow> export_state" where
  "invalidateDownloadToken requestId now = set_request requestId (\<lambda>r. r\<lparr>xr_downloadTokenHash := None, xr_downloadedAt := Some now\<rparr>)"

definition getExpiryTimestamp :: "export_config \<Rightarrow> ms \<Rightarrow> ms" where
  "getExpiryTimestamp cfg createdAt = createdAt + export_ttl cfg"

definition isFileAvailable :: "export_config \<Rightarrow> ms \<Rightarrow> export_request \<Rightarrow> bool" where
  "isFileAvailable cfg now r \<longleftrightarrow> xr_status r = XReady \<and> now \<le> getExpiryTimestamp cfg (xr_createdAt r)"

definition hasActiveToken :: "export_config \<Rightarrow> ms \<Rightarrow> export_request \<Rightarrow> bool" where
  "hasActiveToken cfg now r \<longleftrightarrow> isFileAvailable cfg now r \<and> xr_downloadTokenHash r \<noteq> None"

text \<open>\<open>Buffer.from(_, 'hex')\<close> on both sides, then lengths and bytes.\<close>

definition secureCompare :: "string \<Rightarrow> string \<Rightarrow> bool" where
  "secureCompare expected actual \<longleftrightarrow>
     length (from_hex expected) = length (from_hex actual) \<and> from_hex expected = from_hex actual"

definition recordFailedDownloadAttempt :: "ident \<Rightarrow> string \<Rightarrow> ms \<Rightarrow> export_state \<Rightarrow> export_state" where
  "recordFailedDownloadAttempt requestId reason now =
     log_event now ''download_failed'' ''system'' ''download-token-validator'' requestId [(''reason'', JStr reason)]"

section \<open>Using a token\<close>

text \<open>The reading half of \<open>validateAndConsumeToken\<close>: \<open>False\<close> ends the request, \<open>True\<close> goes on to the update.\<close>

definition token_read :: "export_config \<Rightarrow> ident \<Rightarrow> string \<Rightarrow> string \<Rightarrow> ms \<Rightarrow> export_state \<Rightarrow> bool \<times> export_state" where
  "token_read cfg requestId userId token now st =
     (case owned_request requestId userId st of
        None \<Rightarrow> (False, recordFailedDownloadAttempt requestId ''not_found'' now st)
      | Some r \<Rightarrow>
          if xr_downloadedAt r \<noteq> None \<or> \<not> truthy (xr_downloadTokenHash r) \<or>
             \<not> secureCompare (the (xr_downloadTokenHash r)) (hashDownloadToken cfg token)
          then (False, recordFailedDownloadAttempt requestId ''invalid_or_used'' now st)
          else if \<not> isFileAvailable cfg now r
          then (False, log_event now ''token_expired'' ''user'' userId requestId
                  [(''userId'', JStr userId), (''expiredAt'', JStr (xc_iso cfg now)), (''reason'', JStr ''retention_window_elapsed'')]
                  (set_request requestId (\<lambda>r. r\<lparr>xr_downloadTokenHash := None, xr_expiredAt := Some now\<rparr>) st))
          else (True, st))"

definition token_hit :: "export_config \<Rightarrow> ident \<Rightarrow> string \<Rightarrow> string \<Rightarrow> export_request \<Rightarrow> bool" where
  "token_hit cfg requestId userId token r \<longleftrightarrow>
     xr_id r = requestId \<and> xr_userId r = userId \<and> xr_downloadTokenHash r = Some (hashDownloadToken cfg token) \<and> xr_downloadedAt r = None"

definition token_claim :: "export_config \<Rightarrow> ident \<Rightarrow> string \<Rightarrow> string \<Rightarrow> ms \<Rightarrow> export_state \<Rightarrow> bool \<times> export_state" where
  "token_claim cfg requestId userId token now st =
     (let hit = token_hit cfg requestId userId token;
          st' = st\<lparr>xs_requests := update_where hit (\<lambda>r. r\<lparr>xr_downloadTokenHash := None, xr_downloadedAt := Some now\<rparr>) (xs_requests st)\<rparr>
      in if affected hit (xs_requests st) \<noteq> 1
         then (False, recordFailedDownloadAttempt requestId ''replay_race'' now st')
         else (True, log_event now ''downloaded'' ''user'' userId requestId
                 [(''userId'', JStr userId), (''downloadedAt'', JStr (xc_iso cfg now))] st'))"

definition validateAndConsumeToken ::
  "export_config \<Rightarrow> ident \<Rightarrow> string \<Rightarrow> string \<Rightarrow> ms \<Rightarrow> export_state \<Rightarrow> bool \<times> export_state" where
  "validateAndConsumeToken cfg requestId userId token now st =
     (case token_read cfg requestId userId token now st of
        (False, st') \<Rightarrow> (False, st')
      | (True, st') \<Rightarrow> token_claim cfg requestId userId token now st')"

definition expireStaleDownloadTokens :: "export_config \<Rightarrow> ms \<Rightarrow> ms \<Rightarrow> export_state \<Rightarrow> nat \<times> export_state" where
  "expireStaleDownloadTokens cfg now dbNow st =
     (let cutoff = now - nullish (xc_staleTtl cfg) DAY_MS;
          hit = (\<lambda>r. xr_downloadTokenHash r \<noteq> None \<and> xr_downloadedAt r = None \<and> xr_createdAt r < cutoff);
          n = affected hit (xs_requests st);
          st' = st\<lparr>xs_requests := update_where hit (\<lambda>r. r\<lparr>xr_downloadTokenHash := None, xr_expiredAt := Some dbNow\<rparr>) (xs_requests st)\<rparr>
      in (n, if n > 0
             then log_event now ''export_expired'' ''system'' ''cleanup-scheduler'' ''batch''
                    [(''affectedCount'', JInt (int n)), (''cutoff'', JStr (xc_iso cfg cutoff)), (''reason'', JStr ''scheduled_cleanup'')] st'
             else st'))"

section \<open>Files and parts\<close>

definition getExportFile :: "export_config \<Rightarrow> ident \<Rightarrow> string \<Rightarrow> ms \<Rightarrow> export_state \<Rightarrow> export_request option \<times> export_state" where
  "getExportFile cfg requestId userId now st =
     (case owned_request requestId userId st of
        None \<Rightarrow> (None, st)
      | Some r \<Rightarrow>
          if xr_status r = XExpired \<or> \<not> isFileAvailable cfg now r then (None, st)
          else (Some r, if xr_fileData r \<noteq> None
                        then log_event now ''downloaded'' ''user'' userId requestId [(''status'', JStr (export_status_text (xr_status r)))] st
                        else st))"

definition getExportChunk :: "export_config \<Rightarrow> ident \<Rightarrow> string \<Rightarrow> int option \<Rightarrow> ms \<Rightarrow> export_state \<Rightarrow> export_chunk option outcome" where
  "getExportChunk cfg requestId userId chunkIndex now st =
     (case owned_request requestId userId st of
        None \<Rightarrow> Inl (NotFoundException ''Export request not found or expired'')
      | Some r \<Rightarrow>
          if \<not> isFileAvailable cfg now r then Inl (NotFoundException ''Export request not found or expired'')
          else case chunkIndex of
                 None \<Rightarrow> Inl (PlainError ''invalid input syntax for type integer: NaN'')
               | Some i \<Rightarrow> Inr (find_one (\<lambda>c. ch_exportRequestId c = requestId \<and> ch_chunkIndex c = i) (xs_chunks st)))"

section \<open>What the account sees\<close>

record export_progress =
  pg_queuedAt :: "ms option"
  pg_processingAt :: "ms option"
  pg_completedAt :: "ms option"
  pg_failedAt :: "ms option"
  pg_expiredAt :: "ms option"
  pg_retryCount :: nat
  pg_lastFailureReason :: "string option"

record history_item =
  hi_id :: ident
  hi_status :: export_status
  hi_createdAt :: ms
  hi_expiresAt :: "ms option"
  hi_canRedownload :: bool
  hi_canRequestNewLink :: bool
  hi_downloadUrl :: "string option"
  hi_progress :: export_progress

definition buildProgress :: "export_request \<Rightarrow> export_progress" where
  "buildProgress r =
     \<lparr>pg_queuedAt = xr_queuedAt r, pg_processingAt = xr_processingAt r, pg_completedAt = xr_completedAt r, pg_failedAt = xr_failedAt r,
      pg_expiredAt = xr_expiredAt r, pg_retryCount = xr_retryCount r, pg_lastFailureReason = xr_lastFailureReason r\<rparr>"

definition normalized_status :: "export_config \<Rightarrow> ms \<Rightarrow> export_request \<Rightarrow> export_status" where
  "normalized_status cfg now r = (if xr_status r = XReady \<and> \<not> isFileAvailable cfg now r then XExpired else xr_status r)"

definition toHistoryItem :: "export_config \<Rightarrow> string \<Rightarrow> ms \<Rightarrow> export_request \<Rightarrow> export_state \<Rightarrow> history_item \<times> export_state" where
  "toHistoryItem cfg token now r st =
     (let can = hasActiveToken cfg now r; (url, st') = generateSignedDownloadUrl cfg (xr_id r) (xr_userId r) None token now st in
      (\<lparr>hi_id = xr_id r, hi_status = normalized_status cfg now r, hi_createdAt = xr_createdAt r,
        hi_expiresAt = (if xr_status r = XReady then Some (getExpiryTimestamp cfg (xr_createdAt r)) else None),
        hi_canRedownload = can, hi_canRequestNewLink = (isFileAvailable cfg now r \<and> \<not> can),
        hi_downloadUrl = (if can then Some url else None), hi_progress = buildProgress r\<rparr>,
       if can then st' else st))"

text \<open>\<open>Promise.all\<close> over the rows that were read; every row takes a token of its own.\<close>

fun history_items ::
  "export_config \<Rightarrow> (ident \<Rightarrow> string) \<Rightarrow> ms \<Rightarrow> export_request list \<Rightarrow> export_state \<Rightarrow> history_item list \<times> export_state" where
  "history_items cfg tokens now [] st = ([], st)"
| "history_items cfg tokens now (r # rs) st =
     (let (i, st1) = toHistoryItem cfg (tokens (xr_id r)) now r st; (is, st2) = history_items cfg tokens now rs st1
      in (i # is, st2))"

definition own_requests :: "string \<Rightarrow> export_state \<Rightarrow> export_request list" where
  "own_requests userId st = order_desc xr_createdAt (filter (\<lambda>r. xr_userId r = userId) (xs_requests st))"

definition getExportHistory ::
  "export_config \<Rightarrow> (ident \<Rightarrow> string) \<Rightarrow> string \<Rightarrow> nat \<Rightarrow> ms \<Rightarrow> export_state \<Rightarrow> history_item list \<times> export_state" where
  "getExportHistory cfg tokens userId limit now st = history_items cfg tokens now (take limit (own_requests userId st)) st"

definition getLatestExport :: "export_config \<Rightarrow> string \<Rightarrow> string \<Rightarrow> ms \<Rightarrow> export_state \<Rightarrow> history_item option \<times> export_state" where
  "getLatestExport cfg token userId now st =
     (case own_requests userId st of
        [] \<Rightarrow> (None, st)
      | r # _ \<Rightarrow> (let (i, st') = toHistoryItem cfg token now r st in (Some i, st')))"

definition getRedownloadLink :: "export_config \<Rightarrow> string \<Rightarrow> ident \<Rightarrow> string \<Rightarrow> ms \<Rightarrow> export_state \<Rightarrow> string outcome \<times> export_state" where
  "getRedownloadLink cfg token requestId userId now st =
     (case owned_request requestId userId st of
        None \<Rightarrow> (Inl (BadRequestException ''Secure download link is no longer available. Request a new export.''), st)
      | Some r \<Rightarrow>
          if \<not> isFileAvailable cfg now r
          then (Inl (BadRequestException ''Secure download link is no longer available. Request a new export.''), st)
          else (let (url, st') = generateSignedDownloadUrl cfg (xr_id r) (xr_userId r) None token now st in (Inr url, st')))"

record job_status =
  js_id :: ident
  js_userId :: string
  js_status :: export_status
  js_progress :: export_progress

definition getJobStatus :: "export_config \<Rightarrow> ident \<Rightarrow> string \<Rightarrow> ms \<Rightarrow> export_state \<Rightarrow> job_status outcome" where
  "getJobStatus cfg requestId userId now st =
     (case owned_request requestId userId st of
        None \<Rightarrow> Inl (NotFoundException ''Export request not found or unauthorized'')
      | Some r \<Rightarrow> Inr \<lparr>js_id = xr_id r, js_userId = xr_userId r, js_status = normalized_status cfg now r, js_progress = buildProgress r\<rparr>)"

section \<open>Requests of the browser\<close>

text \<open>\<open>GET history\<close>: the newest export, then all of them.\<close>

definition history ::
  "export_config \<Rightarrow> string \<Rightarrow> (ident \<Rightarrow> string) \<Rightarrow> string \<Rightarrow> ms \<Rightarrow> export_state \<Rightarrow>
     (history_item option \<times> history_item list) \<times> export_state" where
  "history cfg token tokens userId now st =
     (let (latest, st1) = getLatestExport cfg token userId now st; (items, st2) = getExportHistory cfg tokens userId 20 now st1
      in ((latest, items), st2))"

datatype download_error = Gone string | Unauthorized string | Not_found string | Server_error string

datatype download_content =
    File string
  | Chunk export_chunk
  | Parts nat string "string option" "string list"

fun part_links :: "export_config \<Rightarrow> ident \<Rightarrow> string \<Rightarrow> nat list \<Rightarrow> ms \<Rightarrow> export_state \<Rightarrow> string list \<times> export_state" where
  "part_links cfg requestId userId [] now st = ([], st)"
| "part_links cfg requestId userId (i # is) now st =
     (let (u, st1) = generateSignedDownloadUrl cfg requestId userId (Some (int i)) [] now st;
          (us, st2) = part_links cfg requestId userId is now st1
      in (u # us, st2))"

text \<open>Step 1 and 2 of \<open>download\<close>: whether the link is in time and carries the signature; and what the
  failed attempt leaves in the log.  \<open>parseInt\<close> gives \<open>None\<close> for \<open>NaN\<close>.\<close>

definition nan_text :: "int option \<Rightarrow> string" where
  "nan_text i = (case i of None \<Rightarrow> ''NaN'' | Some n \<Rightarrow> int_str n)"

definition check_link :: "export_config \<Rightarrow> link \<Rightarrow> ms \<Rightarrow> export_state \<Rightarrow> download_error option \<times> export_state" where
  "check_link cfg l now st =
     (let chunkText = map_option (\<lambda>c. nan_text (parseInt c)) (ln_chunk l);
          failed = (\<lambda>reason. if ln_chunk l = None then recordFailedDownloadAttempt (ln_requestId l) reason now st else st)
      in if (case Option.bind (ln_expires l) parseInt of None \<Rightarrow> True | Some e \<Rightarrow> now > e)
         then (Some (Gone ''EXPORT_LINK_EXPIRED''), st)
         else if \<not> truthy (ln_userId l) \<or> \<not> truthy (ln_signature l)
         then (Some (Unauthorized ''Invalid download link.''), failed ''invalid_signature'')
         else if ln_chunk l = None \<and> \<not> truthy (ln_token l)
         then (Some (Unauthorized ''Invalid download link.''), failed ''missing_token'')
         else if the (ln_signature l) \<noteq>
                 xc_hmac cfg (signing_key cfg)
                   (data_to_sign (ln_requestId l) (the (ln_userId l)) chunkText (the (ln_expires l)) (the (ln_token l)))
         then (Some (Unauthorized ''Invalid download link.''), failed ''invalid_signature'')
         else (None, st))"

definition serve_chunk :: "export_config \<Rightarrow> link \<Rightarrow> ms \<Rightarrow> export_state \<Rightarrow> download_error + download_content" where
  "serve_chunk cfg l now st =
     (case getExportChunk cfg (ln_requestId l) (the (ln_userId l)) (parseInt (the (ln_chunk l))) now st of
        Inl (NotFoundException m) \<Rightarrow> Inl (Not_found m)
      | Inl e \<Rightarrow> Inl (Server_error (exn_message e))
      | Inr None \<Rightarrow> Inl (Not_found ''Chunk not found.'')
      | Inr (Some c) \<Rightarrow> Inr (Chunk c))"

definition serve_file :: "export_config \<Rightarrow> link \<Rightarrow> ms \<Rightarrow> export_state \<Rightarrow> (download_error + download_content) \<times> export_state" where
  "serve_file cfg l now st =
     (case getExportFile cfg (ln_requestId l) (the (ln_userId l)) now st of
        (None, st1) \<Rightarrow> (Inl (Not_found ''Export not found or expired''), st1)
      | (Some r, st1) \<Rightarrow>
          if xr_isChunked r then
            (let (us, st2) = part_links cfg (ln_requestId l) (the (ln_userId l)) [0..<xr_chunkCount r] now st1
             in (Inr (Parts (xr_chunkCount r) (xr_totalSize r) (xr_combinedChecksum r) us), st2))
          else case xr_fileData r of
                 None \<Rightarrow> (Inl (Not_found ''Export not found or expired''), st1)
               | Some d \<Rightarrow> (Inr (File d), st1))"

definition download :: "export_config \<Rightarrow> link \<Rightarrow> ms \<Rightarrow> export_state \<Rightarrow> (download_error + download_content) \<times> export_state" where
  "download cfg l now st =
     (case check_link cfg l now st of
        (Some e, st1) \<Rightarrow> (Inl e, st1)
      | (None, st1) \<Rightarrow>
          if ln_chunk l \<noteq> None then (serve_chunk cfg l now st1, st1)
          else case validateAndConsumeToken cfg (ln_requestId l) (the (ln_userId l)) (the (ln_token l)) now st1 of
                 (False, st2) \<Rightarrow> (Inl (Gone ''EXPORT_TOKEN_EXPIRED''), st2)
               | (True, st2) \<Rightarrow> serve_file cfg l now st2)"

section \<open>The sweep\<close>

record cleanup_result =
  cr_dryRun :: bool
  cr_retentionDays :: int
  cr_cutoff :: string
  cr_eligibleCount :: nat
  cr_expiredCount :: nat
  cr_chunkCount :: nat
  cr_statusCounts :: "(string \<times> nat) list"
  cr_requestIds :: "ident list"
  cr_omittedRequestIds :: nat

definition getRetentionCutoff :: "int \<Rightarrow> ms \<Rightarrow> ms" where
  "getRetentionCutoff retentionDays now = now - retentionDays * DAY_MS"

definition bump :: "string \<Rightarrow> (string \<times> nat) list \<Rightarrow> (string \<times> nat) list" where
  "bump k cs = (case map_of cs k of None \<Rightarrow> cs @ [(k, 1)] | Some n \<Rightarrow> map (\<lambda>(j, m). if j = k then (j, n + 1) else (j, m)) cs)"

definition status_counts :: "export_request list \<Rightarrow> (string \<times> nat) list" where
  "status_counts rs = foldl (\<lambda>cs r. bump (export_status_text (xr_status r)) cs) [] rs"

definition buildSummary :: "export_config \<Rightarrow> int \<Rightarrow> export_request list \<Rightarrow> ms \<Rightarrow> nat \<Rightarrow> nat \<Rightarrow> bool \<Rightarrow> cleanup_result" where
  "buildSummary cfg retentionDays rs cutoff chunkCount expiredCount dryRun =
     (let ids = take 10 (map xr_id rs) in
      \<lparr>cr_dryRun = dryRun, cr_retentionDays = retentionDays, cr_cutoff = xc_iso cfg cutoff, cr_eligibleCount = length rs,
       cr_expiredCount = expiredCount, cr_chunkCount = chunkCount, cr_statusCounts = status_counts rs, cr_requestIds = ids,
       cr_omittedRequestIds = length rs - length ids\<rparr>)"

definition expire_request :: "ms \<Rightarrow> export_request \<Rightarrow> export_request" where
  "expire_request now r = r\<lparr>xr_fileData := None, xr_status := XExpired, xr_expiredAt := Some now, xr_downloadTokenHash := None\<rparr>"

definition logCleanupAuditSummary :: "ms \<Rightarrow> cleanup_result \<Rightarrow> export_state \<Rightarrow> export_state" where
  "logCleanupAuditSummary now s st =
     st\<lparr>xs_cleanups := xs_cleanups st @ [(now,
       [(''dryRun'', JBool (cr_dryRun s)), (''retentionDays'', JInt (cr_retentionDays s)), (''cutoff'', JStr (cr_cutoff s)),
        (''summary'', JObj [(''eligibleCount'', JInt (int (cr_eligibleCount s))), (''expiredCount'', JInt (int (cr_expiredCount s))),
           (''chunkCount'', JInt (int (cr_chunkCount s))),
           (''statusCounts'', JObj (map (\<lambda>(k, n). (k, JInt (int n))) (cr_statusCounts s))),
           (''requestIds'', JArr (map JStr (cr_requestIds s))), (''omittedRequestIds'', JInt (int (cr_omittedRequestIds s)))])])]\<rparr>"

text \<open>Every status is eligible, so the age decides alone.\<close>

definition cleanup_rows :: "int \<Rightarrow> ms \<Rightarrow> export_state \<Rightarrow> export_request list" where
  "cleanup_rows retentionDays now st = filter (\<lambda>r. xr_createdAt r < getRetentionCutoff retentionDays now) (xs_requests st)"

definition cleanup_apply :: "int \<Rightarrow> ms \<Rightarrow> export_state \<Rightarrow> export_state" where
  "cleanup_apply retentionDays now st =
     st\<lparr>xs_chunks := delete_where (\<lambda>c. ch_exportRequestId c \<in> set (map xr_id (cleanup_rows retentionDays now st))) (xs_chunks st),
        xs_requests := update_where (\<lambda>r. xr_createdAt r < getRetentionCutoff retentionDays now) (expire_request now) (xs_requests st)\<rparr>"

definition runCleanup :: "export_config \<Rightarrow> int \<Rightarrow> bool \<Rightarrow> bool \<Rightarrow> ms \<Rightarrow> export_state \<Rightarrow> cleanup_result \<times> export_state" where
  "runCleanup cfg retentionDays auditCleanupActions dryRun now st =
     (let rs = cleanup_rows retentionDays now st;
          chunkCount = affected (\<lambda>c. ch_exportRequestId c \<in> set (map xr_id rs)) (xs_chunks st);
          (expiredCount, st1) = (if rs = [] \<or> dryRun then (0, st) else (length rs, cleanup_apply retentionDays now st));
          summary = buildSummary cfg retentionDays rs (getRetentionCutoff retentionDays now) chunkCount expiredCount dryRun
      in (summary, if auditCleanupActions then logCleanupAuditSummary now summary st1 else st1))"

section \<open>One-time links\<close>

text \<open>The system with what it has issued and granted so far: a key is an export and the digest of a token.\<close>

type_synonym token_key = "ident \<times> string"

record export_sys =
  sy_state :: export_state
  sy_issued :: "token_key set"
  sy_granted :: "token_key list"

text \<open>The operations that make no link.\<close>

inductive quiet_step :: "export_config \<Rightarrow> export_state \<Rightarrow> export_state \<Rightarrow> bool" for cfg where
  request: "newId \<notin> xr_id ` set (xs_requests st) \<Longrightarrow> quiet_step cfg st (snd (requestExport cfg userId newId now dbNow up st))"
| late_insert: "newId \<notin> xr_id ` set (xs_requests st) \<Longrightarrow> quiet_step cfg st (snd (request_write cfg userId newId now dbNow up st))"
| processing: "quiet_step cfg st (markExportProcessing requestId now st)"
| failed: "quiet_step cfg st (markExportFailed requestId reason now st)"
| generated: "quiet_step cfg st (markExportGenerated cfg requestId userId d m now st)"
| chunked: "quiet_step cfg st (set_request requestId
      (\<lambda>r. r\<lparr>xr_status := XReady, xr_isChunked := True, xr_chunkCount := n, xr_totalSize := total', xr_combinedChecksum := cs, xr_completedAt := fin\<rparr>) st)"
| part: "quiet_step cfg st (issue_link cfg requestId userId (Some i) token now st)"
| invalidate: "quiet_step cfg st (invalidateDownloadToken requestId now st)"
| read_token: "quiet_step cfg st (snd (token_read cfg requestId userId token now st))"
| attempt: "quiet_step cfg st (recordFailedDownloadAttempt requestId reason now st)"
| stale: "quiet_step cfg st (snd (expireStaleDownloadTokens cfg now dbNow st))"
| get_file: "quiet_step cfg st (snd (getExportFile cfg requestId userId now st))"
| sweep: "quiet_step cfg st (snd (runCleanup cfg days audited dry now st))"

inductive export_step :: "export_config \<Rightarrow> export_sys \<Rightarrow> export_sys \<Rightarrow> bool" for cfg where
  issue: "(requestId, hashDownloadToken cfg token) \<notin> sy_issued s \<Longrightarrow> requestId \<in> xr_id ` set (xs_requests (sy_state s)) \<Longrightarrow>
    export_step cfg s (s\<lparr>sy_state := issue_link cfg requestId userId None token now (sy_state s),
                         sy_issued := insert (requestId, hashDownloadToken cfg token) (sy_issued s)\<rparr>)"
| claim: "token_claim cfg requestId userId token now (sy_state s) = (ok, st') \<Longrightarrow>
    export_step cfg s (s\<lparr>sy_state := st', sy_granted := (if ok then (requestId, hashDownloadToken cfg token) # sy_granted s else sy_granted s)\<rparr>)"
| quiet: "quiet_step cfg (sy_state s) st' \<Longrightarrow> export_step cfg s (s\<lparr>sy_state := st'\<rparr>)"

definition no_exports :: export_sys where
  "no_exports = \<lparr>sy_state = \<lparr>xs_requests = [], xs_chunks = [], xs_queue = [], xs_audit = [], xs_cleanups = []\<rparr>, sy_issued = {}, sy_granted = []\<rparr>"

definition token_rows :: "export_request list \<Rightarrow> token_key set" where
  "token_rows t = {k. \<exists>r \<in> set t. k = (xr_id r, the (xr_downloadTokenHash r)) \<and> xr_downloadTokenHash r \<noteq> None \<and> xr_downloadedAt r = None}"

definition export_abs :: "export_sys \<Rightarrow> token_key one_shot_state" where
  "export_abs s = (sy_issued s, token_rows (xs_requests (sy_state s)), sy_granted s)"

definition export_ids :: "export_sys \<Rightarrow> bool" where
  "export_ids s = distinct (map xr_id (xs_requests (sy_state s)))"

lemma log_event_requests [simp]:
  "xs_requests (log_event now a t i r m st) = xs_requests st" "xs_chunks (log_event now a t i r m st) = xs_chunks st"
  "xs_queue (log_event now a t i r m st) = xs_queue st"
  by (simp_all add: log_event_def)

lemma attempt_requests [simp]: "xs_requests (recordFailedDownloadAttempt r reason now st) = xs_requests st"
  by (simp add: recordFailedDownloadAttempt_def)

lemma set_request_requests [simp]:
  "xs_requests (set_request i f st) = update_where (\<lambda>r. xr_id r = i) f (xs_requests st)" "xs_chunks (set_request i f st) = xs_chunks st"
  by (simp_all add: set_request_def)

text \<open>An update that keeps the ids and leaves the token alone or takes it away.\<close>

definition takes_tokens :: "(export_request \<Rightarrow> export_request) \<Rightarrow> bool" where
  "takes_tokens f \<longleftrightarrow> (\<forall>r. xr_id (f r) = xr_id r \<and>
     (xr_downloadTokenHash (f r) = None \<or> xr_downloadTokenHash (f r) = xr_downloadTokenHash r \<and> xr_downloadedAt (f r) = xr_downloadedAt r))"

definition only_takes :: "export_request list \<Rightarrow> export_request list \<Rightarrow> bool" where
  "only_takes t t' \<longleftrightarrow> token_rows t' \<subseteq> token_rows t \<and> (distinct (map xr_id t) \<longrightarrow> distinct (map xr_id t'))"

lemma only_takes_refl [simp]: "only_takes t t"
  by (simp add: only_takes_def)

lemma takes_update: "takes_tokens f \<Longrightarrow> only_takes t (update_where P f t)"
proof -
  assume f: "takes_tokens f"
  then have "map xr_id (update_where P f t) = map xr_id t" by (intro map_update_where) (simp add: takes_tokens_def)
  moreover have "k \<in> token_rows t" if "k \<in> token_rows (update_where P f t)" for k
  proof -
    from that obtain x where x: "x \<in> set (update_where P f t)" "k = (xr_id x, the (xr_downloadTokenHash x))"
      "xr_downloadTokenHash x \<noteq> None" "xr_downloadedAt x = None" by (auto simp: token_rows_def)
    from x(1) show ?thesis
    proof (cases rule: in_update_whereE)
      case (hit r)
      with f x show ?thesis unfolding token_rows_def takes_tokens_def by (intro CollectI bexI [of _ r]) metis+
    qed (use x in \<open>auto simp: token_rows_def\<close>)
  qed
  ultimately show ?thesis by (auto simp: only_takes_def)
qed

lemma takes_new: "newId \<notin> xr_id ` set t \<Longrightarrow> only_takes t (t @ [new_request newId userId now dbNow])"
  by (auto simp: only_takes_def token_rows_def new_request_def)

lemma token_read_requests:
  "xs_requests (snd (token_read cfg requestId userId token now st)) =
     update_where (\<lambda>r. xr_id r = requestId \<and> (case owned_request requestId userId st of None \<Rightarrow> False | Some o' \<Rightarrow>
        \<not> (xr_downloadedAt o' \<noteq> None \<or> \<not> truthy (xr_downloadTokenHash o') \<or>
             \<not> secureCompare (the (xr_downloadTokenHash o')) (hashDownloadToken cfg token)) \<and> \<not> isFileAvailable cfg now o'))
       (\<lambda>r. r\<lparr>xr_downloadTokenHash := None, xr_expiredAt := Some now\<rparr>) (xs_requests st)"
  by (auto simp: token_read_def update_where_def split: option.split)

lemma quiet_takes: "quiet_step cfg st st' \<Longrightarrow> only_takes (xs_requests st) (xs_requests st')"
proof (induction rule: quiet_step.induct)
  case (request newId st userId now dbNow up)
  then show ?case by (auto simp: requestExport_def request_write_def Let_def takes_new split: option.split)
next
  case (late_insert newId st userId now dbNow up)
  then show ?case by (simp add: request_write_def Let_def takes_new)
next
  case (sweep days audited dry now st)
  then show ?case
    by (auto simp: runCleanup_def Let_def cleanup_apply_def logCleanupAuditSummary_def takes_tokens_def expire_request_def
        intro!: takes_update)
next
  case (get_file requestId userId now st)
  then show ?case by (simp add: getExportFile_def split: option.split)
next
  case (read_token requestId userId token now st)
  then show ?case by (simp add: token_read_requests takes_update takes_tokens_def)
qed (simp_all add: markExportProcessing_def markExportFailed_def markExportGenerated_def issue_link_def invalidateDownloadToken_def
       expireStaleDownloadTokens_def Let_def takes_update takes_tokens_def)

lemma issue_tokens:
  assumes "requestId \<in> xr_id ` set t"
  shows "token_rows (update_where (\<lambda>r. xr_id r = requestId) (\<lambda>r. r\<lparr>xr_downloadTokenHash := Some h, xr_downloadedAt := None\<rparr>) t) =
           (token_rows t - {requestId} \<times> UNIV) \<union> {(requestId, h)}"
  using assms by (auto simp: token_rows_def set_update_where bex_Un)

lemma claim_tokens:
  assumes "distinct (map xr_id t)" "\<exists>r \<in> set t. token_hit cfg requestId userId token r"
  defines "k \<equiv> (requestId, hashDownloadToken cfg token)"
  shows "k \<in> token_rows t"
    and "k \<notin> token_rows (update_where (token_hit cfg requestId userId token) (\<lambda>r. r\<lparr>xr_downloadTokenHash := None, xr_downloadedAt := Some now\<rparr>) t)"
proof -
  from assms(2) obtain r where r: "r \<in> set t" "token_hit cfg requestId userId token r" by blast
  then show "k \<in> token_rows t" by (auto simp: token_rows_def token_hit_def k_def)
  have "x = r" if "x \<in> set t" "xr_id x = requestId" for x
    using distinct_keys_eq [OF assms(1) that(1) r(1)] that(2) r(2) by (simp add: token_hit_def)
  with r show "k \<notin> token_rows (update_where (token_hit cfg requestId userId token) (\<lambda>r. r\<lparr>xr_downloadTokenHash := None, xr_downloadedAt := Some now\<rparr>) t)"
    by (auto simp: token_rows_def k_def elim!: in_update_whereE)
qed

lemma token_claim_cases:
  assumes "token_claim cfg requestId userId token now st = (ok, st')"
  shows "xs_requests st' = update_where (token_hit cfg requestId userId token) (\<lambda>r. r\<lparr>xr_downloadTokenHash := None, xr_downloadedAt := Some now\<rparr>) (xs_requests st)"
    and "ok \<Longrightarrow> \<exists>r \<in> set (xs_requests st). token_hit cfg requestId userId token r"
proof -
  from assms show "xs_requests st' = update_where (token_hit cfg requestId userId token)
      (\<lambda>r. r\<lparr>xr_downloadTokenHash := None, xr_downloadedAt := Some now\<rparr>) (xs_requests st)"
    by (auto simp: token_claim_def Let_def split: if_splits)
  assume ok
  with assms have "0 < affected (token_hit cfg requestId userId token) (xs_requests st)"
    by (auto simp: token_claim_def Let_def split: if_splits)
  then show "\<exists>r \<in> set (xs_requests st). token_hit cfg requestId userId token r" by (simp add: affected_pos_iff)
qed

lemma quiet_simulates:
  "only_takes t t' \<Longrightarrow> one_shot_step (issued, token_rows t, given) (issued, token_rows t', given)"
proof -
  assume "only_takes t t'"
  then have "token_rows t' = (token_rows t - (token_rows t - token_rows t')) \<union> {}" by (auto simp: only_takes_def)
  then show ?thesis using one_shot_step.issue [of "{}" issued "token_rows t" given "token_rows t - token_rows t'"] by simp
qed

lemma export_step_simulates:
  assumes "export_ids s" "export_step cfg s s'"
  shows "one_shot_step (export_abs s) (export_abs s')"
  using assms(2)
proof cases
  case (issue requestId token userId now)
  with assms(1) one_shot_step.issue [of "{(requestId, hashDownloadToken cfg token)}" "sy_issued s"
      "token_rows (xs_requests (sy_state s))" "sy_granted s" "{requestId} \<times> UNIV"]
  show ?thesis by (simp add: export_abs_def issue_link_def issue_tokens export_ids_def)
next
  case (claim requestId userId token now ok st')
  note c = token_claim_cases [OF claim(2)]
  have takes: "only_takes (xs_requests (sy_state s)) (xs_requests st')"
    unfolding c(1) by (rule takes_update) (simp add: takes_tokens_def)
  show ?thesis
  proof (cases ok)
    case False
    with claim(1) quiet_simulates [OF takes] show ?thesis by (simp add: export_abs_def)
  next
    case True
    let ?k = "(requestId, hashDownloadToken cfg token)" and ?t = "xs_requests (sy_state s)"
    have k: "?k \<in> token_rows ?t" "?k \<notin> token_rows (xs_requests st')"
      using claim_tokens [of ?t] assms(1) c(1) c(2) [OF True] by (auto simp: export_ids_def)
    with takes have "token_rows (xs_requests st') = token_rows ?t - (token_rows ?t - token_rows (xs_requests st')) - {?k}"
      by (auto simp: only_takes_def)
    with one_shot_step.grant [OF k(1), of "sy_issued s" "sy_granted s" "token_rows ?t - token_rows (xs_requests st')"] claim(1) True
    show ?thesis by (simp add: export_abs_def)
  qed
next
  case (quiet st')
  with quiet_simulates [OF quiet_takes [OF quiet(2)]] show ?thesis by (simp add: export_abs_def)
qed

lemma export_step_ids:
  assumes "export_ids s" "export_step cfg s s'"
  shows "export_ids s'"
  using assms(2)
proof cases
  case (claim requestId userId token now ok st')
  have "map xr_id (xs_requests st') = map xr_id (xs_requests (sy_state s))"
    unfolding token_claim_cases(1) [OF claim(2)] by (intro map_update_where) simp
  with assms(1) claim(1) show ?thesis by (simp add: export_ids_def)
next
  case (quiet st')
  with assms(1) quiet_takes [OF quiet(2)] show ?thesis by (simp add: export_ids_def only_takes_def)
qed (use assms(1) in \<open>simp add: export_ids_def issue_link_def map_update_where\<close>)

interpretation links: one_shot export_abs no_exports "export_step cfg" export_ids for cfg
proof unfold_locales
  show "export_ids no_exports" "export_abs no_exports = ({}, {}, [])"
    by (simp_all add: export_ids_def export_abs_def no_exports_def token_rows_def)
qed (fact export_step_ids export_step_simulates)+

text \<open>C35: however requests interleave, a download token is granted at most once; whoever presents a
  token that was granted is refused, also by an update that was read for before.\<close>

theorem download_granted_once:
  assumes "(export_step cfg)\<^sup>*\<^sup>* no_exports s"
  shows "distinct (sy_granted s) \<and>
         (\<forall>requestId userId token now. (requestId, hashDownloadToken cfg token) \<in> set (sy_granted s) \<longrightarrow>
            \<not> fst (token_claim cfg requestId userId token now (sy_state s)) \<and>
            \<not> fst (validateAndConsumeToken cfg requestId userId token now (sy_state s)))"
proof -
  have refused: "\<not> fst (token_claim cfg requestId userId token now (sy_state s))"
    if "(requestId, hashDownloadToken cfg token) \<in> set (sy_granted s)" for requestId userId token now
  proof
    assume ok: "fst (token_claim cfg requestId userId token now (sy_state s))"
    have "distinct (map xr_id (xs_requests (sy_state s)))"
      using links.run_inv [OF assms] by (simp add: export_ids_def)
    with ok have "(requestId, hashDownloadToken cfg token) \<in> token_rows (xs_requests (sy_state s))"
      using claim_tokens(1) token_claim_cases(2) by (metis prod.collapse)
    with links.granted_is_dead [OF assms] that show False by (simp add: export_abs_def)
  qed
  moreover have "\<not> fst (validateAndConsumeToken cfg requestId userId token now (sy_state s))"
    if "(requestId, hashDownloadToken cfg token) \<in> set (sy_granted s)" for requestId userId token now
    using refused [OF that] by (auto simp: validateAndConsumeToken_def token_read_def split: option.split)
  ultimately show ?thesis using links.granted_once [OF assms] by (simp add: export_abs_def)
qed

section \<open>Who gets a file\<close>

lemma check_link_ok:
  assumes "check_link cfg l now st = (None, st1)"
  obtains userId e where "st1 = st" "ln_userId l = Some userId" "Option.bind (ln_expires l) parseInt = Some e" "now \<le> e"
    "ln_chunk l = None \<Longrightarrow> truthy (ln_token l)"
    "ln_signature l = Some (xc_hmac cfg (signing_key cfg)
       (data_to_sign (ln_requestId l) userId (map_option (\<lambda>c. nan_text (parseInt c)) (ln_chunk l)) (the (ln_expires l)) (the (ln_token l))))"
  using assms that
  by (cases "ln_userId l"; cases "ln_signature l") (auto simp: check_link_def Let_def not_less split: if_splits option.splits)

lemma validate_ok:
  assumes "validateAndConsumeToken cfg requestId userId token now st = (True, st')" "distinct (map xr_id (xs_requests st))"
  obtains r where "owned_request requestId userId st = Some r" "isFileAvailable cfg now r" "token_hit cfg requestId userId token r"
    "xs_requests st' = update_where (token_hit cfg requestId userId token) (\<lambda>r. r\<lparr>xr_downloadTokenHash := None, xr_downloadedAt := Some now\<rparr>) (xs_requests st)"
proof -
  from assms(1) obtain r where r: "owned_request requestId userId st = Some r" "isFileAvailable cfg now r"
    and claim: "token_claim cfg requestId userId token now st = (True, st')"
    by (auto simp: validateAndConsumeToken_def token_read_def split: option.splits if_splits prod.splits bool.splits)
  from token_claim_cases(2) [OF claim] obtain x where x: "x \<in> set (xs_requests st)" "token_hit cfg requestId userId token x" by auto
  have "r \<in> set (xs_requests st)" "xr_id r = requestId" using r(1) by (auto simp: owned_request_def dest: find_one_SomeD)
  with x have "x = r" using distinct_keys_eq [OF assms(2)] by (simp add: token_hit_def)
  with x r token_claim_cases(1) [OF claim] that show thesis by blast
qed

lemma part_links_requests:
  "part_links cfg requestId userId is now st = (us, st') \<Longrightarrow> xs_requests st' = xs_requests st \<and> length us = length is"
proof (induction "is" arbitrary: st us)
  case (Cons i "is")
  then show ?case
    by (auto simp: generateSignedDownloadUrl_def issue_link_def split: prod.splits)
qed simp

definition content_of :: "export_state \<Rightarrow> export_request \<Rightarrow> download_content \<Rightarrow> bool" where
  "content_of st r content =
     (case content of
        File d \<Rightarrow> xr_fileData r = Some d
      | Chunk c \<Rightarrow> c \<in> set (xs_chunks st) \<and> ch_exportRequestId c = xr_id r
      | Parts n _ _ us \<Rightarrow> xr_isChunked r \<and> n = xr_chunkCount r \<and> length us = n)"

lemma serve_chunk_ok:
  assumes "serve_chunk cfg l now st = Inr content"
  obtains r where "owned_request (ln_requestId l) (the (ln_userId l)) st = Some r" "isFileAvailable cfg now r" "content_of st r content"
  using assms
  by (auto simp: serve_chunk_def getExportChunk_def content_of_def owned_request_def
      split: option.splits if_splits exn.splits dest!: find_one_SomeD)

lemma serve_file_ok:
  assumes "serve_file cfg l now st = (Inr content, st')"
  obtains r where "owned_request (ln_requestId l) (the (ln_userId l)) st = Some r" "content_of st r content"
  using assms
  by (fastforce simp: serve_file_def getExportFile_def content_of_def
      split: option.splits if_splits prod.splits dest: part_links_requests)

lemma owned_after_claim:
  assumes "distinct (map xr_id (xs_requests st))" "owned_request i u st = Some r" "token_hit cfg i u token r"
    "xs_requests st' = update_where (token_hit cfg i u token) f (xs_requests st)" "xr_id (f r) = i" "xr_userId (f r) = u"
    "\<And>x. xr_id (f x) = xr_id x"
  shows "owned_request i u st' = Some (f r)"
  unfolding owned_request_def
proof (rule find_one_unique)
  have r: "r \<in> set (xs_requests st)" "xr_id r = i" using assms(2) by (auto simp: owned_request_def dest: find_one_SomeD)
  with assms(3,4) show "f r \<in> set (xs_requests st')" by (simp add: update_where_hitI)
  show "xr_id (f r) = i \<and> xr_userId (f r) = u" using assms(5,6) by simp
  fix x assume x: "x \<in> set (xs_requests st')" "xr_id x = i \<and> xr_userId x = u"
  from x(1) [unfolded assms(4)] show "x = f r"
  proof (cases rule: in_update_whereE)
    case (hit y)
    with distinct_keys_eq [OF assms(1) hit(1) r(1)] r(2) show ?thesis by (simp add: token_hit_def)
  next
    case miss
    with distinct_keys_eq [OF assms(1) miss(1) r(1)] x(2) r(2) assms(3) show ?thesis by simp
  qed
qed

lemma download_checked:
  assumes "download cfg l now st = (Inr content, st')"
  obtains userId e where "check_link cfg l now st = (None, st)" "ln_userId l = Some userId"
    "Option.bind (ln_expires l) parseInt = Some e" "now \<le> e"
    "ln_signature l = Some (xc_hmac cfg (signing_key cfg)
       (data_to_sign (ln_requestId l) userId (map_option (\<lambda>c. nan_text (parseInt c)) (ln_chunk l)) (the (ln_expires l)) (the (ln_token l))))"
proof -
  from assms obtain st1 where chk: "check_link cfg l now st = (None, st1)"
    by (auto simp: download_def split: prod.splits option.splits)
  then show thesis by (cases rule: check_link_ok) (use chk that in blast)
qed

lemma download_single:
  assumes "download cfg l now st = (Inr content, st')" "distinct (map xr_id (xs_requests st))" "ln_chunk l = None" "ln_userId l = Some userId"
  obtains r where "owned_request (ln_requestId l) userId st = Some r" "isFileAvailable cfg now r" "content_of st r content"
    "token_hit cfg (ln_requestId l) userId (the (ln_token l)) r"
    "xs_requests st' = update_where (token_hit cfg (ln_requestId l) userId (the (ln_token l)))
       (\<lambda>r. r\<lparr>xr_downloadTokenHash := None, xr_downloadedAt := Some now\<rparr>) (xs_requests st)"
proof -
  let ?tok = "the (ln_token l)" and ?claim = "\<lambda>r. r\<lparr>xr_downloadTokenHash := None, xr_downloadedAt := Some now\<rparr>"
  from assms(1) have "check_link cfg l now st = (None, st)" by (rule download_checked)
  with assms obtain st2 where
    v: "validateAndConsumeToken cfg (ln_requestId l) userId ?tok now st = (True, st2)" and
    f: "serve_file cfg l now st2 = (Inr content, st')"
    by (auto simp: download_def split: prod.splits bool.splits)
  from v assms(2) obtain r where r: "owned_request (ln_requestId l) userId st = Some r" "isFileAvailable cfg now r"
    "token_hit cfg (ln_requestId l) userId ?tok r"
    "xs_requests st2 = update_where (token_hit cfg (ln_requestId l) userId ?tok) ?claim (xs_requests st)" by (rule validate_ok)
  have "owned_request (ln_requestId l) userId st2 = Some (?claim r)"
    by (rule owned_after_claim [OF assms(2) r(1,3,4)]) (use r(3) in \<open>auto simp: token_hit_def\<close>)
  with f assms(4) have "content_of st2 (?claim r) content" by (auto elim!: serve_file_ok)
  moreover have "xs_chunks st2 = xs_chunks st" using v
    by (auto simp: validateAndConsumeToken_def token_read_def token_claim_def Let_def recordFailedDownloadAttempt_def
        split: option.splits if_splits prod.splits bool.splits)
  ultimately have "content_of st r content" by (simp add: content_of_def split: download_content.splits)
  moreover have "xs_requests st' = xs_requests st2" using f
    by (auto simp: serve_file_def getExportFile_def split: option.splits if_splits prod.splits dest!: part_links_requests)
  ultimately show thesis using r that by simp
qed

lemma claimed_no_hit:
  "list_all (\<lambda>x. \<not> token_hit cfg i u tok x) (update_where (token_hit cfg i u tok) (\<lambda>r. r\<lparr>xr_downloadTokenHash := None, xr_downloadedAt := Some now\<rparr>) t)"
  by (auto simp: list_all_iff token_hit_def elim!: in_update_whereE)

text \<open>C36: nothing is handed out without a signature of the server over the export, the account and the
  time limit, before that limit, for an export of that account that is ready and still kept; what is
  handed out belongs to it, and without a part number the one-time token was there and is gone.\<close>

theorem download_authorised:
  assumes "download cfg l now st = (Inr content, st')" "distinct (map xr_id (xs_requests st))"
  shows "\<exists>userId e r. ln_userId l = Some userId \<and> Option.bind (ln_expires l) parseInt = Some e \<and> now \<le> e \<and>
     ln_signature l = Some (xc_hmac cfg (signing_key cfg)
       (data_to_sign (ln_requestId l) userId (map_option (\<lambda>c. nan_text (parseInt c)) (ln_chunk l)) (the (ln_expires l)) (the (ln_token l)))) \<and>
     owned_request (ln_requestId l) userId st = Some r \<and> isFileAvailable cfg now r \<and> content_of st r content \<and>
     (ln_chunk l = None \<longrightarrow> token_hit cfg (ln_requestId l) userId (the (ln_token l)) r \<and>
        list_all (\<lambda>x. \<not> token_hit cfg (ln_requestId l) userId (the (ln_token l)) x) (xs_requests st'))"
  using assms(1)
proof (rule download_checked)
  fix userId e
  assume chk: "check_link cfg l now st = (None, st)" and l: "ln_userId l = Some userId"
    "Option.bind (ln_expires l) parseInt = Some e" "now \<le> e"
    "ln_signature l = Some (xc_hmac cfg (signing_key cfg)
       (data_to_sign (ln_requestId l) userId (map_option (\<lambda>c. nan_text (parseInt c)) (ln_chunk l)) (the (ln_expires l)) (the (ln_token l))))"
  show ?thesis
  proof (cases "ln_chunk l")
    case (Some c)
    with assms(1) chk have "serve_chunk cfg l now st = Inr content" by (auto simp: download_def)
    with l Some show ?thesis by (auto elim!: serve_chunk_ok)
  next
    case None
    from assms None l(1) obtain r where "owned_request (ln_requestId l) userId st = Some r" "isFileAvailable cfg now r"
      "content_of st r content" "token_hit cfg (ln_requestId l) userId (the (ln_token l)) r"
      "xs_requests st' = update_where (token_hit cfg (ln_requestId l) userId (the (ln_token l)))
         (\<lambda>r. r\<lparr>xr_downloadTokenHash := None, xr_downloadedAt := Some now\<rparr>) (xs_requests st)" by (rule download_single)
    with claimed_no_hit l show ?thesis by (intro exI [of _ userId] exI [of _ e] exI [of _ r]) simp
  qed
qed

section \<open>A link works\<close>

lemma owned_request_mem:
  "distinct (map xr_id (xs_requests st)) \<Longrightarrow> r \<in> set (xs_requests st) \<Longrightarrow> owned_request (xr_id r) (xr_userId r) st = Some r"
  unfolding owned_request_def by (rule find_one_unique) (auto dest: distinct_keys_eq)

lemma check_signed_link:
  assumes "0 \<le> now + export_ttl cfg" "later \<le> now + export_ttl cfg" "userId \<noteq> []" "token \<noteq> []" "\<And>k t. xc_hmac cfg k t \<noteq> []"
  shows "check_link cfg (signed_link cfg i userId None token now) later st = (None, st)"
  using assms by (simp add: check_link_def signed_link_def Let_def parseInt_int_str)

lemma expired_link:
  "0 \<le> now + export_ttl cfg \<Longrightarrow> now + export_ttl cfg < later \<Longrightarrow>
   check_link cfg (signed_link cfg i userId c token now) later st = (Some (Gone ''EXPORT_LINK_EXPIRED''), st)"
  by (simp add: check_link_def signed_link_def Let_def parseInt_int_str)

lemma issue_row:
  assumes "distinct (map xr_id (xs_requests st))" "r \<in> set (xs_requests st)"
  shows "distinct (map xr_id (xs_requests (issue_link cfg (xr_id r) u None token now st)))"
    and "owned_request (xr_id r) (xr_userId r) (issue_link cfg (xr_id r) u None token now st) =
           Some (r\<lparr>xr_downloadTokenHash := Some (hashDownloadToken cfg token), xr_downloadedAt := None\<rparr>)"
proof -
  let ?st1 = "issue_link cfg (xr_id r) u None token now st"
  let ?f = "\<lambda>r. r\<lparr>xr_downloadTokenHash := Some (hashDownloadToken cfg token), xr_downloadedAt := None\<rparr>"
  have rows: "xs_requests ?st1 = update_where (\<lambda>x. xr_id x = xr_id r) ?f (xs_requests st)"
    by (simp add: issue_link_def)
  then show d: "distinct (map xr_id (xs_requests ?st1))" using assms(1) by (simp add: map_update_where)
  have "?f r \<in> set (xs_requests ?st1)"
    unfolding rows by (rule update_where_hitI [of r _ "\<lambda>x. xr_id x = xr_id r"]) (simp_all add: assms(2))
  from owned_request_mem [OF d this] show "owned_request (xr_id r) (xr_userId r) ?st1 = Some (?f r)" by simp
qed

lemma distinct_filter_key:
  "distinct (map key t) \<Longrightarrow> r \<in> set t \<Longrightarrow> filter (\<lambda>x. key x = key r) t = [r]"
proof (induction t)
  case (Cons x t)
  then show ?case by (cases "r = x") (auto simp: filter_empty_conv image_iff)
qed simp

lemma validate_granted:
  assumes "distinct (map xr_id (xs_requests st))" "owned_request i u st = Some r" "isFileAvailable cfg now r"
    "xr_downloadTokenHash r = Some (hashDownloadToken cfg token)" "xr_downloadedAt r = None" "hashDownloadToken cfg token \<noteq> []"
  shows "fst (validateAndConsumeToken cfg i u token now st)"
proof -
  have r: "r \<in> set (xs_requests st)" "xr_id r = i" "xr_userId r = u"
    using assms(2) by (auto simp: owned_request_def dest: find_one_SomeD)
  have read: "token_read cfg i u token now st = (True, st)"
    using assms(2-6) by (simp add: token_read_def secureCompare_def)
  have "token_hit cfg i u token x \<longleftrightarrow> xr_id x = i" if "x \<in> set (xs_requests st)" for x
  proof
    assume "xr_id x = i"
    with distinct_keys_eq [OF assms(1) that r(1)] r(2) have "x = r" by simp
    with r assms(4,5) show "token_hit cfg i u token x" by (simp add: token_hit_def)
  qed (simp add: token_hit_def)
  then have "filter (token_hit cfg i u token) (xs_requests st) = filter (\<lambda>x. xr_id x = i) (xs_requests st)"
    by (intro filter_cong) simp_all
  also have "\<dots> = [r]"
    using distinct_filter_key [OF assms(1) r(1)] r(2) by simp
  finally have "affected (token_hit cfg i u token) (xs_requests st) = 1" by (simp add: affected_def)
  with read show ?thesis by (simp add: validateAndConsumeToken_def token_claim_def Let_def)
qed

lemma used_token_refused:
  assumes "distinct (map xr_id (xs_requests st))" "list_all (\<lambda>x. \<not> token_hit cfg i u token x) (xs_requests st)"
  shows "\<not> fst (validateAndConsumeToken cfg i u token now st)"
proof
  assume "fst (validateAndConsumeToken cfg i u token now st)"
  then obtain st' where "validateAndConsumeToken cfg i u token now st = (True, st')" by (metis prod.collapse)
  from this assms(1) obtain r where "owned_request i u st = Some r" "token_hit cfg i u token r" by (rule validate_ok)
  with assms(2) show False by (auto simp: owned_request_def list_all_iff dest: find_one_SomeD)
qed

lemma fresh_link_served:
  assumes "distinct (map xr_id (xs_requests st))" "r \<in> set (xs_requests st)" "xr_isChunked r \<or> xr_fileData r \<noteq> None"
    "xr_userId r \<noteq> []" "token \<noteq> []" "\<And>k t. xc_hmac cfg k t \<noteq> []"
    "0 \<le> now + export_ttl cfg" "xr_createdAt r \<le> now" "isFileAvailable cfg later r"
  obtains content st2 where
    "download cfg (signed_link cfg (xr_id r) (xr_userId r) None token now) later
       (issue_link cfg (xr_id r) (xr_userId r) None token now st) = (Inr content, st2)"
proof -
  let ?i = "xr_id r" and ?u = "xr_userId r" and ?l = "signed_link cfg (xr_id r) (xr_userId r) None token now"
  let ?st1 = "issue_link cfg (xr_id r) (xr_userId r) None token now st"
  let ?claim = "\<lambda>r. r\<lparr>xr_downloadTokenHash := None, xr_downloadedAt := Some later\<rparr>"
  let ?r1 = "r\<lparr>xr_downloadTokenHash := Some (hashDownloadToken cfg token), xr_downloadedAt := None\<rparr>"
  note row = issue_row [OF assms(1,2), of cfg ?u token now]
  have avail: "isFileAvailable cfg later ?r1" using assms(9) by (simp add: isFileAvailable_def)
  have "later \<le> now + export_ttl cfg" using assms(8,9) by (simp add: isFileAvailable_def getExpiryTimestamp_def)
  then have chk: "check_link cfg ?l later ?st1 = (None, ?st1)" using check_signed_link assms by blast
  have l: "ln_requestId ?l = ?i" "ln_userId ?l = Some ?u" "ln_chunk ?l = None" "ln_token ?l = Some token"
    by (simp_all add: signed_link_def Let_def)
  have "fst (validateAndConsumeToken cfg ?i ?u token later ?st1)"
    by (rule validate_granted [OF row avail]) (simp_all add: assms(6) hashDownloadToken_def)
  then obtain st2 where v: "validateAndConsumeToken cfg ?i ?u token later ?st1 = (True, st2)" by (metis prod.collapse)
  from v row(1) obtain x where x: "owned_request ?i ?u ?st1 = Some x" "token_hit cfg ?i ?u token x"
    "xs_requests st2 = update_where (token_hit cfg ?i ?u token) ?claim (xs_requests ?st1)" by (rule validate_ok)
  have "owned_request ?i ?u st2 = Some (?claim x)"
    by (rule owned_after_claim [OF row(1) x]) (use x(2) in \<open>auto simp: token_hit_def\<close>)
  with x(1) row(2) have "owned_request ?i ?u st2 = Some (?claim ?r1)" by simp
  then have "\<exists>content st3. serve_file cfg ?l later st2 = (Inr content, st3)"
    using assms(3,9) l by (auto simp: serve_file_def getExportFile_def isFileAvailable_def split: prod.split)
  with chk l v that show thesis by (auto simp: download_def)
qed

text \<open>C37: a link that was just made works, within the time the file is kept, and works once: the
  first use yields the file or the list of its parts, any further use of the same link is answered
  with 410.\<close>

theorem fresh_link_works_once:
  assumes "distinct (map xr_id (xs_requests st))" "r \<in> set (xs_requests st)" "xr_isChunked r \<or> xr_fileData r \<noteq> None"
    "xr_userId r \<noteq> []" "token \<noteq> []" "\<And>k t. xc_hmac cfg k t \<noteq> []"
    "0 \<le> now + export_ttl cfg" "xr_createdAt r \<le> now" "isFileAvailable cfg later r"
  shows "\<exists>content st2. download cfg (signed_link cfg (xr_id r) (xr_userId r) None token now) later
             (issue_link cfg (xr_id r) (xr_userId r) None token now st) = (Inr content, st2) \<and>
           (\<forall>again. \<exists>code. fst (download cfg (signed_link cfg (xr_id r) (xr_userId r) None token now) again st2) = Inl (Gone code))"
proof -
  let ?i = "xr_id r" and ?u = "xr_userId r" and ?l = "signed_link cfg (xr_id r) (xr_userId r) None token now"
  have l: "ln_requestId ?l = ?i" "ln_userId ?l = Some ?u" "ln_chunk ?l = None" "ln_token ?l = Some token"
    by (simp_all add: signed_link_def Let_def)
  note d1 = issue_row(1) [OF assms(1,2), of cfg ?u token now]
  from assms obtain content st2 where first: "download cfg ?l later (issue_link cfg ?i ?u None token now st) = (Inr content, st2)"
    by (rule fresh_link_served)
  from first d1 l(3,2) have "\<exists>P f. xs_requests st2 = update_where P f (xs_requests (issue_link cfg ?i ?u None token now st)) \<and>
      P = token_hit cfg ?i ?u token \<and> f = (\<lambda>r. r\<lparr>xr_downloadTokenHash := None, xr_downloadedAt := Some later\<rparr>)"
    by (rule download_single) (simp add: l)
  then have used: "list_all (\<lambda>x. \<not> token_hit cfg ?i ?u token x) (xs_requests st2)" and d2: "distinct (map xr_id (xs_requests st2))"
    using claimed_no_hit d1 by (auto simp: map_update_where)
  have "\<exists>code. fst (download cfg ?l again st2) = Inl (Gone code)" for again
  proof (cases "again \<le> now + export_ttl cfg")
    case True
    then have "check_link cfg ?l again st2 = (None, st2)" using check_signed_link assms by blast
    with l used_token_refused [OF d2 used, of again] show ?thesis
      by (auto simp: download_def split: prod.split bool.split)
  next
    case False
    with expired_link [OF assms(7)] show ?thesis by (simp add: download_def)
  qed
  with first show ?thesis by blast
qed

section \<open>How often\<close>

text \<open>The exports of an account, in the order they were asked for, are a week apart.\<close>

definition week_apart :: "export_request \<Rightarrow> export_request \<Rightarrow> bool" where
  "week_apart a b \<longleftrightarrow> (xr_userId a = xr_userId b \<longrightarrow> xr_createdAt a + 7 * DAY_MS \<le> xr_createdAt b)"

definition spaced :: "export_request list \<Rightarrow> bool" where
  "spaced t = sorted_wrt week_apart t"

definition active_jobs :: "string \<Rightarrow> export_request list \<Rightarrow> export_request list" where
  "active_jobs userId t = filter (\<lambda>r. xr_userId r = userId \<and> (xr_status r = XPending \<or> xr_status r = XProcessing)) t"

lemma request_refused_None:
  assumes "request_refused userId now st = None"
  shows "active_jobs userId (xs_requests st) = []"
    and "r \<in> set (xs_requests st) \<Longrightarrow> xr_userId r = userId \<Longrightarrow> xr_createdAt r \<le> now - 7 * DAY_MS"
  using assms by (auto simp: request_refused_def active_jobs_def filter_empty_conv find_one_None_iff not_less split: if_splits)

text \<open>Answered one after the other, requests give an account an export every seven days at most,
  and never a second one while one is under way.\<close>

theorem exports_spaced:
  assumes "spaced (xs_requests st)" "length (active_jobs u (xs_requests st)) \<le> 1" "now \<le> dbNow"
  shows "spaced (xs_requests (snd (requestExport cfg userId newId now dbNow up st))) \<and>
         length (active_jobs u (xs_requests (snd (requestExport cfg userId newId now dbNow up st)))) \<le> 1"
proof (cases "xc_background cfg = Some ''true'' \<and> request_refused userId now st = None")
  case True
  then have rows: "xs_requests (snd (requestExport cfg userId newId now dbNow up st)) = xs_requests st @ [new_request newId userId now dbNow]"
    by (simp add: requestExport_def request_write_def Let_def)
  note free = request_refused_None [OF True [THEN conjunct2]]
  have "week_apart r (new_request newId userId now dbNow)" if "r \<in> set (xs_requests st)" for r
    using free(2) [OF that] assms(3) by (auto simp: week_apart_def new_request_def)
  with assms(1) have "spaced (xs_requests st @ [new_request newId userId now dbNow])"
    by (simp add: spaced_def sorted_wrt_append)
  moreover have "length (active_jobs u (xs_requests st @ [new_request newId userId now dbNow])) \<le> 1"
    using assms(2) free(1) by (cases "u = userId") (simp_all add: active_jobs_def new_request_def)
  ultimately show ?thesis using rows by simp
next
  case False
  then have "xs_requests (snd (requestExport cfg userId newId now dbNow up st)) = xs_requests st"
    by (auto simp: requestExport_def split: option.split)
  with assms show ?thesis by simp
qed

text \<open>Two requests that both read before either writes are both accepted.\<close>

lemma racing_requests_both_accepted:
  assumes "request_refused u now st = None" "i \<noteq> j"
  shows "length (active_jobs u (xs_requests (snd (request_write cfg u j now now True (snd (request_write cfg u i now now True st)))))) = 2"
  using request_refused_None(1) [OF assms(1)] by (simp add: request_write_def Let_def active_jobs_def new_request_def)

text \<open>When the queue does not take the job the export stays pending, and no other can be requested.\<close>

lemma unqueued_export_blocks:
  assumes "xc_background cfg = Some ''true''" "request_refused u now st = None"
  shows "fst (requestExport cfg u j later later up (snd (requestExport cfg u i now now False st))) =
           Inl (ConflictException ''An export is already in progress. Please wait for it to complete.'')"
  using assms
  by (auto simp: requestExport_def request_write_def Let_def request_refused_def new_request_def find_one_append split: option.split)

section \<open>The newest link of the history\<close>

lemma insort_map: "(\<And>x. k (g x) = k x) \<Longrightarrow> insort_key k (g x) (map g xs) = map g (insort_key k x xs)"
  by (induction xs) auto

lemma order_desc_map: "(\<And>x. k (g x) = k x) \<Longrightarrow> order_desc k (map g xs) = map g (order_desc k xs)"
  unfolding order_desc_def by (induction xs) (simp_all add: insort_map)

lemma own_requests_issue:
  "own_requests u (issue_link cfg i v None token now st) =
     map (\<lambda>r. if xr_id r = i then r\<lparr>xr_downloadTokenHash := Some (hashDownloadToken cfg token), xr_downloadedAt := None\<rparr> else r) (own_requests u st)"
  by (simp add: own_requests_def issue_link_def update_where_def order_desc_map [symmetric] filter_map o_def if_distrib cong: if_cong)

lemma toHistoryItem_other:
  assumes "toHistoryItem cfg token now r st = (item, st')" "x \<in> set (xs_requests st)" "xr_id x \<noteq> xr_id r"
  shows "x \<in> set (xs_requests st')"
  using assms by (auto simp: toHistoryItem_def generateSignedDownloadUrl_def issue_link_def Let_def set_update_where split: if_splits)

lemma history_items_other:
  assumes "history_items cfg tokens now rs st = (items, st')" "x \<in> set (xs_requests st)" "xr_id x \<notin> xr_id ` set rs"
  shows "x \<in> set (xs_requests st')"
  using assms
proof (induction rs arbitrary: st items)
  case (Cons r rs)
  then show ?case by (fastforce split: prod.splits dest: toHistoryItem_other)
qed simp

lemma history_items_ids:
  "history_items cfg tokens now rs st = (items, st') \<Longrightarrow> map xr_id (xs_requests st') = map xr_id (xs_requests st)"
proof (induction rs arbitrary: st items)
  case (Cons r rs)
  have "map xr_id (xs_requests (snd (toHistoryItem cfg t now r s))) = map xr_id (xs_requests s)" for t s
    by (simp add: toHistoryItem_def generateSignedDownloadUrl_def issue_link_def Let_def map_update_where)
  with Cons show ?case by (auto split: prod.splits) (metis snd_conv)
qed simp

lemma own_requests_distinct: "distinct (map xr_id (xs_requests st)) \<Longrightarrow> distinct (map xr_id (own_requests u st))"
proof -
  assume "distinct (map xr_id (xs_requests st))"
  then have "distinct (map xr_id (filter (\<lambda>r. xr_userId r = u) (xs_requests st)))" by (rule distinct_map_filter)
  moreover have "mset (map xr_id (own_requests u st)) = mset (map xr_id (filter (\<lambda>r. xr_userId r = u) (xs_requests st)))"
    by (simp add: own_requests_def)
  ultimately show ?thesis by (metis mset_eq_imp_distinct_iff)
qed

text \<open>The history answers with a link to the newest export and makes another for the same export
  before it answers: the first is dead when it arrives.\<close>

lemma history_latest_link_dead:
  assumes d: "distinct (map xr_id (xs_requests st))" and own: "own_requests u st = r # rest" and tok: "hasActiveToken cfg now r"
    and neq: "\<not> secureCompare (hashDownloadToken cfg (tokens (xr_id r))) (hashDownloadToken cfg token)"
  obtains item items st' where "history cfg token tokens u now st = ((Some item, items), st')"
    "hi_downloadUrl item = Some (link_text cfg (signed_link cfg (xr_id r) u None token now))"
    "\<not> fst (validateAndConsumeToken cfg (xr_id r) u token later st')"
proof -
  let ?iss = "\<lambda>t r. r\<lparr>xr_downloadTokenHash := Some (hashDownloadToken cfg t), xr_downloadedAt := None\<rparr>"
  let ?st1 = "issue_link cfg (xr_id r) u None token now st"
  let ?st2 = "issue_link cfg (xr_id r) u None (tokens (xr_id r)) now ?st1"
  have "r \<in> set (own_requests u st)" by (simp add: own)
  then have r: "r \<in> set (xs_requests st)" "xr_userId r = u" by (simp_all add: own_requests_def)
  have rest: "xr_id x \<noteq> xr_id r" if "x \<in> set rest" for x
    using own_requests_distinct [OF d, of u] that by (simp add: own) (metis image_eqI)
  have own1: "own_requests u ?st1 = ?iss token r # rest"
    using rest by (auto simp: own_requests_issue own intro: map_idI)
  obtain item where latest: "getLatestExport cfg token u now st = (Some item, ?st1)"
    and url: "hi_downloadUrl item = Some (link_text cfg (signed_link cfg (xr_id r) u None token now))"
    using tok r(2) by (simp add: getLatestExport_def own toHistoryItem_def Let_def generateSignedDownloadUrl_def)
  have tok1: "hasActiveToken cfg now (?iss token r)" using tok by (simp add: hasActiveToken_def isFileAvailable_def)
  then have step: "snd (toHistoryItem cfg (tokens (xr_id r)) now (?iss token r) ?st1) = ?st2"
    using r(2) by (simp add: toHistoryItem_def Let_def generateSignedDownloadUrl_def)
  obtain is' st' where tl: "history_items cfg tokens now (take 19 rest) ?st2 = (is', st')" by fastforce
  have hist: "\<exists>items. history cfg token tokens u now st = ((Some item, items), st')"
    using step tl by (simp add: history_def latest getExportHistory_def own1 split: prod.split) (auto split: prod.splits)
  note one = issue_row [OF d r(1), of cfg u token now]
  have r1: "?iss token r \<in> set (xs_requests ?st1)" using one(2) by (auto simp: owned_request_def dest: find_one_SomeD)
  note two = issue_row [OF one(1) r1, of cfg u "tokens (xr_id r)" now, simplified]
  have "?iss (tokens (xr_id r)) r \<in> set (xs_requests ?st2)" using two(2) by (auto simp: owned_request_def dest: find_one_SomeD)
  moreover have "xr_id r \<notin> xr_id ` set (take 19 rest)" using rest by (metis imageE in_set_takeD)
  ultimately have "?iss (tokens (xr_id r)) r \<in> set (xs_requests st')" using history_items_other [OF tl] by simp
  moreover have "distinct (map xr_id (xs_requests st'))" using history_items_ids [OF tl] two(1) by simp
  ultimately have "owned_request (xr_id r) u st' = Some (?iss (tokens (xr_id r)) r)"
    using owned_request_mem r(2) by fastforce
  with neq have "\<not> fst (validateAndConsumeToken cfg (xr_id r) u token later st')"
    by (simp add: validateAndConsumeToken_def token_read_def)
  with hist url that show thesis by blast
qed

section \<open>The sweep\<close>

text \<open>What the sweep expires cannot be read by any link, its parts are gone, and a dry run changes
  nothing but the log.\<close>

lemma sweep_expires:
  assumes "r \<in> set (xs_requests st)" "xr_createdAt r < getRetentionCutoff days now"
    "distinct (map xr_id (xs_requests st))"
  shows "\<exists>x. owned_request (xr_id r) (xr_userId r) (snd (runCleanup cfg days audited False now st)) = Some x \<and>
           \<not> isFileAvailable cfg later x \<and> xr_fileData x = None \<and> xr_downloadTokenHash x = None"
    and "c \<in> set (xs_chunks (snd (runCleanup cfg days audited False now st))) \<Longrightarrow> ch_exportRequestId c \<noteq> xr_id r"
proof -
  let ?st' = "snd (runCleanup cfg days audited False now st)"
  have rs: "cleanup_rows days now st \<noteq> []" using assms(1,2) by (auto simp: cleanup_rows_def filter_empty_conv)
  have st': "xs_requests ?st' = xs_requests (cleanup_apply days now st)" "xs_chunks ?st' = xs_chunks (cleanup_apply days now st)"
    using rs by (simp_all add: runCleanup_def logCleanupAuditSummary_def Let_def)
  have d: "distinct (map xr_id (xs_requests ?st'))"
    using assms(3) unfolding st' by (simp add: cleanup_apply_def map_update_where expire_request_def)
  have "expire_request now r \<in> set (xs_requests ?st')"
    unfolding st' by (simp add: cleanup_apply_def update_where_hitI assms(1,2))
  from owned_request_mem [OF d this]
  show "\<exists>x. owned_request (xr_id r) (xr_userId r) ?st' = Some x \<and> \<not> isFileAvailable cfg later x \<and> xr_fileData x = None \<and> xr_downloadTokenHash x = None"
    by (simp add: expire_request_def isFileAvailable_def)
  show "c \<in> set (xs_chunks ?st') \<Longrightarrow> ch_exportRequestId c \<noteq> xr_id r"
    using assms(1,2) unfolding st' by (auto simp: cleanup_apply_def cleanup_rows_def)
qed

lemma dry_run_changes_nothing:
  "xs_requests (snd (runCleanup cfg days audited True now st)) = xs_requests st"
  "xs_chunks (snd (runCleanup cfg days audited True now st)) = xs_chunks st"
  by (simp_all add: runCleanup_def logCleanupAuditSummary_def Let_def)

section \<open>Examples\<close>

definition demo_cfg :: export_config where
  "demo_cfg = \<lparr>xc_background = Some ''true'', xc_linkTtl = None, xc_staleTtl = None, xc_secret = Some ''s'', xc_backendUrl = None,
     xc_hmac = (\<lambda>k t. ''00'' @ to_hex t), xc_iso = int_str\<rparr>"

definition demo_row :: export_request where
  "demo_row = (new_request ''e1'' ''7'' 0 0)\<lparr>xr_status := XReady, xr_fileData := Some ''zip''\<rparr>"

definition demo_exports :: export_state where
  "demo_exports = \<lparr>xs_requests = [demo_row], xs_chunks = [], xs_queue = [], xs_audit = [], xs_cleanups = []\<rparr>"

theorem exports_spaced_witness:
  "spaced (xs_requests (snd (requestExport demo_cfg ''7'' ''e2'' 700000000 700000001 True demo_exports))) \<and>
   length (active_jobs ''7'' (xs_requests (snd (requestExport demo_cfg ''7'' ''e2'' 700000000 700000001 True demo_exports)))) \<le> 1"
  by (rule exports_spaced) (simp_all add: demo_exports_def spaced_def active_jobs_def demo_row_def new_request_def)

lemma demo_facts:
  "distinct (map xr_id (xs_requests demo_exports))" "demo_row \<in> set (xs_requests demo_exports)" "xr_isChunked demo_row \<or> xr_fileData demo_row \<noteq> None"
  "xr_userId demo_row \<noteq> []" "xc_hmac demo_cfg k t \<noteq> []" "0 \<le> 5 + export_ttl demo_cfg" "xr_createdAt demo_row \<le> 5" "isFileAvailable demo_cfg 9 demo_row"
  by (simp_all add: demo_exports_def demo_row_def demo_cfg_def new_request_def isFileAvailable_def getExpiryTimestamp_def export_ttl_def DAY_MS_def)

definition demo_link :: link where
  "demo_link = signed_link demo_cfg (xr_id demo_row) (xr_userId demo_row) None ''t'' 5"

definition demo_issued :: export_state where
  "demo_issued = issue_link demo_cfg (xr_id demo_row) (xr_userId demo_row) None ''t'' 5 demo_exports"

theorem download_authorised_witness:
  "\<exists>content userId e r. ln_userId demo_link = Some userId \<and> (9::int) \<le> e \<and>
     owned_request (ln_requestId demo_link) userId demo_issued = Some r \<and> isFileAvailable demo_cfg 9 r \<and> content_of demo_issued r content"
proof -
  obtain content st2 where "download demo_cfg demo_link 9 demo_issued = (Inr content, st2)"
    unfolding demo_link_def demo_issued_def
    by (rule fresh_link_served [of demo_exports demo_row "''t''" demo_cfg 5 9]) (rule demo_facts | simp)+
  moreover have "distinct (map xr_id (xs_requests demo_issued))"
    unfolding demo_issued_def by (rule issue_row) (rule demo_facts)+
  ultimately show ?thesis using download_authorised by blast
qed

theorem fresh_link_works_once_witness:
  "\<exists>content st2. download demo_cfg demo_link 9 demo_issued = (Inr content, st2) \<and>
     (\<forall>again. \<exists>code. fst (download demo_cfg demo_link again st2) = Inl (Gone code))"
  unfolding demo_link_def demo_issued_def by (rule fresh_link_works_once) (rule demo_facts | simp)+

text \<open>Requested, made ready, linked and claimed.\<close>

definition demo_sys :: "nat \<Rightarrow> export_sys" where
  "demo_sys n =
     (let k = (''e1'', hashDownloadToken demo_cfg ''t'');
          st1 = snd (request_write demo_cfg ''7'' ''e1'' 0 0 True (sy_state no_exports));
          st2 = issue_link demo_cfg ''e1'' ''7'' None ''t'' 5 st1;
          st3 = snd (token_claim demo_cfg ''e1'' ''7'' ''t'' 9 st2)
      in if n = 0 then no_exports
         else if n = 1 then no_exports\<lparr>sy_state := st1\<rparr>
         else if n = 2 then no_exports\<lparr>sy_state := st2, sy_issued := {k}\<rparr>
         else no_exports\<lparr>sy_state := st3, sy_issued := {k}, sy_granted := [k]\<rparr>)"

lemma demo_steps: "(export_step demo_cfg)\<^sup>*\<^sup>* no_exports (demo_sys 3)"
proof -
  let ?k = "(''e1'', hashDownloadToken demo_cfg ''t'')"
  have s1: "export_step demo_cfg no_exports (demo_sys 1)"
    using export_step.quiet [OF quiet_step.late_insert [of "''e1''" "sy_state no_exports" demo_cfg "''7''" 0 0 True]]
    by (simp add: demo_sys_def Let_def no_exports_def)
  have row: "''e1'' \<in> xr_id ` set (xs_requests (sy_state (demo_sys 1)))"
    by (simp add: demo_sys_def Let_def no_exports_def request_write_def new_request_def)
  have s2: "export_step demo_cfg (demo_sys 1) (demo_sys 2)"
    using export_step.issue [of "''e1''" demo_cfg "''t''" "demo_sys 1" "''7''" 5] row
    by (simp add: demo_sys_def Let_def no_exports_def)
  have "fst (token_claim demo_cfg ''e1'' ''7'' ''t'' 9 (sy_state (demo_sys 2)))"
    by (simp add: demo_sys_def Let_def no_exports_def request_write_def issue_link_def new_request_def token_claim_def token_hit_def affected_def)
  then have "token_claim demo_cfg ''e1'' ''7'' ''t'' 9 (sy_state (demo_sys 2)) = (True, sy_state (demo_sys 3))"
    by (auto simp: demo_sys_def Let_def prod_eq_iff)
  from export_step.claim [OF this] have s3: "export_step demo_cfg (demo_sys 2) (demo_sys 3)"
    by (simp add: demo_sys_def Let_def no_exports_def)
  from s1 s2 s3 show ?thesis by (meson rtranclp.rtrancl_into_rtrancl rtranclp.rtrancl_refl)
qed

theorem download_granted_once_witness:
  "distinct (sy_granted (demo_sys 3)) \<and> \<not> fst (validateAndConsumeToken demo_cfg ''e1'' ''7'' ''t'' 10 (sy_state (demo_sys 3)))"
proof -
  have "(''e1'', hashDownloadToken demo_cfg ''t'') \<in> set (sy_granted (demo_sys 3))" by (simp add: demo_sys_def Let_def)
  with download_granted_once [OF demo_steps] show ?thesis by blast
qed

end
