(* ===== verification/Export_Processor.thy ===== *)
theory Export_Processor
  imports Export_Redaction Data_Export
begin

text \<open>
  The worker that makes an export (\<^verbatim>\<open>data-export/export.processor.ts\<close>): it compiles the data, streams an
  archive into parts of ten megabytes and marks the request.

  The archiver is an argument: the buffers it emits for the files it was given, and the error it ends
  with, if any.  SHA-256 is an argument as well; so is which part the database refuses to store and
  whether the mail is sent.
  Shown: the parts that an account downloads are, put together, the archive of its redacted data.
\<close>

section \<open>Files\<close>

definition indent :: "nat \<Rightarrow> string" where
  "indent n = CHR 0x0A # replicate (2 * n) (CHR '' '')"

fun join_with :: "string \<Rightarrow> string list \<Rightarrow> string" where
  "join_with sep [] = []"
| "join_with sep [x] = x"
| "join_with sep (x # y # zs) = x @ sep @ join_with sep (y # zs)"

text \<open>\<open>JSON.stringify(v, null, 2)\<close> at a depth.\<close>

primrec json_pretty :: "json \<Rightarrow> nat \<Rightarrow> string" where
  "json_pretty JNull = (\<lambda>n. ''null'')"
| "json_pretty (JBool b) = (\<lambda>n. if b then ''true'' else ''false'')"
| "json_pretty (JInt i) = (\<lambda>n. int_str i)"
| "json_pretty (JFloat lit) = (\<lambda>n. lit)"
| "json_pretty (JStr s) = (\<lambda>n. json_string s)"
| "json_pretty (JArr vs) = (\<lambda>n. if vs = [] then ''[]''
     else ''['' @ join_with '','' (map (\<lambda>p. indent (n + 1) @ p (n + 1)) (map json_pretty vs)) @ indent n @ '']'')"
| "json_pretty (JObj kvs) = (\<lambda>n. if kvs = [] then ''{}''
     else ''{'' @ join_with '','' (map (\<lambda>(k, p). indent (n + 1) @ json_string k @ '': '' @ p (n + 1)) (map (map_prod id json_pretty) kvs)) @
          indent n @ ''}'')"

definition archive_files :: "export_env \<Rightarrow> export_data \<Rightarrow> (string \<times> string) list" where
  "archive_files env d =
     [(''complete_data.json'', json_pretty (export_json env d) 0), (''confessions.csv'', toCsv (xv_iso env) (ed_confessions d))]"

section \<open>Parts\<close>

text \<open>The size at which a part is stored is a field: \<open>CHUNK_SIZE_LIMIT\<close> in the service, and everything below
  holds for any.\<close>

record zip_env =
  ze_sha :: "string \<Rightarrow> string"
  ze_limit :: nat
  ze_archive :: "(string \<times> string) list \<Rightarrow> string list \<times> string option"
  ze_stored :: "nat \<Rightarrow> bool"

definition CHUNK_SIZE_LIMIT :: nat where "CHUNK_SIZE_LIMIT = 10 * 1024 * 1024"

text \<open>The variables of \<open>generateChunkedZip\<close>; \<open>zs_hashed\<close> is what was fed to the running hash.\<close>

record zip_state =
  zs_chunkCount :: nat
  zs_totalSize :: nat
  zs_buffer :: "string list"
  zs_size :: nat
  zs_hashed :: string
  zs_saved :: "export_chunk list"

definition zip_start :: zip_state where
  "zip_start = \<lparr>zs_chunkCount = 0, zs_totalSize = 0, zs_buffer = [], zs_size = 0, zs_hashed = [], zs_saved = []\<rparr>"

definition saveChunk :: "zip_env \<Rightarrow> ident \<Rightarrow> string \<Rightarrow> nat \<Rightarrow> export_chunk option" where
  "saveChunk ze requestId buffer index =
     (if ze_stored ze index
      then Some \<lparr>ch_exportRequestId = requestId, ch_chunkIndex = int index, ch_fileData = buffer, ch_chunkSize = length buffer,
                 ch_checksum = ze_sha ze buffer\<rparr>
      else None)"

text \<open>Storing what is buffered; the flag tells whether the database took it.\<close>

definition flush_chunk :: "zip_env \<Rightarrow> ident \<Rightarrow> zip_state \<Rightarrow> bool \<times> zip_state" where
  "flush_chunk ze requestId zs =
     (case saveChunk ze requestId (concat (zs_buffer zs)) (zs_chunkCount zs) of
        None \<Rightarrow> (False, zs\<lparr>zs_chunkCount := zs_chunkCount zs + 1\<rparr>)
      | Some c \<Rightarrow> (True, zs\<lparr>zs_chunkCount := zs_chunkCount zs + 1, zs_saved := zs_saved zs @ [c], zs_buffer := [], zs_size := 0\<rparr>))"

definition zip_buffer :: "string \<Rightarrow> zip_state \<Rightarrow> zip_state" where
  "zip_buffer buf zs =
     zs\<lparr>zs_hashed := zs_hashed zs @ buf, zs_totalSize := zs_totalSize zs + length buf,
        zs_buffer := zs_buffer zs @ [buf], zs_size := zs_size zs + length buf\<rparr>"

definition zip_write :: "zip_env \<Rightarrow> ident \<Rightarrow> string \<Rightarrow> zip_state \<Rightarrow> bool \<times> zip_state" where
  "zip_write ze requestId buf zs =
     (if zs_size (zip_buffer buf zs) \<ge> ze_limit ze then flush_chunk ze requestId (zip_buffer buf zs) else (True, zip_buffer buf zs))"

fun zip_writes :: "zip_env \<Rightarrow> ident \<Rightarrow> string list \<Rightarrow> zip_state \<Rightarrow> bool \<times> zip_state" where
  "zip_writes ze requestId [] zs = (True, zs)"
| "zip_writes ze requestId (b # bs) zs =
     (case zip_write ze requestId b zs of (False, zs') \<Rightarrow> (False, zs') | (True, zs') \<Rightarrow> zip_writes ze requestId bs zs')"

definition zip_final :: "zip_env \<Rightarrow> ident \<Rightarrow> zip_state \<Rightarrow> bool \<times> zip_state" where
  "zip_final ze requestId zs = (if zs_buffer zs \<noteq> [] then flush_chunk ze requestId zs else (True, zs))"

record zip_result =
  zr_chunkCount :: nat
  zr_totalSize :: nat
  zr_combinedChecksum :: string

definition generateChunkedZip :: "zip_env \<Rightarrow> ident \<Rightarrow> (string \<times> string) list \<Rightarrow> (string + zip_result) \<times> export_chunk list" where
  "generateChunkedZip ze requestId files =
     (case ze_archive ze files of (bufs, err) \<Rightarrow>
      (case zip_writes ze requestId bufs zip_start of
         (False, zs) \<Rightarrow> (Inl ''chunk could not be stored'', zs_saved zs)
       | (True, zs) \<Rightarrow>
           (case err of
              Some e \<Rightarrow> (Inl e, zs_saved zs)
            | None \<Rightarrow>
                (case zip_final ze requestId zs of
                   (False, zs') \<Rightarrow> (Inl ''chunk could not be stored'', zs_saved zs')
                 | (True, zs') \<Rightarrow>
                     (Inr \<lparr>zr_chunkCount = zs_chunkCount zs', zr_totalSize = zs_totalSize zs', zr_combinedChecksum = ze_sha ze (zs_hashed zs')\<rparr>,
                      zs_saved zs')))))"

section \<open>The job\<close>

text \<open>The user row of the mail: the columns \<open>emailEncrypted\<close> and \<open>username\<close>.  \<open>mailer\<close> answers with an
  error message or sends; the mails are address and name.\<close>

record mail_user =
  mu_id :: int
  mu_emailEncrypted :: "string option"
  mu_username :: string

definition process ::
  "export_env \<Rightarrow> zip_env \<Rightarrow> (string \<Rightarrow> string option) \<Rightarrow> string \<Rightarrow> ident \<Rightarrow> ms \<Rightarrow> export_db \<Rightarrow> mail_user list \<Rightarrow> export_state \<Rightarrow>
     export_state \<times> (string \<times> string) list" where
  "process env ze mailer userId requestId now db users st =
     (let st1 = markExportProcessing requestId now st in
      case compileUserData env userId now db of
        Inl e \<Rightarrow> (markExportFailed requestId (exn_message e) now st1, [])
      | Inr d \<Rightarrow>
          (case generateChunkedZip ze requestId (archive_files env d) of
             (Inl m, saved) \<Rightarrow> (markExportFailed requestId m now (st1\<lparr>xs_chunks := xs_chunks st1 @ saved\<rparr>), [])
           | (Inr z, saved) \<Rightarrow>
               (let st2 = set_request requestId
                      (\<lambda>r. r\<lparr>xr_status := XReady, xr_isChunked := True, xr_chunkCount := zr_chunkCount z,
                             xr_totalSize := nat_str (zr_totalSize z), xr_combinedChecksum := Some (zr_combinedChecksum z)\<rparr>)
                      (st1\<lparr>xs_chunks := xs_chunks st1 @ saved\<rparr>);
                    st3 = set_request requestId (\<lambda>r. r\<lparr>xr_completedAt := Some now\<rparr>) st2
                in case find_one (\<lambda>u. Some (mu_id u) = parseInt userId) users of
                     None \<Rightarrow> (st3, [])
                   | Some u \<Rightarrow>
                       if \<not> truthy (mu_emailEncrypted u) then (st3, [])
                       else case mailer (the (mu_emailEncrypted u)) of
                              None \<Rightarrow> (st3, [(the (mu_emailEncrypted u), mu_username u)])
                            | Some m \<Rightarrow> (markExportFailed requestId m now st3, []))))"

section \<open>Parts make up the archive\<close>

definition chunk_ok :: "zip_env \<Rightarrow> ident \<Rightarrow> nat \<Rightarrow> export_chunk \<Rightarrow> bool" where
  "chunk_ok ze requestId i c \<longleftrightarrow>
     ch_exportRequestId c = requestId \<and> ch_chunkIndex c = int i \<and> ch_chunkSize c = length (ch_fileData c) \<and>
     ch_checksum c = ze_sha ze (ch_fileData c)"

definition chunks_ok :: "zip_env \<Rightarrow> ident \<Rightarrow> export_chunk list \<Rightarrow> bool" where
  "chunks_ok ze requestId cs \<longleftrightarrow> list_all2 (chunk_ok ze requestId) [0..<length cs] cs"

definition zip_inv :: "zip_env \<Rightarrow> ident \<Rightarrow> string \<Rightarrow> zip_state \<Rightarrow> bool" where
  "zip_inv ze requestId written zs \<longleftrightarrow>
     chunks_ok ze requestId (zs_saved zs) \<and> zs_chunkCount zs = length (zs_saved zs) \<and>
     concat (map ch_fileData (zs_saved zs)) @ concat (zs_buffer zs) = written \<and> zs_hashed zs = written \<and> zs_totalSize zs = length written"

lemma chunks_ok_snoc:
  "chunks_ok ze requestId cs \<Longrightarrow> chunk_ok ze requestId (length cs) c \<Longrightarrow> chunks_ok ze requestId (cs @ [c])"
  by (simp add: chunks_ok_def list_all2_appendI)

lemma flush_chunk_True:
  assumes "flush_chunk ze requestId zs = (True, zs')"
  obtains c where "zs_saved zs' = zs_saved zs @ [c]" "zs_chunkCount zs' = zs_chunkCount zs + 1" "zs_buffer zs' = []"
    "zs_hashed zs' = zs_hashed zs" "zs_totalSize zs' = zs_totalSize zs"
    "chunk_ok ze requestId (zs_chunkCount zs) c" "ch_fileData c = concat (zs_buffer zs)"
proof (cases "saveChunk ze requestId (concat (zs_buffer zs)) (zs_chunkCount zs)")
  case (Some c)
  with assms have "zs' = zs\<lparr>zs_chunkCount := zs_chunkCount zs + 1, zs_saved := zs_saved zs @ [c], zs_buffer := [], zs_size := 0\<rparr>"
    by (simp add: flush_chunk_def)
  moreover have "chunk_ok ze requestId (zs_chunkCount zs) c" "ch_fileData c = concat (zs_buffer zs)"
    using Some by (auto simp: saveChunk_def chunk_ok_def split: if_splits)
  ultimately show thesis using that by simp
qed (use assms in \<open>simp add: flush_chunk_def\<close>)

lemma flush_inv:
  assumes "zip_inv ze requestId w zs" "flush_chunk ze requestId zs = (True, zs')"
  shows "zip_inv ze requestId w zs' \<and> zs_buffer zs' = []"
  using assms(2)
proof (rule flush_chunk_True)
  fix c
  assume c: "zs_saved zs' = zs_saved zs @ [c]" "zs_chunkCount zs' = zs_chunkCount zs + 1" "zs_buffer zs' = []"
    "zs_hashed zs' = zs_hashed zs" "zs_totalSize zs' = zs_totalSize zs"
    "chunk_ok ze requestId (zs_chunkCount zs) c" "ch_fileData c = concat (zs_buffer zs)"
  with assms(1) have "chunks_ok ze requestId (zs_saved zs')" by (simp add: zip_inv_def chunks_ok_snoc)
  with assms(1) c show ?thesis by (simp add: zip_inv_def)
qed

lemma zip_write_inv:
  assumes "zip_inv ze requestId w zs" "zip_write ze requestId b zs = (True, zs')"
  shows "zip_inv ze requestId (w @ b) zs'"
proof -
  have inv: "zip_inv ze requestId (w @ b) (zip_buffer b zs)" using assms(1) by (auto simp: zip_inv_def zip_buffer_def)
  show ?thesis
  proof (cases "ze_limit ze \<le> zs_size (zip_buffer b zs)")
    case True
    with assms(2) have "flush_chunk ze requestId (zip_buffer b zs) = (True, zs')" by (simp add: zip_write_def)
    with flush_inv [OF inv] show ?thesis by blast
  qed (use assms(2) inv in \<open>simp add: zip_write_def\<close>)
qed

lemma zip_writes_inv:
  "zip_inv ze requestId w zs \<Longrightarrow> zip_writes ze requestId bs zs = (True, zs') \<Longrightarrow> zip_inv ze requestId (w @ concat bs) zs'"
proof (induction bs arbitrary: w zs)
  case (Cons b bs)
  then show ?case using zip_write_inv by (fastforce split: prod.splits bool.splits)
qed simp

lemma generateChunkedZip_ok:
  assumes "generateChunkedZip ze requestId files = (Inr z, saved)"
  defines "w \<equiv> concat (fst (ze_archive ze files))"
  shows "chunks_ok ze requestId saved" "zr_chunkCount z = length saved" "concat (map ch_fileData saved) = w"
    "zr_totalSize z = length w" "zr_combinedChecksum z = ze_sha ze w"
proof -
  obtain bufs err where a: "ze_archive ze files = (bufs, err)" by fastforce
  with assms(1) obtain zs zs' where w1: "zip_writes ze requestId bufs zip_start = (True, zs)"
    and f: "zip_final ze requestId zs = (True, zs')"
    and z: "z = \<lparr>zr_chunkCount = zs_chunkCount zs', zr_totalSize = zs_totalSize zs', zr_combinedChecksum = ze_sha ze (zs_hashed zs')\<rparr>" "saved = zs_saved zs'"
    by (auto simp: generateChunkedZip_def split: prod.splits bool.splits option.splits)
  have "zip_inv ze requestId [] zip_start" by (simp add: zip_inv_def zip_start_def chunks_ok_def)
  from zip_writes_inv [OF this w1] have inv: "zip_inv ze requestId w zs" by (simp add: w_def a)
  have "zip_inv ze requestId w zs' \<and> zs_buffer zs' = []"
    using f inv flush_inv [OF inv] by (auto simp: zip_final_def split: if_splits)
  with z show "chunks_ok ze requestId saved" "zr_chunkCount z = length saved" "concat (map ch_fileData saved) = w"
    "zr_totalSize z = length w" "zr_combinedChecksum z = ze_sha ze w" by (auto simp: zip_inv_def)
qed

section \<open>From the job to the download\<close>

lemma find_chunk:
  assumes "chunks_ok ze requestId cs" "i < length cs" "\<forall>c \<in> set old. ch_exportRequestId c \<noteq> requestId"
  shows "find_one (\<lambda>c. ch_exportRequestId c = requestId \<and> ch_chunkIndex c = int i) (old @ cs) = Some (cs ! i)"
proof (rule find_one_unique)
  have ok: "chunk_ok ze requestId j (cs ! j)" if "j < length cs" for j
    using assms(1) that by (simp add: chunks_ok_def list_all2_conv_all_nth)
  show "cs ! i \<in> set (old @ cs)" using assms(2) by simp
  show "ch_exportRequestId (cs ! i) = requestId \<and> ch_chunkIndex (cs ! i) = int i" using ok [OF assms(2)] by (simp add: chunk_ok_def)
  fix x assume x: "x \<in> set (old @ cs)" "ch_exportRequestId x = requestId \<and> ch_chunkIndex x = int i"
  with assms(3) have "x \<in> set cs" by auto
  then obtain j where "j < length cs" "x = cs ! j" by (auto simp: in_set_conv_nth)
  with ok [of j] x(2) show "x = cs ! i" by (simp add: chunk_ok_def)
qed

text \<open>A job that succeeds, mail or no mail.\<close>

lemma process_ready:
  assumes "compileUserData env userId now db = Inr d"
    "generateChunkedZip ze requestId (archive_files env d) = (Inr z, saved)" "\<And>a. mailer a = None"
  shows "xs_chunks (fst (process env ze mailer userId requestId now db users st)) = xs_chunks st @ saved"
    and "xs_requests (fst (process env ze mailer userId requestId now db users st)) = update_where (\<lambda>r. xr_id r = requestId)
          (\<lambda>r. r\<lparr>xr_status := XReady, xr_processingAt := Some now, xr_isChunked := True, xr_chunkCount := zr_chunkCount z,
                 xr_totalSize := nat_str (zr_totalSize z), xr_combinedChecksum := Some (zr_combinedChecksum z), xr_completedAt := Some now\<rparr>)
          (xs_requests st)"
proof -
  let ?st1 = "markExportProcessing requestId now st"
  let ?st2 = "set_request requestId (\<lambda>r. r\<lparr>xr_completedAt := Some now\<rparr>) (set_request requestId
      (\<lambda>r. r\<lparr>xr_status := XReady, xr_isChunked := True, xr_chunkCount := zr_chunkCount z,
             xr_totalSize := nat_str (zr_totalSize z), xr_combinedChecksum := Some (zr_combinedChecksum z)\<rparr>)
      (?st1\<lparr>xs_chunks := xs_chunks ?st1 @ saved\<rparr>))"
  have "fst (process env ze mailer userId requestId now db users st) = ?st2"
    unfolding process_def Let_def assms(1,2) sum.case prod.case by (simp add: assms(3) split: option.split)
  then show "xs_chunks (fst (process env ze mailer userId requestId now db users st)) = xs_chunks st @ saved"
    and "xs_requests (fst (process env ze mailer userId requestId now db users st)) = update_where (\<lambda>r. xr_id r = requestId)
          (\<lambda>r. r\<lparr>xr_status := XReady, xr_processingAt := Some now, xr_isChunked := True, xr_chunkCount := zr_chunkCount z,
                 xr_totalSize := nat_str (zr_totalSize z), xr_combinedChecksum := Some (zr_combinedChecksum z), xr_completedAt := Some now\<rparr>)
          (xs_requests st)"
    by (simp_all add: markExportProcessing_def update_where_def o_def)
qed

lemma part_link_serves:
  assumes "owned_request i u st = Some r" "isFileAvailable cfg later r" "later \<le> now + export_ttl cfg" "0 \<le> now + export_ttl cfg"
    "u \<noteq> []" "\<And>k t. xc_hmac cfg k t \<noteq> []"
    "find_one (\<lambda>c. ch_exportRequestId c = i \<and> ch_chunkIndex c = int n) (xs_chunks st) = Some c"
  shows "fst (download cfg (signed_link cfg i u (Some (int n)) [] now) later st) = Inr (Chunk c)"
proof -
  let ?l = "signed_link cfg i u (Some (int n)) [] now"
  have l: "ln_requestId ?l = i" "ln_userId ?l = Some u" "ln_chunk ?l = Some (int_str (int n))"
    by (simp_all add: signed_link_def Let_def)
  have "check_link cfg ?l later st = (None, st)"
    using assms(3-6) by (simp add: check_link_def signed_link_def Let_def parseInt_int_str nan_text_def data_to_sign_def)
  moreover have "serve_chunk cfg ?l later st = Inr (Chunk c)"
    using assms(1,2,7) by (simp add: serve_chunk_def getExportChunk_def l parseInt_int_str)
  ultimately show ?thesis by (simp add: download_def l)
qed

text \<open>C38: what an account downloads is its archive.  After a job that succeeded, the links of the
  parts, \<open>0\<close> up to the number of parts, each yield their part while the file is kept; the parts put
  together are the archive of the redacted data, as long as the row says and with the checksum it
  names, and each part carries its own size and checksum.\<close>

theorem export_end_to_end:
  assumes "compileUserData env userId now db = Inr d"
    "generateChunkedZip ze (xr_id r) (archive_files env d) = (Inr z, saved)" "\<And>a. mailer a = None"
    "distinct (map xr_id (xs_requests st))" "r \<in> set (xs_requests st)" "xr_userId r = userId" "userId \<noteq> []"
    "list_all (\<lambda>c. ch_exportRequestId c \<noteq> xr_id r) (xs_chunks st)" "\<And>k t. xc_hmac cfg k t \<noteq> []"
    "0 \<le> linked + export_ttl cfg" "xr_createdAt r \<le> linked" "later \<le> xr_createdAt r + export_ttl cfg"
  shows "let st' = fst (process env ze mailer userId (xr_id r) now db users st);
             part = (\<lambda>i. fst (download cfg (signed_link cfg (xr_id r) userId (Some (int i)) [] linked) later st'));
             archive = concat (fst (ze_archive ze (archive_files env d)))
         in \<exists>x. owned_request (xr_id r) userId st' = Some x \<and> isFileAvailable cfg later x \<and>
              map part [0..<xr_chunkCount x] = map (\<lambda>c. Inr (Chunk c)) saved \<and> concat (map ch_fileData saved) = archive \<and>
              xr_totalSize x = nat_str (length archive) \<and> xr_combinedChecksum x = Some (ze_sha ze archive) \<and>
              list_all (\<lambda>c. ch_chunkSize c = length (ch_fileData c) \<and> ch_checksum c = ze_sha ze (ch_fileData c)) saved"
proof -
  let ?st' = "fst (process env ze mailer userId (xr_id r) now db users st)"
  let ?x = "r\<lparr>xr_status := XReady, xr_processingAt := Some now, xr_isChunked := True, xr_chunkCount := zr_chunkCount z,
     xr_totalSize := nat_str (zr_totalSize z), xr_combinedChecksum := Some (zr_combinedChecksum z), xr_completedAt := Some now\<rparr>"
  note zip = generateChunkedZip_ok [OF assms(2)]
  note rows = process_ready [of env userId now db d ze "xr_id r" z saved mailer users st, OF assms(1,2,3)]
  have "distinct (map xr_id (xs_requests ?st'))" using assms(4) unfolding rows(2) by (simp add: map_update_where)
  moreover have "?x \<in> set (xs_requests ?st')"
    using update_where_memI [OF assms(5), of "\<lambda>x. xr_id x = xr_id r"] unfolding rows(2) by auto
  ultimately have own: "owned_request (xr_id r) userId ?st' = Some ?x"
    using owned_request_mem [of ?st' ?x] assms(6) by simp
  have count: "xr_chunkCount ?x = length saved" by (simp add: zip(2))
  have avail: "isFileAvailable cfg later ?x" using assms(12) by (simp add: isFileAvailable_def getExpiryTimestamp_def)
  have "fst (download cfg (signed_link cfg (xr_id r) userId (Some (int i)) [] linked) later ?st') = Inr (Chunk (saved ! i))"
    if "i < length saved" for i
  proof (rule part_link_serves [OF own avail])
    show "find_one (\<lambda>c. ch_exportRequestId c = xr_id r \<and> ch_chunkIndex c = int i) (xs_chunks ?st') = Some (saved ! i)"
      using find_chunk [OF zip(1) that, of "xs_chunks st"] assms(8) rows(1) by (simp add: list_all_iff)
  qed (use assms in auto)
  then have "map (\<lambda>i. fst (download cfg (signed_link cfg (xr_id r) userId (Some (int i)) [] linked) later ?st')) [0..<length saved] =
      map (\<lambda>i. Inr (Chunk (saved ! i))) [0..<length saved]" by (intro map_cong) simp_all
  also have "\<dots> = map (\<lambda>c. Inr (Chunk c)) (map ((!) saved) [0..<length saved])" by simp
  finally have parts: "map (\<lambda>i. fst (download cfg (signed_link cfg (xr_id r) userId (Some (int i)) [] linked) later ?st')) [0..<xr_chunkCount ?x] =
      map (\<lambda>c. Inr (Chunk c)) saved" unfolding count map_nth .
  have "list_all (\<lambda>c. ch_chunkSize c = length (ch_fileData c) \<and> ch_checksum c = ze_sha ze (ch_fileData c)) saved"
    using zip(1) by (auto simp: chunks_ok_def chunk_ok_def list_all2_conv_all_nth list_all_length)
  with own avail parts zip show ?thesis unfolding Let_def by (intro exI [of _ ?x]) simp
qed

text \<open>A mail that fails turns a finished export into a failed one.\<close>

lemma updated_row:
  assumes "x \<in> set (update_where (\<lambda>r. xr_id r = i) f t)" "xr_id x = i"
  obtains r where "r \<in> set t" "xr_id r = i" "x = f r"
  using assms(1) by (rule in_update_whereE) (use assms(2) that in blast)+

lemma markExportFailed_row:
  assumes "x \<in> set (xs_requests (markExportFailed i m now st))" "xr_id x = i"
  obtains y where "y \<in> set (xs_requests st)" "xr_id y = i" "xr_status x = XFailed" "xr_completedAt x = xr_completedAt y"
proof -
  from assms(1) [unfolded markExportFailed_def Let_def set_request_requests] assms(2)
  obtain y where y: "y \<in> set (xs_requests st)" "xr_id y = i" and x: "x = y\<lparr>xr_status := XFailed, xr_failedAt := Some now,
      xr_retryCount := nullish (map_option xr_retryCount (find_one (\<lambda>r. xr_id r = i) (xs_requests st))) 0 + 1, xr_lastFailureReason := Some m\<rparr>"
    by (rule updated_row)
  show thesis by (rule that [OF y]) (simp_all add: x)
qed

lemma completed_row:
  assumes "y \<in> set (xs_requests (set_request i (\<lambda>r. r\<lparr>xr_completedAt := Some now\<rparr>) st))" "xr_id y = i"
  shows "xr_completedAt y \<noteq> None"
proof -
  from assms(1) [unfolded set_request_requests] assms(2) obtain r where "y = r\<lparr>xr_completedAt := Some now\<rparr>"
    by (rule updated_row)
  then show ?thesis by simp
qed

lemma failed_mail_fails_export:
  assumes "compileUserData env userId now db = Inr d"
    "generateChunkedZip ze requestId (archive_files env d) = (Inr z, saved)"
    "find_one (\<lambda>u. Some (mu_id u) = parseInt userId) users = Some u" "mu_emailEncrypted u = Some a" "a \<noteq> []" "mailer a = Some m"
    "x \<in> set (xs_requests (fst (process env ze mailer userId requestId now db users st)))" "xr_id x = requestId"
  shows "xr_status x = XFailed \<and> xr_completedAt x \<noteq> None"
proof -
  let ?st1 = "markExportProcessing requestId now st"
  let ?st2 = "set_request requestId
      (\<lambda>r. r\<lparr>xr_status := XReady, xr_isChunked := True, xr_chunkCount := zr_chunkCount z,
             xr_totalSize := nat_str (zr_totalSize z), xr_combinedChecksum := Some (zr_combinedChecksum z)\<rparr>)
      (?st1\<lparr>xs_chunks := xs_chunks ?st1 @ saved\<rparr>)"
  let ?st3 = "set_request requestId (\<lambda>r. r\<lparr>xr_completedAt := Some now\<rparr>) ?st2"
  have "fst (process env ze mailer userId requestId now db users st) = markExportFailed requestId m now ?st3"
    unfolding process_def Let_def assms(1,2) sum.case prod.case by (simp add: assms(3-6))
  with assms(7) have "x \<in> set (xs_requests (markExportFailed requestId m now ?st3))" by simp
  then show ?thesis
    by (rule markExportFailed_row [OF _ assms(8)]) (use completed_row in \<open>metis (no_types)\<close>)
qed

text \<open>The mail goes to the encrypted address, as it is stored.\<close>

lemma mail_to_ciphertext:
  assumes "(a, name) \<in> set (snd (process env ze mailer userId requestId now db users st))"
  shows "\<exists>u \<in> set users. mu_emailEncrypted u = Some a"
  using assms
  by (auto simp: process_def Let_def truthy_iff split: sum.splits prod.splits option.splits if_splits dest!: find_one_SomeD intro!: bexI)

section \<open>An example\<close>

definition demo_zip :: zip_env where
  "demo_zip = \<lparr>ze_sha = (\<lambda>s. s), ze_limit = 2, ze_archive = (\<lambda>_. ([''ab'', ''c''], None)), ze_stored = (\<lambda>_. True)\<rparr>"

definition demo_parts :: "export_chunk list" where
  "demo_parts = [\<lparr>ch_exportRequestId = ''e1'', ch_chunkIndex = 0, ch_fileData = ''ab'', ch_chunkSize = 2, ch_checksum = ''ab''\<rparr>,
                 \<lparr>ch_exportRequestId = ''e1'', ch_chunkIndex = 1, ch_fileData = ''c'', ch_chunkSize = 1, ch_checksum = ''c''\<rparr>]"

lemma demo_zipped:
  "generateChunkedZip demo_zip ''e1'' files = (Inr \<lparr>zr_chunkCount = 2, zr_totalSize = 3, zr_combinedChecksum = ''abc''\<rparr>, demo_parts)"
  by (simp add: generateChunkedZip_def demo_zip_def zip_write_def zip_buffer_def zip_start_def zip_final_def flush_chunk_def saveChunk_def demo_parts_def)

theorem export_end_to_end_witness:
  "let st' = fst (process demo_env demo_zip (\<lambda>_. None) ''7'' ''e1'' 3 demo_db [] demo_exports)
   in \<exists>x. owned_request ''e1'' ''7'' st' = Some x \<and>
        map (\<lambda>i. fst (download demo_cfg (signed_link demo_cfg ''e1'' ''7'' (Some (int i)) [] 5) 9 st')) [0..<xr_chunkCount x] =
          map (\<lambda>c. Inr (Chunk c)) demo_parts \<and> xr_combinedChecksum x = Some ''abc''"
proof -
  obtain d where d: "compileUserData demo_env ''7'' 3 demo_db = Inr d" using demo_compiled by blast
  have row: "xr_id demo_row = ''e1''" "xr_userId demo_row = ''7''" "xr_createdAt demo_row = 0" "xs_chunks demo_exports = []"
    by (simp_all add: demo_row_def new_request_def demo_exports_def)
  have ttl: "export_ttl demo_cfg = DAY_MS" by (simp add: export_ttl_def demo_cfg_def)
  have archive: "concat (fst (ze_archive demo_zip (archive_files demo_env d))) = ''abc''" "ze_sha demo_zip ''abc'' = ''abc''"
    by (simp_all add: demo_zip_def)
  show ?thesis
    using export_end_to_end [OF d, of demo_zip demo_row _ demo_parts "\<lambda>_. None" demo_exports demo_cfg 5 9 "[]", unfolded row, OF demo_zipped]
      demo_facts(1,2,5)
    unfolding Let_def archive by (auto simp: ttl DAY_MS_def)
qed

end
