(* ===== verification/Spec2Isabelle.thy ===== *)
theory Spec2Isabelle
  imports Feature_Flags Idempotency Tip_Lifecycle Reactions Drafts Access Rate_Limit Messages Comments Confession_Anchor Confession_Feed Admin_Query Export_Processor
begin

text \<open>
  The xConfess backend (\<^verbatim>\<open>src/xconfess-backend/src\<close>): a verification development.

  \<^bold>\<open>The program.\<close>  xConfess is a NestJS service over PostgreSQL (TypeORM) and Redis.  Visitors post
  anonymous confessions, react to them, report them and tip their authors on the Stellar network;
  signed-in users keep drafts and schedule them, write to authors and export their data; moderators and
  administrators decide on reports, with an audit log of what they did.  What makes these parts
  hard is the same everywhere: several requests and background jobs work on one table, each reads
  first and writes later, and the only arbiters between them are unique indexes, guarded updates and
  locks.  The development models the services that carry this logic and shows what survives every
  interleaving, every failure in the middle and every retry.

  \<^bold>\<open>How code becomes theory.\<close>  A table is the list of its rows, a row a record with the columns of
  its entity, an enum a datatype.  An operation takes the state and returns the result and the new
  state; a \<^verbatim>\<open>throw\<close> is \<open>Inl\<close> of an exception of the source, so every early return and catch block is a
  branch.  Effects that leave the system (audit entries, e-mail, websocket broadcasts, analytics,
  cache invalidation) are lists of values.  The clock and fresh ids are arguments.  A unique index is
  an insert that returns \<open>None\<close> on a clash; \<^verbatim>\<open>UPDATE ... WHERE\<close> is \<open>update_where\<close> with its affected
  count; a transaction that throws leaves the tables as they were.  An operation that reads and writes
  at different times is split at its \<^verbatim>\<open>await\<close> where other writers may come between, and the step
  relations let them.

  \<^bold>\<open>Theories.\<close>

  \<^item> \<^verbatim>\<open>XC_Prelude\<close>: exceptions, truthiness and string operations of JavaScript, tables, ordered and
    paged queries, and the interfaces \<open>unique_index\<close>, \<open>sole_unique_index\<close> and \<open>versioned_rows\<close>: an
    insert that refuses clashes keeps the index and lets one of many racing writers through; an update
    guarded by a version refuses every writer with an outdated copy.  Each component interprets them
    on its own inserts and updates.
  \<^item> \<^verbatim>\<open>Feature_Flags\<close> (\<^verbatim>\<open>feature-flags/\<close>): validation, create, update, rollback, delete, evaluation.
    The names stay unique and valid, percentages in range; a rollback undoes an update; raising a
    percentage never switches a user off; the hash equals the 32-bit word hash.
  \<^item> \<^verbatim>\<open>Outbox\<close> (\<^verbatim>\<open>notifications/services/outbox-dispatcher.service.ts\<close>): claiming, dispatching and
    settling events.  Ticks of several dispatchers claim disjoint batches, a claimed batch is settled,
    retries are bounded.
  \<^item> \<^verbatim>\<open>Idempotency\<close> (\<^verbatim>\<open>confession/confession-idempotency.service.ts\<close>, \<^verbatim>\<open>idempotency-scope.ts\<close>, and the
    guard in \<^verbatim>\<open>ConfessionService.create\<close>): scoped keys, payload hashes, the record table, waiting and
    claiming.  However requests interleave, fail, crash and retry, one at a time may create, a
    completed record is final, and the answer of a key never crosses payloads, sessions or operations.
  \<^item> \<^verbatim>\<open>Tip_Model\<close>, \<^verbatim>\<open>Stellar_Client\<close>, \<^verbatim>\<open>Tipping\<close>, \<^verbatim>\<open>Tip_Reconciliation\<close>, \<^verbatim>\<open>Tip_Lifecycle\<close>
    (\<^verbatim>\<open>tipping/\<close>, \<^verbatim>\<open>stellar/stellar.service.ts\<close>): the rows and amounts, the retrying client, the verify
    request with its sentinel row and locks, the reconciliation job with backoff and dead letters, the
    SLA job and the Soroban timeline.  The first writer of a transaction is unique, successes are
    settled rows, failures credit nothing, replays change nothing, and over all interleavings of all
    writers a transaction is credited at most once.
  \<^item> \<^verbatim>\<open>Reports\<close> (\<^verbatim>\<open>report/reports.service.ts\<close>, \<^verbatim>\<open>admin/services/report-priority.service.ts\<close>): creation
    with replay and window check, the decisions under optimistic versions, the filtered list and
    priorities.  Creation is all or nothing, decisions are final and made once, pages cover the list.
  \<^item> \<^verbatim>\<open>Reactions\<close> (\<^verbatim>\<open>reaction/\<close>, \<^verbatim>\<open>bookmark/\<close>): racing reactions settle on one row, counters count,
    bookmarks toggle.
  \<^item> \<^verbatim>\<open>Drafts\<close> (\<^verbatim>\<open>confession-draft/\<close>, \<^verbatim>\<open>confession/confession-scheduler.service.ts\<close>): drafts with
    revisions and versions, their scheduled publication and the scheduler of stored confessions.
    Users are isolated, limits hold, a scheduled draft is published once by the worker, stale edits
    are refused, and a scheduler run is all or nothing.
  \<^item> \<^verbatim>\<open>Password_Reset\<close> (\<^verbatim>\<open>auth/password-reset.service.ts\<close> and two requests of \<^verbatim>\<open>auth/auth.service.ts\<close>):
    reset tokens and the changes of passwords they allow.  A token is granted once over all
    interleavings, only the newest one of a user works and only for fifteen minutes, and passwords
    change through a usable token of their account only.
  \<^item> \<^verbatim>\<open>Access\<close> (\<^verbatim>\<open>auth/lockout.service.ts\<close>, \<^verbatim>\<open>login\<close>, \<^verbatim>\<open>session-revocation.service.ts\<close>,
    \<^verbatim>\<open>step-up.service.ts\<close>, \<^verbatim>\<open>jwt.strategy.ts\<close>, \<^verbatim>\<open>cache/redis-cache.store.ts\<close>): guessing a password is
    bounded, revocations hold for a day, and step-up proofs and sessions are kept apart.  The locales
    \<open>redis_server\<close>, \<open>reliable_redis\<close> and \<open>jwt_service\<close> state what Redis and the JWT library promise.
  \<^item> \<^verbatim>\<open>Rate_Limit\<close> (\<^verbatim>\<open>auth/guard/rate-limit.guard.ts\<close>): the HTTP rate limiter keeps its limit per window.

  \<^item> \<^verbatim>\<open>Codec\<close>, \<^verbatim>\<open>Pagination\<close> (\<^verbatim>\<open>common/pagination/\<close>): JSON, base64 and opaque cursors with their round
    trips; the interface \<open>keyset_feed\<close>, by which following cursors yields the slices of one ordered list,
    is interpreted by the message threads, the feeds and the lists of administrators.
  \<^item> \<^verbatim>\<open>Anonymous_Users\<close> (\<^verbatim>\<open>user/anonymous-user.service.ts\<close>, \<^verbatim>\<open>messages/message-keys.service.ts\<close>): identities
    per session and wallet never join two accounts.
  \<^item> \<^verbatim>\<open>Messages\<close> (\<^verbatim>\<open>messages/\<close>): end-to-end envelopes, threads, replies, read marks and throttling.  Only
    participants learn of a thread, contents are ciphertext, what one end encrypts the other decrypts.
  \<^item> \<^verbatim>\<open>Comments\<close> (\<^verbatim>\<open>comment/\<close>): creation with events, edits within the window, deletion, moderation and the
    templates of moderation notes.
  \<^item> \<^verbatim>\<open>Confession_Model\<close>, \<^verbatim>\<open>Confessions\<close>, \<^verbatim>\<open>Confession_Feed\<close>, \<^verbatim>\<open>Confession_Cache\<close>, \<^verbatim>\<open>Confession_Anchor\<close>
    (\<^verbatim>\<open>confession/confession.service.ts\<close>, its repository and mapper, \<^verbatim>\<open>utils/confession-encryption.ts\<close>,
    \<^verbatim>\<open>cache/cache.service.ts\<close>): rows are encrypted and open with their key, the cache answers what the
    table would, the feed pages are slices of one list, and only the chain anchors after creation.
  \<^item> \<^verbatim>\<open>Moderation\<close> (\<^verbatim>\<open>moderation/\<close>): classification, the state machine, the log and the signed webhook,
    which applies genuine, fresh deliveries once.
  \<^item> \<^verbatim>\<open>Audit_Redaction\<close>, \<^verbatim>\<open>Audit_Log\<close>, \<^verbatim>\<open>Audit_Query\<close> (\<^verbatim>\<open>audit-log/\<close>): what is redacted, one operation per
    method that logs, the filters and pages.  The table only grows and holds redacted metadata only.
  \<^item> \<^verbatim>\<open>Admin\<close>, \<^verbatim>\<open>Admin_Query\<close> (\<^verbatim>\<open>admin/services/admin.service.ts\<close>): every change of an administrator is
    recorded in the same transaction (interface \<open>entity_table\<close>); lists, histories and statistics.
  \<^item> \<^verbatim>\<open>Output_Escape\<close> (\<^verbatim>\<open>utils/output-escape.ts\<close>): HTML and CSV that readers undo.
  \<^item> \<^verbatim>\<open>Export_Redaction\<close>, \<^verbatim>\<open>Data_Export\<close>, \<^verbatim>\<open>Export_Processor\<close> (\<^verbatim>\<open>data-export/\<close>): what an export holds, the
    life of a request with its links, downloads and sweeps, and the worker.  Nothing private influences
    an export, a link is honoured once and only with signature, owner and kept file, and the parts
    downloaded are the archive.  \<^verbatim>\<open>One_Shot\<close> states the contract of one-time tokens; password resets
    and download links are its two interpretations.

  Some statements show behaviour that the code's comments or purpose exclude: a reaction cannot
  return to an earlier emoji (\<open>reaction_cannot_return\<close>), a failed publication is forgotten
  (\<open>failed_publish_forgets\<close>), two ways of publishing duplicate a confession
  (\<open>publish_race_duplicates\<close>), one failing statement undoes a scheduler run
  (\<open>scheduler_all_or_nothing\<close>), two creations at once leave two usable reset tokens
  (\<open>create_race_two_usable\<close>), creation trusts the client about the chain (\<open>create_trusts_client\<close>), a
  nested secret is logged (\<open>nested_secret_kept\<close>), hiding leaves the cached copy (\<open>hide_leaves_cache\<close>),
  the newest link of the export history is dead (\<open>history_latest_link_dead\<close>), and a failed mail fails a
  finished export (\<open>failed_mail_fails_export\<close>).

  \<^bold>\<open>Loops.\<close>  The retry loops of the Stellar client recurse on the remaining attempts, the waiting loop
  of the idempotency service on the list of its polls, all other loops on lists of rows or characters;
  every definition is total.  The reader of JSON alone has fuel, \<open>2 * length s + 2\<close>, and
  \<open>json_fuel_enough\<close> shows that no input exhausts it.

  \<^bold>\<open>Parameters and assumptions.\<close>  Answers of the Horizon server and of the classifier, SHA-256, HMAC,
  AES-CBC and AES-GCM, X25519, bcrypt and TOTP, Redis, JSON web tokens, the printing and parsing of
  dates, the rounding of decimal strings to doubles, the database's printing of \<open>jsonb\<close> and decimals and
  its collation, HTML sanitising, the ZIP archiver, and the creation of a confession inside the draft
  service are arguments of the definitions.  Where a property needs something of them (no collision
  between two hashes, decryption undoes encryption, the laws of Redis or of the token library) it is a
  hypothesis with a witness.  One pass of the reconciliation job and one request of the draft service
  are single steps of their relations: a tip verified between the job's read and its write, and two
  creations that both pass the count of drafts before either inserts, are outside the model.  Ids are
  fresh when they are generated.  Days are 24 hours, as on a server in UTC.

  \<^bold>\<open>Not modelled.\<close>  Full-text search and trending (SQL scoring in the database), encryption rotation,
  user and wallet management, the delivery of notifications (Bull queues, mail templates, SMTP,
  websockets), attachments (object storage), analytics queries, most controllers (routing, guards and
  validation pipes) and the infrastructure modules of the backend (health, metrics, logging, migrations);
  the React frontend and the Rust contracts of the repository.
\<close>

end
